(* ===== verification/Prelude.thy ===== *)
theory Prelude
  imports Main "HOL-Library.Word" "HOL-Library.Code_Target_Nat"
begin

unbundle bit_operations_syntax

section \<open>Prelude: machine types, results, bytes and UTF-8\<close>

text \<open>
  What every component shares: the machine integers of the code at their widths, byte
  vectors, Rust's \<open>Result\<close> as a sum (\<open>Inl\<close> the error), \<open>String\<close> as its UTF-8 bytes
  (a HOL \<open>string\<close>, one \<open>char\<close> per byte), big-endian integer conversion and the UTF-8
  validity check of the standard library's \<open>String::from_utf8\<close>. \<open>usize\<close> is 64 bits
  wide; a position or a length is a \<open>nat\<close>, with the overflow checks the code makes
  written out.
\<close>

type_synonym u8 = "8 word"
type_synonym u16 = "16 word"
type_synonym u32 = "32 word"
type_synonym u64 = "64 word"
type_synonym bytes = "u8 list"
type_synonym ('a, 'e) result = "'e + 'a"

named_theorems result_simps \<open>evaluation of result combinators\<close>
named_theorems wf_intros \<open>well-formedness of constructed values\<close>
named_theorems eval_simps \<open>definitions unfolded to evaluate the model on concrete input\<close>

subsection \<open>Results\<close>

definition bindR :: "('a, 'e) result \<Rightarrow> ('a \<Rightarrow> ('b, 'e) result) \<Rightarrow> ('b, 'e) result" where
  "bindR r f = (case r of Inl e \<Rightarrow> Inl e | Inr x \<Rightarrow> f x)"

definition map_err :: "('e \<Rightarrow> 'f) \<Rightarrow> ('a, 'e) result \<Rightarrow> ('a, 'f) result" where
  "map_err g r = (case r of Inl e \<Rightarrow> Inl (g e) | Inr x \<Rightarrow> Inr x)"

definition ok_or :: "'e \<Rightarrow> 'a option \<Rightarrow> ('a, 'e) result" where
  "ok_or e x = (case x of None \<Rightarrow> Inl e | Some v \<Rightarrow> Inr v)"

definition okR :: "('a, 'e) result \<Rightarrow> 'a option" where
  "okR r = (case r of Inl _ \<Rightarrow> None | Inr x \<Rightarrow> Some x)"

fun mapR :: "('a \<Rightarrow> ('b, 'e) result) \<Rightarrow> 'a list \<Rightarrow> ('b list, 'e) result" where
  "mapR f [] = Inr []"
| "mapR f (x # xs) = bindR (f x) (\<lambda>y. bindR (mapR f xs) (\<lambda>ys. Inr (y # ys)))"

lemma bindR_simps [simp, result_simps]:
  "bindR (Inl e) f = Inl e"
  "bindR (Inr x) f = f x"
  by (simp_all add: bindR_def)

lemma bindR_cong [fundef_cong]:
  "r = r' \<Longrightarrow> (\<And>x. r' = Inr x \<Longrightarrow> f x = f' x) \<Longrightarrow> bindR r f = bindR r' f'"
  by (simp add: bindR_def split: sum.split)

lemma bindR_eq_Inr: "bindR r f = Inr y \<longleftrightarrow> (\<exists>x. r = Inr x \<and> f x = Inr y)"
  by (simp add: bindR_def split: sum.split)

lemma bindR_eq_Inl: "bindR r f = Inl e \<longleftrightarrow> r = Inl e \<or> (\<exists>x. r = Inr x \<and> f x = Inl e)"
  by (auto simp: bindR_def split: sum.split)

lemma bindR_assoc: "bindR (bindR r f) g = bindR r (\<lambda>x. bindR (f x) g)"
  by (simp add: bindR_def split: sum.split)

lemma map_err_simps [simp, result_simps]:
  "map_err g (Inl e) = Inl (g e)"
  "map_err g (Inr x) = Inr x"
  by (simp_all add: map_err_def)

lemma map_err_eq_Inr [simp]: "map_err g r = Inr x \<longleftrightarrow> r = Inr x"
  by (simp add: map_err_def split: sum.split)

lemma ok_or_simps [simp, result_simps]:
  "ok_or e None = Inl e"
  "ok_or e (Some v) = Inr v"
  by (simp_all add: ok_or_def)

lemma ok_or_eq_Inr [simp]: "ok_or e x = Inr v \<longleftrightarrow> x = Some v"
  by (simp add: ok_or_def split: option.split)

lemma okR_simps [simp, result_simps]:
  "okR (Inl e) = None"
  "okR (Inr x) = Some x"
  by (simp_all add: okR_def)

lemma okR_eq_Some [simp]: "okR r = Some x \<longleftrightarrow> r = Inr x"
  by (simp add: okR_def split: sum.split)

lemma okR_eq_None [simp]: "okR r = None \<longleftrightarrow> (\<exists>e. r = Inl e)"
  by (simp add: okR_def split: sum.split)

lemma mapR_cong [fundef_cong]:
  "xs = ys \<Longrightarrow> (\<And>x. x \<in> set ys \<Longrightarrow> f x = g x) \<Longrightarrow> mapR f xs = mapR g ys"
  by (induction xs arbitrary: ys) auto

lemma mapR_eq_Inr: "mapR f xs = Inr ys \<longleftrightarrow> list_all2 (\<lambda>x y. f x = Inr y) xs ys"
proof (induction xs arbitrary: ys)
  case Nil
  then show ?case by auto
next
  case (Cons x xs)
  then show ?case by (cases ys) (auto simp: bindR_eq_Inr)
qed

lemma mapR_length: "mapR f xs = Inr ys \<Longrightarrow> length ys = length xs"
  by (simp add: mapR_eq_Inr list_all2_lengthD)

lemma mapR_map_Inr: "(\<And>x. x \<in> set xs \<Longrightarrow> f (g x) = Inr (h x)) \<Longrightarrow> mapR f (map g xs) = Inr (map h xs)"
  by (induction xs) simp_all

text \<open>
  A call that can panic returns \<open>Inl Panic\<close> beside its own errors \<open>Inl (Err e)\<close>: an index or
  slice out of range, an \<open>expect\<close> on an error.
\<close>

datatype 'e fail = Err 'e | Panic

definition index_at :: "'a list \<Rightarrow> nat \<Rightarrow> ('a, 'e fail) result" where
  "index_at xs i = (if i < length xs then Inr (xs ! i) else Inl Panic)"

lemma index_at_eq [simp]: "i < length xs \<Longrightarrow> index_at xs i = Inr (xs ! i)"
  by (simp add: index_at_def)

lemma index_at_eq_Inr: "index_at xs i = Inr x \<longleftrightarrow> i < length xs \<and> x = xs ! i"
  by (auto simp: index_at_def)

subsection \<open>Big-endian integers\<close>

definition to_be_bytes :: "nat \<Rightarrow> 'a::len word \<Rightarrow> bytes" where
  "to_be_bytes k w = map (\<lambda>i. ucast (drop_bit (8 * i) w)) (rev [0..<k])"

definition be_nat :: "bytes \<Rightarrow> nat" where
  "be_nat bs = foldl (\<lambda>acc b. acc * 256 + unat b) 0 bs"

definition from_be_bytes :: "bytes \<Rightarrow> 'a::len word" where
  "from_be_bytes bs = word_of_nat (be_nat bs)"

lemma length_to_be_bytes [simp]: "length (to_be_bytes k w) = k"
  by (simp add: to_be_bytes_def)

lemma to_be_bytes_0 [simp]: "to_be_bytes 0 w = []"
  by (simp add: to_be_bytes_def)

lemma to_be_bytes_Suc: "to_be_bytes (Suc k) w = ucast (drop_bit (8 * k) w) # to_be_bytes k w"
  by (simp add: to_be_bytes_def)

lemma be_nat_foldl: "foldl (\<lambda>acc b. acc * 256 + unat b) a bs = a * 256 ^ length bs + be_nat bs"
proof (induction bs arbitrary: a)
  case Nil
  then show ?case by (simp add: be_nat_def)
next
  case (Cons b bs)
  have "be_nat (b # bs) = unat b * 256 ^ length bs + be_nat bs"
    using Cons.IH [of "unat b"] by (simp add: be_nat_def)
  then show ?case using Cons.IH [of "a * 256 + unat b"] by (simp add: algebra_simps)
qed

lemma be_nat_Nil [simp]: "be_nat [] = 0"
  by (simp add: be_nat_def)

lemma be_nat_Cons: "be_nat (b # bs) = unat b * 256 ^ length bs + be_nat bs"
  using be_nat_foldl [of "unat b" bs] by (simp add: be_nat_def)

lemma unat_u8_less: "unat (b :: u8) < 256"
  using unsigned_less [of b] by simp

lemma be_nat_bound: "be_nat bs < 256 ^ length bs"
proof (induction bs)
  case Nil
  then show ?case by simp
next
  case (Cons b bs)
  have "unat b * 256 ^ length bs + be_nat bs < (unat b + 1) * 256 ^ length bs"
    using Cons.IH by simp
  also have "\<dots> \<le> 256 * 256 ^ length bs"
    using unat_u8_less [of b] by (intro mult_right_mono) auto
  finally show ?case by (simp add: be_nat_Cons)
qed

lemma unat_ucast_drop_bit_u8:
  fixes w :: "'a::len word"
  shows "unat (ucast (drop_bit (8 * k) w) :: u8) = unat w div 256 ^ k mod 256"
  proof -
  have "unat (ucast (drop_bit (8 * k) w) :: u8) = take_bit 8 (unat (drop_bit (8 * k) w))"
    by (simp add: unsigned_ucast_eq)
  also have "unat (drop_bit (8 * k) w) = drop_bit (8 * k) (unat w)"
    by (simp add: unsigned_drop_bit_eq take_bit_nat_eq_self)
  finally show ?thesis by (simp add: take_bit_eq_mod drop_bit_eq_div power_mult)
qed

lemma be_nat_to_be_bytes: "be_nat (to_be_bytes k w) = unat w mod 256 ^ k"
proof (induction k)
  case 0
  then show ?case by simp
next
  case (Suc k)
  have "unat w mod 256 ^ Suc k = 256 ^ k * (unat w div 256 ^ k mod 256) + unat w mod 256 ^ k"
    using mod_mult2_eq [of "unat w" "256 ^ k" 256] by (simp add: mult.commute)
  then show ?case
    by (simp only: to_be_bytes_Suc be_nat_Cons length_to_be_bytes unat_ucast_drop_bit_u8 Suc.IH)
       (simp add: mult.commute)
qed

lemma from_to_be_bytes:
  fixes w :: "'a::len word"
  assumes "LENGTH('a) \<le> 8 * k"
  shows "from_be_bytes (to_be_bytes k w) = w"
proof -
  have "unat w < 2 ^ LENGTH('a)" by (rule unsigned_less)
  also have "\<dots> \<le> 2 ^ (8 * k)" using assms by (intro power_increasing) auto
  finally have "unat w mod 256 ^ k = unat w" by (simp add: power_mult)
  then show ?thesis by (simp add: from_be_bytes_def be_nat_to_be_bytes)
qed

lemma unat_from_be_bytes:
  assumes "8 * length bs \<le> LENGTH('a::len)"
  shows "unat (from_be_bytes bs :: 'a word) = be_nat bs"
proof -
  have "be_nat bs < 2 ^ (8 * length bs)" using be_nat_bound [of bs] by (simp add: power_mult)
  also have "\<dots> \<le> 2 ^ LENGTH('a)" using assms by (intro power_increasing) auto
  finally show ?thesis by (simp add: from_be_bytes_def unsigned_of_nat take_bit_nat_eq_self)
qed

lemma be_nat_inj:
  "length bs = length cs \<Longrightarrow> be_nat bs = be_nat cs \<Longrightarrow> bs = cs"
proof (induction bs cs rule: list_induct2)
  case Nil
  then show ?case by simp
next
  case (Cons b bs c cs)
  have div: "be_nat (x # xs) div 256 ^ length xs = unat x" for x xs
    using be_nat_bound [of xs] by (simp add: be_nat_Cons)
  have mod: "be_nat (x # xs) mod 256 ^ length xs = be_nat xs" for x xs
    using be_nat_bound [of xs] by (simp add: be_nat_Cons)
  from Cons.prems Cons.hyps have "unat b = unat c" "be_nat bs = be_nat cs"
    using div [of b bs] div [of c cs] mod [of b bs] mod [of c cs] by simp_all
  with Cons.IH show ?case by (simp add: word_unat_eq_iff)
qed

lemma to_from_be_bytes:
  assumes "8 * length bs = LENGTH('a::len)"
  shows "to_be_bytes (length bs) (from_be_bytes bs :: 'a word) = bs"
proof (rule be_nat_inj)
  have "be_nat bs < 256 ^ length bs" by (rule be_nat_bound)
  then show "be_nat (to_be_bytes (length bs) (from_be_bytes bs :: 'a word)) = be_nat bs"
    using assms by (simp add: be_nat_to_be_bytes unat_from_be_bytes)
qed simp

subsection \<open>Byte vectors\<close>

text \<open>\<open>slice buf a b\<close> is Rust's \<open>&buf[a..b]\<close> where the bounds hold.\<close>

definition slice :: "'a list \<Rightarrow> nat \<Rightarrow> nat \<Rightarrow> 'a list" where
  "slice buf a b = take (b - a) (drop a buf)"

text \<open>\<open>to_array n b\<close> is \<open>b.as_slice().try_into()\<close> at \<open>[u8; n]\<close>.\<close>

definition to_array :: "nat \<Rightarrow> bytes \<Rightarrow> bytes option" where
  "to_array n b = (if length b = n then Some b else None)"

definition slice_at :: "'a list \<Rightarrow> nat \<Rightarrow> nat \<Rightarrow> ('a list, 'e fail) result" where
  "slice_at buf a b = (if a \<le> b \<and> b \<le> length buf then Inr (slice buf a b) else Inl Panic)"

lemma slice_at_eq [simp]: "a \<le> b \<Longrightarrow> b \<le> length buf \<Longrightarrow> slice_at buf a b = Inr (slice buf a b)"
  by (simp add: slice_at_def)

lemma slice_append [simp]: "slice (xs @ ys @ zs) (length xs) (length xs + length ys) = ys"
  by (simp add: slice_def)

lemma slice_append_len: "n = length ys \<Longrightarrow> slice (xs @ ys @ zs) (length xs) (length xs + n) = ys"
  by (simp add: slice_def)

lemma length_slice: "b \<le> length buf \<Longrightarrow> length (slice buf a b) = b - a"
  by (simp add: slice_def)

lemma to_array_eq_Some [simp]: "to_array n b = Some c \<longleftrightarrow> length b = n \<and> c = b"
  by (auto simp: to_array_def)

lemma to_array_eq_None [simp]: "to_array n b = None \<longleftrightarrow> length b \<noteq> n"
  by (simp add: to_array_def)

lemma to_array_self [simp]: "length b = n \<Longrightarrow> to_array n b = Some b"
  by simp

subsection \<open>Strings and UTF-8\<close>

text \<open>
  A Rust \<open>String\<close> is its UTF-8 bytes. A HOL \<open>string\<close> holds them one byte per \<open>char\<close>, so
  \<open>length\<close>, comparison and slicing are those of the bytes.
\<close>

definition as_bytes :: "string \<Rightarrow> bytes" where
  "as_bytes s = map of_char s"

definition chars_of_bytes :: "bytes \<Rightarrow> string" where
  "chars_of_bytes b = map (\<lambda>x. char_of (unat x)) b"

definition cont_byte :: "u8 \<Rightarrow> bool" where
  "cont_byte b \<longleftrightarrow> 0x80 \<le> b \<and> b \<le> 0xBF"

text \<open>The well-formed byte sequences of Unicode's Table 3-7, as \<open>core::str\<close> checks them.\<close>

fun utf8_valid :: "bytes \<Rightarrow> bool" where
  "utf8_valid [] = True"
| "utf8_valid (b0 # r0) =
    (if b0 < 0x80 then utf8_valid r0
     else if 0xC2 \<le> b0 \<and> b0 \<le> 0xDF then
       (case r0 of b1 # r1 \<Rightarrow> cont_byte b1 \<and> utf8_valid r1 | _ \<Rightarrow> False)
     else if 0xE0 \<le> b0 \<and> b0 \<le> 0xEF then
       (case r0 of
          b1 # b2 # r2 \<Rightarrow>
            cont_byte b1 \<and> cont_byte b2 \<and>
            (b0 = 0xE0 \<longrightarrow> 0xA0 \<le> b1) \<and> (b0 = 0xED \<longrightarrow> b1 \<le> 0x9F) \<and> utf8_valid r2
        | _ \<Rightarrow> False)
     else if 0xF0 \<le> b0 \<and> b0 \<le> 0xF4 then
       (case r0 of
          b1 # b2 # b3 # r3 \<Rightarrow>
            cont_byte b1 \<and> cont_byte b2 \<and> cont_byte b3 \<and>
            (b0 = 0xF0 \<longrightarrow> 0x90 \<le> b1) \<and> (b0 = 0xF4 \<longrightarrow> b1 \<le> 0x8F) \<and> utf8_valid r3
        | _ \<Rightarrow> False)
     else False)"

definition from_utf8 :: "bytes \<Rightarrow> string option" where
  "from_utf8 b = (if utf8_valid b then Some (chars_of_bytes b) else None)"

definition valid_str :: "string \<Rightarrow> bool" where
  "valid_str s \<longleftrightarrow> utf8_valid (as_bytes s)"

lemma unat_of_char_u8: "unat (of_char c :: u8) = of_char c"
proof -
  have "(of_char c :: u8) = word_of_nat (of_char c)" by (rule of_nat_of_char [symmetric])
  moreover have "(of_char c :: nat) < 2 ^ 8" using nat_of_char_less_256 [of c] by simp
  ultimately show ?thesis by (simp only: unsigned_of_nat take_bit_nat_eq_self) (simp add: take_bit_eq_mod)
qed

lemma char_of_of_char_u8 [simp]: "char_of (unat (of_char c :: u8)) = c"
  by (simp add: unat_of_char_u8)

lemma of_char_char_of_u8 [simp]: "of_char (char_of (unat (b :: u8))) = b"
proof -
  have "unat (of_char (char_of (unat b)) :: u8) = unat b"
    using unat_u8_less [of b] by (simp add: unat_of_char_u8)
  then show ?thesis by (simp add: word_unat_eq_iff)
qed

lemma chars_as_bytes [simp]: "chars_of_bytes (as_bytes s) = s"
  by (simp add: chars_of_bytes_def as_bytes_def comp_def)

lemma as_bytes_chars [simp]: "as_bytes (chars_of_bytes b) = b"
  by (simp add: chars_of_bytes_def as_bytes_def comp_def)

lemma length_as_bytes [simp]: "length (as_bytes s) = length s"
  by (simp add: as_bytes_def)

lemma as_bytes_append [simp]: "as_bytes (s @ t) = as_bytes s @ as_bytes t"
  by (simp add: as_bytes_def)

lemma as_bytes_inj [simp]: "as_bytes s = as_bytes t \<longleftrightarrow> s = t"
  by (metis chars_as_bytes)

lemma from_utf8_as_bytes: "from_utf8 (as_bytes s) = (if valid_str s then Some s else None)"
  by (simp add: from_utf8_def valid_str_def)

lemma from_utf8_eq_Some: "from_utf8 b = Some s \<longleftrightarrow> valid_str s \<and> as_bytes s = b"
  by (auto simp: from_utf8_def valid_str_def)

lemma utf8_valid_ascii: "\<forall>b \<in> set bs. b < 0x80 \<Longrightarrow> utf8_valid bs"
  by (induction bs) simp_all

lemmas [eval_simps] =
  map_err_def ok_or_def okR_def to_be_bytes_def be_nat_def from_be_bytes_def slice_def to_array_def
  as_bytes_def chars_of_bytes_def cont_byte_def from_utf8_def valid_str_def char_of_def
  bit_Suc_0_iff upt_rec Let_def

end
