(* ===== verification/Floats.thy ===== *)
theory Floats
  imports Complex_Main Prelude
begin

unbundle bit_operations_syntax

section \<open>Floats: binary16, binary32 and binary64 bit patterns\<close>

text \<open>
  An \<open>f64\<close> is its 64 bits. The decoder of \<open>src/cbor.rs\<close> widens binary16 (with the
  arithmetic of \<open>half_to_f64\<close>) and binary32 (with the cast \<open>as f64\<close>) to binary64. Every
  product in that arithmetic is exactly representable, so the result is the bit pattern of
  the exact value: \<open>f64_of_dyadic\<close> builds the pattern of \<open>\<plusminus> m * 2 ^ k\<close>, and
  \<open>f64_of_dyadic_real\<close> shows that it denotes that number. For a binary32 NaN the language
  leaves the payload open; the model takes the conversion of the common hardware (sign kept,
  quiet bit set, payload moved to the top).
\<close>

subsection \<open>The fields of a binary64 pattern\<close>

definition mk_f64 :: "bool \<Rightarrow> nat \<Rightarrow> nat \<Rightarrow> u64" where
  "mk_f64 s e m = word_of_nat ((if s then 2 ^ 63 else 0) + e * 2 ^ 52 + m)"

definition f64_sign :: "u64 \<Rightarrow> bool" where
  "f64_sign w \<longleftrightarrow> unat w div 2 ^ 63 = 1"

definition f64_exp :: "u64 \<Rightarrow> nat" where
  "f64_exp w = unat w div 2 ^ 52 mod 2048"

definition f64_frac :: "u64 \<Rightarrow> nat" where
  "f64_frac w = unat w mod 2 ^ 52"

text \<open>The number a finite pattern denotes (exponent below 2047).\<close>

definition f64_real :: "u64 \<Rightarrow> real" where
  "f64_real w =
    (if f64_sign w then -1 else 1) *
    (if f64_exp w = 0 then real (f64_frac w) * 2 powi (-1074)
     else (2 ^ 52 + real (f64_frac w)) * 2 powi (int (f64_exp w) - 1075))"

lemma mk_f64_fields:
  assumes "e < 2048" "m < 2 ^ 52"
  shows "f64_sign (mk_f64 s e m) = s" "f64_exp (mk_f64 s e m) = e" "f64_frac (mk_f64 s e m) = m"
proof -
  define n where "n = (if s then 2 ^ 63 else 0) + e * 2 ^ 52 + m"
  have em: "e * 2 ^ 52 + m < 2 ^ 63" using assms by simp
  have "n < 2 ^ 64" using em by (auto simp: n_def)
  then have u: "unat (mk_f64 s e m) = n"
    unfolding mk_f64_def n_def [symmetric] by (simp only: unsigned_of_nat) (simp add: take_bit_nat_eq_self)
  have d63: "n div 2 ^ 63 = (if s then 1 else 0)"
    using em by (auto simp: n_def)
  have d52: "n div 2 ^ 52 = (if s then 2048 else 0) + e"
    using assms by (auto simp: n_def)
  have m52: "n mod 2 ^ 52 = m"
    using assms by (auto simp: n_def mod_add_left_eq [symmetric] simp del: mod_add_left_eq)
  show "f64_sign (mk_f64 s e m) = s" using d63 by (simp add: f64_sign_def u)
  show "f64_exp (mk_f64 s e m) = e" using d52 assms by (simp add: f64_exp_def u)
  show "f64_frac (mk_f64 s e m) = m" using m52 by (simp add: f64_frac_def u)
qed

subsection \<open>Patterns of dyadic numbers\<close>

fun top_bit :: "nat \<Rightarrow> nat" where
  "top_bit n = (if n < 2 then 0 else Suc (top_bit (n div 2)))"

declare top_bit.simps [simp del]

lemma top_bit_bounds: "0 < n \<Longrightarrow> 2 ^ top_bit n \<le> n \<and> n < 2 * 2 ^ top_bit n"
proof (induction n rule: top_bit.induct)
  case (1 n)
  show ?case
  proof (cases "n < 2")
    case True
    with 1 show ?thesis by (simp add: top_bit.simps [of n])
  next
    case False
    with "1.IH" have "2 ^ top_bit (n div 2) \<le> n div 2 \<and> n div 2 < 2 * 2 ^ top_bit (n div 2)"
      by simp
    with False show ?thesis by (simp add: top_bit.simps [of n]) linarith
  qed
qed

definition f64_of_dyadic :: "bool \<Rightarrow> nat \<Rightarrow> int \<Rightarrow> u64" where
  "f64_of_dyadic s m k =
    (if m = 0 then mk_f64 s 0 0
     else let t = top_bit m in mk_f64 s (nat (int t + k + 1023)) ((m - 2 ^ t) * 2 ^ (52 - t)))"

lemma f64_of_dyadic_real:
  assumes "m < 2 ^ 53" "-1023 < k + int (top_bit m)" "k + int (top_bit m) < 1024"
  shows "f64_real (f64_of_dyadic s m k) = (if s then -1 else 1) * (real m * 2 powi k)"
proof (cases "m = 0")
  case True
  then show ?thesis by (simp add: f64_of_dyadic_def f64_real_def mk_f64_fields)
next
  case False
  define t where "t = top_bit m"
  define f where "f = (m - 2 ^ t) * 2 ^ (52 - t)"
  define e where "e = nat (int t + k + 1023)"
  have b: "2 ^ t \<le> m" "m < 2 * 2 ^ t" using top_bit_bounds [of m] False by (auto simp: t_def)
  have t52: "t \<le> 52"
  proof (rule ccontr)
    assume "\<not> t \<le> 52"
    then have "(2::nat) ^ 53 \<le> 2 ^ t" by (intro power_increasing) auto
    with b assms(1) show False by simp
  qed
  have e: "e < 2048" "e \<noteq> 0" "int e = int t + k + 1023" using assms by (auto simp: e_def t_def)
  have "f < 2 ^ t * 2 ^ (52 - t)" unfolding f_def using b by (intro mult_strict_right_mono) auto
  also have "\<dots> = 2 ^ 52" using t52 by (simp flip: power_add)
  finally have f: "f < 2 ^ 52" .
  have p52: "(2::nat) ^ t * 2 ^ (52 - t) = 2 ^ 52" using t52 by (simp flip: power_add)
  have "2 ^ 52 + f = m * 2 ^ (52 - t)"
    unfolding f_def diff_mult_distrib p52
    using mult_le_mono1 [OF b(1), of "2 ^ (52 - t)", unfolded p52] by (rule le_add_diff_inverse)
  then have "2 ^ 52 + real f = real m * 2 ^ (52 - t)"
    by (metis of_nat_add of_nat_mult of_nat_numeral of_nat_power)
  also have "(2::real) ^ (52 - t) = 2 powi (int (52 - t))" by (rule power_int_of_nat [symmetric])
  finally have "(2 ^ 52 + real f) * 2 powi (int e - 1075)
      = real m * 2 powi (int (52 - t) + (int e - 1075))"
    by (simp add: power_int_add)
  also have "int (52 - t) + (int e - 1075) = k" using t52 e by simp
  finally show ?thesis using e f False
    by (simp add: f64_of_dyadic_def Let_def f64_real_def mk_f64_fields
        flip: t_def f_def e_def)
qed

subsection \<open>binary16 and binary32\<close>

definition half_sign :: "u16 \<Rightarrow> bool" where
  "half_sign half \<longleftrightarrow> (drop_bit 15 half) AND 1 = 1"

definition half_exp :: "u16 \<Rightarrow> nat" where
  "half_exp half = unat ((drop_bit 10 half) AND 0x1F)"

definition half_frac :: "u16 \<Rightarrow> nat" where
  "half_frac half = unat (half AND 0x3FF)"

text \<open>
  \<open>sign * 2^-14 * (frac / 1024)\<close> for exponent 0, \<open>sign * 2^(exp - 15) * (1 + frac / 1024)\<close>
  for 1 to 30, no value for 31.
\<close>

definition half_to_f64 :: "u16 \<Rightarrow> u64 option" where
  "half_to_f64 half =
    (let sign = half_sign half; exp = half_exp half; frac = half_frac half in
     if exp = 0 then Some (f64_of_dyadic sign frac (-24))
     else if exp \<le> 30 then Some (f64_of_dyadic sign (1024 + frac) (int exp - 25))
     else None)"

definition f32_to_f64 :: "u32 \<Rightarrow> u64" where
  "f32_to_f64 w =
    (let s = (unat w div 2 ^ 31 = 1); e = unat w div 2 ^ 23 mod 256; m = unat w mod 2 ^ 23 in
     if e = 255 then mk_f64 s 2047 (if m = 0 then 0 else 2 ^ 51 + m mod 2 ^ 22 * 2 ^ 29)
     else if e = 0 then f64_of_dyadic s m (-149)
     else f64_of_dyadic s (2 ^ 23 + m) (int e - 150))"

lemma half_frac_less: "half_frac half < 1024"
proof -
  have "unat (half AND 0x3FF) \<le> unat (0x3FF :: u16)"
    by (rule word_and_le1 [THEN word_le_nat_alt [THEN iffD1]])
  then show ?thesis by (simp add: half_frac_def)
qed

lemma half_exp_less: "half_exp half < 32"
proof -
  have "unat (drop_bit 10 half AND 0x1F) \<le> unat (0x1F :: u16)"
    by (rule word_and_le1 [THEN word_le_nat_alt [THEN iffD1]])
  then show ?thesis by (simp add: half_exp_def)
qed

lemma top_bit_less: "0 < n \<Longrightarrow> n < 2 ^ j \<Longrightarrow> top_bit n < j"
proof (rule ccontr)
  assume n: "0 < n" "n < 2 ^ j" and "\<not> top_bit n < j"
  then have "(2::nat) ^ j \<le> 2 ^ top_bit n" by (intro power_increasing) auto
  with n top_bit_bounds [of n] show False by simp
qed

lemma top_bit_0 [simp]: "top_bit 0 = 0"
  by (simp add: top_bit.simps)

lemma half_to_f64_real:
  "half_to_f64 half = Some w \<Longrightarrow>
     f64_real w = (if half_sign half then -1 else 1) *
       (if half_exp half = 0 then 2 powi (-14) * (real (half_frac half) / 1024)
        else 2 powi (int (half_exp half) - 15) * (1 + real (half_frac half) / 1024))"
proof -
  assume w: "half_to_f64 half = Some w"
  define f where "f = half_frac half"
  define e where "e = half_exp half"
  have f: "f < 1024" and e: "e < 32"
    unfolding f_def e_def by (rule half_frac_less, rule half_exp_less)
  have tb: "top_bit f < 10" using top_bit_less [of f 10] f by (cases "f = 0") auto
  have tb': "top_bit (1024 + f) < 11" using top_bit_less [of "1024 + f" 11] f by auto
  have p24: "2 powi (-24) = (2 powi (-14) :: real) / 1024" using power_int_add [of "2::real" "-24" 10] by simp
  have p25: "2 powi (int e - 25) = (2 powi (int e - 15) :: real) / 1024"
    using power_int_add [of "2::real" "int e - 25" 10] by simp
  show ?thesis
  proof (cases "e = 0")
    case True
    then have "w = f64_of_dyadic (half_sign half) f (-24)"
      using w by (simp add: half_to_f64_def Let_def e_def f_def)
    then show ?thesis using True f tb p24
      by (simp add: f64_of_dyadic_real flip: e_def f_def)
  next
    case False
    then have "w = f64_of_dyadic (half_sign half) (1024 + f) (int e - 25)"
      using w by (simp add: half_to_f64_def Let_def e_def f_def split: if_splits)
    then have "f64_real w = (if half_sign half then -1 else 1) * (real (1024 + f) * 2 powi (int e - 25))"
      using f e tb' False by (simp only:) (rule f64_of_dyadic_real; simp)
    then show ?thesis using False p25
      by (simp add: field_simps flip: e_def f_def)
  qed
qed

end
