(* ===== verification/Cbor.thy ===== *)
theory Cbor
  imports Floats "HOL-Library.List_Lexorder"
begin

unbundle bit_operations_syntax

section \<open>Cbor: the deterministic CBOR codec (\<open>src/cbor.rs\<close>)\<close>

text \<open>
  The value type, its field access (\<open>get\<close>, \<open>without\<close>, \<open>with_field\<close>), the encoder and the
  recursive-descent decoder, in the order of the source. \<open>Text\<close> carries a string as its
  UTF-8 bytes, \<open>Float\<close> the 64 bits of an \<open>f64\<close>, \<open>IntV\<close> (the source's \<open>Int\<close>, a keyword of the syntax here) an \<open>i128\<close> as an \<open>int\<close>. The
  encoder returns the bytes it appends to its output vector. The decoder takes the whole
  buffer and a position, as the code does, and every index, slice and \<open>expect\<close> it performs is
  a possible \<open>Panic\<close>; \<open>CborCorrect\<close> proves that none happens.
\<close>

subsection \<open>Values\<close>

datatype Value =
    IntV int
  | Bytes bytes
  | Text string
  | List "Value list"
  | Map "(Value \<times> Value) list"
  | Null
  | Float u64

definition get :: "Value \<Rightarrow> string \<Rightarrow> Value option" where
  "get v key =
    (case v of
       Map pairs \<Rightarrow> map_option snd (find (\<lambda>(k, _). k = Text key) pairs)
     | _ \<Rightarrow> None)"

definition without :: "Value \<Rightarrow> string list \<Rightarrow> Value" where
  "without v keys =
    (case v of
       Map pairs \<Rightarrow>
         Map (filter (\<lambda>(k, _). \<not> (case k of Text t \<Rightarrow> List.member keys t | _ \<Rightarrow> False)) pairs)
     | other \<Rightarrow> other)"

fun set_field :: "string \<Rightarrow> Value \<Rightarrow> (Value \<times> Value) list \<Rightarrow> (Value \<times> Value) list" where
  "set_field key value [] = [(Text key, value)]"
| "set_field key value ((k, v) # ps) =
    (if k = Text key then (k, value) # ps else (k, v) # set_field key value ps)"

definition with_field :: "Value \<Rightarrow> string \<Rightarrow> Value \<Rightarrow> Value" where
  "with_field v key value = (case v of Map pairs \<Rightarrow> Map (set_field key value pairs) | other \<Rightarrow> other)"

subsection \<open>Encoding\<close>

datatype IntOutOfRange = IntOutOfRange int

definition u64_max :: int where
  "u64_max = 2 ^ 64 - 1"

definition encode_head :: "u8 \<Rightarrow> u64 \<Rightarrow> bytes" where
  "encode_head major n =
    (if n \<le> 23 then [push_bit 5 major OR ucast n]
     else if n \<le> 0xFF then [push_bit 5 major OR 24, ucast n]
     else if n \<le> 0xFFFF then (push_bit 5 major OR 25) # to_be_bytes 2 (ucast n :: u16)
     else if n \<le> 0xFFFFFFFF then (push_bit 5 major OR 26) # to_be_bytes 4 (ucast n :: u32)
     else (push_bit 5 major OR 27) # to_be_bytes 8 n)"

definition encode_int :: "int \<Rightarrow> (bytes, IntOutOfRange) result" where
  "encode_int n =
    (if n \<ge> 0 then
       (if n \<le> u64_max then Inr (encode_head 0 (word_of_int n)) else Inl (IntOutOfRange n))
     else
       (let count = -1 - n in
        if 0 \<le> count \<and> count \<le> u64_max then Inr (encode_head 1 (word_of_int count))
        else Inl (IntOutOfRange n)))"

text \<open>The tail of \<open>encode_map\<close>: sort the encoded pairs by key bytes, then write them.\<close>

definition encode_sorted_pairs :: "(bytes \<times> bytes) list \<Rightarrow> bytes" where
  "encode_sorted_pairs encoded =
    (let sorted_pairs = sort_key fst encoded in
     encode_head 5 (word_of_nat (length sorted_pairs)) @ concat (map (\<lambda>(k, v). k @ v) sorted_pairs))"

function encode_value :: "Value \<Rightarrow> (bytes, IntOutOfRange) result"
  and encode_items :: "Value list \<Rightarrow> (bytes, IntOutOfRange) result"
  and encode_pairs :: "(Value \<times> Value) list \<Rightarrow> ((bytes \<times> bytes) list, IntOutOfRange) result"
where
  "encode_value (IntV n) = encode_int n"
| "encode_value (Bytes b) = Inr (encode_head 2 (word_of_nat (length b)) @ b)"
| "encode_value (Text s) =
    (let bs = as_bytes s in Inr (encode_head 3 (word_of_nat (length bs)) @ bs))"
| "encode_value (List items) =
    bindR (encode_items items) (\<lambda>body. Inr (encode_head 4 (word_of_nat (length items)) @ body))"
| "encode_value (Map pairs) =
    bindR (encode_pairs pairs) (\<lambda>encoded. Inr (encode_sorted_pairs encoded))"
| "encode_value Null = Inr [0xF6]"
| "encode_value (Float v) = Inr (0xFB # to_be_bytes 8 v)"
| "encode_items [] = Inr []"
| "encode_items (item # items) =
    bindR (encode_value item) (\<lambda>b. bindR (encode_items items) (\<lambda>bs. Inr (b @ bs)))"
| "encode_pairs [] = Inr []"
| "encode_pairs ((k, v) # pairs) =
    bindR (encode_value k) (\<lambda>kbuf. bindR (encode_value v) (\<lambda>vbuf.
      bindR (encode_pairs pairs) (\<lambda>encoded. Inr ((kbuf, vbuf) # encoded))))"
  by pat_completeness auto

termination
  by (relation "measure (\<lambda>x. case x of
        Inl v \<Rightarrow> size v
      | Inr (Inl items) \<Rightarrow> size_list size items
      | Inr (Inr pairs) \<Rightarrow> size_list (size_prod size size) pairs)") auto

definition encode :: "Value \<Rightarrow> (bytes, IntOutOfRange) result" where
  "encode value = encode_value value"

subsection \<open>Decoding\<close>

datatype DecodeError =
    Truncated
  | UnsupportedMajorType u8
  | UnsupportedAdditionalInfo u8
  | UnsupportedAdditionalInfoEncoding u8
  | TrailingBytes
  | InvalidUtf8
  | UnrepresentableFloat
  | NestingTooDeep

definition MAX_NESTING_DEPTH :: nat where
  "MAX_NESTING_DEPTH = 128"

definition need :: "bytes \<Rightarrow> nat \<Rightarrow> nat \<Rightarrow> (unit, DecodeError fail) result" where
  "need buf pos n =
    (if pos + n < 2 ^ 64 \<and> pos + n \<le> length buf then Inr () else Inl (Err Truncated))"

definition decode_count :: "bytes \<Rightarrow> nat \<Rightarrow> u8 \<Rightarrow> (u64 \<times> nat, DecodeError fail) result" where
  "decode_count buf pos ai =
    (if ai \<le> 23 then Inr (ucast ai, pos)
     else if ai = 24 then
       bindR (need buf pos 1) (\<lambda>_. bindR (index_at buf pos) (\<lambda>b. Inr (ucast b, pos + 1)))
     else if ai = 25 then
       bindR (need buf pos 2) (\<lambda>_. bindR (index_at buf pos) (\<lambda>b0. bindR (index_at buf (pos + 1)) (\<lambda>b1.
         Inr (ucast (from_be_bytes [b0, b1] :: u16), pos + 2))))
     else if ai = 26 then
       bindR (need buf pos 4) (\<lambda>_. bindR (slice_at buf pos (pos + 4)) (\<lambda>b.
         Inr (ucast (from_be_bytes b :: u32), pos + 4)))
     else if ai = 27 then
       bindR (need buf pos 8) (\<lambda>_. bindR (slice_at buf pos (pos + 8)) (\<lambda>b.
         Inr (from_be_bytes b, pos + 8)))
     else Inl (Err (UnsupportedAdditionalInfoEncoding ai)))"

definition decode_major7 :: "bytes \<Rightarrow> nat \<Rightarrow> u8 \<Rightarrow> (Value \<times> nat, DecodeError fail) result" where
  "decode_major7 buf pos ai =
    (if ai = 22 then Inr (Null, pos + 1)
     else if ai = 25 then
       bindR (need buf (pos + 1) 2) (\<lambda>_. bindR (index_at buf (pos + 1)) (\<lambda>b1.
         bindR (index_at buf (pos + 2)) (\<lambda>b2.
           bindR (ok_or (Err UnrepresentableFloat) (half_to_f64 (from_be_bytes [b1, b2]))) (\<lambda>f.
             Inr (Float f, pos + 3)))))
     else if ai = 26 then
       bindR (need buf (pos + 1) 4) (\<lambda>_. bindR (slice_at buf (pos + 1) (pos + 5)) (\<lambda>b.
         Inr (Float (f32_to_f64 (from_be_bytes b)), pos + 5)))
     else if ai = 27 then
       bindR (need buf (pos + 1) 8) (\<lambda>_. bindR (slice_at buf (pos + 1) (pos + 9)) (\<lambda>b.
         Inr (Float (from_be_bytes b), pos + 9)))
     else Inl (Err (UnsupportedAdditionalInfo ai)))"

definition with_canonical_bytes ::
  "Value \<Rightarrow> nat \<Rightarrow> (Value \<times> bytes \<times> nat, DecodeError fail) result" where
  "with_canonical_bytes value next =
    (case encode_value value of Inl _ \<Rightarrow> Inl Panic | Inr canon \<Rightarrow> Inr (value, canon, next))"

definition scalar_canonical_bytes ::
  "Value \<Rightarrow> nat \<Rightarrow> bool \<Rightarrow> (Value \<times> bytes \<times> nat, DecodeError fail) result" where
  "scalar_canonical_bytes value next need_canon =
    (if need_canon then with_canonical_bytes value next else Inr (value, [], next))"

text \<open>
  The state of \<open>decode_map\<close>'s loop. \<open>index_of_key\<close> is the \<open>HashMap\<close> from a key's canonical
  bytes to its slot, as the association list of its entries; the order in which the code
  iterates over the table does not matter, since it sorts the entries by their (distinct) keys.
\<close>

record map_state =
  pairs :: "(Value \<times> Value) list"
  index_of_key :: "(bytes \<times> nat) list"
  vals_canon :: "bytes list"

definition empty_map_state :: map_state where
  "empty_map_state = \<lparr>pairs = [], index_of_key = [], vals_canon = []\<rparr>"

definition insert_entry ::
  "bool \<Rightarrow> bytes \<Rightarrow> Value \<Rightarrow> Value \<Rightarrow> bytes \<Rightarrow> map_state \<Rightarrow> (map_state, DecodeError fail) result" where
  "insert_entry need_canon key_canon k v val_canon s =
    (case map_of (index_of_key s) key_canon of
       Some i \<Rightarrow>
         if i < length (pairs s) \<and> (\<not> need_canon \<or> i < length (vals_canon s)) then
           Inr (s\<lparr>pairs := (pairs s)[i := (fst (pairs s ! i), v)],
                  vals_canon := (if need_canon then (vals_canon s)[i := val_canon] else vals_canon s)\<rparr>)
         else Inl Panic
     | None \<Rightarrow>
         Inr (s\<lparr>pairs := pairs s @ [(k, v)],
                index_of_key := index_of_key s @ [(key_canon, length (pairs s))],
                vals_canon := (if need_canon then vals_canon s @ [val_canon] else vals_canon s)\<rparr>))"

definition finish_map ::
  "bool \<Rightarrow> map_state \<Rightarrow> nat \<Rightarrow> (Value \<times> bytes \<times> nat, DecodeError fail) result" where
  "finish_map need_canon s pos =
    (if \<not> need_canon then Inr (Map (pairs s), [], pos)
     else
       (let order = sort_key fst (index_of_key s) in
        bindR (mapR (\<lambda>(k, i). bindR (index_at (vals_canon s) i) (\<lambda>vc. Inr (k @ vc))) order) (\<lambda>parts.
          Inr (Map (pairs s), encode_head 5 (word_of_nat (length order)) @ concat parts, pos))))"

text \<open>
  The three mutually recursive functions. \<open>decode_list\<close> and \<open>decode_map\<close> are the loops of the
  source with their loop variables as arguments: \<open>count\<close> iterations to go, the items (or the
  map state) and the canonical bytes so far.
\<close>

function (sequential) decode_one ::
    "bytes \<Rightarrow> nat \<Rightarrow> nat \<Rightarrow> bool \<Rightarrow> (Value \<times> bytes \<times> nat, DecodeError fail) result"
  and decode_list ::
    "bytes \<Rightarrow> nat \<Rightarrow> nat \<Rightarrow> nat \<Rightarrow> bool \<Rightarrow> Value list \<Rightarrow> bytes
      \<Rightarrow> (Value \<times> bytes \<times> nat, DecodeError fail) result"
  and decode_map ::
    "bytes \<Rightarrow> nat \<Rightarrow> nat \<Rightarrow> nat \<Rightarrow> bool \<Rightarrow> map_state
      \<Rightarrow> (Value \<times> bytes \<times> nat, DecodeError fail) result"
where
  "decode_one buf pos depth need_canon =
    (if depth > MAX_NESTING_DEPTH then Inl (Err NestingTooDeep)
     else bindR (need buf pos 1) (\<lambda>_. bindR (index_at buf pos) (\<lambda>byte0.
       let major = drop_bit 5 byte0; ai = byte0 AND 0x1F in
       if major = 7 then
         bindR (decode_major7 buf pos ai) (\<lambda>(value, next). scalar_canonical_bytes value next need_canon)
       else bindR (decode_count buf (pos + 1) ai) (\<lambda>(n, next).
         if major = 0 then scalar_canonical_bytes (IntV (uint n)) next need_canon
         else if major = 1 then scalar_canonical_bytes (IntV (-1 - uint n)) next need_canon
         else if major = 2 then
           (let len = unat n in
            bindR (need buf next len) (\<lambda>_. bindR (slice_at buf next (next + len)) (\<lambda>b.
              scalar_canonical_bytes (Bytes b) (next + len) need_canon)))
         else if major = 3 then
           (let len = unat n in
            bindR (need buf next len) (\<lambda>_. bindR (slice_at buf next (next + len)) (\<lambda>b.
              bindR (ok_or (Err InvalidUtf8) (from_utf8 b)) (\<lambda>t.
                scalar_canonical_bytes (Text t) (next + len) need_canon))))
         else if major = 4 then
           decode_list buf next (unat n) (depth + 1) need_canon [] (if need_canon then encode_head 4 n else [])
         else if major = 5 then
           decode_map buf next (unat n) (depth + 1) need_canon empty_map_state
         else Inl (Err (UnsupportedMajorType major))))))"
| "decode_list buf pos count depth need_canon items canon =
    (if count = 0 then Inr (List items, canon, pos)
     else bindR (decode_one buf pos depth need_canon) (\<lambda>(item, item_canon, next).
       decode_list buf next (count - 1) depth need_canon (items @ [item])
         (if need_canon then canon @ item_canon else canon)))"
| "decode_map buf pos count depth need_canon s =
    (if count = 0 then finish_map need_canon s pos
     else bindR (decode_one buf pos depth True) (\<lambda>(k, key_canon, next1).
       bindR (decode_one buf next1 depth need_canon) (\<lambda>(v, val_canon, next2).
         bindR (insert_entry need_canon key_canon k v val_canon s) (\<lambda>s'.
           decode_map buf next2 (count - 1) depth need_canon s'))))"
  by pat_completeness auto

termination
  by (relation "measures [
        \<lambda>x. case x of Inl (_, _, depth, _) \<Rightarrow> 130 - depth
             | Inr (Inl (_, _, _, depth, _)) \<Rightarrow> 130 - depth
             | Inr (Inr (_, _, _, depth, _)) \<Rightarrow> 130 - depth,
        \<lambda>x. case x of Inl _ \<Rightarrow> 0
             | Inr (Inl (_, _, count, _)) \<Rightarrow> Suc count
             | Inr (Inr (_, _, count, _)) \<Rightarrow> Suc count]")
     (auto simp: MAX_NESTING_DEPTH_def)

declare decode_one.simps [simp del] decode_list.simps [simp del] decode_map.simps [simp del]

definition decode :: "bytes \<Rightarrow> (Value, DecodeError fail) result" where
  "decode bs =
    bindR (decode_one bs 0 0 False) (\<lambda>(value, _, pos).
      if pos \<noteq> length bs then Inl (Err TrailingBytes) else Inr value)"

subsection \<open>Field access: basic laws\<close>

lemma get_Map_Nil [simp]: "get (Map []) key = None"
  by (simp add: get_def)

lemma get_Map_Cons [simp]:
  "get (Map ((k, v) # ps)) key = (if k = Text key then Some v else get (Map ps) key)"
  by (simp add: get_def)

lemma get_set_field:
  "get (Map (set_field key value ps)) key' = (if key' = key then Some value else get (Map ps) key')"
  by (induction key "value" ps rule: set_field.induct) auto

text \<open>After \<open>with_field\<close>, the field reads as the new value and every other field as before.\<close>

lemma get_with_field:
  "get (with_field (Map ps) key value) key' = (if key' = key then Some value else get (Map ps) key')"
  by (simp add: with_field_def get_set_field)

lemma with_field_Map [simp]: "with_field (Map ps) key value = Map (set_field key value ps)"
  by (simp add: with_field_def)

lemma get_without:
  "get (without (Map ps) keys) key = (if key \<in> set keys then None else get (Map ps) key)"
  by (induction ps) (auto simp: without_def get_def split: Value.splits)

lemma set_field_keys:
  "map fst (set_field key value ps) =
    (if Text key \<in> fst ` set ps then map fst ps else map fst ps @ [Text key])"
  by (induction key "value" ps rule: set_field.induct) auto

lemmas cbor_eval [eval_simps] =
  get_def without_def u64_max_def encode_head_def encode_int_def encode_sorted_pairs_def encode_def
  MAX_NESTING_DEPTH_def need_def decode_count_def decode_major7_def with_canonical_bytes_def
  scalar_canonical_bytes_def empty_map_state_def insert_entry_def finish_map_def
  decode_one.simps decode_list.simps decode_map.simps decode_def

end
