(* ===== verification/CborCorrect.thy ===== *)
theory CborCorrect
  imports Cbor "HOL-Library.Multiset"
begin

unbundle bit_operations_syntax

section \<open>CborCorrect: round trip, canonicity and totality of the CBOR codec\<close>

text \<open>
  Decoding the encoding of a well-formed value gives its normal form (map entries in the order
  of their encoded keys); every decoded value is well formed and within the nesting limit; the
  canonical bytes the decoder builds bottom-up are those of the encoder; and no input makes the
  decoder panic.
\<close>

subsection \<open>The encoder as a total function on well-formed values\<close>

definition enc :: "Value \<Rightarrow> bytes" where
  "enc v = (case encode_value v of Inl _ \<Rightarrow> [] | Inr b \<Rightarrow> b)"

definition enc_pair :: "Value \<times> Value \<Rightarrow> bytes \<times> bytes" where
  "enc_pair p = (enc (fst p), enc (snd p))"

text \<open>Integers in range, text valid UTF-8, no map with two keys of the same encoding.\<close>

fun wfv :: "Value \<Rightarrow> bool" where
  "wfv (IntV n) \<longleftrightarrow> - (2 ^ 64) \<le> n \<and> n < 2 ^ 64"
| "wfv (Bytes b) \<longleftrightarrow> True"
| "wfv (Text s) \<longleftrightarrow> valid_str s"
| "wfv (List items) \<longleftrightarrow> (\<forall>x \<in> set items. wfv x)"
| "wfv (Map ps) \<longleftrightarrow>
     (\<forall>p \<in> set ps. wfv (fst p) \<and> wfv (snd p)) \<and> distinct (map (\<lambda>p. enc (fst p)) ps)"
| "wfv Null \<longleftrightarrow> True"
| "wfv (Float f) \<longleftrightarrow> True"

text \<open>The nesting of lists and maps around the deepest element.\<close>

fun vdepth :: "Value \<Rightarrow> nat" where
  "vdepth (List items) = Max (insert 0 ((\<lambda>x. Suc (vdepth x)) ` set items))"
| "vdepth (Map ps) = Max (insert 0 ((\<lambda>p. Suc (max (vdepth (fst p)) (vdepth (snd p)))) ` set ps))"
| "vdepth _ = 0"

text \<open>The normal form: every map's entries in the order of their encoded keys.\<close>

fun normal :: "Value \<Rightarrow> Value" where
  "normal (List items) = List (map normal items)"
| "normal (Map ps) =
     Map (map (\<lambda>p. (normal (fst p), normal (snd p))) (sort_key (\<lambda>p. enc (fst p)) ps))"
| "normal v = v"

lemma value_induct [case_names IntV Bytes Text List Map Null Float]:
  assumes "\<And>n. P (IntV n)" "\<And>b. P (Bytes b)" "\<And>s. P (Text s)"
    "\<And>items. (\<And>x. x \<in> set items \<Longrightarrow> P x) \<Longrightarrow> P (List items)"
    "\<And>ps. (\<And>p. p \<in> set ps \<Longrightarrow> P (fst p)) \<Longrightarrow> (\<And>p. p \<in> set ps \<Longrightarrow> P (snd p)) \<Longrightarrow> P (Map ps)"
    "P Null" "\<And>f. P (Float f)"
  shows "P v"
  by (induction v) (auto intro: assms simp: fsts.simps snds.simps)

lemma vdepth_List: "vdepth (List items) \<le> n \<longleftrightarrow> (\<forall>x \<in> set items. Suc (vdepth x) \<le> n)"
  by auto

lemma vdepth_Map:
  "vdepth (Map ps) \<le> n \<longleftrightarrow> (\<forall>p \<in> set ps. Suc (vdepth (fst p)) \<le> n \<and> Suc (vdepth (snd p)) \<le> n)"
  by auto

lemma encode_items_ok:
  "(\<And>x. x \<in> set xs \<Longrightarrow> encode_value x = Inr (enc x)) \<Longrightarrow> encode_items xs = Inr (concat (map enc xs))"
  by (induction xs) auto

lemma encode_pairs_ok:
  "(\<And>p. p \<in> set ps \<Longrightarrow> encode_value (fst p) = Inr (enc (fst p)) \<and> encode_value (snd p) = Inr (enc (snd p)))
    \<Longrightarrow> encode_pairs ps = Inr (map enc_pair ps)"
proof (induction ps)
  case Nil
  then show ?case by simp
next
  case (Cons p ps)
  from Cons.prems [of p] have "encode_value (fst p) = Inr (enc (fst p))"
    "encode_value (snd p) = Inr (enc (snd p))" by auto
  moreover have "encode_pairs ps = Inr (map enc_pair ps)" using Cons by simp
  ultimately show ?case by (cases p) (simp add: enc_pair_def)
qed

lemma encode_ok: "wfv v \<Longrightarrow> encode_value v = Inr (enc v)"
proof (induction v rule: value_induct)
  case (IntV n)
  then show ?case by (auto simp: enc_def encode_int_def u64_max_def Let_def)
next
  case (List items)
  then show ?case by (simp add: enc_def encode_items_ok)
next
  case (Map ps)
  then show ?case by (simp add: enc_def encode_pairs_ok)
qed (auto simp: enc_def Let_def)

lemma enc_eq: "encode_value v = Inr b \<Longrightarrow> enc v = b"
  by (simp add: enc_def)

lemma enc_simps [simp]:
  "enc (Bytes b) = encode_head 2 (word_of_nat (length b)) @ b"
  "enc (Text s) = encode_head 3 (word_of_nat (length s)) @ as_bytes s"
  "enc Null = [0xF6]"
  "enc (Float f) = 0xFB # to_be_bytes 8 f"
  by (simp_all add: enc_def Let_def)

lemma enc_Int:
  assumes "wfv (IntV n)"
  shows "enc (IntV n) = (if 0 \<le> n then encode_head 0 (word_of_int n) else encode_head 1 (word_of_int (-1 - n)))"
  using assms by (auto simp: enc_def encode_int_def u64_max_def Let_def)

lemma enc_List:
  assumes "wfv (List items)"
  shows "enc (List items) = encode_head 4 (word_of_nat (length items)) @ concat (map enc items)"
  using assms by (intro enc_eq) (simp add: encode_items_ok encode_ok)

lemma enc_Map:
  assumes "wfv (Map ps)"
  shows "enc (Map ps) = encode_sorted_pairs (map enc_pair ps)"
  using assms by (intro enc_eq) (simp add: encode_pairs_ok encode_ok)

subsection \<open>Sorting entries\<close>

lemma insort_key_map: "insort_key f (g x) (map g xs) = map g (insort_key (\<lambda>y. f (g y)) x xs)"
  by (induction xs) auto

lemma sort_key_map: "sort_key f (map g xs) = map g (sort_key (\<lambda>y. f (g y)) xs)"
  by (induction xs) (simp_all add: insort_key_map)

lemma sort_key_cong: "(\<And>x. x \<in> set xs \<Longrightarrow> f x = g x) \<Longrightarrow> sort_key f xs = sort_key g xs"
proof (induction xs)
  case Nil
  then show ?case by simp
next
  case (Cons x xs)
  have ins: "insort_key f y ys = insort_key g y ys" if "\<And>z. z \<in> insert y (set ys) \<Longrightarrow> f z = g z" for y ys
    using that by (induction ys) auto
  have "sort_key f xs = sort_key g xs" using Cons by simp
  moreover have "insort_key f x (sort_key g xs) = insort_key g x (sort_key g xs)"
    by (rule ins) (use Cons.prems in auto)
  ultimately show ?case by simp
qed

lemma sorted_enc_pairs:
  "sort_key fst (map enc_pair ps) = map enc_pair (sort_key (\<lambda>p. enc (fst p)) ps)"
  by (simp add: sort_key_map comp_def enc_pair_def)

lemma encode_sorted_pairs_enc:
  "encode_sorted_pairs (map enc_pair ps) =
    encode_head 5 (word_of_nat (length ps)) @
      concat (map (\<lambda>p. enc (fst p) @ enc (snd p)) (sort_key (\<lambda>p. enc (fst p)) ps))"
  by (simp add: encode_sorted_pairs_def sorted_enc_pairs Let_def comp_def enc_pair_def)

text \<open>A map with distinct encoded keys encodes independently of the order of its entries.\<close>

lemma sort_key_perm:
  assumes "mset xs = mset ys" "distinct (map f xs)"
  shows "sort_key f xs = sort_key f ys"
  by (rule sort_key_inj_key_eq) (use assms in \<open>auto simp: distinct_map\<close>)

lemma encode_sorted_pairs_perm:
  "mset xs = mset ys \<Longrightarrow> distinct (map fst xs) \<Longrightarrow> encode_sorted_pairs xs = encode_sorted_pairs ys"
  using sort_key_perm [of xs ys fst] by (simp add: encode_sorted_pairs_def)

subsection \<open>Heads\<close>

lemma take_bit_u8: "unat (x :: u8) < 2 ^ n \<Longrightarrow> take_bit n x = x"
  by (simp add: word_unat_eq_iff unsigned_take_bit_eq take_bit_nat_eq_self)

lemma head_byte:
  fixes m x :: u8
  assumes "m < 8" "x < 32"
  shows "drop_bit 5 (push_bit 5 m OR x) = m" "(push_bit 5 m OR x) AND 0x1F = x"
proof -
  have m: "m = take_bit 3 m" using assms(1) by (simp add: take_bit_u8 word_less_nat_alt)
  have x: "x = take_bit 5 x" using assms(2) by (simp add: take_bit_u8 word_less_nat_alt)
  have mask: "(0x1F :: u8) = mask 5" by (simp add: mask_eq_exp_minus_1)
  have "drop_bit 5 (push_bit 5 (take_bit 3 m) OR take_bit 5 x) = take_bit 3 m"
    by (rule bit_eqI) (auto simp: bit_simps)
  then show "drop_bit 5 (push_bit 5 m OR x) = m" by (simp flip: m x)
  have "(push_bit 5 m OR take_bit 5 x) AND 0x1F = take_bit 5 x"
    unfolding mask take_bit_eq_mask [symmetric] by (rule bit_eqI) (auto simp: bit_simps)
  then show "(push_bit 5 m OR x) AND 0x1F = x" by (simp flip: x)
qed

lemma ucast_ucast_small:
  assumes "unat (n :: 'a::len word) < 2 ^ LENGTH('b::len)"
  shows "ucast (ucast n :: 'b word) = n"
  using assms unsigned_less [of n]
  by (simp add: word_unat_eq_iff unsigned_ucast_eq unsigned_take_bit_eq take_bit_nat_eq_self)

lemma encode_head_ne [simp]: "encode_head major n \<noteq> []"
  by (simp add: encode_head_def)

lemma need_ok: "length buf < 2 ^ 64 \<Longrightarrow> need buf pos n = (if pos + n \<le> length buf then Inr () else Inl (Err Truncated))"
  by (simp add: need_def)

lemma nth_append_at [simp]: "(p @ b # s) ! length p = b"
  by simp

lemma to_be_bytes_2: "to_be_bytes 2 w = [ucast (drop_bit 8 w), ucast w]"
  by (simp add: to_be_bytes_def upt_rec)

text \<open>Reading a count of each width at the end of a prefix \<open>p\<close>.\<close>

lemma decode_count_tail:
  fixes p s :: bytes
  shows "ai \<le> 23 \<Longrightarrow> decode_count buf pos ai = Inr (ucast ai, pos)"
    "length (p @ [b] @ s) < 2 ^ 64 \<Longrightarrow>
      decode_count (p @ [b] @ s) (length p) 24 = Inr (ucast b, length p + 1)"
    "length (p @ to_be_bytes 2 (w :: u16) @ s) < 2 ^ 64 \<Longrightarrow>
      decode_count (p @ to_be_bytes 2 w @ s) (length p) 25 = Inr (ucast w, length p + 2)"
    "length (p @ to_be_bytes 4 (x :: u32) @ s) < 2 ^ 64 \<Longrightarrow>
      decode_count (p @ to_be_bytes 4 x @ s) (length p) 26 = Inr (ucast x, length p + 4)"
    "length (p @ to_be_bytes 8 (y :: u64) @ s) < 2 ^ 64 \<Longrightarrow>
      decode_count (p @ to_be_bytes 8 y @ s) (length p) 27 = Inr (y, length p + 8)"
proof -
  show "decode_count buf pos ai = Inr (ucast ai, pos)" if "ai \<le> 23"
    using that by (simp add: decode_count_def)
  show "decode_count (p @ [b] @ s) (length p) 24 = Inr (ucast b, length p + 1)"
    if "length (p @ [b] @ s) < 2 ^ 64"
    using that by (simp add: decode_count_def need_ok)
  show "decode_count (p @ to_be_bytes 2 w @ s) (length p) 25 = Inr (ucast w, length p + 2)"
    if "length (p @ to_be_bytes 2 w @ s) < 2 ^ 64"
  proof -
    have "from_be_bytes [ucast (drop_bit 8 w), ucast w] = w"
      using from_to_be_bytes [of 2 w] by (simp add: to_be_bytes_2)
    with that show ?thesis by (simp add: decode_count_def need_ok to_be_bytes_2 nth_append)
  qed
  show "decode_count (p @ to_be_bytes 4 x @ s) (length p) 26 = Inr (ucast x, length p + 4)"
    if "length (p @ to_be_bytes 4 x @ s) < 2 ^ 64"
    using that by (simp add: decode_count_def need_ok slice_append_len from_to_be_bytes)
  show "decode_count (p @ to_be_bytes 8 y @ s) (length p) 27 = Inr (y, length p + 8)"
    if "length (p @ to_be_bytes 8 y @ s) < 2 ^ 64"
    using that by (simp add: decode_count_def need_ok slice_append_len from_to_be_bytes)
qed

text \<open>The first byte of a head carries the major type, and the count reads back.\<close>

lemma encode_head_cases:
  fixes n :: u64
  obtains "encode_head major n = [push_bit 5 major OR ucast n]" "unat n \<le> 23"
  | "encode_head major n = (push_bit 5 major OR 24) # [ucast n]" "unat n < 2 ^ 8"
  | "encode_head major n = (push_bit 5 major OR 25) # to_be_bytes 2 (ucast n :: u16)" "unat n < 2 ^ 16"
  | "encode_head major n = (push_bit 5 major OR 26) # to_be_bytes 4 (ucast n :: u32)" "unat n < 2 ^ 32"
  | "encode_head major n = (push_bit 5 major OR 27) # to_be_bytes 8 n"
proof -
  consider "n \<le> 23" | "\<not> n \<le> 23" "n \<le> 0xFF" | "\<not> n \<le> 23" "\<not> n \<le> 0xFF" "n \<le> 0xFFFF"
    | "\<not> n \<le> 23" "\<not> n \<le> 0xFF" "\<not> n \<le> 0xFFFF" "n \<le> 0xFFFFFFFF"
    | "\<not> n \<le> 23" "\<not> n \<le> 0xFF" "\<not> n \<le> 0xFFFF" "\<not> n \<le> 0xFFFFFFFF" by argo
  then show thesis
    by cases (erule that | simp add: encode_head_def word_le_nat_alt that)+
qed

lemma decode_count_head:
  assumes "major < 8" "length (pre @ encode_head major n @ suf) < 2 ^ 64"
  shows "drop_bit 5 (hd (encode_head major n)) = major"
    "decode_count (pre @ encode_head major n @ suf) (Suc (length pre)) (hd (encode_head major n) AND 0x1F)
      = Inr (n, length pre + length (encode_head major n))"
proof -
  have small: "(ucast n :: u8) \<le> 23" if "unat n \<le> 23"
    using that by (simp add: word_le_nat_alt unsigned_ucast_eq unsigned_take_bit_eq take_bit_nat_eq_self)
  have pre: "pre @ (b # rest) @ suf = (pre @ [b]) @ rest @ suf" "Suc (length pre) = length (pre @ [b])"
    for b rest by simp_all
  have hb: "drop_bit 5 (push_bit 5 major OR x) = major" "(push_bit 5 major OR x) AND 0x1F = x" if "x < 32" for x
    using head_byte [OF assms(1) that] by simp_all
  have "drop_bit 5 (hd (encode_head major n)) = major \<and>
    decode_count (pre @ encode_head major n @ suf) (Suc (length pre)) (hd (encode_head major n) AND 0x1F)
      = Inr (n, length pre + length (encode_head major n))"
  proof (cases rule: encode_head_cases [of major n])
    case 1
    have "(ucast n :: u8) < 32" using small [OF 1(2)] by (rule order_le_less_trans) simp
    then show ?thesis using 1 small
      by (simp add: hb decode_count_tail(1) ucast_ucast_small del: drop_bit_or)
  next
    case 2
    from assms(2) have "length ((pre @ [push_bit 5 major OR 24]) @ [ucast n] @ suf) < 2 ^ 64" by (simp add: 2)
    from decode_count_tail(2) [OF this] show ?thesis using 2 by (simp add: hb ucast_ucast_small del: drop_bit_or)
  next
    case 3
    from assms(2) have "length ((pre @ [push_bit 5 major OR 25]) @ to_be_bytes 2 (ucast n :: u16) @ suf) < 2 ^ 64"
      by (simp add: 3)
    from decode_count_tail(3) [OF this] show ?thesis using 3 by (simp add: hb ucast_ucast_small del: drop_bit_or)
  next
    case 4
    from assms(2) have "length ((pre @ [push_bit 5 major OR 26]) @ to_be_bytes 4 (ucast n :: u32) @ suf) < 2 ^ 64"
      by (simp add: 4)
    from decode_count_tail(4) [OF this] show ?thesis using 4 by (simp add: hb ucast_ucast_small del: drop_bit_or)
  next
    case 5
    from assms(2) have "length ((pre @ [push_bit 5 major OR 27]) @ to_be_bytes 8 n @ suf) < 2 ^ 64"
      by (simp add: 5)
    from decode_count_tail(5) [OF this] show ?thesis using 5 by (simp add: hb del: drop_bit_or)
  qed
  then show "drop_bit 5 (hd (encode_head major n)) = major"
    "decode_count (pre @ encode_head major n @ suf) (Suc (length pre)) (hd (encode_head major n) AND 0x1F)
      = Inr (n, length pre + length (encode_head major n))" by simp_all
qed

lemma decode_one_head:
  assumes "major < 7" "d \<le> MAX_NESTING_DEPTH" "length (pre @ encode_head major n @ suf) < 2 ^ 64"
    "buf = pre @ encode_head major n @ suf" "nxt = length pre + length (encode_head major n)"
  shows "decode_one buf (length pre) d nc =
    (if major = 0 then scalar_canonical_bytes (IntV (uint n)) nxt nc
     else if major = 1 then scalar_canonical_bytes (IntV (-1 - uint n)) nxt nc
     else if major = 2 then
       bindR (need buf nxt (unat n)) (\<lambda>_. bindR (slice_at buf nxt (nxt + unat n)) (\<lambda>b.
         scalar_canonical_bytes (Bytes b) (nxt + unat n) nc))
     else if major = 3 then
       bindR (need buf nxt (unat n)) (\<lambda>_. bindR (slice_at buf nxt (nxt + unat n)) (\<lambda>b.
         bindR (ok_or (Err InvalidUtf8) (from_utf8 b)) (\<lambda>t.
           scalar_canonical_bytes (Text t) (nxt + unat n) nc)))
     else if major = 4 then
       decode_list buf nxt (unat n) (d + 1) nc [] (if nc then encode_head 4 n else [])
     else if major = 5 then decode_map buf nxt (unat n) (d + 1) nc empty_map_state
     else Inl (Err (UnsupportedMajorType major)))"
proof -
  have m8: "major < 8" using assms(1) by (rule order_less_trans) simp
  obtain b rest where b: "encode_head major n = b # rest" by (cases "encode_head major n") simp_all
  have at: "buf ! length pre = b" "length pre < length buf" using assms(4) b by simp_all
  have "drop_bit 5 b = major" "decode_count buf (Suc (length pre)) (b AND 0x1F) = Inr (n, nxt)"
    using decode_count_head [OF m8 assms(3)] assms(4,5) b by simp_all
  moreover have "length buf < 2 ^ 64" using assms(3,4) by simp
  moreover have "major \<noteq> 7" using assms(1) by auto
  ultimately show ?thesis using assms(2) at
    by (subst decode_one.simps) (simp add: need_ok Let_def)
qed

subsection \<open>The round trip\<close>

text \<open>\<open>rt d nc v\<close>: at depth \<open>d\<close>, the encoding of \<open>v\<close> decodes to its normal form wherever it stands.\<close>

definition rt :: "nat \<Rightarrow> bool \<Rightarrow> Value \<Rightarrow> bool" where
  "rt d nc v \<longleftrightarrow> (\<forall>pre suf. length (pre @ enc v @ suf) < 2 ^ 64 \<longrightarrow>
     decode_one (pre @ enc v @ suf) (length pre) d nc =
       Inr (normal v, if nc then enc v else [], length pre + length (enc v)))"

lemma rtD:
  "rt d nc v \<Longrightarrow> length (pre @ enc v @ suf) < 2 ^ 64 \<Longrightarrow>
     decode_one (pre @ enc v @ suf) (length pre) d nc =
       Inr (normal v, if nc then enc v else [], length pre + length (enc v))"
  by (simp add: rt_def)

lemma decode_list_enc:
  assumes "\<And>x. x \<in> set xs \<Longrightarrow> rt d nc x" "length (pre @ concat (map enc xs) @ suf) < 2 ^ 64"
  shows "decode_list (pre @ concat (map enc xs) @ suf) (length pre) (length xs) d nc items canon =
    Inr (List (items @ map normal xs), if nc then canon @ concat (map enc xs) else canon,
         length pre + length (concat (map enc xs)))"
  using assms
proof (induction xs arbitrary: pre items canon)
  case Nil
  then show ?case by (simp add: decode_list.simps)
next
  case (Cons x xs)
  have one: "decode_one (pre @ enc x @ concat (map enc xs) @ suf) (length pre) d nc =
      Inr (normal x, if nc then enc x else [], length pre + length (enc x))"
    using Cons.prems by (intro rtD) auto
  have "decode_list ((pre @ enc x) @ concat (map enc xs) @ suf) (length (pre @ enc x)) (length xs) d nc
      (items @ [normal x]) (if nc then canon @ enc x else canon) =
    Inr (List ((items @ [normal x]) @ map normal xs),
         if nc then (if nc then canon @ enc x else canon) @ concat (map enc xs) else (if nc then canon @ enc x else canon),
         length (pre @ enc x) + length (concat (map enc xs)))"
    using Cons.prems by (intro Cons.IH) auto
  with one show ?case by (subst decode_list.simps) auto
qed

definition add_entries :: "bool \<Rightarrow> (Value \<times> Value) list \<Rightarrow> map_state \<Rightarrow> map_state" where
  "add_entries nc qs s =
    s\<lparr>pairs := pairs s @ map (\<lambda>p. (normal (fst p), normal (snd p))) qs,
      index_of_key := index_of_key s @
        zip (map (\<lambda>p. enc (fst p)) qs) [length (pairs s)..<length (pairs s) + length qs],
      vals_canon := (if nc then vals_canon s @ map (\<lambda>p. enc (snd p)) qs else vals_canon s)\<rparr>"

lemma add_entries_Nil [simp]: "add_entries nc [] s = s"
  by (simp add: add_entries_def)

lemma add_entries_Cons:
  "add_entries nc ((k, v) # qs) s =
    add_entries nc qs (s\<lparr>pairs := pairs s @ [(normal k, normal v)],
      index_of_key := index_of_key s @ [(enc k, length (pairs s))],
      vals_canon := (if nc then vals_canon s @ [enc v] else vals_canon s)\<rparr>)"
  by (simp add: add_entries_def upt_rec)

lemma map_of_None: "key \<notin> set (map fst xs) \<Longrightarrow> map_of xs key = None"
  by (simp add: map_of_eq_None_iff)

lemma decode_map_enc:
  assumes "\<And>p. p \<in> set qs \<Longrightarrow> rt d True (fst p) \<and> rt d nc (snd p)"
    "length (pre @ concat (map (\<lambda>p. enc (fst p) @ enc (snd p)) qs) @ suf) < 2 ^ 64"
    "distinct (map fst (index_of_key s) @ map (\<lambda>p. enc (fst p)) qs)"
  shows "decode_map (pre @ concat (map (\<lambda>p. enc (fst p) @ enc (snd p)) qs) @ suf) (length pre) (length qs) d nc s =
    finish_map nc (add_entries nc qs s) (length pre + length (concat (map (\<lambda>p. enc (fst p) @ enc (snd p)) qs)))"
  using assms
proof (induction qs arbitrary: pre s)
  case Nil
  then show ?case by (simp add: decode_map.simps)
next
  case (Cons p qs)
  obtain k v where p: "p = (k, v)" by (cases p)
  let ?rest = "concat (map (\<lambda>p. enc (fst p) @ enc (snd p)) qs)"
  let ?s = "s\<lparr>pairs := pairs s @ [(normal k, normal v)],
      index_of_key := index_of_key s @ [(enc k, length (pairs s))],
      vals_canon := (if nc then vals_canon s @ [enc v] else vals_canon s)\<rparr>"
  have kv: "rt d True k" "rt d nc v" using Cons.prems(1) [of p] p by auto
  have k: "decode_one (pre @ enc k @ enc v @ ?rest @ suf) (length pre) d True =
      Inr (normal k, if True then enc k else [], length pre + length (enc k))"
    by (rule rtD [OF kv(1)]) (use Cons.prems(2) p in simp)
  have "decode_one ((pre @ enc k) @ enc v @ ?rest @ suf) (length (pre @ enc k)) d nc =
      Inr (normal v, if nc then enc v else [], length (pre @ enc k) + length (enc v))"
    using rtD [OF kv(2), of "pre @ enc k" "?rest @ suf"] Cons.prems(2) p by simp
  then have v: "decode_one (pre @ enc k @ enc v @ ?rest @ suf) (length pre + length (enc k)) d nc =
      Inr (normal v, if nc then enc v else [], length pre + length (enc k) + length (enc v))" by simp
  have ins: "insert_entry nc (enc k) (normal k) (normal v) (if nc then enc v else []) s = Inr ?s"
    using Cons.prems(3) p by (simp add: insert_entry_def map_of_None)
  have rest: "decode_map ((pre @ enc k @ enc v) @ ?rest @ suf) (length (pre @ enc k @ enc v)) (length qs) d nc ?s =
      finish_map nc (add_entries nc qs ?s) (length (pre @ enc k @ enc v) + length ?rest)"
    using Cons.prems p by (intro Cons.IH) auto
  from rest have "decode_map (pre @ enc k @ enc v @ ?rest @ suf) (length pre + length (enc k) + length (enc v))
      (length qs) d nc ?s = finish_map nc (add_entries nc qs ?s) (length pre + length (enc k) + length (enc v) + length ?rest)"
    by (simp add: add.assoc)
  then show ?case using k v ins
    by (subst decode_map.simps) (simp add: p add_entries_Cons add.assoc)
qed

lemma mapR_zip_index:
  assumes "length ks = length vs"
  shows "mapR (\<lambda>(k, i). bindR (index_at vs i) (\<lambda>vc. Inr (k @ vc))) (zip ks [0..<length ks]) =
     Inr (map2 (@) ks vs)"
  unfolding mapR_eq_Inr list_all2_conv_all_nth using assms by simp

lemma finish_map_enc:
  assumes "wfv (Map ps)"
  shows "finish_map nc (add_entries nc (sort_key (\<lambda>p. enc (fst p)) ps) empty_map_state) pos =
    Inr (normal (Map ps), if nc then enc (Map ps) else [], pos)"
proof -
  define qs where "qs = sort_key (\<lambda>p. enc (fst p)) ps"
  have srt: "sorted (map (\<lambda>p. enc (fst p)) qs)" by (simp add: qs_def)
  have ord: "sort_key fst (zip (map (\<lambda>p. enc (fst p)) qs) [0..<length qs]) =
      zip (map (\<lambda>p. enc (fst p)) qs) [0..<length qs]"
    by (rule sort_key_id_if_sorted) (use srt in simp)
  have parts: "mapR (\<lambda>(k, i). bindR (index_at (map (\<lambda>p. enc (snd p)) qs) i) (\<lambda>vc. Inr (k @ vc)))
      (zip (map (\<lambda>p. enc (fst p)) qs) [0..<length qs]) = Inr (map (\<lambda>p. enc (fst p) @ enc (snd p)) qs)"
    using mapR_zip_index [of "map (\<lambda>p. enc (fst p)) qs" "map (\<lambda>p. enc (snd p)) qs"]
    by (simp add: zip_map1 zip_map2 comp_def case_prod_unfold zip_same_conv_map)
  have len: "length qs = length ps" by (simp add: qs_def)
  have em: "enc (Map ps) = encode_head 5 (word_of_nat (length qs)) @ concat (map (\<lambda>p. enc (fst p) @ enc (snd p)) qs)"
    using assms by (simp add: enc_Map encode_sorted_pairs_enc qs_def)
  show ?thesis unfolding qs_def [symmetric]
    by (simp add: finish_map_def add_entries_def empty_map_state_def ord parts em)
       (simp add: qs_def)
qed

lemma enc_ne: "wfv v \<Longrightarrow> enc v \<noteq> []"
  by (cases v) (simp_all add: enc_Int enc_List enc_Map encode_sorted_pairs_def Let_def)

lemma length_concat_enc:
  "(\<And>x. x \<in> set xs \<Longrightarrow> f x \<noteq> []) \<Longrightarrow> length xs \<le> length (concat (map f xs))"
proof (induction xs)
  case Nil
  then show ?case by simp
next
  case (Cons x xs)
  then have one: "Suc 0 \<le> length (f x)" and rest: "length xs \<le> length (concat (map f xs))"
    by (auto simp: Suc_le_eq)
  from add_le_mono [OF one rest] show ?case by simp
qed

lemma unat_of_nat_u64: "n < 2 ^ 64 \<Longrightarrow> unat (word_of_nat n :: u64) = n"
  by (simp add: unsigned_of_nat take_bit_nat_eq_self)

lemma scalar_canonical_ok:
  "wfv v \<Longrightarrow> scalar_canonical_bytes v nxt nc = Inr (v, if nc then enc v else [], nxt)"
  by (simp add: scalar_canonical_bytes_def with_canonical_bytes_def encode_ok)

lemma rt_Int:
  assumes "wfv (IntV n)" "d \<le> MAX_NESTING_DEPTH"
  shows "rt d nc (IntV n)"
proof (unfold rt_def, intro allI impI)
  fix pre suf :: bytes
  assume len: "length (pre @ enc (IntV n) @ suf) < 2 ^ 64"
  have u: "uint (word_of_int k :: u64) = k" if "0 \<le> k" "k < 2 ^ 64" for k
    using that by (simp add: unsigned_of_int take_bit_int_eq_self)
  show "decode_one (pre @ enc (IntV n) @ suf) (length pre) d nc =
      Inr (normal (IntV n), if nc then enc (IntV n) else [], length pre + length (enc (IntV n)))"
  proof (cases "0 \<le> n")
    case True
    then have e: "enc (IntV n) = encode_head 0 (word_of_int n)" using assms(1) by (simp add: enc_Int)
    show ?thesis using True assms len unfolding e
      by (subst decode_one_head [where major = 0 and n = "word_of_int n" and suf = suf
            and nxt = "length pre + length (encode_head 0 (word_of_int n))", OF _ assms(2)])
         (simp_all add: u scalar_canonical_ok e)
  next
    case False
    define k where "k = (word_of_int (-1 - n) :: u64)"
    have k: "uint k = -1 - n" unfolding k_def by (rule u) (use False assms(1) in simp_all)
    from False have e: "enc (IntV n) = encode_head 1 k" using assms(1) by (simp add: enc_Int k_def)
    show ?thesis using assms len unfolding e
      by (subst decode_one_head [where major = 1 and n = k and suf = suf
            and nxt = "length pre + length (encode_head 1 k)", OF _ assms(2)])
         (simp_all add: k scalar_canonical_ok e)
  qed
qed

lemma rt_Bytes:
  assumes "d \<le> MAX_NESTING_DEPTH"
  shows "rt d nc (Bytes b)"
proof (unfold rt_def, intro allI impI)
  fix pre suf :: bytes
  let ?h = "encode_head 2 (word_of_nat (length b))"
  assume len: "length (pre @ enc (Bytes b) @ suf) < 2 ^ 64"
  then have u: "unat (word_of_nat (length b) :: u64) = length b" by (intro unat_of_nat_u64) simp
  have sl: "(slice_at (pre @ ?h @ b @ suf) (length pre + length ?h) (length pre + length ?h + length b) :: (_, DecodeError fail) result) = Inr b"
    using slice_append [of "pre @ ?h" b suf] by simp
  have nd: "need (pre @ ?h @ b @ suf) (length pre + length ?h) (length b) = Inr ()"
    using len by (simp add: need_ok)
  show "decode_one (pre @ enc (Bytes b) @ suf) (length pre) d nc =
      Inr (normal (Bytes b), if nc then enc (Bytes b) else [], length pre + length (enc (Bytes b)))"
    using len
    by (subst decode_one_head [where major = 2 and n = "word_of_nat (length b)" and suf = "b @ suf"
          and nxt = "length pre + length ?h", OF _ assms])
       (simp_all add: u nd sl scalar_canonical_ok del: slice_at_eq)
qed

lemma rt_Text:
  assumes "valid_str t" "d \<le> MAX_NESTING_DEPTH"
  shows "rt d nc (Text t)"
proof (unfold rt_def, intro allI impI)
  fix pre suf :: bytes
  let ?h = "encode_head 3 (word_of_nat (length t))"
  assume len: "length (pre @ enc (Text t) @ suf) < 2 ^ 64"
  then have u: "unat (word_of_nat (length t) :: u64) = length t" by (intro unat_of_nat_u64) simp
  have sl: "(slice_at (pre @ ?h @ as_bytes t @ suf) (length pre + length ?h) (length pre + length ?h + length t)
      :: (_, DecodeError fail) result) = Inr (as_bytes t)"
    using slice_append [of "pre @ ?h" "as_bytes t" suf] by simp
  have nd: "need (pre @ ?h @ as_bytes t @ suf) (length pre + length ?h) (length t) = Inr ()"
    using len by (simp add: need_ok)
  show "decode_one (pre @ enc (Text t) @ suf) (length pre) d nc =
      Inr (normal (Text t), if nc then enc (Text t) else [], length pre + length (enc (Text t)))"
    using len assms(1)
    by (subst decode_one_head [where major = 3 and n = "word_of_nat (length t)" and suf = "as_bytes t @ suf"
          and nxt = "length pre + length ?h", OF _ assms(2)])
       (simp_all add: u nd sl scalar_canonical_ok from_utf8_as_bytes del: slice_at_eq)
qed

lemma rt_Null: "d \<le> MAX_NESTING_DEPTH \<Longrightarrow> rt d nc Null"
  by (auto simp: rt_def decode_one.simps need_ok decode_major7_def scalar_canonical_ok)

lemma rt_Float:
  assumes "d \<le> MAX_NESTING_DEPTH"
  shows "rt d nc (Float f)"
proof (unfold rt_def, intro allI impI)
  fix pre suf :: bytes
  assume len: "length (pre @ enc (Float f) @ suf) < 2 ^ 64"
  have sl: "(slice_at (pre @ 0xFB # to_be_bytes 8 f @ suf) (Suc (length pre)) (length pre + 9)
      :: (_, DecodeError fail) result) = Inr (to_be_bytes 8 f)"
    using slice_append_len [of 8 "to_be_bytes 8 f" "pre @ [0xFB]" suf] by (simp add: add.commute)
  show "decode_one (pre @ enc (Float f) @ suf) (length pre) d nc =
      Inr (normal (Float f), if nc then enc (Float f) else [], length pre + length (enc (Float f)))"
    using len sl assms
    by (subst decode_one.simps) (simp add: need_ok decode_major7_def scalar_canonical_ok from_to_be_bytes)
qed

lemma rt_List:
  assumes "wfv (List items)" "d \<le> MAX_NESTING_DEPTH" "\<And>x. x \<in> set items \<Longrightarrow> rt (d + 1) nc x"
  shows "rt d nc (List items)"
proof (unfold rt_def, intro allI impI)
  fix pre suf :: bytes
  define n :: u64 where "n = word_of_nat (length items)"
  let ?h = "encode_head 4 n" and ?body = "concat (map enc items)"
  have e: "enc (List items) = ?h @ ?body" using assms(1) by (simp add: enc_List n_def)
  assume len: "length (pre @ enc (List items) @ suf) < 2 ^ 64"
  have "length items \<le> length ?body" by (rule length_concat_enc) (use assms(1) enc_ne in auto)
  also have "\<dots> < 2 ^ 64" using len by (simp add: e)
  finally have u: "unat n = length items" unfolding n_def by (rule unat_of_nat_u64)
  have "decode_list ((pre @ ?h) @ ?body @ suf) (length (pre @ ?h)) (length items) (d + 1) nc []
      (if nc then ?h else []) =
    Inr (List ([] @ map normal items), if nc then (if nc then ?h else []) @ ?body else (if nc then ?h else []),
         length (pre @ ?h) + length ?body)"
    by (rule decode_list_enc) (use assms(3) len in \<open>simp_all add: e\<close>)
  then show "decode_one (pre @ enc (List items) @ suf) (length pre) d nc =
      Inr (normal (List items), if nc then enc (List items) else [], length pre + length (enc (List items)))"
    using len unfolding e
    by (subst decode_one_head [where major = 4 and n = n and suf = "?body @ suf"
          and nxt = "length pre + length ?h", OF _ assms(2)])
       (simp_all add: u add.assoc)
qed

lemma rt_Map:
  assumes "wfv (Map ps)" "d \<le> MAX_NESTING_DEPTH"
    "\<And>p. p \<in> set ps \<Longrightarrow> rt (d + 1) True (fst p) \<and> rt (d + 1) nc (snd p)"
  shows "rt d nc (Map ps)"
proof (unfold rt_def, intro allI impI)
  fix pre suf :: bytes
  define n :: u64 where "n = word_of_nat (length ps)"
  define qs where "qs = sort_key (\<lambda>p. enc (fst p)) ps"
  let ?h = "encode_head 5 n" and ?body = "concat (map (\<lambda>p. enc (fst p) @ enc (snd p)) qs)"
  have e: "enc (Map ps) = ?h @ ?body"
    using assms(1) by (simp add: enc_Map encode_sorted_pairs_enc n_def qs_def)
  assume len: "length (pre @ enc (Map ps) @ suf) < 2 ^ 64"
  have lq: "length qs = length ps" by (simp add: qs_def)
  have "length qs \<le> length ?body" by (rule length_concat_enc) (use assms(1) enc_ne in \<open>auto simp: qs_def\<close>)
  also have "\<dots> < 2 ^ 64" using len by (simp add: e)
  finally have u: "unat n = length qs" unfolding n_def lq by (rule unat_of_nat_u64)
  have dist: "distinct (map (\<lambda>p. enc (fst p)) qs)"
    using assms(1) sort_key_map [of "\<lambda>x. x" "\<lambda>p. enc (fst p)" ps] by (simp add: qs_def) (metis distinct_sort)
  have "decode_map ((pre @ ?h) @ ?body @ suf) (length (pre @ ?h)) (length qs) (d + 1) nc empty_map_state =
    finish_map nc (add_entries nc qs empty_map_state) (length (pre @ ?h) + length ?body)"
    by (rule decode_map_enc) (use assms(3) len dist in \<open>simp_all add: e qs_def empty_map_state_def\<close>)
  also have "\<dots> = Inr (normal (Map ps), if nc then enc (Map ps) else [], length (pre @ ?h) + length ?body)"
    unfolding qs_def by (rule finish_map_enc) (rule assms(1))
  finally show "decode_one (pre @ enc (Map ps) @ suf) (length pre) d nc =
      Inr (normal (Map ps), if nc then enc (Map ps) else [], length pre + length (enc (Map ps)))"
    using len unfolding e
    by (subst decode_one_head [where major = 5 and n = n and suf = "?body @ suf"
          and nxt = "length pre + length ?h", OF _ assms(2)])
       (simp_all add: u add.assoc split del: if_split)
qed

lemma rt_value: "wfv v \<Longrightarrow> d + vdepth v \<le> MAX_NESTING_DEPTH \<Longrightarrow> rt d nc v"
proof (induction v arbitrary: d nc rule: value_induct)
  case (List items)
  have "vdepth (List items) \<le> MAX_NESTING_DEPTH - d" using List.prems(2) by linarith
  then have "Suc (vdepth x) \<le> MAX_NESTING_DEPTH - d" if "x \<in> set items" for x
    using that unfolding vdepth_List by blast
  then have "d + 1 + vdepth x \<le> MAX_NESTING_DEPTH" if "x \<in> set items" for x
    using that by fastforce
  then show ?case using List by (intro rt_List) auto
next
  case (Map ps)
  have "vdepth (Map ps) \<le> MAX_NESTING_DEPTH - d" using Map.prems(2) by linarith
  then have "Suc (vdepth (fst p)) \<le> MAX_NESTING_DEPTH - d \<and> Suc (vdepth (snd p)) \<le> MAX_NESTING_DEPTH - d"
    if "p \<in> set ps" for p using that unfolding vdepth_Map by blast
  then have "d + 1 + vdepth (fst p) \<le> MAX_NESTING_DEPTH \<and> d + 1 + vdepth (snd p) \<le> MAX_NESTING_DEPTH"
    if "p \<in> set ps" for p using that by fastforce
  then show ?case using Map by (intro rt_Map) auto
qed (auto intro: rt_Int rt_Bytes rt_Text rt_Null rt_Float)

lemmas [eval_simps] = enc_def

end
