(* ===== verification/CborSafety.thy ===== *)
theory CborSafety
  imports CborCorrect
begin

unbundle bit_operations_syntax

section \<open>CborSafety: the decoder on arbitrary input\<close>

text \<open>
  What \<open>decode_one\<close> returns on any buffer: never a panic; otherwise a well-formed value within
  the nesting limit, a position behind the consumed bytes and inside the buffer, and, when
  asked, canonical bytes that are exactly the encoder's output for the value.
\<close>

subsection \<open>The invariant of the map loop\<close>

definition decoded_ok :: "nat \<Rightarrow> Value \<Rightarrow> bool" where
  "decoded_ok d v \<longleftrightarrow> wfv v \<and> d + vdepth v \<le> MAX_NESTING_DEPTH"

definition map_state_ok :: "nat \<Rightarrow> bool \<Rightarrow> map_state \<Rightarrow> bool" where
  "map_state_ok d nc s \<longleftrightarrow>
     index_of_key s = zip (map (\<lambda>p. enc (fst p)) (pairs s)) [0..<length (pairs s)] \<and>
     (nc \<longrightarrow> vals_canon s = map (\<lambda>p. enc (snd p)) (pairs s)) \<and>
     distinct (map (\<lambda>p. enc (fst p)) (pairs s)) \<and>
     (\<forall>p \<in> set (pairs s). decoded_ok d (fst p) \<and> decoded_ok d (snd p))"

lemma map_state_ok_empty: "map_state_ok d nc empty_map_state"
  by (simp add: map_state_ok_def empty_map_state_def)

lemma map_of_zip_index:
  "distinct ks \<Longrightarrow> map_of (zip ks [0..<length ks]) key = Some i \<longleftrightarrow> i < length ks \<and> ks ! i = key"
  by (subst map_of_eq_Some_iff) (auto simp: set_zip)

lemma map_of_zip_index_None:
  "map_of (zip ks [0..<length ks]) key = None \<longleftrightarrow> key \<notin> set ks"
  by (simp add: map_of_zip_is_None)

text \<open>
  One iteration keeps the invariant; a key already present keeps its slot and its first
  spelling and takes the new value, a new key is appended.
\<close>

lemma insert_entry_ok:
  assumes "map_state_ok d nc s" "decoded_ok d k" "decoded_ok d v"
  obtains s' where "insert_entry nc (enc k) k v (if nc then enc v else []) s = Inr s'"
    "map_state_ok d nc s'"
proof (cases "map_of (index_of_key s) (enc k)")
  case None
  define s' where "s' = s\<lparr>pairs := pairs s @ [(k, v)],
      index_of_key := index_of_key s @ [(enc k, length (pairs s))],
      vals_canon := (if nc then vals_canon s @ [if nc then enc v else []] else vals_canon s)\<rparr>"
  have idx: "index_of_key s = zip (map (\<lambda>p. enc (fst p)) (pairs s)) [0..<length (pairs s)]"
    using assms(1) by (simp add: map_state_ok_def)
  have "enc k \<notin> set (map (\<lambda>p. enc (fst p)) (pairs s))"
    using None map_of_zip_index_None [of "map (\<lambda>p. enc (fst p)) (pairs s)" "enc k"] unfolding idx by simp
  then have "map_state_ok d nc s'"
    using assms by (auto simp: map_state_ok_def s'_def)
  moreover have "insert_entry nc (enc k) k v (if nc then enc v else []) s = Inr s'"
    using None by (simp add: insert_entry_def s'_def)
  ultimately show thesis by (rule that [rotated])
next
  case (Some i)
  define s' where "s' = s\<lparr>pairs := (pairs s)[i := (fst (pairs s ! i), v)],
      vals_canon := (if nc then (vals_canon s)[i := if nc then enc v else []] else vals_canon s)\<rparr>"
  have idx: "index_of_key s = zip (map (\<lambda>p. enc (fst p)) (pairs s)) [0..<length (pairs s)]"
    and dist: "distinct (map (\<lambda>p. enc (fst p)) (pairs s))"
    using assms(1) by (simp_all add: map_state_ok_def)
  have i: "i < length (pairs s)" "enc (fst (pairs s ! i)) = enc k"
    using Some map_of_zip_index [OF dist, of "enc k" i] unfolding idx by auto
  have keys: "map (\<lambda>p. enc (fst p)) ((pairs s)[i := (fst (pairs s ! i), v)]) = map (\<lambda>p. enc (fst p)) (pairs s)"
    using i(1) by (simp add: map_update) (metis list_update_id nth_map)
  have mem: "fst (pairs s ! i) \<in> fst ` set (pairs s)" using i(1) by simp
  have "map_state_ok d nc s'"
    using assms i keys mem set_update_subset_insert [of "pairs s" i "(fst (pairs s ! i), v)"]
    by (auto simp: map_state_ok_def s'_def map_update dest!: subsetD)
  moreover have "insert_entry nc (enc k) k v (if nc then enc v else []) s = Inr s'"
    using Some i assms(1) by (auto simp: insert_entry_def s'_def map_state_ok_def)
  ultimately show thesis by (rule that [rotated])
qed

lemma finish_map_ok:
  assumes "map_state_ok d nc s"
  shows "finish_map nc s pos = Inr (Map (pairs s), if nc then enc (Map (pairs s)) else [], pos)"
    "wfv (Map (pairs s))"
proof -
  let ?ks = "map (\<lambda>p. enc (fst p)) (pairs s)" and ?vs = "map (\<lambda>p. enc (snd p)) (pairs s)"
  show wf: "wfv (Map (pairs s))" using assms by (auto simp: map_state_ok_def decoded_ok_def)
  have "mapR (\<lambda>(k, i). bindR (index_at ?vs i) (\<lambda>vc. Inr (k @ vc))) (sort_key fst (zip ?ks [0..<length (pairs s)]))
      = (Inr (map (\<lambda>(k, v). k @ v) (sort_key fst (zip ?ks ?vs))) :: (_, DecodeError fail) result)"
  proof -
    have z: "zip ?ks ?vs = map (\<lambda>(k, i). (k, ?vs ! i)) (zip ?ks [0..<length (pairs s)])"
      by (rule nth_equalityI) auto
    have "sort_key fst (zip ?ks ?vs) = map (\<lambda>(k, i). (k, ?vs ! i)) (sort_key fst (zip ?ks [0..<length (pairs s)]))"
      unfolding z by (simp add: sort_key_map case_prod_unfold)
    moreover have "mapR (\<lambda>(k, i). bindR (index_at ?vs i) (\<lambda>vc. Inr (k @ vc)))
        (sort_key fst (zip ?ks [0..<length (pairs s)]))
      = (Inr (map (\<lambda>(k, i). k @ ?vs ! i) (sort_key fst (zip ?ks [0..<length (pairs s)])))
          :: (_, DecodeError fail) result)"
      by (rule mapR_map_Inr [where g = "\<lambda>x. x", simplified])
         (auto simp: index_at_def dest: set_zip_rightD)
    ultimately show ?thesis by (simp add: case_prod_unfold comp_def)
  qed
  moreover have "zip ?ks ?vs = map enc_pair (pairs s)"
    by (simp add: enc_pair_def zip_map1 zip_map2 comp_def case_prod_unfold zip_same_conv_map)
  ultimately show "finish_map nc s pos = Inr (Map (pairs s), if nc then enc (Map (pairs s)) else [], pos)"
    using assms wf
    by (simp add: finish_map_def map_state_ok_def enc_Map encode_sorted_pairs_def Let_def case_prod_unfold)
qed

subsection \<open>All inputs\<close>

definition one_ok :: "bytes \<Rightarrow> nat \<Rightarrow> nat \<Rightarrow> bool \<Rightarrow> (Value \<times> bytes \<times> nat, DecodeError fail) result \<Rightarrow> bool" where
  "one_ok buf pos d nc r \<longleftrightarrow>
     (case r of Inl e \<Rightarrow> e \<noteq> Panic
      | Inr (v, c, p) \<Rightarrow> decoded_ok d v \<and> c = (if nc then enc v else []) \<and> pos < p \<and> p \<le> length buf)"

text \<open>The result of a list or map loop at depth \<open>d\<close>: its elements are fine there.\<close>

definition loop_ok :: "bytes \<Rightarrow> nat \<Rightarrow> nat \<Rightarrow> bool \<Rightarrow> (Value \<times> bytes \<times> nat, DecodeError fail) result \<Rightarrow> bool" where
  "loop_ok buf pos d nc r \<longleftrightarrow>
     (case r of Inl e \<Rightarrow> e \<noteq> Panic
      | Inr (v, c, p) \<Rightarrow> wfv v \<and> (vdepth v = 0 \<or> d + vdepth v \<le> Suc MAX_NESTING_DEPTH) \<and>
          c = (if nc then enc v else []) \<and> pos \<le> p \<and> p \<le> length buf)"

lemma one_ok_Inl [simp]: "one_ok buf pos d nc (Inl e) \<longleftrightarrow> e \<noteq> Panic"
  by (simp add: one_ok_def)

lemma loop_ok_Inl [simp]: "loop_ok buf pos d nc (Inl e) \<longleftrightarrow> e \<noteq> Panic"
  by (simp add: loop_ok_def)

lemma one_ok_Inr [simp]:
  "one_ok buf pos d nc (Inr (v, c, p)) \<longleftrightarrow>
     decoded_ok d v \<and> c = (if nc then enc v else []) \<and> pos < p \<and> p \<le> length buf"
  by (simp add: one_ok_def)

lemma one_ok_cases:
  assumes "one_ok buf pos d nc r"
  obtains e where "r = Inl (Err e)"
  | v p where "r = Inr (v, if nc then enc v else [], p)" "decoded_ok d v" "pos < p" "p \<le> length buf"
proof (cases r)
  case (Inl e)
  with assms that(1) show ?thesis by (cases e) auto
next
  case (Inr t)
  with assms that(2) show ?thesis by (cases t) auto
qed

lemma loop_ok_mono: "loop_ok buf pos' d nc r \<Longrightarrow> pos \<le> pos' \<Longrightarrow> loop_ok buf pos d nc r"
  by (auto simp: loop_ok_def split: sum.splits)

lemma one_ok_of_loop:
  "loop_ok buf nxt (d + 1) nc r \<Longrightarrow> pos < nxt \<Longrightarrow> d \<le> MAX_NESTING_DEPTH \<Longrightarrow> one_ok buf pos d nc r"
  by (auto simp: loop_ok_def one_ok_def decoded_ok_def split: sum.splits)

lemma need_cases:
  assumes "length buf < 2 ^ 64"
  obtains "need buf pos n = Inl (Err Truncated)" | "need buf pos n = Inr ()" "pos + n \<le> length buf"
  using assms that by (cases "pos + n \<le> length buf") (auto simp: need_ok)

lemma decode_count_ok:
  assumes "length buf < 2 ^ 64" "pos \<le> length buf"
  shows "(\<exists>e. decode_count buf pos ai = Inl (Err e)) \<or>
         (\<exists>n p. decode_count buf pos ai = Inr (n, p) \<and> pos \<le> p \<and> p \<le> length buf)"
  using assms by (auto simp: decode_count_def need_ok)

lemma decode_major7_ok:
  assumes "length buf < 2 ^ 64" "pos < length buf"
  shows "(\<exists>e. decode_major7 buf pos ai = Inl (Err e)) \<or>
         (\<exists>v p. decode_major7 buf pos ai = Inr (v, p) \<and> (v = Null \<or> (\<exists>f. v = Float f)) \<and>
            pos < p \<and> p \<le> length buf)"
  using assms
  by (auto simp: decode_major7_def need_ok bindR_def ok_or_def split: option.splits)

lemma scalar_one_ok:
  "wfv v \<Longrightarrow> vdepth v = 0 \<Longrightarrow> d \<le> MAX_NESTING_DEPTH \<Longrightarrow> pos < p \<Longrightarrow> p \<le> length buf \<Longrightarrow>
     one_ok buf pos d nc (scalar_canonical_bytes v p nc)"
  by (simp add: scalar_canonical_ok decoded_ok_def)

lemma loop_ok_List:
  assumes "\<And>x. x \<in> set items \<Longrightarrow> decoded_ok d x" "pos \<le> p" "p \<le> length buf"
  shows "loop_ok buf pos d nc (Inr (List items, if nc then enc (List items) else [], p))"
proof -
  have "vdepth (List items) = 0 \<or> d + vdepth (List items) \<le> Suc MAX_NESTING_DEPTH"
  proof (cases items)
    case (Cons x xs)
    have "d \<le> MAX_NESTING_DEPTH" using assms(1) [of x] Cons by (simp add: decoded_ok_def)
    moreover have "vdepth (List items) \<le> Suc MAX_NESTING_DEPTH - d"
      unfolding vdepth_List using assms(1) by (fastforce simp: decoded_ok_def)
    ultimately show ?thesis by linarith
  qed simp
  with assms show ?thesis by (simp add: loop_ok_def decoded_ok_def del: vdepth.simps)
qed

lemma loop_ok_Map:
  assumes "map_state_ok d nc s" "pos \<le> p" "p \<le> length buf"
  shows "loop_ok buf pos d nc (Inr (Map (pairs s), if nc then enc (Map (pairs s)) else [], p))"
proof -
  have ok: "decoded_ok d (fst q) \<and> decoded_ok d (snd q)" if "q \<in> set (pairs s)" for q
    using assms(1) that by (simp add: map_state_ok_def)
  have "vdepth (Map (pairs s)) = 0 \<or> d + vdepth (Map (pairs s)) \<le> Suc MAX_NESTING_DEPTH"
  proof (cases "pairs s")
    case (Cons q qs)
    have "d \<le> MAX_NESTING_DEPTH" using ok [of q] Cons by (simp add: decoded_ok_def)
    moreover have "vdepth (Map (pairs s)) \<le> Suc MAX_NESTING_DEPTH - d"
      unfolding vdepth_Map using ok by (fastforce simp: decoded_ok_def)
    ultimately show ?thesis by linarith
  qed simp
  with assms finish_map_ok(2) [OF assms(1)] show ?thesis
    by (simp add: loop_ok_def del: vdepth.simps wfv.simps)
qed

text \<open>What \<open>decode_one\<close> does after the head of a value that is not of major type 7.\<close>

lemma bytes_or_text_ok:
  assumes "length buf < 2 ^ 64" "d \<le> MAX_NESTING_DEPTH" "pos < nxt"
    "\<And>b v. f b = Inr v \<Longrightarrow> wfv v \<and> vdepth v = 0" "\<And>b. f b \<noteq> Inl Panic"
  shows "one_ok buf pos d nc (bindR (need buf nxt n) (\<lambda>_. bindR (slice_at buf nxt (nxt + n)) (\<lambda>b.
      bindR (f b) (\<lambda>v. scalar_canonical_bytes v (nxt + n) nc))))"
proof (rule need_cases [OF assms(1)])
  assume "need buf nxt n = Inr ()" and len: "nxt + n \<le> length buf"
  then show ?thesis
    using assms scalar_one_ok [of _ d pos "nxt + n" buf nc]
    by (cases "f (slice buf nxt (nxt + n))") (simp_all, metis)
qed simp

lemma decode_one_after_head:
  assumes "d \<le> MAX_NESTING_DEPTH" "length buf < 2 ^ 64" "pos < length buf"
    "drop_bit 5 (buf ! pos) \<noteq> 7" "decode_count buf (pos + 1) (buf ! pos AND 0x1F) = Inr (n, p)"
    "major = drop_bit 5 (buf ! pos)"
  shows "decode_one buf pos d nc =
    (if major = 0 then scalar_canonical_bytes (IntV (uint n)) p nc
     else if major = 1 then scalar_canonical_bytes (IntV (-1 - uint n)) p nc
     else if major = 2 then
       bindR (need buf p (unat n)) (\<lambda>_. bindR (slice_at buf p (p + unat n)) (\<lambda>b.
         bindR (Inr (Bytes b)) (\<lambda>v. scalar_canonical_bytes v (p + unat n) nc)))
     else if major = 3 then
       bindR (need buf p (unat n)) (\<lambda>_. bindR (slice_at buf p (p + unat n)) (\<lambda>b.
         bindR (bindR (ok_or (Err InvalidUtf8) (from_utf8 b)) (\<lambda>t. Inr (Text t))) (\<lambda>v.
           scalar_canonical_bytes v (p + unat n) nc)))
     else if major = 4 then decode_list buf p (unat n) (d + 1) nc [] (if nc then encode_head 4 n else [])
     else if major = 5 then decode_map buf p (unat n) (d + 1) nc empty_map_state
     else Inl (Err (UnsupportedMajorType major)))"
  using assms by (subst decode_one.simps) (simp add: Let_def need_ok bindR_assoc)

lemma decode_one_head_ok:
  assumes d: "d \<le> MAX_NESTING_DEPTH" and len: "length buf < 2 ^ 64" and pos: "pos < length buf"
    and m7: "drop_bit 5 (buf ! pos) \<noteq> 7"
    and cnt: "decode_count buf (pos + 1) (buf ! pos AND 0x1F) = Inr (n, p)" "pos < p" "p \<le> length buf"
    and list_ok: "drop_bit 5 (buf ! pos) = 4 \<Longrightarrow> loop_ok buf p (d + 1) nc
      (decode_list buf p (unat n) (d + 1) nc [] (if nc then encode_head 4 n else []))"
    and map_ok: "drop_bit 5 (buf ! pos) = 5 \<Longrightarrow> loop_ok buf p (d + 1) nc
      (decode_map buf p (unat n) (d + 1) nc empty_map_state)"
  shows "one_ok buf pos d nc (decode_one buf pos d nc)"
proof -
  define major where "major = drop_bit 5 (buf ! pos)"
  note step = decode_one_after_head [OF d len pos m7 cnt(1) major_def, of nc]
  note scalar = scalar_one_ok [OF _ _ d cnt(2,3)] and byt = bytes_or_text_ok [OF len d cnt(2)]
  have un: "0 \<le> uint n" "uint n < 2 ^ 64" using unsigned_less [of n, where 'a = int] by simp_all
  consider "major = 0 \<or> major = 1" | "major = 2" | "major = 3" | "major = 4" | "major = 5"
    | "major \<notin> {0,1,2,3,4,5}" by blast
  then show ?thesis
  proof cases
    case 1
    then show ?thesis using step scalar [of "IntV (uint n)"] scalar [of "IntV (-1 - uint n)"] un by auto
  next
    case 2
    have "one_ok buf pos d nc (bindR (need buf p (unat n)) (\<lambda>_. bindR (slice_at buf p (p + unat n)) (\<lambda>b.
         bindR (Inr (Bytes b)) (\<lambda>v. scalar_canonical_bytes v (p + unat n) nc))))"
      by (rule byt) auto
    then show ?thesis using 2 step by simp
  next
    case 3
    have "one_ok buf pos d nc (bindR (need buf p (unat n)) (\<lambda>_. bindR (slice_at buf p (p + unat n)) (\<lambda>b.
         bindR (bindR (ok_or (Err InvalidUtf8) (from_utf8 b)) (\<lambda>t. Inr (Text t))) (\<lambda>v.
           scalar_canonical_bytes v (p + unat n) nc))))"
      by (rule byt) (auto simp: bindR_eq_Inr bindR_eq_Inl from_utf8_eq_Some ok_or_def split: option.splits)
    then show ?thesis using 3 step by simp
  next
    case 4
    then show ?thesis using step one_ok_of_loop [OF list_ok cnt(2) d] by (simp add: major_def)
  next
    case 5
    then show ?thesis using step one_ok_of_loop [OF map_ok cnt(2) d] by (simp add: major_def)
  next
    case 6
    then show ?thesis using step by simp
  qed
qed

lemma decode_one_ok:
  assumes len: "length buf < 2 ^ 64"
    and loops: "\<And>n p. d \<le> MAX_NESTING_DEPTH \<Longrightarrow> pos < length buf \<Longrightarrow> drop_bit 5 (buf ! pos) \<noteq> 7 \<Longrightarrow>
      decode_count buf (pos + 1) (buf ! pos AND 0x1F) = Inr (n, p) \<Longrightarrow> pos < p \<Longrightarrow> p \<le> length buf \<Longrightarrow>
      (drop_bit 5 (buf ! pos) = 4 \<longrightarrow> loop_ok buf p (d + 1) nc
        (decode_list buf p (unat n) (d + 1) nc [] (if nc then encode_head 4 n else []))) \<and>
      (drop_bit 5 (buf ! pos) = 5 \<longrightarrow> loop_ok buf p (d + 1) nc
        (decode_map buf p (unat n) (d + 1) nc empty_map_state))"
  shows "one_ok buf pos d nc (decode_one buf pos d nc)"
proof (cases "d \<le> MAX_NESTING_DEPTH \<and> pos < length buf")
  case False
  then show ?thesis using len by (auto simp: decode_one.simps need_ok)
next
  case True
  let ?ai = "buf ! pos AND 0x1F"
  show ?thesis
  proof (cases "drop_bit 5 (buf ! pos) = 7")
    case m7: True
    from decode_major7_ok [OF len, of pos ?ai] True consider
      e where "decode_major7 buf pos ?ai = Inl (Err e)"
      | v p where "decode_major7 buf pos ?ai = Inr (v, p)" "v = Null \<or> (\<exists>f. v = Float f)" "pos < p" "p \<le> length buf"
      by blast
    then show ?thesis
      by cases (use True len m7 scalar_one_ok [of _ d pos _ buf nc] in
        \<open>auto simp: decode_one.simps Let_def need_ok\<close>)
  next
    case m7: False
    from decode_count_ok [OF len, of "pos + 1" ?ai] True consider
      e where "decode_count buf (pos + 1) ?ai = Inl (Err e)"
      | n p where "decode_count buf (pos + 1) ?ai = Inr (n, p)" "pos < p" "p \<le> length buf"
      by fastforce
    then show ?thesis
    proof cases
      case 1
      then show ?thesis using True len m7 by (simp add: decode_one.simps Let_def need_ok)
    next
      case (2 n p)
      show ?thesis
        by (rule decode_one_head_ok [OF _ len _ m7 2]) (use True loops [OF _ _ m7 2] in auto)
    qed
  qed
qed

lemma decode_list_step_ok:
  assumes "cnt \<noteq> 0" "one_ok buf pos d nc (decode_one buf pos d nc)"
    "\<And>v p. decode_one buf pos d nc = Inr (v, if nc then enc v else [], p) \<Longrightarrow> decoded_ok d v \<Longrightarrow>
      pos < p \<Longrightarrow> p \<le> length buf \<Longrightarrow>
      loop_ok buf p d nc (decode_list buf p (cnt - 1) d nc (items @ [v])
        (if nc then canon @ (if nc then enc v else []) else canon))"
  shows "loop_ok buf pos d nc (decode_list buf pos cnt d nc items canon)"
proof (rule one_ok_cases [OF assms(2)])
  fix e assume "decode_one buf pos d nc = Inl (Err e)"
  then show ?thesis using assms(1) by (simp add: decode_list.simps)
next
  fix v p assume r: "decode_one buf pos d nc = Inr (v, if nc then enc v else [], p)"
    and v: "decoded_ok d v" "pos < p" "p \<le> length buf"
  show ?thesis using assms(1) r loop_ok_mono [OF assms(3) [OF r v], of pos] v(2)
    by (subst decode_list.simps) (simp split: if_splits)
qed

lemma decode_map_step_ok:
  assumes "cnt \<noteq> 0" "map_state_ok d nc s" "one_ok buf pos d True (decode_one buf pos d True)"
    "\<And>k p. decode_one buf pos d True = Inr (k, enc k, p) \<Longrightarrow> one_ok buf p d nc (decode_one buf p d nc)"
    "\<And>k p1 v p2 s'. decode_one buf pos d True = Inr (k, enc k, p1) \<Longrightarrow>
      decode_one buf p1 d nc = Inr (v, if nc then enc v else [], p2) \<Longrightarrow>
      insert_entry nc (enc k) k v (if nc then enc v else []) s = Inr s' \<Longrightarrow> p2 \<le> length buf \<Longrightarrow>
      map_state_ok d nc s' \<Longrightarrow> loop_ok buf p2 d nc (decode_map buf p2 (cnt - 1) d nc s')"
  shows "loop_ok buf pos d nc (decode_map buf pos cnt d nc s)"
proof (rule one_ok_cases [OF assms(3)])
  fix e assume "decode_one buf pos d True = Inl (Err e)"
  then show ?thesis using assms(1) by (simp add: decode_map.simps)
next
  fix k p1 assume "decode_one buf pos d True = Inr (k, if True then enc k else [], p1)"
    and k: "decoded_ok d k" "pos < p1"
  then have r1: "decode_one buf pos d True = Inr (k, enc k, p1)" by simp
  show ?thesis
  proof (rule one_ok_cases [OF assms(4) [OF r1]])
    fix e assume "decode_one buf p1 d nc = Inl (Err e)"
    then show ?thesis using assms(1) r1 by (simp add: decode_map.simps)
  next
    fix v p2 assume r2: "decode_one buf p1 d nc = Inr (v, if nc then enc v else [], p2)"
      and v: "decoded_ok d v" "p1 < p2" "p2 \<le> length buf"
    obtain s' where ins: "insert_entry nc (enc k) k v (if nc then enc v else []) s = Inr s'"
      and s': "map_state_ok d nc s'"
      using insert_entry_ok [OF assms(2) k(1) v(1)] .
    show ?thesis using assms(1) r1 r2 ins loop_ok_mono [OF assms(5) [OF r1 r2 ins v(3) s'], of pos] k v
      by (subst decode_map.simps) simp
  qed
qed

lemma decode_total:
  "length buf < 2 ^ 64 \<Longrightarrow> one_ok buf pos d nc (decode_one buf pos d nc)"
  "length buf < 2 ^ 64 \<Longrightarrow> pos \<le> length buf \<Longrightarrow> length items + cnt < 2 ^ 64 \<Longrightarrow>
     (\<And>x. x \<in> set items \<Longrightarrow> decoded_ok d x) \<Longrightarrow>
     canon = (if nc then encode_head 4 (word_of_nat (length items + cnt)) @ concat (map enc items) else []) \<Longrightarrow>
     loop_ok buf pos d nc (decode_list buf pos cnt d nc items canon)"
  "length buf < 2 ^ 64 \<Longrightarrow> pos \<le> length buf \<Longrightarrow> map_state_ok d nc s \<Longrightarrow>
     loop_ok buf pos d nc (decode_map buf pos cnt d nc s)"
proof (induction buf pos d nc and buf pos cnt d nc items canon and buf pos cnt d nc s
    rule: decode_one_decode_list_decode_map.induct)
  case (1 buf pos d nc)
  show ?case
  proof (rule decode_one_ok [OF "1.prems"], intro conjI impI)
    fix n p
    assume h: "d \<le> MAX_NESTING_DEPTH" "pos < length buf" "drop_bit 5 (buf ! pos) \<noteq> 7"
      "decode_count buf (pos + 1) (buf ! pos AND 0x1F) = Inr (n, p)" "pos < p" "p \<le> length buf"
    have nd: "need buf pos 1 = Inr ()" "index_at buf pos = Inr (buf ! pos)"
      using h(2) "1.prems" by (simp_all add: need_ok)
    show "loop_ok buf p (d + 1) nc (decode_list buf p (unat n) (d + 1) nc [] (if nc then encode_head 4 n else []))"
      if "drop_bit 5 (buf ! pos) = 4"
      by (rule "1.IH"(1) [OF _ nd refl refl h(3,4) refl])
         (use h that "1.prems" unsigned_less [of n, where 'a = nat] in simp_all)
    show "loop_ok buf p (d + 1) nc (decode_map buf p (unat n) (d + 1) nc empty_map_state)"
      if "drop_bit 5 (buf ! pos) = 5"
      by (rule "1.IH"(2) [OF _ nd refl refl h(3,4) refl]) (use h that "1.prems" map_state_ok_empty in simp_all)
  qed
next
  case (2 buf pos cnt d nc items canon)
  show ?case
  proof (cases "cnt = 0")
    case True
    have "wfv (List items)" using "2.prems"(4) by (simp add: decoded_ok_def)
    then have "canon = (if nc then enc (List items) else [])"
      using "2.prems"(5) True by (simp add: enc_List)
    then show ?thesis
      using True loop_ok_List [OF "2.prems"(4) order_refl "2.prems"(2)] by (simp add: decode_list.simps)
  next
    case False
    from False "2.IH"(1) [OF False "2.prems"(1)] show ?thesis
      by (rule decode_list_step_ok) (rule "2.IH"(2) [OF False _ refl refl], use "2.prems" False in auto)
  qed
next
  case (3 buf pos cnt d nc s)
  show ?case
  proof (cases "cnt = 0")
    case True
    then show ?thesis
      using loop_ok_Map [OF "3.prems"(3) order_refl "3.prems"(2)] finish_map_ok(1) [OF "3.prems"(3), of pos]
      by (simp add: decode_map.simps)
  next
    case False
    from False "3.prems"(3) "3.IH"(1) [OF False "3.prems"(1)] show ?thesis
    proof (rule decode_map_step_ok)
      fix k p assume "decode_one buf pos d True = Inr (k, enc k, p)"
      then show "one_ok buf p d nc (decode_one buf p d nc)"
        by (rule "3.IH"(2) [OF False _ refl refl "3.prems"(1)])
    next
      fix k p1 v p2 s'
      assume r: "decode_one buf pos d True = Inr (k, enc k, p1)"
        "decode_one buf p1 d nc = Inr (v, if nc then enc v else [], p2)"
        "insert_entry nc (enc k) k v (if nc then enc v else []) s = Inr s'"
        and s': "p2 \<le> length buf" "map_state_ok d nc s'"
      show "loop_ok buf p2 d nc (decode_map buf p2 (cnt - 1) d nc s')"
        by (rule "3.IH"(3) [OF False r(1) refl refl r(2) refl refl r(3) "3.prems"(1) s'])
    qed
  qed
qed

end
