(* ===== verification/CborProps.thy ===== *)
theory CborProps
  imports CborSafety
begin

section \<open>CborProps: what the codec promises its callers\<close>

text \<open>
  The contract of \<open>encode\<close> and \<open>decode\<close> as the frame, identity and record layers use it.
\<close>

subsection \<open>Normal forms\<close>

lemma normal_wfv_enc: "wfv v \<Longrightarrow> wfv (normal v) \<and> enc (normal v) = enc v"
proof (induction v rule: value_induct)
  case (List items)
  then have wf: "wfv (normal (List items))" by simp
  have "map enc (map normal items) = map enc items" using List by simp
  then show ?case using List.prems wf by (simp add: enc_List del: map_map)
next
  case (Map ps)
  define qs where "qs = sort_key (\<lambda>p. enc (fst p)) ps"
  have set_qs: "set qs = set ps" by (simp add: qs_def)
  have ih: "wfv (normal (fst p)) \<and> enc (normal (fst p)) = enc (fst p) \<and>
      wfv (normal (snd p)) \<and> enc (normal (snd p)) = enc (snd p)" if "p \<in> set qs" for p
    using Map that set_qs by simp
  have srt: "sorted (map (\<lambda>p. enc (fst p)) qs)" by (simp add: qs_def)
  have "distinct (map (\<lambda>p. enc (fst p)) ps)" using Map.prems by simp
  then have dist: "distinct (map (\<lambda>p. enc (fst p)) qs)"
    using sort_key_map [of "\<lambda>x. x" "\<lambda>p. enc (fst p)" ps] unfolding qs_def by (metis distinct_sort)
  let ?ns = "map (\<lambda>p. (normal (fst p), normal (snd p))) qs"
  have n: "normal (Map ps) = Map ?ns" by (simp add: qs_def)
  have keys: "map (\<lambda>p. enc (fst p)) ?ns = map (\<lambda>p. enc (fst p)) qs" using ih by simp
  have "distinct (map (\<lambda>p. enc (fst p)) ?ns)" unfolding keys by (rule dist)
  then have wf: "wfv (Map ?ns)" using ih by simp
  have srt_ns: "sort_key (\<lambda>p. enc (fst p)) ?ns = ?ns"
    by (rule sort_key_id_if_sorted) (unfold keys, rule srt)
  have body: "map (\<lambda>p. enc (fst p) @ enc (snd p)) ?ns = map (\<lambda>p. enc (fst p) @ enc (snd p)) qs"
    using ih by simp
  have "length ?ns = length ps" by (simp add: qs_def)
  then have "enc (Map ?ns) = enc (Map ps)"
    unfolding enc_Map [OF wf] enc_Map [OF Map.prems] encode_sorted_pairs_enc srt_ns body by (simp add: qs_def)
  then show ?case using wf n by simp
qed simp_all

lemma vdepth_normal: "vdepth (normal v) = vdepth v"
  by (induction v rule: value_induct) (simp_all add: image_image comp_def)

lemma encode_eq_enc: "wfv v \<Longrightarrow> encode v = Inr (enc v)"
  by (simp add: encode_def encode_ok)

lemma decode_enc:
  assumes "wfv v" "vdepth v \<le> MAX_NESTING_DEPTH" "length (enc v) < 2 ^ 64"
  shows "decode (enc v) = Inr (normal v)"
  using rtD [OF rt_value [of v 0 False], of "[]" "[]"] assms by (simp add: decode_def)

lemma decode_cases:
  assumes "length bs < 2 ^ 64"
  obtains e where "decode bs = Inl (Err e)"
  | v where "decode bs = Inr v" "wfv v" "vdepth v \<le> MAX_NESTING_DEPTH"
proof (rule one_ok_cases [OF decode_total(1) [OF assms, of 0 0 False]])
  fix e assume "decode_one bs 0 0 False = Inl (Err e)"
  then show thesis using that(1) by (simp add: decode_def)
next
  fix v p assume "decode_one bs 0 0 False = Inr (v, if False then enc v else [], p)" "decoded_ok 0 v"
  then show thesis using that by (cases "p = length bs") (auto simp: decode_def decoded_ok_def)
qed

subsection \<open>Properties\<close>

text \<open>C3: Round trip. Decoding the encoding of a well-formed value of at most 128 nested lists and
  maps gives the value in normal form: the same value with every map's entries in the order of
  their encoded keys.\<close>

theorem decode_encode:
  assumes "wfv v" "vdepth v \<le> MAX_NESTING_DEPTH" "encode v = Inr bs" "length bs < 2 ^ 64"
  shows "decode bs = Inr (normal v)"
  using decode_enc [OF assms(1,2)] assms by (simp add: encode_eq_enc)

theorem decode_encode_witness:
  "decode [0xA2, 0x61, 0x61, 0x81, 0x18, 0x64, 0x62, 0x61, 0x61, 0x20] =
    Inr (Map [(Text ''a'', List [IntV 100]), (Text ''aa'', IntV (-1))])"
proof -
  have e: "encode (Map [(Text ''aa'', IntV (-1)), (Text ''a'', List [IntV 100])]) =
      Inr [0xA2, 0x61, 0x61, 0x81, 0x18, 0x64, 0x62, 0x61, 0x61, 0x20]"
    by (simp add: eval_simps)
  have w: "wfv (Map [(Text ''aa'', IntV (-1)), (Text ''a'', List [IntV 100])])" by (simp add: eval_simps)
  have d: "vdepth (Map [(Text ''aa'', IntV (-1)), (Text ''a'', List [IntV 100])]) \<le> MAX_NESTING_DEPTH"
    by (simp add: eval_simps)
  have n: "normal (Map [(Text ''aa'', IntV (-1)), (Text ''a'', List [IntV 100])]) =
      Map [(Text ''a'', List [IntV 100]), (Text ''aa'', IntV (-1))]" by (simp add: eval_simps)
  show ?thesis using decode_encode [OF w d e] n by simp
qed

text \<open>C7: The decoder is total on untrusted input: no byte string makes it panic (no index or slice
  out of range, no failed \<open>expect\<close>), and what it returns is a well-formed value within the nesting
  limit, which encodes again without error.\<close>

theorem decode_never_panics:
  assumes "length bs < 2 ^ 64"
  shows "decode bs \<noteq> Inl Panic \<and>
    (\<forall>v. decode bs = Inr v \<longrightarrow> wfv v \<and> vdepth v \<le> MAX_NESTING_DEPTH \<and> (\<exists>c. encode v = Inr c))"
  using assms by (rule decode_cases) (auto simp: encode_eq_enc)

theorem decode_never_panics_witness: "decode [0x82, 0xF9, 0x3C] \<noteq> Inl Panic"
  using decode_never_panics [of "[0x82, 0xF9, 0x3C]"] by simp

text \<open>C25: The canonical bytes the decoder assembles bottom-up beside a value (its optimisation for
  map keys) are exactly what the encoder would produce for that value, and without the flag the
  decoder returns none.\<close>

theorem canonical_bytes_are_encoding:
  assumes "length buf < 2 ^ 64" "decode_one buf pos depth need_canon = Inr (v, canon, next)"
  shows "if need_canon then encode v = Inr canon else canon = []"
  using decode_total(1) [OF assms(1), of pos depth need_canon] assms(2)
  by (simp add: decoded_ok_def encode_eq_enc)

theorem canonical_bytes_are_encoding_witness:
  "encode (Map [(Text ''a'', IntV 2)]) = Inr [0xA1, 0x61, 0x61, 0x02]"
proof -
  have "decode_one [0xA2, 0x61, 0x61, 0x01, 0x61, 0x61, 0x02] 0 0 True =
      Inr (Map [(Text ''a'', IntV 2)], [0xA1, 0x61, 0x61, 0x02], 7)"
    by (simp add: eval_simps)
  from canonical_bytes_are_encoding [OF _ this] show ?thesis by simp
qed

text \<open>Determinism. The bytes of a map do not depend on the order in which its entries were
  inserted, so equal field sets sign and verify over equal bytes.\<close>

theorem encode_order_independent:
  assumes "wfv (Map ps)" "mset ps = mset qs"
  shows "encode (Map ps) = encode (Map qs)"
proof -
  have "distinct (map fst (map enc_pair ps))" using assms(1) by (simp add: comp_def enc_pair_def)
  then have "encode_sorted_pairs (map enc_pair ps) = encode_sorted_pairs (map enc_pair qs)"
    using assms(2) by (intro encode_sorted_pairs_perm) simp_all
  moreover have "wfv (Map qs)"
    using assms(1) mset_eq_setD [OF assms(2)] mset_eq_imp_distinct_iff [of "map (\<lambda>p. enc (fst p)) ps" "map (\<lambda>p. enc (fst p)) qs"]
      arg_cong [OF assms(2), of "image_mset (\<lambda>p. enc (fst p))"] by simp
  ultimately show ?thesis using assms(1) by (simp add: encode_eq_enc enc_Map del: wfv.simps)
qed

theorem encode_order_independent_witness:
  "encode (Map [(Text ''v'', IntV 1), (Text ''k'', Null)]) = encode (Map [(Text ''k'', Null), (Text ''v'', IntV 1)])"
  by (rule encode_order_independent) (simp_all add: eval_simps)

text \<open>Injectivity. Two well-formed values with the same encoding are the same value up to the
  order of map entries: no two different messages share their signed bytes.\<close>

theorem encode_injective:
  assumes "wfv v" "wfv w" "vdepth v \<le> MAX_NESTING_DEPTH" "vdepth w \<le> MAX_NESTING_DEPTH"
    "encode v = Inr bs" "encode w = Inr bs" "length bs < 2 ^ 64"
  shows "normal v = normal w"
  using decode_enc [OF assms(1,3)] decode_enc [OF assms(2,4)] assms by (simp add: encode_eq_enc)

theorem encode_injective_witness:
  "normal (Map [(Text ''v'', IntV 1), (Text ''k'', Null)]) = normal (Map [(Text ''k'', Null), (Text ''v'', IntV 1)])"
  by (rule encode_injective [where bs = "[0xA2, 0x61, 0x6B, 0xF6, 0x61, 0x76, 0x01]"])
    (simp_all add: eval_simps MAX_NESTING_DEPTH_def)

end
