(* ===== verification/Bolt4.thy ===== *)
theory Bolt4
  imports Prelude
begin

section \<open>Bolt4: the error taxonomy of CALL failures (\<open>src/bolt4.rs\<close>)\<close>

text \<open>The seventeen codes, their wire numbers and names, and the advisory retry policy.\<close>

datatype Code =
    CodeOk
  | UnknownNextPeer
  | TemporaryRelayFailure
  | RelayDisabled
  | NodeNotFoundAtTargetRelay
  | TargetRealmRefused
  | LoopDetected
  | ExpiryTooSoon
  | UpstreamCongestion
  | InvalidPathHeader
  | CryptoPuzzleInvalid
  | RealmNotAuthoritativeHere
  | Tombstoned
  | PayloadTooLarge
  | CodeSignatureInvalid
  | UnknownError
  | Unauthorized

fun code_as_u8 :: "Code \<Rightarrow> u8" where
  "code_as_u8 CodeOk = 0x00"
| "code_as_u8 UnknownNextPeer = 0x01"
| "code_as_u8 TemporaryRelayFailure = 0x02"
| "code_as_u8 RelayDisabled = 0x03"
| "code_as_u8 NodeNotFoundAtTargetRelay = 0x04"
| "code_as_u8 TargetRealmRefused = 0x05"
| "code_as_u8 LoopDetected = 0x06"
| "code_as_u8 ExpiryTooSoon = 0x07"
| "code_as_u8 UpstreamCongestion = 0x08"
| "code_as_u8 InvalidPathHeader = 0x09"
| "code_as_u8 CryptoPuzzleInvalid = 0x0A"
| "code_as_u8 RealmNotAuthoritativeHere = 0x0B"
| "code_as_u8 Tombstoned = 0x0C"
| "code_as_u8 PayloadTooLarge = 0x0D"
| "code_as_u8 CodeSignatureInvalid = 0x0E"
| "code_as_u8 UnknownError = 0x0F"
| "code_as_u8 Unauthorized = 0x10"

fun code_name :: "Code \<Rightarrow> string" where
  "code_name CodeOk = ''ok''"
| "code_name UnknownNextPeer = ''unknown_next_peer''"
| "code_name TemporaryRelayFailure = ''temporary_relay_failure''"
| "code_name RelayDisabled = ''relay_disabled''"
| "code_name NodeNotFoundAtTargetRelay = ''node_not_found_at_target_relay''"
| "code_name TargetRealmRefused = ''target_realm_refused''"
| "code_name LoopDetected = ''loop_detected''"
| "code_name ExpiryTooSoon = ''expiry_too_soon''"
| "code_name UpstreamCongestion = ''upstream_congestion''"
| "code_name InvalidPathHeader = ''invalid_path_header''"
| "code_name CryptoPuzzleInvalid = ''crypto_puzzle_invalid''"
| "code_name RealmNotAuthoritativeHere = ''realm_not_authoritative_here''"
| "code_name Tombstoned = ''tombstoned''"
| "code_name PayloadTooLarge = ''payload_too_large''"
| "code_name CodeSignatureInvalid = ''signature_invalid''"
| "code_name UnknownError = ''unknown_error''"
| "code_name Unauthorized = ''unauthorized''"

definition is_retryable :: "Code \<Rightarrow> bool" where
  "is_retryable c \<longleftrightarrow>
     \<not> (case c of
          CodeOk \<Rightarrow> True
        | TargetRealmRefused \<Rightarrow> True
        | Tombstoned \<Rightarrow> True
        | PayloadTooLarge \<Rightarrow> True
        | Unauthorized \<Rightarrow> True
        | CryptoPuzzleInvalid \<Rightarrow> True
        | CodeSignatureInvalid \<Rightarrow> True
        | _ \<Rightarrow> False)"

definition code_from_u8 :: "u8 \<Rightarrow> Code option" where
  "code_from_u8 code =
    (if code = 0x00 then Some CodeOk
     else if code = 0x01 then Some UnknownNextPeer
     else if code = 0x02 then Some TemporaryRelayFailure
     else if code = 0x03 then Some RelayDisabled
     else if code = 0x04 then Some NodeNotFoundAtTargetRelay
     else if code = 0x05 then Some TargetRealmRefused
     else if code = 0x06 then Some LoopDetected
     else if code = 0x07 then Some ExpiryTooSoon
     else if code = 0x08 then Some UpstreamCongestion
     else if code = 0x09 then Some InvalidPathHeader
     else if code = 0x0A then Some CryptoPuzzleInvalid
     else if code = 0x0B then Some RealmNotAuthoritativeHere
     else if code = 0x0C then Some Tombstoned
     else if code = 0x0D then Some PayloadTooLarge
     else if code = 0x0E then Some CodeSignatureInvalid
     else if code = 0x0F then Some UnknownError
     else if code = 0x10 then Some Unauthorized
     else None)"

lemma code_from_as_u8: "code_from_u8 (code_as_u8 c) = Some c"
  by (cases c) (simp_all add: code_from_u8_def)

lemma code_as_u8_range: "uint (code_as_u8 c) \<in> {0..16}"
  by (cases c) simp_all

lemma valid_str_code_name: "valid_str (code_name c) \<and> length (code_name c) \<le> 30"
  by (cases c) (simp_all add: eval_simps)

text \<open>The numbering is a bijection between the codes and the bytes 0 to 16: a number names the
  code it came from, and no other byte names a code.\<close>

theorem code_u8_bijection:
  "code_from_u8 n = Some c \<longleftrightarrow> n = code_as_u8 c"
proof
  assume "code_from_u8 n = Some c"
  then show "n = code_as_u8 c" by (auto simp: code_from_u8_def split: if_splits)
next
  assume "n = code_as_u8 c"
  then show "code_from_u8 n = Some c" by (simp add: code_from_as_u8)
qed

end
