(* ===== verification/Crypto.thy ===== *)
theory Crypto
  imports Prelude
begin

section \<open>Crypto: the third-party primitives as parameters\<close>

text \<open>
  Ed25519 (\<open>ed25519-dalek\<close>), SHA-256 (\<open>sha2\<close>) and BLAKE3 (\<open>blake3\<close>) are not part of this
  repository. Every definition that uses them takes them as an argument, the record \<open>crypto\<close>;
  \<open>crypto_ok\<close> names what the code relies on: the sizes of keys, signatures and digests, and
  that a signature verifies under the public key of its seed (RFC 8032). Nothing here says that
  a signature cannot be forged or a digest not collide. \<open>toy_crypto\<close> is one concrete instance,
  used to evaluate the model on examples.
\<close>

record crypto =
  ed_public :: "bytes \<Rightarrow> bytes"
  ed_sign :: "bytes \<Rightarrow> bytes \<Rightarrow> bytes"
  ed_point :: "bytes \<Rightarrow> bool"
  ed_verify :: "bytes \<Rightarrow> bytes \<Rightarrow> bytes \<Rightarrow> bool"
  sha256 :: "bytes \<Rightarrow> bytes"
  blake3 :: "bytes \<Rightarrow> bytes"

definition ed25519_ok :: "crypto \<Rightarrow> bool" where
  "ed25519_ok C \<longleftrightarrow>
     (\<forall>seed. length seed = 32 \<longrightarrow> length (ed_public C seed) = 32 \<and> ed_point C (ed_public C seed)) \<and>
     (\<forall>seed msg. length seed = 32 \<longrightarrow>
        length (ed_sign C seed msg) = 64 \<and> ed_verify C (ed_public C seed) msg (ed_sign C seed msg))"

definition hashes_ok :: "crypto \<Rightarrow> bool" where
  "hashes_ok C \<longleftrightarrow> (\<forall>m. length (sha256 C m) = 32) \<and> (\<forall>m. length (blake3 C m) = 32)"

definition crypto_ok :: "crypto \<Rightarrow> bool" where
  "crypto_ok C \<longleftrightarrow> ed25519_ok C \<and> hashes_ok C"

lemma crypto_okD:
  assumes "crypto_ok C"
  shows "length seed = 32 \<Longrightarrow> length (ed_public C seed) = 32"
    "length seed = 32 \<Longrightarrow> ed_point C (ed_public C seed)"
    "length seed = 32 \<Longrightarrow> length (ed_sign C seed msg) = 64"
    "length seed = 32 \<Longrightarrow> ed_verify C (ed_public C seed) msg (ed_sign C seed msg)"
    "length (sha256 C msg) = 32" "length (blake3 C msg) = 32"
  using assms by (simp_all add: crypto_ok_def ed25519_ok_def hashes_ok_def)

definition pad_to :: "nat \<Rightarrow> bytes \<Rightarrow> bytes" where
  "pad_to n b = take n (b @ replicate n 0)"

definition toy_crypto :: crypto where
  "toy_crypto =
    \<lparr>ed_public = pad_to 32,
     ed_sign = (\<lambda>seed msg. pad_to 32 seed @ pad_to 32 (rev msg)),
     ed_point = (\<lambda>p. length p = 32),
     ed_verify = (\<lambda>p msg sig. sig = p @ pad_to 32 (rev msg)),
     sha256 = pad_to 32,
     blake3 = (\<lambda>m. pad_to 32 (rev m))\<rparr>"

lemma length_pad_to [simp]: "length (pad_to n b) = n"
  by (simp add: pad_to_def)

lemma toy_crypto_ok: "crypto_ok toy_crypto"
  by (simp add: crypto_ok_def ed25519_ok_def hashes_ok_def toy_crypto_def)

end
