(* ===== verification/Identity.thy ===== *)
theory Identity
  imports Crypto Floats
begin

unbundle bit_operations_syntax

section \<open>Identity: key pairs, the crypto puzzle and key files (\<open>src/identity.rs\<close>)\<close>

text \<open>
  A key pair is its 32-byte seed; the public key is the NodeId. The operating system's random
  generator is the sequence of candidate seeds it would return. The file system is a map from
  paths to contents and permission bits; a fault argument says which of the calls that \<open>save\<close>
  makes fails, so the state after each is a value of the model.
\<close>

subsection \<open>Key pairs\<close>

record KeyPair =
  signing_key :: bytes

definition KEY_FILE_MAGIC :: bytes where
  "KEY_FILE_MAGIC = as_bytes ''macula-v2-key'' @ [0]"

definition DEFAULT_PUZZLE_DIFFICULTY :: nat where
  "DEFAULT_PUZZLE_DIFFICULTY = 8"

definition from_seed_bytes :: "bytes \<Rightarrow> KeyPair" where
  "from_seed_bytes seed = \<lparr>signing_key = seed\<rparr>"

definition public_bytes :: "crypto \<Rightarrow> KeyPair \<Rightarrow> bytes" where
  "public_bytes C kp = ed_public C (signing_key kp)"

definition private_bytes :: "KeyPair \<Rightarrow> bytes" where
  "private_bytes kp = signing_key kp"

definition node_id :: "crypto \<Rightarrow> KeyPair \<Rightarrow> bytes" where
  "node_id C kp = public_bytes C kp"

definition sign_bytes :: "crypto \<Rightarrow> KeyPair \<Rightarrow> bytes \<Rightarrow> bytes" where
  "sign_bytes C kp msg = ed_sign C (signing_key kp) msg"

definition verify_bytes :: "crypto \<Rightarrow> bytes \<Rightarrow> bytes \<Rightarrow> bytes \<Rightarrow> bool" where
  "verify_bytes C msg sig pubkey = (if \<not> ed_point C pubkey then False else ed_verify C pubkey msg sig)"

subsection \<open>The puzzle\<close>

definition puzzle_evidence :: "crypto \<Rightarrow> bytes \<Rightarrow> bytes" where
  "puzzle_evidence C pubkey = sha256 C pubkey"

definition leading_zeros_u8 :: "u8 \<Rightarrow> nat" where
  "leading_zeros_u8 b = (if b = 0 then 8 else 7 - top_bit (unat b))"

fun count_leading_zero_bits :: "bytes \<Rightarrow> nat" where
  "count_leading_zero_bits [] = 0"
| "count_leading_zero_bits (b # bs) =
    (if b = 0 then 8 + count_leading_zero_bits bs else leading_zeros_u8 b)"

definition puzzle_valid :: "crypto \<Rightarrow> bytes \<Rightarrow> nat \<Rightarrow> bool" where
  "puzzle_valid C pubkey difficulty \<longleftrightarrow>
     count_leading_zero_bits (puzzle_evidence C pubkey) \<ge> difficulty"

text \<open>
  \<open>rng i\<close> is the seed the \<open>i\<close>-th call of \<open>SigningKey::generate\<close> draws. The loop has no bound
  in the code, so it is a partial function: \<open>None\<close> is not returning. The result carries the
  number of the next draw.
\<close>

definition generate :: "(nat \<Rightarrow> bytes) \<Rightarrow> nat \<Rightarrow> KeyPair" where
  "generate rng i = from_seed_bytes (rng i)"

partial_function (option) generate_with_puzzle ::
  "crypto \<Rightarrow> nat \<Rightarrow> (nat \<Rightarrow> bytes) \<Rightarrow> nat \<Rightarrow> (KeyPair \<times> nat) option" where
  "generate_with_puzzle C difficulty rng i =
    (let candidate = generate rng i in
     if puzzle_valid C (public_bytes C candidate) difficulty then Some (candidate, i + 1)
     else generate_with_puzzle C difficulty rng (i + 1))"

definition generate_with_default_puzzle :: "crypto \<Rightarrow> (nat \<Rightarrow> bytes) \<Rightarrow> nat \<Rightarrow> (KeyPair \<times> nat) option" where
  "generate_with_default_puzzle C = generate_with_puzzle C DEFAULT_PUZZLE_DIFFICULTY"

subsection \<open>Key files\<close>

record key_file =
  f_contents :: bytes
  f_mode :: nat

type_synonym fs = "string \<rightharpoonup> key_file"

text \<open>\<open>Path::with_extension\<close>: the text after the last dot of the file name, where that dot is not
  its first character, is replaced; with no such dot the extension is appended.\<close>

definition file_name_start :: "string \<Rightarrow> nat" where
  "file_name_start path = length path - length (takeWhile (\<lambda>c. c \<noteq> CHR ''/'') (rev path))"

definition with_extension :: "string \<Rightarrow> string \<Rightarrow> string" where
  "with_extension path ext =
    (let i = file_name_start path; name = drop i path;
         after = takeWhile (\<lambda>c. c \<noteq> CHR ''.'') (rev name);
         stem = (if length after + 1 < length name then take (length name - (length after + 1)) name else name)
     in take i path @ stem @ CHR ''.'' # ext)"

datatype save_fault = NoFault | WriteFails | ChmodFails | RenameFails

text \<open>The mode a new file gets under the usual umask, \<open>0o644\<close>.\<close>

definition DEFAULT_MODE :: nat where
  "DEFAULT_MODE = 420"

text \<open>Mode \<open>0o600\<close>.\<close>

definition OWNER_ONLY :: nat where
  "OWNER_ONLY = 6 * 64"

definition key_blob :: "crypto \<Rightarrow> KeyPair \<Rightarrow> bytes" where
  "key_blob C kp = KEY_FILE_MAGIC @ public_bytes C kp @ private_bytes kp"

definition save :: "crypto \<Rightarrow> KeyPair \<Rightarrow> string \<Rightarrow> save_fault \<Rightarrow> fs \<Rightarrow> (unit, unit) result \<times> fs" where
  "save C kp path fault fs0 =
    (let blob = key_blob C kp;
         tmp_path = with_extension path ''tmp'' in
     if fault = WriteFails then (Inl (), fs0)
     else
       (let old_mode = (case fs0 tmp_path of Some f \<Rightarrow> f_mode f | None \<Rightarrow> DEFAULT_MODE);
            fs1 = fs0(tmp_path \<mapsto> \<lparr>f_contents = blob, f_mode = old_mode\<rparr>) in
        if fault = ChmodFails then (Inl (), fs1)
        else
          (let fs2 = fs1(tmp_path \<mapsto> \<lparr>f_contents = blob, f_mode = OWNER_ONLY\<rparr>) in
           if fault = RenameFails then (Inl (), fs2)
           else (Inr (), (fs2(tmp_path := None))(path \<mapsto> \<lparr>f_contents = blob, f_mode = OWNER_ONLY\<rparr>)))))"

datatype LoadKeyError = Io | BadKeyFile | PubkeyMismatch

definition load :: "crypto \<Rightarrow> fs \<Rightarrow> string \<Rightarrow> (KeyPair, LoadKeyError fail) result" where
  "load C fs path =
    (case fs path of
       None \<Rightarrow> Inl (Err Io)
     | Some f \<Rightarrow>
         (let blob = f_contents f; expected_len = length KEY_FILE_MAGIC + 64 in
          if length blob \<noteq> expected_len \<or> take (length KEY_FILE_MAGIC) blob \<noteq> KEY_FILE_MAGIC
          then Inl (Err BadKeyFile)
          else
            bindR (slice_at blob (length KEY_FILE_MAGIC) (length blob)) (\<lambda>rest.
            bindR (slice_at rest 0 32) (\<lambda>stored_pub.
            bindR (slice_at rest 32 64) (\<lambda>stored_priv.
              let keypair = from_seed_bytes stored_priv in
              if public_bytes C keypair \<noteq> stored_pub then Inl (Err PubkeyMismatch)
              else Inr keypair)))))"

subsection \<open>Key pairs: lemmas\<close>

definition wf_keypair :: "KeyPair \<Rightarrow> bool" where
  "wf_keypair kp \<longleftrightarrow> length (signing_key kp) = 32"

lemma verify_sign_bytes:
  "crypto_ok C \<Longrightarrow> wf_keypair kp \<Longrightarrow> verify_bytes C msg (sign_bytes C kp msg) (public_bytes C kp)"
  by (simp add: verify_bytes_def sign_bytes_def public_bytes_def wf_keypair_def crypto_okD)

lemma length_public_bytes: "crypto_ok C \<Longrightarrow> wf_keypair kp \<Longrightarrow> length (public_bytes C kp) = 32"
  by (simp add: public_bytes_def wf_keypair_def crypto_okD)

lemma length_sign_bytes: "crypto_ok C \<Longrightarrow> wf_keypair kp \<Longrightarrow> length (sign_bytes C kp msg) = 64"
  by (simp add: sign_bytes_def wf_keypair_def crypto_okD)

lemma length_KEY_FILE_MAGIC: "length KEY_FILE_MAGIC = 14"
  by (simp add: KEY_FILE_MAGIC_def)

subsection \<open>The puzzle: lemmas\<close>

lemma leading_zeros_u8_iff:
  assumes "d \<le> 8" "b \<noteq> 0"
  shows "d \<le> leading_zeros_u8 b \<longleftrightarrow> unat b < 2 ^ (8 - d)"
proof -
  define t where "t = top_bit (unat b)"
  have b: "2 ^ t \<le> unat b" "unat b < 2 ^ Suc t"
    using top_bit_bounds [of "unat b"] assms(2) by (auto simp: t_def unat_gt_0)
  have "(2::nat) ^ t < 2 ^ 8" using b(1) unat_u8_less [of b] by simp
  then have "t < 8" by (rule power_less_imp_less_exp [rotated]) simp
  show ?thesis
  proof
    assume "d \<le> leading_zeros_u8 b"
    then have "Suc t \<le> 8 - d" using assms(2) \<open>t < 8\<close> by (simp add: leading_zeros_u8_def t_def)
    then have "(2::nat) ^ Suc t \<le> 2 ^ (8 - d)" by (intro power_increasing) auto
    with b(2) show "unat b < 2 ^ (8 - d)" by linarith
  next
    assume "unat b < 2 ^ (8 - d)"
    with b(1) have "(2::nat) ^ t < 2 ^ (8 - d)" by linarith
    then have "t < 8 - d" by simp
    then show "d \<le> leading_zeros_u8 b" using assms(2) by (simp add: leading_zeros_u8_def t_def)
  qed
qed

text \<open>At least \<open>d\<close> leading zero bits is being below \<open>2 ^ (8 n - d)\<close> as a big-endian number.\<close>

lemma count_leading_zero_bits_iff:
  "d \<le> 8 * length bs \<Longrightarrow> d \<le> count_leading_zero_bits bs \<longleftrightarrow> be_nat bs < 2 ^ (8 * length bs - d)"
proof (induction bs arbitrary: d)
  case Nil
  then show ?case by simp
next
  case (Cons b bs)
  have bound: "be_nat bs < 2 ^ (8 * length bs)" using be_nat_bound [of bs] by (simp add: power_mult)
  have num: "be_nat (b # bs) = unat b * 2 ^ (8 * length bs) + be_nat bs"
    by (simp add: be_nat_Cons power_mult)
  consider "b = 0" "d \<le> 8" | "b = 0" "8 < d" | "b \<noteq> 0" "d \<le> 8" | "b \<noteq> 0" "8 < d" by linarith
  then show ?case
  proof cases
    case 1
    have "(2::nat) ^ (8 * length bs) \<le> 2 ^ (8 * length (b # bs) - d)"
      using 1 by (intro power_increasing) auto
    with bound have "be_nat bs < 2 ^ (8 * length (b # bs) - d)" by (rule order_less_le_trans)
    with 1 num show ?thesis by simp
  next
    case 2
    then have "d \<le> count_leading_zero_bits (b # bs) \<longleftrightarrow> d - 8 \<le> count_leading_zero_bits bs" by auto
    also have "\<dots> \<longleftrightarrow> be_nat bs < 2 ^ (8 * length bs - (d - 8))" using Cons 2 by simp
    finally show ?thesis using 2 num by (simp add: add.commute)
  next
    case 3
    have e: "(2::nat) ^ (8 * length (b # bs) - d) = 2 ^ (8 - d) * 2 ^ (8 * length bs)"
      using 3 by (simp flip: power_add)
    have "unat b < 2 ^ (8 - d) \<longleftrightarrow> be_nat (b # bs) < 2 ^ (8 - d) * 2 ^ (8 * length bs)"
    proof
      assume "unat b < 2 ^ (8 - d)"
      then have "(unat b + 1) * 2 ^ (8 * length bs) \<le> 2 ^ (8 - d) * 2 ^ (8 * length bs)"
        by (intro mult_right_mono) auto
      with bound num show "be_nat (b # bs) < 2 ^ (8 - d) * 2 ^ (8 * length bs)" by simp
    next
      assume "be_nat (b # bs) < 2 ^ (8 - d) * 2 ^ (8 * length bs)"
      then have "unat b * 2 ^ (8 * length bs) < 2 ^ (8 - d) * 2 ^ (8 * length bs)" using num by linarith
      then show "unat b < 2 ^ (8 - d)" by simp
    qed
    with 3 e show ?thesis by (simp add: leading_zeros_u8_iff)
  next
    case 4
    have "leading_zeros_u8 b \<le> 7" using 4 by (simp add: leading_zeros_u8_def)
    have "1 \<le> unat b" using 4 by (simp add: Suc_le_eq unat_gt_0)
    have p: "(2::nat) ^ (8 * length (b # bs) - d) \<le> 2 ^ (8 * length bs)"
      using 4 by (intro power_increasing) auto
    have q: "1 * 2 ^ (8 * length bs) \<le> unat b * 2 ^ (8 * length bs)"
      using \<open>1 \<le> unat b\<close> by (rule mult_right_mono) simp
    have "\<not> be_nat (b # bs) < 2 ^ (8 * length (b # bs) - d)" using p q num by linarith
    with 4 \<open>leading_zeros_u8 b \<le> 7\<close> show ?thesis by simp
  qed
qed

definition first_solution :: "crypto \<Rightarrow> nat \<Rightarrow> (nat \<Rightarrow> bytes) \<Rightarrow> nat \<Rightarrow> KeyPair \<times> nat \<Rightarrow> bool" where
  "first_solution C d rng i r \<longleftrightarrow>
     i < snd r \<and> fst r = generate rng (snd r - 1) \<and> puzzle_valid C (public_bytes C (fst r)) d \<and>
     (\<forall>k. i \<le> k \<longrightarrow> k < snd r - 1 \<longrightarrow> \<not> puzzle_valid C (public_bytes C (generate rng k)) d)"

lemma first_solution_step:
  assumes "first_solution C d rng (i + 1) r" "\<not> puzzle_valid C (public_bytes C (generate rng i)) d"
  shows "first_solution C d rng i r"
proof -
  have "\<not> puzzle_valid C (public_bytes C (generate rng k)) d" if "i \<le> k" "k < snd r - 1" for k
    using assms that by (cases "k = i") (auto simp: first_solution_def)
  with assms(1) show ?thesis by (auto simp: first_solution_def)
qed

lemma generate_with_puzzle_sound:
  "generate_with_puzzle C d rng i = Some r \<Longrightarrow> first_solution C d rng i r"
proof (erule generate_with_puzzle.raw_induct [of first_solution, rotated])
  fix self C d rng i r
  assume ih: "\<And>C d rng i r. self C d rng i = Some r \<Longrightarrow> first_solution C d rng i r"
    and eq: "(let candidate = generate rng i in
        if puzzle_valid C (public_bytes C candidate) d then Some (candidate, i + 1)
        else self C d rng (i + 1)) = Some r"
  show "first_solution C d rng i r"
  proof (cases "puzzle_valid C (public_bytes C (generate rng i)) d")
    case True
    then show ?thesis using eq by (auto simp: Let_def first_solution_def)
  next
    case False
    then have "self C d rng (i + 1) = Some r" using eq by (simp add: Let_def)
    from first_solution_step [OF ih [OF this] False] show ?thesis .
  qed
qed

lemma generate_with_puzzle_complete:
  assumes "puzzle_valid C (public_bytes C (generate rng (i + n))) d"
    "\<And>k. k < n \<Longrightarrow> \<not> puzzle_valid C (public_bytes C (generate rng (i + k))) d"
  shows "generate_with_puzzle C d rng i = Some (generate rng (i + n), i + n + 1)"
  using assms
proof (induction n arbitrary: i)
  case 0
  then show ?case by (subst generate_with_puzzle.simps) simp
next
  case (Suc n)
  have "\<not> puzzle_valid C (public_bytes C (generate rng i)) d" using Suc.prems(2) [of 0] by simp
  moreover have "generate_with_puzzle C d rng (i + 1) = Some (generate rng (i + 1 + n), i + 1 + n + 1)"
    using Suc.IH [of "i + 1"] Suc.prems(1) Suc.prems(2) [of "Suc _"] by simp
  ultimately show ?case by (subst generate_with_puzzle.simps) simp
qed

subsection \<open>Properties\<close>

text \<open>C34: Puzzle. An identity passes the puzzle at a difficulty exactly when the SHA-256 digest of its
  public key, read as a big-endian number, is below \<open>2 ^ (256 - difficulty)\<close>.\<close>

theorem puzzle_valid_iff:
  assumes "crypto_ok C" "difficulty \<le> 256"
  shows "puzzle_valid C pubkey difficulty \<longleftrightarrow> be_nat (puzzle_evidence C pubkey) < 2 ^ (256 - difficulty)"
  using assms count_leading_zero_bits_iff [of difficulty "puzzle_evidence C pubkey"]
  by (simp add: puzzle_valid_def puzzle_evidence_def crypto_okD)

theorem puzzle_valid_iff_witness:
  "puzzle_valid toy_crypto [0, 1] 15 \<longleftrightarrow> be_nat (puzzle_evidence toy_crypto [0, 1]) < 2 ^ 241"
  using puzzle_valid_iff [OF toy_crypto_ok, of 15 "[0, 1]"] by simp

text \<open>C33: Grinding. The puzzle loop returns exactly when some draw of the generator solves the puzzle,
  and then it returns the first such draw; otherwise it does not return.\<close>

theorem generate_with_puzzle_iff:
  "generate_with_puzzle C difficulty rng i = Some (kp, j) \<longleftrightarrow>
     i < j \<and> kp = generate rng (j - 1) \<and> puzzle_valid C (public_bytes C kp) difficulty \<and>
     (\<forall>k \<in> {i..<j - 1}. \<not> puzzle_valid C (public_bytes C (generate rng k)) difficulty)"
proof
  assume "generate_with_puzzle C difficulty rng i = Some (kp, j)"
  from generate_with_puzzle_sound [OF this, unfolded first_solution_def]
  show "i < j \<and> kp = generate rng (j - 1) \<and> puzzle_valid C (public_bytes C kp) difficulty \<and>
     (\<forall>k \<in> {i..<j - 1}. \<not> puzzle_valid C (public_bytes C (generate rng k)) difficulty)" by auto
next
  assume a: "i < j \<and> kp = generate rng (j - 1) \<and> puzzle_valid C (public_bytes C kp) difficulty \<and>
     (\<forall>k \<in> {i..<j - 1}. \<not> puzzle_valid C (public_bytes C (generate rng k)) difficulty)"
  then have n: "i + (j - 1 - i) = j - 1" "i + (j - 1 - i) + 1 = j" by linarith+
  have "generate_with_puzzle C difficulty rng i = Some (generate rng (i + (j - 1 - i)), i + (j - 1 - i) + 1)"
    by (rule generate_with_puzzle_complete) (use a n in auto)
  with a show "generate_with_puzzle C difficulty rng i = Some (kp, j)" unfolding n by simp
qed

theorem generate_with_puzzle_iff_witness:
  "generate_with_puzzle toy_crypto 8 (\<lambda>i. if i = 0 then replicate 32 255 else replicate 32 0) 0 =
    Some (\<lparr>signing_key = replicate 32 0\<rparr>, 2)"
proof -
  have r: "replicate 32 x = x # replicate 31 x" for x :: u8 by (simp add: numeral_eq_Suc)
  show ?thesis unfolding generate_with_puzzle_iff r
    by (simp add: generate_def from_seed_bytes_def public_bytes_def puzzle_valid_def puzzle_evidence_def toy_crypto_def
        pad_to_def leading_zeros_u8_def top_bit.simps)
qed

text \<open>Key files. Saving an identity and loading the file gives the identity back.\<close>

theorem load_save:
  assumes "crypto_ok C" "wf_keypair kp" "save C kp path NoFault fs = (Inr (), fs')"
  shows "load C fs' path = Inr kp"
proof -
  have len: "length (public_bytes C kp) = 32" "length (private_bytes kp) = 32"
    using assms by (simp_all add: length_public_bytes private_bytes_def wf_keypair_def)
  have f: "fs' path = Some \<lparr>f_contents = key_blob C kp, f_mode = OWNER_ONLY\<rparr>"
    using assms(3) by (auto simp: save_def Let_def)
  have "from_seed_bytes (private_bytes kp) = kp" by (cases kp) (simp add: from_seed_bytes_def private_bytes_def)
  with f len show ?thesis by (simp add: load_def key_blob_def length_KEY_FILE_MAGIC slice_def)
qed

theorem load_save_witness:
  "load toy_crypto (snd (save toy_crypto \<lparr>signing_key = replicate 32 7\<rparr> ''id.key'' NoFault Map.empty)) ''id.key'' =
    Inr \<lparr>signing_key = replicate 32 7\<rparr>"
  by (rule load_save [OF toy_crypto_ok, of _ "''id.key''" Map.empty])
     (simp_all add: wf_keypair_def save_def Let_def)

text \<open>Atomic save. Whatever call of \<open>save\<close> fails, a reader of the key path finds the file as it
  was before or the complete new file readable by the owner only; unless the path is the
  temporary file itself.\<close>

theorem save_atomic:
  assumes "with_extension path ''tmp'' \<noteq> path" "save C kp path fault fs = (r, fs')"
  shows "(r = Inl () \<and> fs' path = fs path) \<or>
    (r = Inr () \<and> fs' path = Some \<lparr>f_contents = key_blob C kp, f_mode = OWNER_ONLY\<rparr> \<and>
      fs' (with_extension path ''tmp'') = None)"
  using assms by (auto simp: save_def Let_def split: if_splits)

theorem save_atomic_witness:
  "snd (save toy_crypto \<lparr>signing_key = replicate 32 7\<rparr> ''id.key'' ChmodFails Map.empty) ''id.key'' = None"
  using save_atomic [of "''id.key''" toy_crypto "\<lparr>signing_key = replicate 32 7\<rparr>" ChmodFails Map.empty "Inl ()"
      "snd (save toy_crypto \<lparr>signing_key = replicate 32 7\<rparr> ''id.key'' ChmodFails Map.empty)"]
  by (simp add: save_def Let_def with_extension_def file_name_start_def)

end
