(* ===== verification/Frame.thy ===== *)
theory Frame
  imports CborProps Bolt4 Identity
begin

section \<open>Frame: the application-frame envelope (\<open>src/frame.rs\<close>)\<close>

text \<open>
  The constructors of every frame type, the parsers of the frames a client receives, the frame
  and publisher signatures, and the length-prefixed codec, in the order of the source. A fresh
  \<open>frame_id\<close> and the clock are arguments, as in the \<open>_value\<close> functions of the code. The spec
  structs are records with a prefix per struct. As in the code every parser has an error enum of
  its own, with \<open>MissingField\<close>, \<open>WrongFieldType\<close> and one constructor for a frame of another
  type. \<open>encode\<close>, \<open>decode\<close>, \<open>sign\<close> and \<open>verify\<close> of the source carry the suffix \<open>_frame\<close>.
\<close>

definition SIG_DOMAIN :: bytes where
  "SIG_DOMAIN = as_bytes ''macula-v2-frame'' @ [0]"

definition EVENT_PUBLISHER_DOMAIN :: bytes where
  "EVENT_PUBLISHER_DOMAIN = as_bytes ''macula-v2-event-pub'' @ [0]"

definition PROTOCOL_VERSION :: int where
  "PROTOCOL_VERSION = 2"

definition MAX_FRAME_BYTES :: nat where
  "MAX_FRAME_BYTES = 0x00FFFFFF"

text \<open>The chain of \<open>.with_field(..)\<close> calls with which the constructors build on the base map.\<close>

definition with_fields :: "Value \<Rightarrow> (string \<times> Value) list \<Rightarrow> Value" where
  "with_fields frame fs = foldl (\<lambda>v (key, x). with_field v key x) frame fs"

definition base :: "string \<Rightarrow> u64 \<Rightarrow> bytes \<Rightarrow> u64 \<Rightarrow> (Value \<times> Value) list" where
  "base frame_type capabilities frame_id sent_at_ms =
    [(Text ''version'', IntV PROTOCOL_VERSION),
     (Text ''frame_type'', Text frame_type),
     (Text ''frame_id'', Bytes frame_id),
     (Text ''sent_at_ms'', IntV (uint sent_at_ms)),
     (Text ''capabilities'', IntV (uint capabilities)),
     (Text ''realm'', Null),
     (Text ''call_id'', Null),
     (Text ''source_route'', Null)]"

definition bytes32_list :: "bytes list \<Rightarrow> Value" where
  "bytes32_list items = List (map Bytes items)"

text \<open>\<open>unwrap_or(Value::Null)\<close>.\<close>

definition or_null :: "Value option \<Rightarrow> Value" where
  "or_null v = (case v of Some x \<Rightarrow> x | None \<Rightarrow> Null)"

subsection \<open>CONNECT and GOODBYE\<close>

record ConnectSpec =
  co_node_id :: bytes
  co_station_id :: bytes
  co_realms :: "bytes list"
  co_capabilities :: u64
  co_puzzle_evidence :: bytes
  co_addresses :: "Value list"
  co_site :: "Value option"
  co_endorsements :: "Value list"

definition ConnectSpec_new :: "bytes \<Rightarrow> bytes \<Rightarrow> ConnectSpec" where
  "ConnectSpec_new node evidence =
    \<lparr>co_node_id = node, co_station_id = node, co_realms = [], co_capabilities = 0,
     co_puzzle_evidence = evidence, co_addresses = [], co_site = None, co_endorsements = []\<rparr>"

definition connect_value :: "ConnectSpec \<Rightarrow> bytes \<Rightarrow> u64 \<Rightarrow> Value" where
  "connect_value spec frame_id sent_at_ms =
    Map (base ''connect'' (co_capabilities spec) frame_id sent_at_ms @
      [(Text ''node_id'', Bytes (co_node_id spec)),
       (Text ''station_id'', Bytes (co_station_id spec)),
       (Text ''realms'', bytes32_list (co_realms spec)),
       (Text ''addresses'', List (co_addresses spec)),
       (Text ''site'', or_null (co_site spec)),
       (Text ''puzzle_evidence'', Bytes (co_puzzle_evidence spec)),
       (Text ''endorsements'', List (co_endorsements spec))])"

definition goodbye_value :: "string \<Rightarrow> string option \<Rightarrow> bytes \<Rightarrow> u64 \<Rightarrow> Value" where
  "goodbye_value reason detail frame_id sent_at_ms =
    Map (base ''goodbye'' 0 frame_id sent_at_ms @
      [(Text ''reason'', Text reason),
       (Text ''detail'', or_null (map_option (\<lambda>d. Bytes (as_bytes d)) detail))])"

subsection \<open>CALL, RESULT and ERROR\<close>

record CallSpec =
  ca_call_id :: bytes
  ca_procedure :: string
  ca_realm :: bytes
  ca_payload :: Value
  ca_deadline_ms :: int
  ca_caller :: bytes
  ca_source_route :: bytes
  ca_retry_budget :: u64
  ca_ucan_token :: bytes

definition CallSpec_new :: "bytes \<Rightarrow> string \<Rightarrow> bytes \<Rightarrow> Value \<Rightarrow> int \<Rightarrow> bytes \<Rightarrow> CallSpec" where
  "CallSpec_new call_id procedure realm payload deadline_ms caller =
    \<lparr>ca_call_id = call_id, ca_procedure = procedure, ca_realm = realm, ca_payload = payload,
     ca_deadline_ms = deadline_ms, ca_caller = caller, ca_source_route = [], ca_retry_budget = 0,
     ca_ucan_token = []\<rparr>"

definition call_value :: "CallSpec \<Rightarrow> bytes \<Rightarrow> u64 \<Rightarrow> Value" where
  "call_value spec frame_id sent_at_ms =
    with_fields (Map (base ''call'' 0 frame_id sent_at_ms))
      [(''realm'', Bytes (ca_realm spec)),
       (''call_id'', Bytes (ca_call_id spec)),
       (''procedure'', Bytes (as_bytes (ca_procedure spec))),
       (''payload'', ca_payload spec),
       (''deadline_ms'', IntV (ca_deadline_ms spec)),
       (''caller'', Bytes (ca_caller spec)),
       (''source_route'', Bytes (ca_source_route spec)),
       (''retry_budget'', IntV (uint (ca_retry_budget spec))),
       (''ucan_token'', Bytes (ca_ucan_token spec))]"

record ResultSpec =
  re_call_id :: bytes
  re_payload :: Value
  re_responded_by :: bytes
  re_source_route_reverse :: bytes

definition ResultSpec_new :: "bytes \<Rightarrow> Value \<Rightarrow> bytes \<Rightarrow> ResultSpec" where
  "ResultSpec_new call_id payload responded_by =
    \<lparr>re_call_id = call_id, re_payload = payload, re_responded_by = responded_by,
     re_source_route_reverse = []\<rparr>"

definition result_value :: "ResultSpec \<Rightarrow> bytes \<Rightarrow> u64 \<Rightarrow> Value" where
  "result_value spec frame_id sent_at_ms =
    with_fields (Map (base ''result'' 0 frame_id sent_at_ms))
      [(''call_id'', Bytes (re_call_id spec)),
       (''payload'', re_payload spec),
       (''responded_by'', Bytes (re_responded_by spec)),
       (''source_route_reverse'', Bytes (re_source_route_reverse spec))]"

record CallErrorSpec =
  er_call_id :: bytes
  er_code :: Code
  er_reported_by :: bytes
  er_detail :: "string option"
  er_offending_hop :: "bytes option"
  er_source_route_partial :: bytes

definition CallErrorSpec_new :: "bytes \<Rightarrow> Code \<Rightarrow> bytes \<Rightarrow> CallErrorSpec" where
  "CallErrorSpec_new call_id code reported_by =
    \<lparr>er_call_id = call_id, er_code = code, er_reported_by = reported_by, er_detail = None,
     er_offending_hop = None, er_source_route_partial = []\<rparr>"

definition call_error_value :: "CallErrorSpec \<Rightarrow> bytes \<Rightarrow> u64 \<Rightarrow> Value" where
  "call_error_value spec frame_id sent_at_ms =
    with_fields (Map (base ''error'' 0 frame_id sent_at_ms))
      [(''call_id'', Bytes (er_call_id spec)),
       (''code'', IntV (uint (code_as_u8 (er_code spec)))),
       (''name'', Text (code_name (er_code spec))),
       (''reported_by'', Bytes (er_reported_by spec)),
       (''detail'', or_null (map_option (\<lambda>d. Bytes (as_bytes d)) (er_detail spec))),
       (''offending_hop'', or_null (map_option Bytes (er_offending_hop spec))),
       (''source_route_partial'', Bytes (er_source_route_partial spec))]"

subsection \<open>Reading fields\<close>

text \<open>
  Every required field is read the same way: absent is the parser's \<open>MissingField\<close>, of another
  type (or with contents that do not convert) its \<open>WrongFieldType\<close>. Each parser of the source
  has an error enum of its own, so the two constructors are the reader's first arguments.
\<close>

definition read_field ::
  "(string \<Rightarrow> 'e) \<Rightarrow> (string \<Rightarrow> 'e) \<Rightarrow> (Value \<Rightarrow> 'a option) \<Rightarrow> Value \<Rightarrow> string \<Rightarrow> ('a, 'e) result" where
  "read_field missing wrong conv frame field =
    (case get frame field of
       None \<Rightarrow> Inl (missing field)
     | Some v \<Rightarrow> ok_or (wrong field) (conv v))"

definition as_array :: "nat \<Rightarrow> Value \<Rightarrow> bytes option" where
  "as_array n v = (case v of Bytes b \<Rightarrow> to_array n b | _ \<Rightarrow> None)"

definition as_utf8 :: "Value \<Rightarrow> string option" where
  "as_utf8 v = (case v of Bytes b \<Rightarrow> from_utf8 b | _ \<Rightarrow> None)"

definition as_text :: "Value \<Rightarrow> string option" where
  "as_text v = (case v of Text t \<Rightarrow> Some t | _ \<Rightarrow> None)"

definition as_int :: "Value \<Rightarrow> int option" where
  "as_int v = (case v of IntV n \<Rightarrow> Some n | _ \<Rightarrow> None)"

definition as_uint :: "Value \<Rightarrow> u64 option" where
  "as_uint v = (case v of IntV n \<Rightarrow> if n \<ge> 0 then Some (word_of_int n) else None | _ \<Rightarrow> None)"

definition as_byte :: "Value \<Rightarrow> u8 option" where
  "as_byte v = (case v of IntV n \<Rightarrow> if 0 \<le> n \<and> n \<le> 255 then Some (word_of_int n) else None | _ \<Rightarrow> None)"

definition as_bool :: "Value \<Rightarrow> bool option" where
  "as_bool v =
    (case v of
       Text t \<Rightarrow> if t = ''true'' then Some True else if t = ''false'' then Some False else None
     | _ \<Rightarrow> None)"

definition as_array_list :: "nat \<Rightarrow> Value \<Rightarrow> bytes list option" where
  "as_array_list n v = (case v of List items \<Rightarrow> those (map (as_array n) items) | _ \<Rightarrow> None)"

definition is_frame_type :: "Value \<Rightarrow> string \<Rightarrow> bool" where
  "is_frame_type frame t = (case get frame ''frame_type'' of Some (Text u) \<Rightarrow> u = t | _ \<Rightarrow> False)"

subsection \<open>Parsing CALL, RESULT and ERROR\<close>

record CallInfo =
  ci_call_id :: bytes
  ci_procedure :: string
  ci_realm :: bytes
  ci_payload :: Value
  ci_deadline_ms :: int
  ci_caller :: bytes
  ci_ucan_token :: bytes

datatype ParseCallError = NotACallFrame | MissingField string | WrongFieldType string

abbreviation call_field :: "(Value \<Rightarrow> 'a option) \<Rightarrow> Value \<Rightarrow> string \<Rightarrow> ('a, ParseCallError) result" where
  "call_field \<equiv> read_field ParseCallError.MissingField ParseCallError.WrongFieldType"

definition parse_call :: "Value \<Rightarrow> (CallInfo, ParseCallError) result" where
  "parse_call frame =
    (if \<not> is_frame_type frame ''call'' then Inl NotACallFrame
     else
       bindR (call_field (as_array 16) frame ''call_id'') (\<lambda>call_id.
       bindR (call_field as_utf8 frame ''procedure'') (\<lambda>procedure.
       bindR (call_field (as_array 32) frame ''realm'') (\<lambda>realm.
       bindR (call_field Some frame ''payload'') (\<lambda>payload.
       bindR (call_field as_int frame ''deadline_ms'') (\<lambda>deadline_ms.
       bindR (call_field (as_array 32) frame ''caller'') (\<lambda>caller.
         let ucan_token = (case get frame ''ucan_token'' of Some (Bytes b) \<Rightarrow> b | _ \<Rightarrow> []) in
         Inr \<lparr>ci_call_id = call_id, ci_procedure = procedure, ci_realm = realm, ci_payload = payload,
              ci_deadline_ms = deadline_ms, ci_caller = caller, ci_ucan_token = ucan_token\<rparr>)))))))"

datatype CallResponse =
    CallResult Value bytes
  | CallError u8 string bytes "string option"

definition frame_call_id :: "Value \<Rightarrow> bytes option" where
  "frame_call_id frame = (case get frame ''call_id'' of Some (Bytes b) \<Rightarrow> to_array 16 b | _ \<Rightarrow> None)"

datatype ParseCallResponseError = NotAResultOrError | MissingField string | WrongFieldType string

abbreviation response_field :: "(Value \<Rightarrow> 'a option) \<Rightarrow> Value \<Rightarrow> string \<Rightarrow> ('a, ParseCallResponseError) result" where
  "response_field \<equiv> read_field ParseCallResponseError.MissingField ParseCallResponseError.WrongFieldType"

definition read_detail :: "Value \<Rightarrow> (string option, ParseCallResponseError) result" where
  "read_detail frame =
    (case get frame ''detail'' of
       None \<Rightarrow> Inr None
     | Some Null \<Rightarrow> Inr None
     | Some (Bytes b) \<Rightarrow> bindR (ok_or (ParseCallResponseError.WrongFieldType ''detail'') (from_utf8 b)) (\<lambda>d. Inr (Some d))
     | Some _ \<Rightarrow> Inl (ParseCallResponseError.WrongFieldType ''detail''))"

definition parse_call_response :: "Value \<Rightarrow> (CallResponse, ParseCallResponseError) result" where
  "parse_call_response frame =
    (if is_frame_type frame ''result'' then
       bindR (response_field Some frame ''payload'') (\<lambda>payload.
       bindR (response_field (as_array 32) frame ''responded_by'') (\<lambda>responded_by.
         Inr (CallResult payload responded_by)))
     else if is_frame_type frame ''error'' then
       bindR (response_field as_byte frame ''code'') (\<lambda>code.
       bindR (response_field as_text frame ''name'') (\<lambda>name.
       bindR (response_field (as_array 32) frame ''reported_by'') (\<lambda>reported_by.
       bindR (read_detail frame) (\<lambda>detail.
         Inr (CallError code name reported_by detail)))))
     else Inl NotAResultOrError)"

subsection \<open>PUBLISH, SUBSCRIBE, UNSUBSCRIBE and EVENT\<close>

record PublishSpec =
  pu_topic :: string
  pu_realm :: bytes
  pu_publisher :: bytes
  pu_seq :: u64
  pu_payload :: Value
  pu_published_at_ms :: u64
  pu_ttl_ms :: "u64 option"

definition PublishSpec_new :: "string \<Rightarrow> bytes \<Rightarrow> bytes \<Rightarrow> u64 \<Rightarrow> Value \<Rightarrow> u64 \<Rightarrow> PublishSpec" where
  "PublishSpec_new topic realm publisher seq payload published_at_ms =
    \<lparr>pu_topic = topic, pu_realm = realm, pu_publisher = publisher, pu_seq = seq, pu_payload = payload,
     pu_published_at_ms = published_at_ms, pu_ttl_ms = None\<rparr>"

definition publish_value :: "PublishSpec \<Rightarrow> bytes \<Rightarrow> u64 \<Rightarrow> Value" where
  "publish_value spec frame_id sent_at_ms =
    with_fields (Map (base ''publish'' 0 frame_id sent_at_ms))
      [(''realm'', Bytes (pu_realm spec)),
       (''topic'', Bytes (as_bytes (pu_topic spec))),
       (''publisher'', Bytes (pu_publisher spec)),
       (''seq'', IntV (uint (pu_seq spec))),
       (''payload'', pu_payload spec),
       (''published_at_ms'', IntV (uint (pu_published_at_ms spec))),
       (''ttl_ms'', or_null (map_option (\<lambda>t. IntV (uint t)) (pu_ttl_ms spec)))]"

record SubscribeSpec =
  su_topic :: string
  su_realm :: bytes
  su_subscriber :: bytes

definition SubscribeSpec_new :: "string \<Rightarrow> bytes \<Rightarrow> bytes \<Rightarrow> SubscribeSpec" where
  [simp]: "SubscribeSpec_new topic realm subscriber = \<lparr>su_topic = topic, su_realm = realm, su_subscriber = subscriber\<rparr>"

definition subscribe_value :: "SubscribeSpec \<Rightarrow> bytes \<Rightarrow> u64 \<Rightarrow> Value" where
  "subscribe_value spec frame_id sent_at_ms =
    with_fields (Map (base ''subscribe'' 0 frame_id sent_at_ms))
      [(''realm'', Bytes (su_realm spec)),
       (''topic'', Bytes (as_bytes (su_topic spec))),
       (''subscriber'', Bytes (su_subscriber spec)),
       (''filter'', Null),
       (''options'', Map [])]"

record UnsubscribeSpec =
  un_topic :: string
  un_realm :: bytes
  un_subscriber :: bytes

definition UnsubscribeSpec_new :: "string \<Rightarrow> bytes \<Rightarrow> bytes \<Rightarrow> UnsubscribeSpec" where
  [simp]: "UnsubscribeSpec_new topic realm subscriber = \<lparr>un_topic = topic, un_realm = realm, un_subscriber = subscriber\<rparr>"

definition unsubscribe_value :: "UnsubscribeSpec \<Rightarrow> bytes \<Rightarrow> u64 \<Rightarrow> Value" where
  "unsubscribe_value spec frame_id sent_at_ms =
    with_fields (Map (base ''unsubscribe'' 0 frame_id sent_at_ms))
      [(''realm'', Bytes (un_realm spec)),
       (''topic'', Bytes (as_bytes (un_topic spec))),
       (''subscriber'', Bytes (un_subscriber spec))]"

record EventInfo =
  ev_topic :: string
  ev_realm :: bytes
  ev_publisher :: bytes
  ev_seq :: u64
  ev_payload :: Value
  ev_delivered_via :: string

datatype ParseEventError = NotAnEventFrame | MissingField string | WrongFieldType string

abbreviation event_field :: "(Value \<Rightarrow> 'a option) \<Rightarrow> Value \<Rightarrow> string \<Rightarrow> ('a, ParseEventError) result" where
  "event_field \<equiv> read_field ParseEventError.MissingField ParseEventError.WrongFieldType"

definition parse_event :: "Value \<Rightarrow> (EventInfo, ParseEventError) result" where
  "parse_event frame =
    (if \<not> is_frame_type frame ''event'' then Inl NotAnEventFrame
     else
       bindR (event_field as_utf8 frame ''topic'') (\<lambda>topic.
       bindR (event_field (as_array 32) frame ''realm'') (\<lambda>realm.
       bindR (event_field (as_array 32) frame ''publisher'') (\<lambda>publisher.
       bindR (event_field as_uint frame ''seq'') (\<lambda>seq.
       bindR (event_field Some frame ''payload'') (\<lambda>payload.
       bindR (event_field as_text frame ''delivered_via'') (\<lambda>delivered_via.
         Inr \<lparr>ev_topic = topic, ev_realm = realm, ev_publisher = publisher, ev_seq = seq,
              ev_payload = payload, ev_delivered_via = delivered_via\<rparr>)))))))"

subsection \<open>HELLO\<close>

record HelloInfo =
  he_node_id :: bytes
  he_station_id :: bytes
  he_realms :: "bytes list"
  he_capabilities :: u64
  he_accepted :: bool
  he_negotiated_capabilities :: u64
  he_refusal_code :: "int option"

datatype ParseHelloError = NotAHelloFrame | MissingField string | WrongFieldType string

abbreviation hello_field :: "(Value \<Rightarrow> 'a option) \<Rightarrow> Value \<Rightarrow> string \<Rightarrow> ('a, ParseHelloError) result" where
  "hello_field \<equiv> read_field ParseHelloError.MissingField ParseHelloError.WrongFieldType"

definition parse_hello :: "Value \<Rightarrow> (HelloInfo, ParseHelloError) result" where
  "parse_hello frame =
    (if \<not> is_frame_type frame ''hello'' then Inl NotAHelloFrame
     else
       bindR (case get frame ''refusal_code'' of
                None \<Rightarrow> Inr None
              | Some Null \<Rightarrow> Inr None
              | Some (IntV n) \<Rightarrow> Inr (Some n)
              | Some _ \<Rightarrow> Inl (ParseHelloError.WrongFieldType ''refusal_code'')) (\<lambda>refusal_code.
       bindR (hello_field (as_array 32) frame ''node_id'') (\<lambda>node.
       bindR (hello_field (as_array 32) frame ''station_id'') (\<lambda>station.
       bindR (hello_field (as_array_list 32) frame ''realms'') (\<lambda>realms.
       bindR (hello_field as_uint frame ''capabilities'') (\<lambda>capabilities.
       bindR (hello_field as_bool frame ''accepted'') (\<lambda>accepted.
       bindR (hello_field as_uint frame ''negotiated_capabilities'') (\<lambda>negotiated.
         Inr \<lparr>he_node_id = node, he_station_id = station, he_realms = realms,
              he_capabilities = capabilities, he_accepted = accepted,
              he_negotiated_capabilities = negotiated, he_refusal_code = refusal_code\<rparr>))))))))"

subsection \<open>Sign and verify\<close>

text \<open>The \<open>expect\<close> on the encoder's result is the only way in which signing can panic.\<close>

definition signable_bytes :: "Value \<Rightarrow> (bytes, 'e fail) result" where
  "signable_bytes frame =
    (case encode (without frame [''signature'', ''publisher_sig'']) of
       Inl _ \<Rightarrow> Inl Panic
     | Inr canonical \<Rightarrow> Inr (SIG_DOMAIN @ canonical))"

definition sign_frame :: "crypto \<Rightarrow> Value \<Rightarrow> KeyPair \<Rightarrow> (Value, 'e fail) result" where
  "sign_frame C frame identity =
    bindR (signable_bytes frame) (\<lambda>signable.
      Inr (with_field frame ''signature'' (Bytes (sign_bytes C identity signable))))"

datatype VerifyError = MissingSignature | BadSignature | SignatureInvalid

definition verify_frame :: "crypto \<Rightarrow> Value \<Rightarrow> bytes \<Rightarrow> (unit, VerifyError fail) result" where
  "verify_frame C frame pubkey =
    (case get frame ''signature'' of
       Some (Bytes b) \<Rightarrow>
         bindR (ok_or (Err BadSignature) (to_array 64 b)) (\<lambda>sig.
         bindR (signable_bytes frame) (\<lambda>signable.
           if verify_bytes C signable sig pubkey then Inr () else Inl (Err SignatureInvalid)))
     | _ \<Rightarrow> Inl (Err MissingSignature))"

subsection \<open>The publisher signature\<close>

definition publisher_fields :: "string list" where
  "publisher_fields = [''topic'', ''realm'', ''publisher'', ''seq'', ''payload'']"

definition publisher_signing_bytes :: "Value \<Rightarrow> (bytes, 'e fail) result" where
  "publisher_signing_bytes frame =
    (case encode (Map (map (\<lambda>f. (Text f, or_null (get frame f))) publisher_fields)) of
       Inl _ \<Rightarrow> Inl Panic
     | Inr canonical \<Rightarrow> Inr (EVENT_PUBLISHER_DOMAIN @ canonical))"

definition sign_publisher :: "crypto \<Rightarrow> Value \<Rightarrow> KeyPair \<Rightarrow> (Value, 'e fail) result" where
  "sign_publisher C frame identity =
    bindR (publisher_signing_bytes frame) (\<lambda>signable.
      Inr (with_field frame ''publisher_sig'' (Bytes (sign_bytes C identity signable))))"

datatype VerifyPublisherError = MissingPublisherSig | BadPublisherSig | PublisherSigInvalid

definition verify_publisher :: "crypto \<Rightarrow> Value \<Rightarrow> (unit, VerifyPublisherError fail) result" where
  "verify_publisher C frame =
    (case get frame ''publisher_sig'' of
       Some (Bytes b) \<Rightarrow>
         bindR (ok_or (Err BadPublisherSig) (to_array 64 b)) (\<lambda>sig.
         case get frame ''publisher'' of
           Some (Bytes p) \<Rightarrow>
             bindR (ok_or (Err BadPublisherSig) (to_array 32 p)) (\<lambda>pubkey.
             bindR (publisher_signing_bytes frame) (\<lambda>signable.
               if verify_bytes C signable sig pubkey then Inr () else Inl (Err PublisherSigInvalid)))
         | _ \<Rightarrow> Inl (Err BadPublisherSig))
     | _ \<Rightarrow> Inl (Err MissingPublisherSig))"

subsection \<open>The wire codec\<close>

datatype EncodeFrameError = EncodeTooLarge nat | EncodeCbor IntOutOfRange

definition encode_frame :: "Value \<Rightarrow> (bytes, EncodeFrameError) result" where
  "encode_frame frame =
    bindR (map_err EncodeCbor (encode frame)) (\<lambda>payload.
      if length payload > MAX_FRAME_BYTES then Inl (EncodeTooLarge (length payload))
      else Inr (to_be_bytes 4 (word_of_nat (length payload) :: u32) @ payload))"

datatype Decoded = DecodedFrame Value nat | More nat

datatype DecodeFrameError = DecodeTooLarge nat | DecodeCbor DecodeError

fun lift_fail :: "('e \<Rightarrow> 'f) \<Rightarrow> 'e fail \<Rightarrow> 'f fail" where
  "lift_fail g (Err e) = Err (g e)"
| "lift_fail g Panic = Panic"

definition decode_frame :: "bytes \<Rightarrow> (Decoded, DecodeFrameError fail) result" where
  "decode_frame buf =
    (if length buf < 4 then Inr (More (4 - length buf))
     else
       (let len = unat (from_be_bytes (take 4 buf) :: u32) in
        if len > MAX_FRAME_BYTES then Inl (Err (DecodeTooLarge len))
        else if length buf < 4 + len then Inr (More (4 + len - length buf))
        else
          bindR (slice_at buf 4 (4 + len)) (\<lambda>body.
          bindR (map_err (lift_fail DecodeCbor) (decode body)) (\<lambda>v.
            Inr (DecodedFrame v (4 + len))))))"

subsection \<open>ADVERTISE and UNADVERTISE\<close>

record AdvertiseSpec =
  ad_realm :: bytes
  ad_procedure :: string
  ad_advertiser :: bytes

definition AdvertiseSpec_new :: "bytes \<Rightarrow> string \<Rightarrow> bytes \<Rightarrow> AdvertiseSpec" where
  [simp]: "AdvertiseSpec_new realm procedure advertiser = \<lparr>ad_realm = realm, ad_procedure = procedure, ad_advertiser = advertiser\<rparr>"

definition advertise_value :: "AdvertiseSpec \<Rightarrow> bytes \<Rightarrow> u64 \<Rightarrow> Value" where
  "advertise_value spec frame_id sent_at_ms =
    with_fields (Map (base ''advertise'' 0 frame_id sent_at_ms))
      [(''realm'', Bytes (ad_realm spec)),
       (''procedure'', Bytes (as_bytes (ad_procedure spec))),
       (''advertiser'', Bytes (ad_advertiser spec)),
       (''options'', Map [])]"

record UnadvertiseSpec =
  ua_realm :: bytes
  ua_procedure :: string
  ua_advertiser :: bytes

definition UnadvertiseSpec_new :: "bytes \<Rightarrow> string \<Rightarrow> bytes \<Rightarrow> UnadvertiseSpec" where
  [simp]: "UnadvertiseSpec_new realm procedure advertiser = \<lparr>ua_realm = realm, ua_procedure = procedure, ua_advertiser = advertiser\<rparr>"

definition unadvertise_value :: "UnadvertiseSpec \<Rightarrow> bytes \<Rightarrow> u64 \<Rightarrow> Value" where
  "unadvertise_value spec frame_id sent_at_ms =
    with_fields (Map (base ''unadvertise'' 0 frame_id sent_at_ms))
      [(''realm'', Bytes (ua_realm spec)),
       (''procedure'', Bytes (as_bytes (ua_procedure spec))),
       (''advertiser'', Bytes (ua_advertiser spec))]"

end
