(* ===== verification/StreamFrame.thy ===== *)
theory StreamFrame
  imports Frame
begin

section \<open>StreamFrame: the streaming frames of \<open>src/frame.rs\<close>\<close>

text \<open>
  STREAM_OPEN, STREAM_DATA, STREAM_END, STREAM_ERROR and STREAM_REPLY: the three enums with
  their wire names, the constructors, and the two parsers.
\<close>

datatype StreamMode = ServerStream | ClientStream | Bidi

fun mode_name :: "StreamMode \<Rightarrow> string" where
  "mode_name ServerStream = ''server_stream''"
| "mode_name ClientStream = ''client_stream''"
| "mode_name Bidi = ''bidi''"

definition mode_from_name :: "string \<Rightarrow> StreamMode option" where
  "mode_from_name name =
    (if name = ''server_stream'' then Some ServerStream
     else if name = ''client_stream'' then Some ClientStream
     else if name = ''bidi'' then Some Bidi
     else None)"

datatype StreamEncoding = Raw | Msgpack

fun encoding_name :: "StreamEncoding \<Rightarrow> string" where
  "encoding_name Raw = ''raw''"
| "encoding_name Msgpack = ''msgpack''"

definition encoding_from_name :: "string \<Rightarrow> StreamEncoding option" where
  "encoding_from_name name =
    (if name = ''raw'' then Some Raw else if name = ''msgpack'' then Some Msgpack else None)"

datatype StreamRole = RoleSend | RoleBoth

fun role_name :: "StreamRole \<Rightarrow> string" where
  "role_name RoleSend = ''send''"
| "role_name RoleBoth = ''both''"

definition role_from_name :: "string \<Rightarrow> StreamRole option" where
  "role_from_name name =
    (if name = ''send'' then Some RoleSend else if name = ''both'' then Some RoleBoth else None)"

record StreamOpenSpec =
  so_stream_id :: bytes
  so_procedure :: string
  so_realm :: bytes
  so_mode :: StreamMode
  so_args :: Value
  so_deadline_ms :: int
  so_caller :: bytes
  so_source_route :: bytes
  so_retry_budget :: u64

definition StreamOpenSpec_new ::
  "bytes \<Rightarrow> string \<Rightarrow> bytes \<Rightarrow> StreamMode \<Rightarrow> Value \<Rightarrow> int \<Rightarrow> bytes \<Rightarrow> StreamOpenSpec" where
  "StreamOpenSpec_new stream_id procedure realm md args deadline_ms caller =
    \<lparr>so_stream_id = stream_id, so_procedure = procedure, so_realm = realm, so_mode = md, so_args = args,
     so_deadline_ms = deadline_ms, so_caller = caller, so_source_route = [], so_retry_budget = 0\<rparr>"

definition stream_open_value :: "StreamOpenSpec \<Rightarrow> bytes \<Rightarrow> u64 \<Rightarrow> Value" where
  "stream_open_value spec frame_id sent_at_ms =
    with_fields (Map (base ''stream_open'' 0 frame_id sent_at_ms))
      [(''stream_id'', Bytes (so_stream_id spec)),
       (''procedure'', Bytes (as_bytes (so_procedure spec))),
       (''realm'', Bytes (so_realm spec)),
       (''mode'', Text (mode_name (so_mode spec))),
       (''args'', so_args spec),
       (''deadline_ms'', IntV (so_deadline_ms spec)),
       (''caller'', Bytes (so_caller spec)),
       (''source_route'', Bytes (so_source_route spec)),
       (''retry_budget'', IntV (uint (so_retry_budget spec)))]"

record StreamOpenInfo =
  si_stream_id :: bytes
  si_procedure :: string
  si_realm :: bytes
  si_mode :: StreamMode
  si_args :: Value
  si_deadline_ms :: int
  si_caller :: bytes

definition as_named :: "(string \<Rightarrow> 'a option) \<Rightarrow> Value \<Rightarrow> 'a option" where
  "as_named from_name v = (case v of Text t \<Rightarrow> from_name t | _ \<Rightarrow> None)"

datatype ParseStreamOpenError = NotAStreamOpenFrame | MissingField string | WrongFieldType string

abbreviation open_field :: "(Value \<Rightarrow> 'a option) \<Rightarrow> Value \<Rightarrow> string \<Rightarrow> ('a, ParseStreamOpenError) result" where
  "open_field \<equiv> read_field ParseStreamOpenError.MissingField ParseStreamOpenError.WrongFieldType"

definition parse_stream_open :: "Value \<Rightarrow> (StreamOpenInfo, ParseStreamOpenError) result" where
  "parse_stream_open frame =
    (if \<not> is_frame_type frame ''stream_open'' then Inl NotAStreamOpenFrame
     else
       bindR (open_field (as_array 16) frame ''stream_id'') (\<lambda>stream_id.
       bindR (open_field as_utf8 frame ''procedure'') (\<lambda>procedure.
       bindR (open_field (as_array 32) frame ''realm'') (\<lambda>realm.
       bindR (open_field (as_named mode_from_name) frame ''mode'') (\<lambda>md.
       bindR (open_field Some frame ''args'') (\<lambda>args.
       bindR (open_field as_int frame ''deadline_ms'') (\<lambda>deadline_ms.
       bindR (open_field (as_array 32) frame ''caller'') (\<lambda>caller.
         Inr \<lparr>si_stream_id = stream_id, si_procedure = procedure, si_realm = realm, si_mode = md,
              si_args = args, si_deadline_ms = deadline_ms, si_caller = caller\<rparr>))))))))"

record StreamDataSpec =
  sd_stream_id :: bytes
  sd_seq :: u64
  sd_encoding :: StreamEncoding
  sd_body :: Value
  sd_signer :: "bytes option"

definition StreamDataSpec_new :: "bytes \<Rightarrow> u64 \<Rightarrow> StreamEncoding \<Rightarrow> Value \<Rightarrow> bytes option \<Rightarrow> StreamDataSpec" where
  [simp]: "StreamDataSpec_new stream_id seq encoding body signer =
    \<lparr>sd_stream_id = stream_id, sd_seq = seq, sd_encoding = encoding, sd_body = body, sd_signer = signer\<rparr>"

definition with_optional_signer :: "Value \<Rightarrow> bytes option \<Rightarrow> Value" where
  "with_optional_signer v signer =
    (case signer of Some pub_key \<Rightarrow> with_field v ''signer'' (Bytes pub_key) | None \<Rightarrow> v)"

definition stream_data_value :: "StreamDataSpec \<Rightarrow> bytes \<Rightarrow> u64 \<Rightarrow> Value" where
  "stream_data_value spec frame_id sent_at_ms =
    with_optional_signer
      (with_fields (Map (base ''stream_data'' 0 frame_id sent_at_ms))
        [(''stream_id'', Bytes (sd_stream_id spec)),
         (''seq'', IntV (uint (sd_seq spec))),
         (''encoding'', Text (encoding_name (sd_encoding spec))),
         (''body'', sd_body spec)])
      (sd_signer spec)"

record StreamEndSpec =
  se_stream_id :: bytes
  se_role :: StreamRole
  se_signer :: "bytes option"

definition StreamEndSpec_new :: "bytes \<Rightarrow> StreamRole \<Rightarrow> bytes option \<Rightarrow> StreamEndSpec" where
  [simp]: "StreamEndSpec_new stream_id role signer = \<lparr>se_stream_id = stream_id, se_role = role, se_signer = signer\<rparr>"

definition stream_end_value :: "StreamEndSpec \<Rightarrow> bytes \<Rightarrow> u64 \<Rightarrow> Value" where
  "stream_end_value spec frame_id sent_at_ms =
    with_optional_signer
      (with_fields (Map (base ''stream_end'' 0 frame_id sent_at_ms))
        [(''stream_id'', Bytes (se_stream_id spec)),
         (''role'', Text (role_name (se_role spec)))])
      (se_signer spec)"

record StreamErrorSpec =
  sx_stream_id :: bytes
  sx_code :: string
  sx_message :: string
  sx_signer :: "bytes option"

definition StreamErrorSpec_new :: "bytes \<Rightarrow> string \<Rightarrow> string \<Rightarrow> bytes option \<Rightarrow> StreamErrorSpec" where
  [simp]: "StreamErrorSpec_new stream_id code message signer =
    \<lparr>sx_stream_id = stream_id, sx_code = code, sx_message = message, sx_signer = signer\<rparr>"

definition stream_error_value :: "StreamErrorSpec \<Rightarrow> bytes \<Rightarrow> u64 \<Rightarrow> Value" where
  "stream_error_value spec frame_id sent_at_ms =
    with_optional_signer
      (with_fields (Map (base ''stream_error'' 0 frame_id sent_at_ms))
        [(''stream_id'', Bytes (sx_stream_id spec)),
         (''code'', Bytes (as_bytes (sx_code spec))),
         (''message'', Bytes (as_bytes (sx_message spec)))])
      (sx_signer spec)"

record StreamReplySpec =
  sr_stream_id :: bytes
  sr_payload :: Value
  sr_responded_by :: bytes

definition StreamReplySpec_new :: "bytes \<Rightarrow> Value \<Rightarrow> bytes \<Rightarrow> StreamReplySpec" where
  [simp]: "StreamReplySpec_new stream_id payload responded_by =
    \<lparr>sr_stream_id = stream_id, sr_payload = payload, sr_responded_by = responded_by\<rparr>"

definition stream_reply_value :: "StreamReplySpec \<Rightarrow> bytes \<Rightarrow> u64 \<Rightarrow> Value" where
  "stream_reply_value spec frame_id sent_at_ms =
    with_fields (Map (base ''stream_reply'' 0 frame_id sent_at_ms))
      [(''stream_id'', Bytes (sr_stream_id spec)),
       (''payload'', sr_payload spec),
       (''responded_by'', Bytes (sr_responded_by spec))]"

definition frame_stream_id :: "Value \<Rightarrow> bytes option" where
  "frame_stream_id frame = (case get frame ''stream_id'' of Some (Bytes b) \<Rightarrow> to_array 16 b | _ \<Rightarrow> None)"

datatype StreamEvent =
    StreamData bytes u64 StreamEncoding Value
  | StreamEnd bytes StreamRole
  | StreamError bytes string string
  | StreamReply bytes Value bytes

datatype ParseStreamEventError = NotAStreamFrame | MissingField string | WrongFieldType string

abbreviation stream_field :: "(Value \<Rightarrow> 'a option) \<Rightarrow> Value \<Rightarrow> string \<Rightarrow> ('a, ParseStreamEventError) result" where
  "stream_field \<equiv> read_field ParseStreamEventError.MissingField ParseStreamEventError.WrongFieldType"

definition parse_stream_event :: "Value \<Rightarrow> (StreamEvent, ParseStreamEventError) result" where
  "parse_stream_event frame =
    bindR (stream_field (as_array 16) frame ''stream_id'') (\<lambda>stream_id.
      if is_frame_type frame ''stream_data'' then
        bindR (stream_field as_uint frame ''seq'') (\<lambda>seq.
        bindR (stream_field (as_named encoding_from_name) frame ''encoding'') (\<lambda>encoding.
        bindR (stream_field Some frame ''body'') (\<lambda>body.
          Inr (StreamData stream_id seq encoding body))))
      else if is_frame_type frame ''stream_end'' then
        bindR (stream_field (as_named role_from_name) frame ''role'') (\<lambda>role.
          Inr (StreamEnd stream_id role))
      else if is_frame_type frame ''stream_error'' then
        bindR (stream_field as_utf8 frame ''code'') (\<lambda>code.
        bindR (stream_field as_utf8 frame ''message'') (\<lambda>message.
          Inr (StreamError stream_id code message)))
      else if is_frame_type frame ''stream_reply'' then
        bindR (stream_field Some frame ''payload'') (\<lambda>payload.
        bindR (stream_field (as_array 32) frame ''responded_by'') (\<lambda>responded_by.
          Inr (StreamReply stream_id payload responded_by)))
      else Inl NotAStreamFrame)"

lemma from_name_name:
  "mode_from_name (mode_name m) = Some m"
  "encoding_from_name (encoding_name e) = Some e"
  "role_from_name (role_name r) = Some r"
  by (cases m, simp_all add: mode_from_name_def) (cases e, simp_all add: encoding_from_name_def, cases r, simp_all add: role_from_name_def)

end
