(* ===== verification/FrameFacts.thy ===== *)
theory FrameFacts
  imports StreamFrame
begin

section \<open>FrameFacts: fields, signatures and the wire codec\<close>

text \<open>
  Field access through normal forms, the invariant \<open>frame_ok\<close> of the frames the constructors
  build, and the lemmas behind the signature and codec properties: what is stripped before
  signing, what a received frame verifies against, and what the length prefix promises.
\<close>

subsection \<open>Fields of normal forms\<close>

lemma normal_eq_Text [simp]: "normal v = Text s \<longleftrightarrow> v = Text s"
  by (cases v) simp_all

lemma get_eq_Some:
  "distinct (map (\<lambda>p. enc (fst p)) ps) \<Longrightarrow> get (Map ps) key = Some v \<longleftrightarrow> (Text key, v) \<in> set ps"
proof (induction ps)
  case Nil
  then show ?case by simp
next
  case (Cons p ps)
  have "(Text key, v) \<notin> set ps" if "fst p = Text key"
    using Cons.prems that by (auto simp: image_iff)
  with Cons show ?case by (cases p) auto
qed

lemma get_normal:
  assumes "wfv (Map ps)"
  shows "get (normal (Map ps)) key = map_option normal (get (Map ps) key)"
proof -
  define qs where "qs = map (\<lambda>p. (normal (fst p), normal (snd p))) (sort_key (\<lambda>p. enc (fst p)) ps)"
  then have qs: "normal (Map ps) = Map qs" by simp
  have "wfv (normal (Map ps))" using normal_wfv_enc [OF assms] by simp
  then have "wfv (Map qs)" unfolding qs .
  then have dist: "distinct (map (\<lambda>p. enc (fst p)) qs)" by simp
  have mem: "(Text key, w) \<in> set qs \<longleftrightarrow> (\<exists>v. (Text key, v) \<in> set ps \<and> w = normal v)" for w
  proof -
    have "(Text key, w) \<in> set qs \<longleftrightarrow> (\<exists>p \<in> set ps. normal (fst p) = Text key \<and> normal (snd p) = w)"
      by (auto simp: qs_def image_iff eq_commute [of "Text key"])
    then show ?thesis by (auto simp: Bex_def)
  qed
  have "distinct (map (\<lambda>p. enc (fst p)) ps)" using assms by simp
  then have "get (Map qs) key = Some w \<longleftrightarrow> map_option normal (get (Map ps) key) = Some w" for w
    using get_eq_Some [OF dist] get_eq_Some [of ps key] mem by auto
  then show ?thesis unfolding qs by (metis option.exhaust)
qed

lemma wfv_without: "wfv v \<Longrightarrow> wfv (without v keys)"
  by (cases v) (auto simp: without_def intro: distinct_map_filter)

lemma without_normal:
  "without (normal (Map ps)) keys = normal (without (Map ps) keys)"
proof -
  have "(case normal k of Text t \<Rightarrow> List.member keys t | _ \<Rightarrow> False) =
      (case k of Text t \<Rightarrow> List.member keys t | _ \<Rightarrow> False)" for k by (cases k) simp_all
  then show ?thesis
    by (simp add: without_def filter_map comp_def case_prod_unfold filter_sort)
qed

lemma without_with_field:
  "key \<in> set keys \<Longrightarrow> without (with_field (Map ps) key v) keys = without (Map ps) keys"
  by (induction key v ps rule: set_field.induct) (auto simp: without_def)

lemma get_with_fields:
  "get (with_fields (Map ps) fs) key =
    (case map_of (rev fs) key of Some v \<Rightarrow> Some v | None \<Rightarrow> get (Map ps) key)"
proof (induction fs arbitrary: ps)
  case Nil
  then show ?case by (simp add: with_fields_def)
next
  case (Cons f fs)
  obtain k v where f: "f = (k, v)" by (cases f)
  have "with_fields (Map ps) (f # fs) = with_fields (Map (set_field k v ps)) fs"
    by (simp add: with_fields_def f)
  then show ?case using Cons.IH [of "set_field k v ps"]
    by (simp add: f get_set_field map_add_def split: option.splits)
qed

subsection \<open>Well-formed frames\<close>

definition field_key :: "Value \<Rightarrow> bool" where
  "field_key k \<longleftrightarrow> (case k of Text s \<Rightarrow> valid_str s \<and> length s < 2 ^ 32 | _ \<Rightarrow> False)"

text \<open>A map whose keys are distinct strings and whose values are well formed.\<close>

definition frame_ok :: "Value \<Rightarrow> bool" where
  "frame_ok v \<longleftrightarrow>
     (case v of
        Map ps \<Rightarrow> distinct (map fst ps) \<and> (\<forall>p \<in> set ps. field_key (fst p) \<and> wfv (snd p))
      | _ \<Rightarrow> False)"

lemma length_encode_head: "length (encode_head major n) \<le> 9"
  by (simp add: encode_head_def)

lemma enc_field_key_inj: "field_key k \<Longrightarrow> field_key l \<Longrightarrow> enc k = enc l \<Longrightarrow> k = l"
proof -
  assume k: "field_key k" and l: "field_key l" and e: "enc k = enc l"
  have dec: "decode (enc m) = Inr m" if m: "field_key m" for m
  proof -
    obtain s where s: "m = Text s" "valid_str s" "length s < 2 ^ 32"
      using m by (auto simp: field_key_def split: Value.splits)
    have "length (enc m) < 2 ^ 64" using s length_encode_head [of 3 "word_of_nat (length s)"] by simp
    then show ?thesis using decode_enc [of m] s by simp
  qed
  from dec [OF k, unfolded e] dec [OF l] show "k = l" by simp
qed

lemma frame_ok_Map:
  "frame_ok (Map ps) \<longleftrightarrow> distinct (map fst ps) \<and> (\<forall>p \<in> set ps. field_key (fst p) \<and> wfv (snd p))"
  by (simp add: frame_ok_def)

lemma frame_okE:
  assumes "frame_ok v"
  obtains ps where "v = Map ps" "distinct (map fst ps)" "\<forall>p \<in> set ps. field_key (fst p) \<and> wfv (snd p)"
  using assms by (cases v) (auto simp: frame_ok_def)

lemma wfv_field_key: "field_key k \<Longrightarrow> wfv k"
  by (cases k) (simp_all add: field_key_def)

lemma frame_ok_wfv: "frame_ok v \<Longrightarrow> wfv v"
proof (erule frame_okE)
  fix ps assume v: "v = Map ps" "distinct (map fst ps)" "\<forall>p \<in> set ps. field_key (fst p) \<and> wfv (snd p)"
  have "inj_on enc (set (map fst ps))" using v(3) enc_field_key_inj by (auto intro!: inj_onI)
  then have "distinct (map enc (map fst ps))" using v(2) by (simp only: distinct_map simp_thms)
  then show "wfv v" using v by (auto simp: comp_def wfv_field_key)
qed

lemma frame_ok_with_field:
  assumes "frame_ok v" "valid_str key" "length key < 2 ^ 32" "wfv x"
  shows "frame_ok (with_field v key x)"
proof -
  obtain ps where v: "v = Map ps" "distinct (map fst ps)" "\<forall>p \<in> set ps. field_key (fst p) \<and> wfv (snd p)"
    using assms(1) by (rule frame_okE)
  have vals: "\<forall>p \<in> set (set_field key x ps). field_key (fst p) \<and> wfv (snd p)"
    using v(3) assms by (induction key x ps rule: set_field.induct) (auto simp: field_key_def)
  have "distinct (map fst (set_field key x ps))"
    using v(2) by (auto simp: set_field_keys)
  with v vals show ?thesis by (simp add: frame_ok_Map)
qed

lemma frame_ok_with_fields:
  "frame_ok v \<Longrightarrow> \<forall>f \<in> set fs. valid_str (fst f) \<and> length (fst f) < 2 ^ 32 \<and> wfv (snd f) \<Longrightarrow>
    frame_ok (with_fields v fs)"
proof (induction fs arbitrary: v)
  case Nil
  then show ?case by (simp add: with_fields_def)
next
  case (Cons f fs)
  have "frame_ok (with_field v (fst f) (snd f))"
    by (rule frame_ok_with_field) (use Cons.prems in auto)
  from Cons.IH [OF this] Cons.prems(2) show ?case
    by (simp add: with_fields_def case_prod_unfold)
qed

lemma uint_u64_bounds [simp]:
  "- 18446744073709551616 \<le> uint (w :: u64)" "uint (w :: u64) < 18446744073709551616"
proof -
  have "0 \<le> uint w" by (rule unsigned_greater_eq)
  then show "- 18446744073709551616 \<le> uint w" by linarith
  show "uint w < 18446744073709551616" using unsigned_less [of w, where 'a = int] by simp
qed

lemma wfv_or_null [simp]: "wfv (or_null x) \<longleftrightarrow> (case x of Some v \<Rightarrow> wfv v | None \<Rightarrow> True)"
  by (simp add: or_null_def split: option.split)

text \<open>A string of ASCII characters is valid UTF-8; every field name of the code is one.\<close>

definition ascii :: "string \<Rightarrow> bool" where
  "ascii s \<longleftrightarrow> (\<forall>c \<in> set s. of_char c < (128 :: nat))"

lemma ascii_valid_str: "ascii s \<Longrightarrow> valid_str s"
  unfolding valid_str_def
  by (rule utf8_valid_ascii) (auto simp: ascii_def as_bytes_def word_less_nat_alt unat_of_char_u8)

lemma frame_ok_base:
  assumes "valid_str t"
  shows "frame_ok (Map (base t caps frame_id ms))"
proof -
  have "\<forall>s \<in> set [''version'', ''frame_type'', ''frame_id'', ''sent_at_ms'', ''capabilities'', ''realm'',
      ''call_id'', ''source_route'']. ascii s \<and> length s < 2 ^ 32"
    by (simp add: ascii_def)
  then show ?thesis using assms
    by (simp add: frame_ok_Map base_def field_key_def ascii_valid_str PROTOCOL_VERSION_def)
qed

subsection \<open>Signing\<close>

definition sig_fields :: "string list" where
  "sig_fields = [''signature'', ''publisher_sig'']"

lemma signable_bytes_ok:
  "wfv v \<Longrightarrow> signable_bytes v = Inr (SIG_DOMAIN @ enc (without v sig_fields))"
  using encode_eq_enc [OF wfv_without] by (simp add: signable_bytes_def sig_fields_def)

lemma frame_ok_is_Map: "frame_ok v \<Longrightarrow> \<exists>ps. v = Map ps"
  by (erule frame_okE) simp

lemma signable_bytes_with_field:
  assumes "frame_ok v" "key \<in> set sig_fields"
  shows "signable_bytes (with_field v key x) = signable_bytes v"
proof -
  obtain ps where v: "v = Map ps" using frame_ok_is_Map [OF assms(1)] by blast
  have "without (with_field v key x) sig_fields = without v sig_fields"
    unfolding v by (rule without_with_field) (rule assms(2))
  then show ?thesis by (simp add: signable_bytes_def sig_fields_def)
qed

lemma get_with_field_ok:
  "frame_ok v \<Longrightarrow> get (with_field v key x) key' = (if key' = key then Some x else get v key')"
  using frame_ok_is_Map get_with_field by blast

lemma valid_str_sig [simp]: "valid_str ''signature''" "valid_str ''publisher_sig''"
  by (rule ascii_valid_str, simp add: ascii_def)+

lemma sign_frame_ok:
  assumes "frame_ok v"
  shows "sign_frame C v kp =
      Inr (with_field v ''signature'' (Bytes (sign_bytes C kp (SIG_DOMAIN @ enc (without v sig_fields)))))"
    "frame_ok (with_field v ''signature'' (Bytes s))"
  using assms
  by (simp_all add: sign_frame_def signable_bytes_ok [OF frame_ok_wfv] frame_ok_with_field)

lemma sign_frame_Inr:
  assumes "frame_ok v" "sign_frame C v kp = Inr g"
  shows "frame_ok g" "\<exists>s. g = with_field v ''signature'' (Bytes s)"
  using assms(2) by (auto simp: sign_frame_ok [OF assms(1)])

lemma verify_signed:
  assumes "crypto_ok C" "wf_keypair kp" "frame_ok v" "sign_frame C v kp = Inr g"
  shows "verify_frame C g (public_bytes C kp) = Inr ()"
proof -
  let ?sig = "sign_bytes C kp (SIG_DOMAIN @ enc (without v sig_fields))"
  have g: "g = with_field v ''signature'' (Bytes ?sig)"
    using assms(4) by (simp add: sign_frame_ok(1) [OF assms(3)])
  have "''signature'' \<in> set sig_fields" by (simp add: sig_fields_def)
  then have sb: "(signable_bytes g :: (bytes, VerifyError fail) result) = Inr (SIG_DOMAIN @ enc (without v sig_fields))"
    unfolding g by (simp only: signable_bytes_with_field [OF assms(3)] signable_bytes_ok [OF frame_ok_wfv [OF assms(3)]])
  have "get g ''signature'' = Some (Bytes ?sig)" unfolding g using assms(3) by (simp add: get_with_field_ok)
  then show ?thesis using sb assms(1,2)
    by (simp add: verify_frame_def length_sign_bytes verify_sign_bytes)
qed

lemma signable_bytes_normal:
  assumes "wfv (Map ps)"
  shows "signable_bytes (normal (Map ps)) = signable_bytes (Map ps)"
proof -
  have "wfv (normal (Map ps))" using normal_wfv_enc [OF assms] by simp
  moreover have "enc (without (normal (Map ps)) sig_fields) = enc (without (Map ps) sig_fields)"
    unfolding without_normal using normal_wfv_enc [OF wfv_without [OF assms]] by simp
  ultimately show ?thesis using assms by (simp only: signable_bytes_ok)
qed

lemma verify_normal:
  assumes "wfv (Map ps)"
  shows "verify_frame C (normal (Map ps)) pk = verify_frame C (Map ps) pk"
proof -
  have sig: "get (normal (Map ps)) ''signature'' = map_option normal (get (Map ps) ''signature'')"
    by (rule get_normal [OF assms])
  have sb: "(signable_bytes (normal (Map ps)) :: (bytes, VerifyError fail) result) = signable_bytes (Map ps)"
    by (rule signable_bytes_normal [OF assms])
  show ?thesis
  proof (cases "get (Map ps) ''signature''")
    case None
    then show ?thesis unfolding verify_frame_def sig by simp
  next
    case (Some v)
    then show ?thesis unfolding verify_frame_def sig sb by (cases v) simp_all
  qed
qed

text \<open>The two signing domains never overlap: no frame's bytes are some publisher's bytes.\<close>

lemma signing_domains_disjoint:
  "signable_bytes v = Inr b \<Longrightarrow> publisher_signing_bytes w \<noteq> Inr b"
proof
  assume v: "signable_bytes v = Inr b" and w: "publisher_signing_bytes w = Inr b"
  obtain x where "b = SIG_DOMAIN @ x" using v by (auto simp: signable_bytes_def split: sum.splits)
  moreover obtain y where "b = EVENT_PUBLISHER_DOMAIN @ y"
    using w by (auto simp: publisher_signing_bytes_def split: sum.splits)
  ultimately have "(SIG_DOMAIN @ x) ! 10 = (EVENT_PUBLISHER_DOMAIN @ y) ! 10" by simp
  then show False by (simp add: SIG_DOMAIN_def EVENT_PUBLISHER_DOMAIN_def as_bytes_def)
qed

subsection \<open>The publisher signature\<close>

lemma publisher_map_ok:
  assumes "\<And>f. f \<in> set publisher_fields \<Longrightarrow> wfv (or_null (get v f))"
  shows "frame_ok (Map (map (\<lambda>f. (Text f, or_null (get v f))) publisher_fields))"
proof -
  have "\<forall>f \<in> set publisher_fields. ascii f \<and> length f < 2 ^ 32" by (simp add: publisher_fields_def ascii_def)
  then have "\<forall>f \<in> set publisher_fields. field_key (Text f)" by (simp add: field_key_def ascii_valid_str)
  moreover have "distinct publisher_fields" by (simp add: publisher_fields_def)
  ultimately show ?thesis using assms by (auto simp: frame_ok_Map comp_def distinct_map inj_on_def simp del: wfv_or_null)
qed

lemma get_wfv: "wfv v \<Longrightarrow> get v key = Some x \<Longrightarrow> wfv x"
proof -
  assume v: "wfv v" "get v key = Some x"
  obtain ps where ps: "v = Map ps" using v(2) by (cases v) (simp_all add: get_def)
  then have "(Text key, x) \<in> set ps" using v get_eq_Some [of ps key x] by simp
  then show "wfv x" using v(1) ps by auto
qed

lemma publisher_signing_bytes_ok:
  assumes "wfv v"
  shows "publisher_signing_bytes v =
    Inr (EVENT_PUBLISHER_DOMAIN @ enc (Map (map (\<lambda>f. (Text f, or_null (get v f))) publisher_fields)))"
proof -
  have "wfv (or_null (get v f))" for f
    using get_wfv [OF assms, of f] by (cases "get v f") (simp_all add: or_null_def)
  then have "wfv (Map (map (\<lambda>f. (Text f, or_null (get v f))) publisher_fields))"
    by (rule frame_ok_wfv [OF publisher_map_ok])
  then show ?thesis by (simp only: publisher_signing_bytes_def encode_eq_enc sum.case)
qed

text \<open>Only the five signed fields enter: frames that agree on them have the same signed bytes.\<close>

lemma publisher_signing_bytes_cong:
  "(\<And>f. f \<in> set publisher_fields \<Longrightarrow> get v f = get w f) \<Longrightarrow>
    publisher_signing_bytes v = publisher_signing_bytes w"
  unfolding publisher_signing_bytes_def by (metis (no_types, lifting) map_eq_conv)

subsection \<open>The length prefix\<close>

lemma encode_frame_Inr:
  "encode_frame v = Inr w \<longleftrightarrow>
    (\<exists>p. encode v = Inr p \<and> length p \<le> MAX_FRAME_BYTES \<and>
      w = to_be_bytes 4 (word_of_nat (length p) :: u32) @ p)"
  by (cases "encode v") (auto simp: encode_frame_def)

lemma prefix_value:
  assumes "n \<le> MAX_FRAME_BYTES"
  shows "unat (from_be_bytes (to_be_bytes 4 (word_of_nat n :: u32)) :: u32) = n"
proof -
  have "n < 2 ^ 32" using assms by (simp add: MAX_FRAME_BYTES_def)
  then show ?thesis by (simp add: from_to_be_bytes unsigned_of_nat take_bit_nat_eq_self)
qed

lemma decode_frame_exact:
  assumes "wfv v" "vdepth v \<le> MAX_NESTING_DEPTH" "encode_frame v = Inr w"
  shows "decode_frame (w @ rest) = Inr (DecodedFrame (normal v) (length w))"
proof -
  obtain p where p: "encode v = Inr p" "length p \<le> MAX_FRAME_BYTES"
    and w: "w = to_be_bytes 4 (word_of_nat (length p) :: u32) @ p"
    using assms(3) by (auto simp: encode_frame_Inr)
  have len: "unat (from_be_bytes (take 4 (w @ rest)) :: u32) = length p"
    using prefix_value [OF p(2)] by (simp add: w)
  have "length p < 2 ^ 64" using p(2) by (simp add: MAX_FRAME_BYTES_def)
  then have dec: "decode p = Inr (normal v)"
    using decode_enc [OF assms(1,2)] p(1) assms(1) by (simp add: encode_eq_enc)
  have body: "slice (w @ rest) 4 (4 + length p) = p" by (simp add: w slice_def)
  have "length (w @ rest) \<ge> 4 + length p" by (simp add: w)
  then show ?thesis using len p(2) dec body by (simp add: decode_frame_def Let_def w)
qed

lemma decode_frame_prefix:
  assumes "encode_frame v = Inr (p @ q)" "q \<noteq> []"
  shows "\<exists>n. decode_frame p = Inr (More n) \<and> 0 < n \<and> n \<le> length q"
proof -
  obtain b where b: "length b \<le> MAX_FRAME_BYTES"
    and w: "p @ q = to_be_bytes 4 (word_of_nat (length b) :: u32) @ b"
    using assms(1) by (auto simp: encode_frame_Inr)
  have len: "length p + length q = 4 + length b"
    using arg_cong [OF w, of length] by simp
  have q: "0 < length q" using assms(2) by simp
  show ?thesis
  proof (cases "length p < 4")
    case True
    then show ?thesis using len q by (simp add: decode_frame_def)
  next
    case False
    then have "take 4 p = to_be_bytes 4 (word_of_nat (length b) :: u32)"
      using arg_cong [OF w, of "take 4"] by simp
    then have "unat (from_be_bytes (take 4 p) :: u32) = length b" using prefix_value [OF b] by simp
    moreover have "length p < 4 + length b" "4 + length b - length p \<le> length q" using len q by linarith+
    ultimately show ?thesis using False b by (simp add: decode_frame_def Let_def)
  qed
qed

lemma decode_frame_stable:
  assumes "decode_frame buf = Inr (DecodedFrame v n)"
  shows "4 \<le> n" "n \<le> length buf" "decode_frame (buf @ rest) = Inr (DecodedFrame v n)"
proof -
  have four: "4 \<le> length buf" using assms by (auto simp: decode_frame_def split: if_splits)
  define len where "len = unat (from_be_bytes (take 4 buf) :: u32)"
  have fits: "len \<le> MAX_FRAME_BYTES" "4 + len \<le> length buf" and n: "n = 4 + len"
    using assms four by (auto simp: decode_frame_def Let_def bindR_eq_Inr len_def [symmetric] split: if_splits)
  show "4 \<le> n" "n \<le> length buf" using n fits by simp_all
  have "slice (buf @ rest) 4 (4 + len) = slice buf 4 (4 + len)" using fits four by (simp add: slice_def)
  then show "decode_frame (buf @ rest) = Inr (DecodedFrame v n)"
    using assms four fits by (simp add: decode_frame_def Let_def len_def [symmetric])
qed

lemma decode_frame_no_panic: "decode_frame buf \<noteq> Inl Panic"
proof
  assume p: "decode_frame buf = Inl Panic"
  define len where "len = unat (from_be_bytes (take 4 buf) :: u32)"
  have c: "4 \<le> length buf" "len \<le> MAX_FRAME_BYTES" "4 + len \<le> length buf"
    using p by (auto simp: decode_frame_def Let_def len_def [symmetric] split: if_splits)
  let ?body = "slice buf 4 (4 + len)"
  have "length ?body < 2 ^ 64" using c by (simp add: length_slice MAX_FRAME_BYTES_def)
  then show False
    using p c by (cases rule: decode_cases) (auto simp: decode_frame_def Let_def len_def [symmetric])
qed

text \<open>What a decoded frame looks like, whoever sent it.\<close>

lemma decode_frame_wfv:
  assumes "decode_frame buf = Inr (DecodedFrame v n)"
  shows "wfv v" "vdepth v \<le> MAX_NESTING_DEPTH"
proof -
  define len where "len = unat (from_be_bytes (take 4 buf) :: u32)"
  have c: "4 \<le> length buf" "len \<le> MAX_FRAME_BYTES" "4 + len \<le> length buf"
    using assms by (auto simp: decode_frame_def Let_def len_def [symmetric] split: if_splits)
  let ?body = "slice buf 4 (4 + len)"
  have l: "length ?body < 2 ^ 64" using c by (simp add: length_slice MAX_FRAME_BYTES_def)
  have v: "decode ?body = Inr v"
    using assms c by (auto simp: decode_frame_def Let_def len_def [symmetric] bindR_eq_Inr)
  show "wfv v" "vdepth v \<le> MAX_NESTING_DEPTH" by (rule decode_cases [OF l]; use v in simp)+
qed

lemmas [eval_simps] =
  with_fields_def base_def or_null_def read_field_def as_array_def as_utf8_def as_text_def as_int_def
  as_uint_def as_byte_def as_bool_def as_array_list_def is_frame_type_def frame_call_id_def
  encode_frame_def decode_frame_def MAX_FRAME_BYTES_def PROTOCOL_VERSION_def

lemma as_array_length: "as_array n v = Some b \<Longrightarrow> length b = n"
  by (cases v) (simp_all add: as_array_def)

lemma read_field_eq_Inr: "read_field missing wrong conv v f = Inr x \<longleftrightarrow> (\<exists>y. get v f = Some y \<and> conv y = Some x)"
  by (simp add: read_field_def split: option.split)

end
