(* ===== verification/FrameProps.thy ===== *)
theory FrameProps
  imports FrameFacts
begin

section \<open>FrameProps: what the frame layer promises\<close>

text \<open>
  Every constructor builds a well-formed frame; a signed frame verifies, before and after the
  wire; the publisher signature survives relaying; parsing a received frame gives what was put
  in; and where signing panics.
\<close>

subsection \<open>Constructors build well-formed frames\<close>

text \<open>What the types of the code say of a constructor's arguments that it takes as such: an \<open>i128\<close>
  or a payload may be out of the encodable range, everything else is in range by its type.\<close>

definition in_range :: "int \<Rightarrow> bool" where
  "in_range n \<longleftrightarrow> wfv (IntV n)"

lemma frame_ok_append:
  assumes "frame_ok (Map ps)" "distinct (map fst qs)" "set (map fst ps) \<inter> set (map fst qs) = {}"
    "\<forall>p \<in> set qs. field_key (fst p) \<and> wfv (snd p)"
  shows "frame_ok (Map (ps @ qs))"
  using assms by (auto simp: frame_ok_Map)

lemma field_key_ascii [simp]: "ascii s \<Longrightarrow> length s < 2 ^ 32 \<Longrightarrow> field_key (Text s)"
  by (simp add: field_key_def ascii_valid_str)

lemma frame_ok_call:
  "wfv (ca_payload spec) \<Longrightarrow> in_range (ca_deadline_ms spec) \<Longrightarrow> frame_ok (call_value spec frame_id ms)"
  unfolding call_value_def
  by (rule frame_ok_with_fields [OF frame_ok_base]) (simp_all add: ascii_valid_str ascii_def in_range_def)

lemma frame_ok_result: "wfv (re_payload spec) \<Longrightarrow> frame_ok (result_value spec frame_id ms)"
  unfolding result_value_def
  by (rule frame_ok_with_fields [OF frame_ok_base]) (simp_all add: ascii_valid_str ascii_def)

lemma frame_ok_call_error: "frame_ok (call_error_value spec frame_id ms)"
proof -
  have "wfv (Text (code_name (er_code spec)))" using valid_str_code_name by simp
  moreover have "wfv (IntV (uint (code_as_u8 (er_code spec))))"
    by (cases "er_code spec") simp_all
  ultimately show ?thesis
    unfolding call_error_value_def
    by (intro frame_ok_with_fields [OF frame_ok_base])
       (simp_all add: ascii_valid_str ascii_def split: option.split)
qed

lemma frame_ok_publish: "wfv (pu_payload spec) \<Longrightarrow> frame_ok (publish_value spec frame_id ms)"
  unfolding publish_value_def
  by (rule frame_ok_with_fields [OF frame_ok_base]) (simp_all add: ascii_valid_str ascii_def split: option.split)

lemma frame_ok_subscribe: "frame_ok (subscribe_value spec frame_id ms)"
  unfolding subscribe_value_def
  by (rule frame_ok_with_fields [OF frame_ok_base]) (simp_all add: ascii_valid_str ascii_def)

lemma frame_ok_unsubscribe: "frame_ok (unsubscribe_value spec frame_id ms)"
  unfolding unsubscribe_value_def
  by (rule frame_ok_with_fields [OF frame_ok_base]) (simp_all add: ascii_valid_str ascii_def)

lemma frame_ok_advertise: "frame_ok (advertise_value spec frame_id ms)"
  unfolding advertise_value_def
  by (rule frame_ok_with_fields [OF frame_ok_base]) (simp_all add: ascii_valid_str ascii_def)

lemma frame_ok_unadvertise: "frame_ok (unadvertise_value spec frame_id ms)"
  unfolding unadvertise_value_def
  by (rule frame_ok_with_fields [OF frame_ok_base]) (simp_all add: ascii_valid_str ascii_def)

lemma frame_ok_goodbye: "valid_str reason \<Longrightarrow> frame_ok (goodbye_value reason detail frame_id ms)"
  unfolding goodbye_value_def
  by (rule frame_ok_append [OF frame_ok_base])
     (simp_all add: ascii_valid_str ascii_def base_def split: option.split)

lemma frame_ok_connect:
  "\<forall>v \<in> set (co_addresses spec) \<union> set (co_endorsements spec) \<union> set_option (co_site spec). wfv v \<Longrightarrow>
    frame_ok (connect_value spec frame_id ms)"
  unfolding connect_value_def
  by (rule frame_ok_append [OF frame_ok_base])
     (auto simp: ascii_valid_str ascii_def base_def bytes32_list_def split: option.split)

lemma frame_ok_stream_open:
  "wfv (so_args spec) \<Longrightarrow> in_range (so_deadline_ms spec) \<Longrightarrow> frame_ok (stream_open_value spec frame_id ms)"
  unfolding stream_open_value_def
  by (rule frame_ok_with_fields [OF frame_ok_base]; cases "so_mode spec")
     (simp_all add: ascii_valid_str ascii_def in_range_def)

lemma frame_ok_signer: "frame_ok v \<Longrightarrow> frame_ok (with_optional_signer v s)"
  by (auto simp: with_optional_signer_def ascii_valid_str ascii_def intro!: frame_ok_with_field split: option.split)

lemma frame_ok_stream_data: "wfv (sd_body spec) \<Longrightarrow> frame_ok (stream_data_value spec frame_id ms)"
  unfolding stream_data_value_def
  by (intro frame_ok_signer frame_ok_with_fields [OF frame_ok_base]; cases "sd_encoding spec")
     (simp_all add: ascii_valid_str ascii_def)

lemma frame_ok_stream_end: "frame_ok (stream_end_value spec frame_id ms)"
  unfolding stream_end_value_def
  by (intro frame_ok_signer frame_ok_with_fields [OF frame_ok_base]; cases "se_role spec")
     (simp_all add: ascii_valid_str ascii_def)

lemma frame_ok_stream_error: "frame_ok (stream_error_value spec frame_id ms)"
  unfolding stream_error_value_def
  by (intro frame_ok_signer frame_ok_with_fields [OF frame_ok_base]) (simp_all add: ascii_valid_str ascii_def)

lemma frame_ok_stream_reply: "wfv (sr_payload spec) \<Longrightarrow> frame_ok (stream_reply_value spec frame_id ms)"
  unfolding stream_reply_value_def
  by (rule frame_ok_with_fields [OF frame_ok_base]) (simp_all add: ascii_valid_str ascii_def)

lemmas constructors_ok =
  frame_ok_call frame_ok_result frame_ok_call_error frame_ok_publish frame_ok_subscribe
  frame_ok_unsubscribe frame_ok_advertise frame_ok_unadvertise frame_ok_goodbye frame_ok_connect
  frame_ok_stream_open frame_ok_stream_data frame_ok_stream_end frame_ok_stream_error frame_ok_stream_reply

subsection \<open>Where signing panics\<close>

lemma encode_pairs_fails:
  "encode_value v = Inl e \<Longrightarrow> (k, v) \<in> set ps \<Longrightarrow> \<exists>e'. encode_pairs ps = Inl e'"
proof (induction ps)
  case Nil
  then show ?case by simp
next
  case (Cons p ps)
  obtain a b where p: "p = (a, b)" by (cases p)
  show ?case
  proof (cases "encode_value a")
    case (Inl e1)
    then show ?thesis by (simp add: p)
  next
    case (Inr ka)
    show ?thesis
    proof (cases "encode_value b")
      case (Inl e2)
      then show ?thesis using Inr by (simp add: p)
    next
      case (Inr kb)
      then have "(k, v) \<in> set ps" using Cons.prems p by auto
      from Cons.IH [OF Cons.prems(1) this] Inr \<open>encode_value a = Inr ka\<close> show ?thesis by (auto simp: p)
    qed
  qed
qed

lemma get_in_set: "get (Map ps) key = Some v \<Longrightarrow> (Text key, v) \<in> set ps"
  by (induction ps) (auto split: if_splits)

lemma sign_frame_panics:
  assumes "get v key = Some x" "key \<notin> set sig_fields" "encode_value x = Inl e"
  shows "sign_frame C v kp = Inl Panic"
proof -
  obtain ps where v: "v = Map ps" using assms(1) by (cases v) (simp_all add: get_def)
  obtain qs where qs: "without v sig_fields = Map qs" by (simp add: v without_def)
  have "get (Map qs) key = Some x"
    using assms(1,2) unfolding qs [symmetric] by (simp add: v get_without)
  then have "\<exists>e'. encode_pairs qs = Inl e'" using encode_pairs_fails [OF assms(3)] get_in_set by blast
  then have "\<exists>e'. encode (without v sig_fields) = Inl e'" by (auto simp: qs encode_def)
  then show ?thesis by (auto simp: sign_frame_def signable_bytes_def sig_fields_def)
qed

subsection \<open>Properties\<close>

definition demo_key :: KeyPair where
  "demo_key = \<lparr>signing_key = replicate 32 7\<rparr>"

lemma wf_demo_key: "wf_keypair demo_key"
  by (simp add: demo_key_def wf_keypair_def)


text \<open>C2: Authenticity over the wire. A frame built by the constructors and signed verifies against
  the signer's key; and when its bytes are received, whatever follows them, the receiver decodes
  exactly this frame and its signature verifies against the same key.\<close>

theorem signed_frame_over_wire:
  assumes "crypto_ok C" "wf_keypair kp" "frame_ok v" "sign_frame C v kp = Inr g"
    "vdepth g \<le> MAX_NESTING_DEPTH" "encode_frame g = Inr w"
  shows "verify_frame C g (public_bytes C kp) = Inr () \<and>
    decode_frame (w @ rest) = Inr (DecodedFrame (normal g) (length w)) \<and>
    verify_frame C (normal g) (public_bytes C kp) = Inr ()"
proof (intro conjI)
  have g: "frame_ok g" "wfv g" using sign_frame_Inr [OF assms(3,4)] frame_ok_wfv by blast+
  then obtain ps where ps: "g = Map ps" using frame_ok_is_Map by blast
  show v: "verify_frame C g (public_bytes C kp) = Inr ()" by (rule verify_signed [OF assms(1-4)])
  show "decode_frame (w @ rest) = Inr (DecodedFrame (normal g) (length w))"
    by (rule decode_frame_exact [OF g(2) assms(5,6)])
  show "verify_frame C (normal g) (public_bytes C kp) = Inr ()"
    using v g(2) unfolding ps by (simp only: verify_normal)
qed

theorem signed_frame_over_wire_witness:
  "\<exists>g w. (sign_frame toy_crypto (Map [(Text ''a'', IntV 1)]) demo_key :: (Value, unit fail) result) = Inr g \<and>
    encode_frame g = Inr w \<and> decode_frame w = Inr (DecodedFrame (normal g) (length w))"
proof -
  let ?v = "Map [(Text ''a'', IntV 1)]"
  have ok: "frame_ok ?v" by (simp add: frame_ok_Map ascii_def)
  define g where "g = with_field ?v ''signature''
    (Bytes (sign_bytes toy_crypto demo_key (SIG_DOMAIN @ enc (without ?v sig_fields))))"
  have s: "(sign_frame toy_crypto ?v demo_key :: (Value, unit fail) result) = Inr g"
    unfolding g_def by (rule sign_frame_ok(1) [OF ok])
  have d: "vdepth g \<le> MAX_NESTING_DEPTH" by (simp add: g_def MAX_NESTING_DEPTH_def)
  have "length (sign_bytes toy_crypto demo_key m) = 64" for m
    by (rule length_sign_bytes [OF toy_crypto_ok wf_demo_key])
  then have "\<exists>w. encode_frame g = Inr w" by (simp add: g_def eval_simps)
  then obtain w where w: "encode_frame g = Inr w" ..
  from signed_frame_over_wire [OF toy_crypto_ok wf_demo_key ok s d w, of "[]"] s w show ?thesis by auto
qed

text \<open>Length prefix. Any proper prefix of an encoded frame is answered with the request for more
  bytes, never with an error or another frame, and never for more than is missing.\<close>

theorem frame_prefix_waits:
  assumes "encode_frame v = Inr (p @ q)" "q \<noteq> []"
  shows "\<exists>n. decode_frame p = Inr (More n) \<and> 0 < n \<and> n \<le> length q"
  using assms by (rule decode_frame_prefix)

theorem frame_prefix_waits_witness: "\<exists>n. decode_frame [0, 0, 0] = Inr (More n) \<and> 0 < n \<and> n \<le> 2"
proof -
  have "encode_frame (IntV 5) = Inr ([0, 0, 0] @ [1, 5])" by (simp add: eval_simps)
  from frame_prefix_waits [OF this] show ?thesis by (simp add: numeral_2_eq_2)
qed

text \<open>Untrusted input. Decoding a frame never panics, whatever the bytes; a decoded frame consumes
  no more than the buffer, stays the same when more bytes arrive behind it, and is well formed.\<close>

theorem decode_frame_safe:
  "decode_frame buf \<noteq> Inl Panic \<and>
    (\<forall>v n. decode_frame buf = Inr (DecodedFrame v n) \<longrightarrow>
       n \<le> length buf \<and> wfv v \<and> decode_frame (buf @ rest) = Inr (DecodedFrame v n))"
  using decode_frame_no_panic decode_frame_stable decode_frame_wfv(1) by blast

theorem decode_frame_safe_witness:
  "decode_frame ([0, 0, 0, 1, 5] @ [7]) = Inr (DecodedFrame (IntV 5) 5)"
proof -
  have "decode_frame [0, 0, 0, 1, 5] = Inr (DecodedFrame (IntV 5) 5)" by (simp add: eval_simps)
  then show ?thesis using decode_frame_safe [of "[0, 0, 0, 1, 5]" "[7]"] by blast
qed

text \<open>Relayed events. A publisher signature verifies on every frame that carries the publisher's
  five signed fields and the signature unchanged, whatever its type and its other fields: the
  EVENT a relay derives from a PUBLISH still proves who published it.\<close>

theorem publisher_sig_survives_relay:
  assumes "crypto_ok C" "wf_keypair kp" "frame_ok v"
    "get v ''publisher'' = Some (Bytes (public_bytes C kp))"
    "sign_publisher C v kp = Inr g"
    "\<forall>f \<in> set (''publisher_sig'' # publisher_fields). get w f = get g f"
  shows "verify_publisher C w = Inr ()"
proof -
  let ?m = "EVENT_PUBLISHER_DOMAIN @ enc (Map (map (\<lambda>f. (Text f, or_null (get v f))) publisher_fields))"
  have g: "g = with_field v ''publisher_sig'' (Bytes (sign_bytes C kp ?m))"
    using assms(5) by (simp add: sign_publisher_def publisher_signing_bytes_ok [OF frame_ok_wfv [OF assms(3)]])
  have fields: "get w f = get v f" if "f \<in> set publisher_fields" for f
    using assms(6) that by (auto simp: g get_with_field_ok [OF assms(3)] publisher_fields_def)
  have sig: "get w ''publisher_sig'' = Some (Bytes (sign_bytes C kp ?m))"
    using assms(6) by (simp add: g get_with_field_ok [OF assms(3)])
  have pub: "get w ''publisher'' = Some (Bytes (public_bytes C kp))"
    using fields [of "''publisher''"] assms(4) by (simp add: publisher_fields_def)
  have "(publisher_signing_bytes w :: (bytes, VerifyPublisherError fail) result) = Inr ?m"
    using publisher_signing_bytes_cong [of w v] fields
    by (simp add: publisher_signing_bytes_ok [OF frame_ok_wfv [OF assms(3)]])
  then show ?thesis using sig pub assms(1,2)
    by (simp add: verify_publisher_def length_sign_bytes length_public_bytes verify_sign_bytes)
qed

theorem publisher_sig_survives_relay_witness:
  "\<exists>g. (sign_publisher toy_crypto (publish_value
      (PublishSpec_new ''t'' (replicate 32 1) (public_bytes toy_crypto demo_key) 5 Null 9) [] 0) demo_key
      :: (Value, unit fail) result) = Inr g \<and>
    verify_publisher toy_crypto (with_field g ''frame_type'' (Text ''event'')) = Inr ()"
proof -
  let ?v = "publish_value (PublishSpec_new ''t'' (replicate 32 1) (public_bytes toy_crypto demo_key) 5 Null 9) [] 0"
  have ok: "frame_ok ?v" by (rule frame_ok_publish) (simp add: PublishSpec_new_def)
  have pub: "get ?v ''publisher'' = Some (Bytes (public_bytes toy_crypto demo_key))"
    by (simp add: publish_value_def get_with_fields PublishSpec_new_def)
  obtain g where g: "(sign_publisher toy_crypto ?v demo_key :: (Value, unit fail) result) = Inr g"
    by (simp add: sign_publisher_def publisher_signing_bytes_ok [OF frame_ok_wfv [OF ok]])
  then obtain s where "g = with_field ?v ''publisher_sig'' (Bytes s)"
    by (auto simp: sign_publisher_def bindR_eq_Inr)
  then have "frame_ok g" using frame_ok_with_field [OF ok, of "''publisher_sig''"] by simp
  then have "\<forall>f \<in> set (''publisher_sig'' # publisher_fields). get (with_field g ''frame_type'' (Text ''event'')) f = get g f"
    by (simp add: get_with_field_ok publisher_fields_def)
  from publisher_sig_survives_relay [OF toy_crypto_ok wf_demo_key ok pub g this] g show ?thesis by blast
qed

text \<open>Domain separation. The bytes signed for a frame are never the bytes signed for a
  publisher, so neither signature can be replayed as the other.\<close>

theorem frame_and_publisher_domains_disjoint:
  assumes "signable_bytes v = (Inr b :: (bytes, unit fail) result)"
  shows "publisher_signing_bytes w \<noteq> (Inr b :: (bytes, unit fail) result)"
  using assms by (rule signing_domains_disjoint)

theorem frame_and_publisher_domains_disjoint_witness:
  "publisher_signing_bytes (Map []) \<noteq> (Inr (SIG_DOMAIN @ [0xA0]) :: (bytes, unit fail) result)"
proof -
  have "signable_bytes (Map []) = (Inr (SIG_DOMAIN @ [0xA0]) :: (bytes, unit fail) result)"
    by (simp add: signable_bytes_def eval_simps)
  then show ?thesis by (rule frame_and_publisher_domains_disjoint)
qed

subsection \<open>What was sent is what is parsed\<close>

lemma get_signed_normal:
  assumes "frame_ok v" "sign_frame C v kp = Inr g"
  shows "f \<noteq> ''signature'' \<Longrightarrow> get (normal g) f = map_option normal (get v f)"
proof -
  obtain s where g: "g = with_field v ''signature'' (Bytes s)" and okg: "frame_ok g"
    using sign_frame_Inr [OF assms] by blast
  obtain ps where ps: "g = Map ps" using frame_ok_is_Map [OF okg] by blast
  have "get (normal g) f = map_option normal (get g f)"
    unfolding ps by (rule get_normal) (use frame_ok_wfv [OF okg] ps in simp)
  then show "f \<noteq> ''signature'' \<Longrightarrow> get (normal g) f = map_option normal (get v f)"
    by (simp add: g get_with_field_ok [OF assms(1)])
qed

lemma parse_call_signed:
  assumes "length (ca_call_id spec) = 16" "length (ca_realm spec) = 32" "length (ca_caller spec) = 32"
    "valid_str (ca_procedure spec)" "wfv (ca_payload spec)" "in_range (ca_deadline_ms spec)"
    "sign_frame C (call_value spec frame_id ms) kp = Inr g"
  shows "parse_call (normal g) =
    Inr \<lparr>ci_call_id = ca_call_id spec, ci_procedure = ca_procedure spec, ci_realm = ca_realm spec,
         ci_payload = normal (ca_payload spec), ci_deadline_ms = ca_deadline_ms spec,
         ci_caller = ca_caller spec, ci_ucan_token = ca_ucan_token spec\<rparr>"
proof -
  have ok: "frame_ok (call_value spec frame_id ms)" using assms by (intro frame_ok_call)
  show ?thesis using assms(1-4)
    by (simp add: parse_call_def is_frame_type_def read_field_def get_signed_normal [OF ok assms(7)]
        call_value_def get_with_fields base_def as_array_def as_utf8_def as_int_def from_utf8_as_bytes)
qed

lemma parse_result_signed:
  assumes "wfv (re_payload spec)" "length (re_call_id spec) = 16" "length (re_responded_by spec) = 32"
    "sign_frame C (result_value spec frame_id ms) kp = Inr g"
  shows "frame_call_id (normal g) = Some (re_call_id spec)"
    "parse_call_response (normal g) = Inr (CallResult (normal (re_payload spec)) (re_responded_by spec))"
proof -
  note get = get_signed_normal [OF frame_ok_result [OF assms(1)] assms(4)]
  show "frame_call_id (normal g) = Some (re_call_id spec)"
    "parse_call_response (normal g) = Inr (CallResult (normal (re_payload spec)) (re_responded_by spec))"
    using assms by (simp_all add: parse_call_response_def frame_call_id_def is_frame_type_def read_field_def get
        result_value_def get_with_fields base_def as_array_def)
qed

lemma parse_call_error_signed:
  assumes "length (er_call_id spec) = 16" "length (er_reported_by spec) = 32"
    "case er_detail spec of Some d \<Rightarrow> valid_str d | None \<Rightarrow> True"
    "sign_frame C (call_error_value spec frame_id ms) kp = Inr g"
  shows "frame_call_id (normal g) = Some (er_call_id spec)"
    "parse_call_response (normal g) =
      Inr (CallError (code_as_u8 (er_code spec)) (code_name (er_code spec)) (er_reported_by spec) (er_detail spec))"
proof -
  note get = get_signed_normal [OF frame_ok_call_error assms(4)]
  show "frame_call_id (normal g) = Some (er_call_id spec)"
    using assms by (simp add: frame_call_id_def get call_error_value_def get_with_fields)
  have code: "as_byte (IntV (uint (code_as_u8 (er_code spec)))) = Some (code_as_u8 (er_code spec))"
    by (cases "er_code spec") (simp_all add: as_byte_def)
  have detail: "read_detail (normal g) = Inr (er_detail spec)"
    using assms(3) by (cases "er_detail spec")
      (simp_all add: read_detail_def get call_error_value_def get_with_fields or_null_def from_utf8_as_bytes)
  show "parse_call_response (normal g) =
      Inr (CallError (code_as_u8 (er_code spec)) (code_name (er_code spec)) (er_reported_by spec) (er_detail spec))"
    using assms code detail by (simp add: parse_call_response_def is_frame_type_def read_field_def get
        call_error_value_def get_with_fields base_def as_array_def as_text_def)
qed

lemma publish_answers_no_call:
  assumes "wfv (pu_payload spec)" "sign_publisher C (publish_value spec frame_id ms) kp = Inr p"
    "sign_frame C p kp = Inr g"
  shows "frame_call_id (normal g) = None"
proof -
  note ok = frame_ok_publish [OF assms(1), of frame_id ms]
  obtain s where p: "p = with_field (publish_value spec frame_id ms) ''publisher_sig'' (Bytes s)"
    using assms(2) by (auto simp: sign_publisher_def bindR_eq_Inr)
  then have "frame_ok p" using frame_ok_with_field [OF ok] by simp
  from get_signed_normal [OF this assms(3), of "''call_id''"]
  have "get (normal g) ''call_id'' = map_option normal (get (publish_value spec frame_id ms) ''call_id'')"
    unfolding p by (simp add: get_with_field_ok [OF ok])
  then show ?thesis by (simp add: frame_call_id_def publish_value_def get_with_fields base_def)
qed

text \<open>Parsing what was sent. A provider that receives a signed CALL parses the very call id,
  procedure, realm, deadline, caller and token the caller put in, and the payload up to the order
  of map entries.\<close>

theorem parse_call_of_sent:
  assumes "length (ca_call_id spec) = 16" "length (ca_realm spec) = 32" "length (ca_caller spec) = 32"
    "valid_str (ca_procedure spec)" "wfv (ca_payload spec)" "in_range (ca_deadline_ms spec)"
    "sign_frame C (call_value spec frame_id ms) kp = Inr g"
  shows "parse_call (normal g) =
    Inr \<lparr>ci_call_id = ca_call_id spec, ci_procedure = ca_procedure spec, ci_realm = ca_realm spec,
         ci_payload = normal (ca_payload spec), ci_deadline_ms = ca_deadline_ms spec,
         ci_caller = ca_caller spec, ci_ucan_token = ca_ucan_token spec\<rparr>"
  using assms by (rule parse_call_signed)

theorem parse_call_of_sent_witness:
  "\<exists>g. (sign_frame toy_crypto (call_value (CallSpec_new (replicate 16 3) ''p'' (replicate 32 1) Null 5 (replicate 32 2)) [] 0)
      demo_key :: (Value, unit fail) result) = Inr g \<and>
    map_option ci_procedure (okR (parse_call (normal g))) = Some ''p''"
proof -
  let ?spec = "CallSpec_new (replicate 16 3) ''p'' (replicate 32 1) Null 5 (replicate 32 2)"
  have h: "length (ca_call_id ?spec) = 16" "length (ca_realm ?spec) = 32" "length (ca_caller ?spec) = 32"
    "valid_str (ca_procedure ?spec)" "wfv (ca_payload ?spec)" "in_range (ca_deadline_ms ?spec)"
    by (simp_all add: CallSpec_new_def ascii_valid_str ascii_def in_range_def)
  obtain g where g: "(sign_frame toy_crypto (call_value ?spec [] 0) demo_key :: (Value, unit fail) result) = Inr g"
    using sign_frame_ok(1) [OF frame_ok_call [OF h(5,6)]] by blast
  from parse_call_of_sent [OF h g] g show ?thesis by (auto simp: CallSpec_new_def)
qed

text \<open>Signing panics instead of failing. A CALL whose deadline is outside the encodable range
  (the field is an \<open>i128\<close> the caller of the crate supplies) makes \<open>sign\<close> panic at its \<open>expect\<close>, so
  the encoder's range error is never returned to the caller.\<close>

theorem sign_call_out_of_range_panics:
  assumes "\<not> in_range (ca_deadline_ms spec)"
  shows "sign_frame C (call_value spec frame_id ms) kp = Inl Panic"
proof (rule sign_frame_panics)
  show "get (call_value spec frame_id ms) ''deadline_ms'' = Some (IntV (ca_deadline_ms spec))"
    by (simp add: call_value_def get_with_fields)
  show "''deadline_ms'' \<notin> set sig_fields" by (simp add: sig_fields_def)
  show "encode_value (IntV (ca_deadline_ms spec)) = Inl (IntOutOfRange (ca_deadline_ms spec))"
    using assms by (auto simp: in_range_def encode_int_def u64_max_def Let_def)
qed

theorem sign_call_out_of_range_panics_witness:
  "sign_frame toy_crypto (call_value (CallSpec_new [] ''p'' [] Null (2 ^ 64) []) [] 0)
     \<lparr>signing_key = replicate 32 0\<rparr> = Inl (Panic :: unit fail)"
  by (rule sign_call_out_of_range_panics) (simp add: in_range_def CallSpec_new_def)

end
