(* ===== verification/FrameStream.thy ===== *)
theory FrameStream
  imports FrameProps
begin

section \<open>FrameStream: frames on one QUIC stream (\<open>src/connection.rs\<close>)\<close>

text \<open>
  \<open>FrameStream\<close> with its receive buffer. The QUIC stream is third-party code: what its reads
  and writes return is part of the state, a list of read events (a chunk, an error, the end of
  the stream, or the timer around the call firing first) and of write outcomes. With no event
  left the call has not returned: \<open>RecvWaiting\<close>. The receive loop stands twice in the source
  (\<open>recv_frame\<close>, \<open>read_one_frame\<close>); it is one function here, over the decoder it calls.
\<close>

subsection \<open>State\<close>

datatype read = ReadChunk bytes | ReadFailed | ReadClosed | ReadTimeout

record FrameStream =
  fs_buf :: bytes
  fs_reads :: "read list"
  fs_sent :: bytes
  fs_writes :: "bool list"

datatype RecvFrameError = RecvRead | RecvStreamClosed | RecvDecode DecodeFrameError | RecvTimeout | RecvWaiting

datatype SendFrameError = SendEncode EncodeFrameError | SendWrite

definition leftover_bytes :: "FrameStream \<Rightarrow> bytes" where
  "leftover_bytes st = fs_buf st"

subsection \<open>Sending\<close>

text \<open>A write that fails may have sent any part of the frame; the model counts none of it as sent.\<close>

definition send_frame :: "FrameStream \<Rightarrow> Value \<Rightarrow> (unit, SendFrameError fail) result \<times> FrameStream" where
  "send_frame st frame =
    (case encode_frame frame of
       Inl e \<Rightarrow> (Inl (Err (SendEncode e)), st)
     | Inr encoded \<Rightarrow>
         (case fs_writes st of
            False # ws \<Rightarrow> (Inl (Err SendWrite), st\<lparr>fs_writes := ws\<rparr>)
          | _ \<Rightarrow> (Inr (), st\<lparr>fs_sent := fs_sent st @ encoded, fs_writes := tl (fs_writes st)\<rparr>)))"

subsection \<open>Receiving\<close>

fun recv_loop ::
  "(bytes \<Rightarrow> (Decoded, DecodeFrameError fail) result) \<Rightarrow> bytes \<Rightarrow> read list
    \<Rightarrow> (Value, RecvFrameError fail) result \<times> bytes \<times> read list" where
  "recv_loop dec buf reads =
    (case dec buf of
       Inr (DecodedFrame v consumed) \<Rightarrow> (Inr v, drop consumed buf, reads)
     | Inl e \<Rightarrow> (Inl (lift_fail RecvDecode e), buf, reads)
     | Inr (More _) \<Rightarrow>
         (case reads of
            [] \<Rightarrow> (Inl (Err RecvWaiting), buf, [])
          | ReadChunk chunk # rs \<Rightarrow> recv_loop dec (buf @ chunk) rs
          | ReadFailed # rs \<Rightarrow> (Inl (Err RecvRead), buf, rs)
          | ReadClosed # rs \<Rightarrow> (Inl (Err RecvStreamClosed), buf, rs)
          | ReadTimeout # rs \<Rightarrow> (Inl (Err RecvTimeout), buf, rs)))"

declare recv_loop.simps [simp del]

definition recv_frame :: "FrameStream \<Rightarrow> (Value, RecvFrameError fail) result \<times> FrameStream" where
  "recv_frame st =
    (case recv_loop decode_frame (fs_buf st) (fs_reads st) of
       (r, buf, reads) \<Rightarrow> (r, st\<lparr>fs_buf := buf, fs_reads := reads\<rparr>))"

text \<open>A caller that calls \<open>recv_frame\<close> \<open>n\<close> times, and again after a timeout.\<close>

fun recv_frames ::
  "(bytes \<Rightarrow> (Decoded, DecodeFrameError fail) result) \<Rightarrow> nat \<Rightarrow> bytes \<Rightarrow> read list \<Rightarrow> Value list" where
  "recv_frames dec 0 buf reads = []"
| "recv_frames dec (Suc n) buf reads =
    (case recv_loop dec buf reads of
       (Inr v, buf', reads') \<Rightarrow> v # recv_frames dec n buf' reads'
     | (Inl e, buf', reads') \<Rightarrow> if e = Err RecvTimeout then recv_frames dec n buf' reads' else [])"

definition read_bytes :: "read list \<Rightarrow> bytes" where
  "read_bytes reads = concat (map (\<lambda>r. case r of ReadChunk c \<Rightarrow> c | _ \<Rightarrow> []) reads)"

definition timeouts :: "read list \<Rightarrow> nat" where
  "timeouts reads = length (filter (\<lambda>r. r = ReadTimeout) reads)"

definition undisturbed :: "read list \<Rightarrow> bool" where
  "undisturbed reads \<longleftrightarrow> (\<forall>r \<in> set reads. r \<noteq> ReadFailed \<and> r \<noteq> ReadClosed)"

lemma read_simps [simp]:
  "read_bytes [] = []" "read_bytes (ReadChunk c # rs) = c @ read_bytes rs"
  "read_bytes (ReadTimeout # rs) = read_bytes rs" "read_bytes (ReadFailed # rs) = read_bytes rs"
  "read_bytes (ReadClosed # rs) = read_bytes rs"
  "timeouts [] = 0" "timeouts (ReadChunk c # rs) = timeouts rs" "timeouts (ReadTimeout # rs) = Suc (timeouts rs)"
  "undisturbed []" "undisturbed (ReadChunk c # rs) = undisturbed rs"
  "undisturbed (ReadTimeout # rs) = undisturbed rs" "\<not> undisturbed (ReadFailed # rs)"
  "\<not> undisturbed (ReadClosed # rs)"
  by (simp_all add: read_bytes_def timeouts_def undisturbed_def)

subsection \<open>Reassembly from the laws of a wire codec\<close>

text \<open>
  What a client of a length-prefixed codec relies on: a message that was sent as \<open>w\<close> is decoded
  from the head of any buffer that starts with \<open>w\<close>, consuming exactly \<open>w\<close>, and nothing is
  decoded from a proper prefix of it or from an empty buffer.
\<close>

locale wire_codec =
  fixes sent_as :: "'m \<Rightarrow> bytes \<Rightarrow> bool"
    and received :: "'m \<Rightarrow> Value"
    and dec :: "bytes \<Rightarrow> (Decoded, DecodeFrameError fail) result"
  assumes whole: "sent_as m w \<Longrightarrow> dec (w @ rest) = Inr (DecodedFrame (received m) (length w))"
    and waits: "sent_as m (p @ q) \<Longrightarrow> q \<noteq> [] \<Longrightarrow> \<exists>n. dec p = Inr (More n)"
    and idle: "\<exists>n. dec [] = Inr (More n)"
begin

lemma loop_at_whole:
  "sent_as m w \<Longrightarrow> recv_loop dec (w @ rest) reads = (Inr (received m), rest, reads)"
  by (simp add: recv_loop.simps whole)

lemma loop_delivers_first:
  assumes "sent_as m w" "undisturbed reads" "buf @ read_bytes reads = w @ rest"
  shows "(\<exists>b r. recv_loop dec buf reads = (Inr (received m), b, r) \<and> b @ read_bytes r = rest \<and>
            undisturbed r \<and> timeouts r \<le> timeouts reads) \<or>
         (\<exists>b r. recv_loop dec buf reads = (Inl (Err RecvTimeout), b, r) \<and> b @ read_bytes r = w @ rest \<and>
            undisturbed r \<and> timeouts r < timeouts reads)"
  using assms(2,3)
proof (induction reads arbitrary: buf)
  case Nil
  then show ?case using loop_at_whole [OF assms(1)] by simp
next
  case (Cons e rs)
  from Cons.prems(2) consider b where "buf = w @ b" "b @ read_bytes (e # rs) = rest"
    | q where "w = buf @ q" "q \<noteq> []"
    by (fastforce simp: append_eq_append_conv2)
  then show ?case
  proof cases
    case 1
    then show ?thesis using loop_at_whole [OF assms(1), of b "e # rs"] Cons.prems by auto
  next
    case 2
    then obtain n where n: "dec buf = Inr (More n)" using waits [of m buf q] assms(1) by auto
    show ?thesis
    proof (cases e)
      case (ReadChunk c)
      then show ?thesis using Cons.IH [of "buf @ c"] Cons.prems n by (simp add: recv_loop.simps [of dec buf])
    next
      case ReadTimeout
      then show ?thesis using Cons.prems n by (simp add: recv_loop.simps [of dec buf])
    qed (use Cons.prems in simp_all)
  qed
qed

lemma loop_waits_at_end:
  "undisturbed reads \<Longrightarrow> read_bytes reads = [] \<Longrightarrow>
    recv_loop dec [] reads = (Inl (Err RecvWaiting), [], []) \<or>
    (\<exists>r. recv_loop dec [] reads = (Inl (Err RecvTimeout), [], r) \<and> read_bytes r = [] \<and> undisturbed r)"
proof (induction reads)
  case Nil
  then show ?case using idle by (auto simp: recv_loop.simps [of dec "[]"])
next
  case (Cons e rs)
  obtain n where n: "dec [] = Inr (More n)" using idle by blast
  show ?case using Cons n by (cases e) (auto simp: recv_loop.simps [of dec "[]" "_ # _"])
qed

lemma nothing_more:
  "undisturbed reads \<Longrightarrow> read_bytes reads = [] \<Longrightarrow> recv_frames dec n [] reads = []"
proof (induction n arbitrary: reads)
  case 0
  then show ?case by simp
next
  case (Suc n)
  from loop_waits_at_end [OF Suc.prems] Suc.IH show ?case by auto
qed

lemma reassembles:
  assumes "list_all2 sent_as ms ws" "undisturbed reads" "buf @ read_bytes reads = concat ws"
    "length ms + timeouts reads \<le> n"
  shows "recv_frames dec n buf reads = map received ms"
  using assms
proof (induction n arbitrary: ms ws buf reads)
  case 0
  then show ?case by simp
next
  case (Suc n)
  show ?case
  proof (cases ms)
    case Nil
    then show ?thesis using Suc.prems nothing_more [of reads "Suc n"] by simp
  next
    case (Cons m ms')
    then obtain w ws' where ws: "ws = w # ws'" "sent_as m w" "list_all2 sent_as ms' ws'"
      using Suc.prems(1) by (auto simp: list_all2_Cons1)
    have eq: "buf @ read_bytes reads = w @ concat ws'" using Suc.prems(3) ws by simp
    from loop_delivers_first [OF ws(2) Suc.prems(2) eq]
    consider b r where "recv_loop dec buf reads = (Inr (received m), b, r)" "b @ read_bytes r = concat ws'"
        "undisturbed r" "timeouts r \<le> timeouts reads"
      | b r where "recv_loop dec buf reads = (Inl (Err RecvTimeout), b, r)" "b @ read_bytes r = w @ concat ws'"
        "undisturbed r" "timeouts r < timeouts reads"
      by blast
    then show ?thesis
    proof cases
      case 1
      then show ?thesis using Suc.IH [OF ws(3), of r b] Suc.prems(4) Cons by simp
    next
      case 2
      then show ?thesis using Suc.IH [OF Suc.prems(1), of r b] Suc.prems(4) Cons ws by simp
    qed
  qed
qed

end

text \<open>The frame codec keeps these laws, for the frames that fit the wire.\<close>

definition frame_sent_as :: "Value \<Rightarrow> bytes \<Rightarrow> bool" where
  "frame_sent_as v w \<longleftrightarrow> wfv v \<and> vdepth v \<le> MAX_NESTING_DEPTH \<and> encode_frame v = Inr w"

interpretation frame_codec: wire_codec frame_sent_as normal decode_frame
proof unfold_locales
  show "decode_frame (w @ rest) = Inr (DecodedFrame (normal m) (length w))" if "frame_sent_as m w" for m w rest
    using that by (simp add: frame_sent_as_def decode_frame_exact)
  show "\<exists>n. decode_frame p = Inr (More n)" if "frame_sent_as m (p @ q)" "q \<noteq> []" for m p q
    using that decode_frame_prefix [of m p q] by (auto simp: frame_sent_as_def)
  show "\<exists>n. decode_frame [] = Inr (More n)" by (simp add: decode_frame_def)
qed

subsection \<open>Progress and what every receive keeps\<close>

definition stream_size :: "bytes \<Rightarrow> read list \<Rightarrow> nat" where
  "stream_size buf reads = length buf + length (read_bytes reads) + length reads"

lemma recv_loop_size:
  "recv_loop decode_frame buf reads = (Inr v, buf', reads') \<Longrightarrow> stream_size buf' reads' < stream_size buf reads"
proof (induction decode_frame buf reads rule: recv_loop.induct)
  case (1 buf reads)
  show ?case
  proof (cases "decode_frame buf")
    case (Inl e)
    then show ?thesis using 1(2) by (subst (asm) recv_loop.simps) simp
  next
    case (Inr d)
    show ?thesis
    proof (cases d)
      case (DecodedFrame w n)
      then show ?thesis using 1(2) Inr decode_frame_stable(1,2) [of buf w n]
        by (subst (asm) recv_loop.simps) (auto simp: stream_size_def)
    next
      case (More n)
      show ?thesis
      proof (cases reads)
        case Nil
        then show ?thesis using 1(2) Inr More by (subst (asm) recv_loop.simps) simp
      next
        case (Cons e rs)
        then show ?thesis using 1(2) Inr More 1(1) [OF Inr More Cons]
          by (subst (asm) recv_loop.simps) (cases e; auto simp: stream_size_def)
      qed
    qed
  qed
qed

lemma recv_frame_size:
  "recv_frame st = (Inr v, st') \<Longrightarrow> stream_size (fs_buf st') (fs_reads st') < stream_size (fs_buf st) (fs_reads st)"
  by (auto simp: recv_frame_def split: prod.splits dest: recv_loop_size)

lemma recv_frame_frame:
  "recv_frame st = (r, st') \<Longrightarrow> fs_sent st' = fs_sent st \<and> fs_writes st' = fs_writes st"
  by (auto simp: recv_frame_def split: prod.splits)

subsection \<open>Properties\<close>

text \<open>C18: Reassembly. However the bytes of a sequence of sent frames are cut into chunks by the
  transport, and however often a receive is abandoned by its timer and retried, the receiver gets
  exactly those frames (maps in canonical order), each once and in order, and nothing else.\<close>

theorem frames_reassembled:
  assumes "list_all2 frame_sent_as vs ws" "undisturbed reads" "read_bytes reads = concat ws"
    "length vs + timeouts reads \<le> n"
  shows "recv_frames decode_frame n [] reads = map normal vs"
  by (rule frame_codec.reassembles [OF assms(1,2) _ assms(4)]) (simp add: assms(3))

theorem frames_reassembled_witness:
  "recv_frames decode_frame 4 [] [ReadChunk [0, 0], ReadTimeout, ReadChunk [0, 1, 5, 0, 0, 0], ReadChunk [1, 6]] =
    [IntV 5, IntV 6]"
proof -
  have "list_all2 frame_sent_as [IntV 5, IntV 6] [[0, 0, 0, 1, 5], [0, 0, 0, 1, 6]]"
    by (simp add: frame_sent_as_def eval_simps)
  from frames_reassembled [OF this, of
      "[ReadChunk [0, 0], ReadTimeout, ReadChunk [0, 1, 5, 0, 0, 0], ReadChunk [1, 6]]" 4]
  show ?thesis by simp
qed

end
