(* ===== verification/ErrorText.thy ===== *)
theory ErrorText
  imports FrameStream
begin

section \<open>ErrorText: the texts of send and receive errors\<close>

text \<open>
  The \<open>Display\<close> implementations of \<open>src/cbor.rs\<close>, \<open>src/frame.rs\<close> and \<open>src/connection.rs\<close> whose
  texts go on the wire, as the \<open>reason\<close> of a telemetry fact. The text of a \<open>quinn\<close> error is an
  argument.
\<close>

fun dec_nat :: "nat \<Rightarrow> string" where
  "dec_nat n = (if n < 10 then [char_of (48 + n)] else dec_nat (n div 10) @ [char_of (48 + n mod 10)])"

declare dec_nat.simps [simp del]

definition dec_int :: "int \<Rightarrow> string" where
  "dec_int i = (if i < 0 then CHR ''-'' # dec_nat (nat (- i)) else dec_nat (nat i))"

record quinn_texts =
  write_error_text :: string
  read_error_text :: string

fun int_out_of_range_text :: "IntOutOfRange \<Rightarrow> string" where
  "int_out_of_range_text (IntOutOfRange n) =
    ''integer '' @ dec_int n @ '' is outside the encodable range -(2^64)..=u64::MAX''"

fun decode_error_text :: "DecodeError \<Rightarrow> string" where
  "decode_error_text Truncated = ''truncated input''"
| "decode_error_text (UnsupportedMajorType m) =
    ''unsupported major type '' @ dec_nat (unat m) @ '' (only 0-5 and 7 are valid here)''"
| "decode_error_text (UnsupportedAdditionalInfo ai) =
    ''unsupported major-7 additional info '' @ dec_nat (unat ai)"
| "decode_error_text (UnsupportedAdditionalInfoEncoding ai) =
    ''unsupported additional-info encoding '' @ dec_nat (unat ai) @ '' (28-31 are reserved)''"
| "decode_error_text TrailingBytes = ''trailing bytes after the top-level value''"
| "decode_error_text InvalidUtf8 = ''text value was not valid UTF-8''"
| "decode_error_text UnrepresentableFloat = ''half-float NaN/infinity has no f64 representation here''"
| "decode_error_text NestingTooDeep = ''list/map nesting exceeds '' @ dec_nat MAX_NESTING_DEPTH @ '' levels''"

fun encode_frame_error_text :: "EncodeFrameError \<Rightarrow> string" where
  "encode_frame_error_text (EncodeTooLarge n) =
    ''frame is '' @ dec_nat n @ '' bytes, exceeding the '' @ dec_nat MAX_FRAME_BYTES @ ''-byte cap''"
| "encode_frame_error_text (EncodeCbor e) = int_out_of_range_text e"

fun decode_frame_error_text :: "DecodeFrameError \<Rightarrow> string" where
  "decode_frame_error_text (DecodeTooLarge n) =
    ''claimed frame length '' @ dec_nat n @ '' exceeds the '' @ dec_nat MAX_FRAME_BYTES @ ''-byte cap''"
| "decode_frame_error_text (DecodeCbor e) = decode_error_text e"

fun send_frame_error_text :: "quinn_texts \<Rightarrow> SendFrameError \<Rightarrow> string" where
  "send_frame_error_text Q (SendEncode e) = ''encoding frame: '' @ encode_frame_error_text e"
| "send_frame_error_text Q SendWrite = ''writing to stream: '' @ write_error_text Q"

text \<open>\<open>RecvWaiting\<close> stands for a call that has not returned; it has no text.\<close>

fun recv_frame_error_text :: "quinn_texts \<Rightarrow> RecvFrameError \<Rightarrow> string" where
  "recv_frame_error_text Q RecvRead = ''reading from stream: '' @ read_error_text Q"
| "recv_frame_error_text Q RecvStreamClosed = ''peer closed the stream''"
| "recv_frame_error_text Q (RecvDecode e) = ''decoding a frame: '' @ decode_frame_error_text e"
| "recv_frame_error_text Q RecvTimeout = ''timed out waiting for a frame''"
| "recv_frame_error_text Q RecvWaiting = []"

subsection \<open>Decimal numbers are ASCII\<close>

lemma ascii_append [simp]: "ascii (a @ b) \<longleftrightarrow> ascii a \<and> ascii b"
  by (auto simp: ascii_def)

lemma ascii_dec_nat [simp]: "ascii (dec_nat n)"
proof (induction n rule: dec_nat.induct)
  case (1 n)
  have d: "ascii [char_of (48 + k)]" if "k < 10" for k :: nat using that by (simp add: ascii_def)
  show ?case
  proof (cases "n < 10")
    case True
    then show ?thesis using d by (simp add: dec_nat.simps)
  next
    case False
    have "ascii (dec_nat (n div 10))" using 1 False by simp
    moreover have "ascii [char_of (48 + n mod 10)]" using d by simp
    ultimately show ?thesis using False by (subst dec_nat.simps) (simp del: ascii_append add: ascii_append)
  qed
qed

lemma ascii_dec_int [simp]: "ascii (dec_int i)"
  using ascii_dec_nat [of "nat (- i)"] ascii_dec_nat [of "nat i"] by (auto simp: dec_int_def ascii_def)

end
