(* ===== verification/Ucan.thy ===== *)
theory Ucan
  imports Identity
begin

section \<open>Ucan: capability tokens and the policy gate (\<open>src/ucan.rs\<close>)\<close>

text \<open>
  Tokens are \<open>header.payload.signature\<close>. The base64url codec (\<open>base64\<close>) and the JSON codec
  (\<open>serde_json\<close>) are third-party code, the record \<open>ucan_codec\<close>; \<open>codec_ok\<close> names what the code
  relies on. \<open>'j\<close> is the type of JSON values in a token's facts. The clock is an argument, in
  seconds.
\<close>

record Capability =
  cap_with :: string
  cap_can :: string

record Header =
  hd_alg :: string
  hd_typ :: string
  hd_ucv :: string

record 'j WirePayload =
  w_iss :: string
  w_aud :: string
  w_exp :: "int option"
  w_nbf :: "int option"
  w_nnc :: "string option"
  w_cap :: "Capability list"
  w_fct :: "(string \<times> 'j) list option"
  w_prf :: "string list"

record 'j Payload =
  p_issuer :: string
  p_audience :: string
  p_capabilities :: "Capability list"
  p_expires_at :: "int option"
  p_not_before :: "int option"
  p_nonce :: string
  p_facts :: "(string \<times> 'j) list option"
  p_proofs :: "string list"

record 'j CreateOpts =
  o_expires_at :: "int option"
  o_not_before :: "int option"
  o_nonce :: "string option"
  o_facts :: "(string \<times> 'j) list option"
  o_proofs :: "string list option"

record 'j ucan_codec =
  b64_encode :: "bytes \<Rightarrow> string"
  b64_decode :: "string \<Rightarrow> bytes option"
  header_to_json :: "Header \<Rightarrow> bytes option"
  payload_to_json :: "'j WirePayload \<Rightarrow> bytes option"
  payload_from_json :: "bytes \<Rightarrow> 'j WirePayload option"

datatype UcanError = InvalidToken | InvalidSignature | InvalidPublicKey | Expired | NotYetValid | NoToken

text \<open>\<open>str::split\<close>: the pieces between the separators, one more than there are separators.\<close>

fun split_char :: "char \<Rightarrow> string \<Rightarrow> string list" where
  "split_char c [] = [[]]"
| "split_char c (x # xs) =
    (if x = c then [] # split_char c xs
     else case split_char c xs of [] \<Rightarrow> [[x]] | p # ps \<Rightarrow> (x # p) # ps)"

definition create :: "'j ucan_codec \<Rightarrow> crypto \<Rightarrow> string \<Rightarrow> string \<Rightarrow> Capability list \<Rightarrow> KeyPair \<Rightarrow> 'j CreateOpts
    \<Rightarrow> (bytes, UcanError) result" where
  "create J C issuer audience capabilities kp opts =
    (let payload = \<lparr>w_iss = issuer, w_aud = audience, w_exp = o_expires_at opts, w_nbf = o_not_before opts,
                    w_nnc = o_nonce opts, w_cap = capabilities, w_fct = o_facts opts,
                    w_prf = (case o_proofs opts of Some p \<Rightarrow> p | None \<Rightarrow> [])\<rparr>;
         header = \<lparr>hd_alg = ''EdDSA'', hd_typ = ''JWT'', hd_ucv = ''0.10.0''\<rparr> in
     bindR (ok_or InvalidToken (header_to_json J header)) (\<lambda>header_json.
     bindR (ok_or InvalidToken (payload_to_json J payload)) (\<lambda>payload_json.
       let signing_input = b64_encode J header_json @ ''.'' @ b64_encode J payload_json;
           sig = sign_bytes C kp (as_bytes signing_input) in
       Inr (as_bytes (signing_input @ ''.'' @ b64_encode J sig)))))"

definition split_token :: "bytes \<Rightarrow> (string \<times> string \<times> string, UcanError) result" where
  "split_token token =
    bindR (ok_or InvalidToken (from_utf8 token)) (\<lambda>text.
      case split_char CHR ''.'' text of [h, p, s] \<Rightarrow> Inr (h, p, s) | _ \<Rightarrow> Inl InvalidToken)"

definition decode_payload :: "'j ucan_codec \<Rightarrow> string \<Rightarrow> ('j Payload, UcanError) result" where
  "decode_payload J payload_b64 =
    bindR (ok_or InvalidToken (b64_decode J payload_b64)) (\<lambda>raw.
    bindR (ok_or InvalidToken (payload_from_json J raw)) (\<lambda>wp.
      Inr \<lparr>p_issuer = w_iss wp, p_audience = w_aud wp, p_capabilities = w_cap wp, p_expires_at = w_exp wp,
           p_not_before = w_nbf wp, p_nonce = (case w_nnc wp of Some n \<Rightarrow> n | None \<Rightarrow> []),
           p_facts = w_fct wp, p_proofs = w_prf wp\<rparr>))"

definition decode_token :: "'j ucan_codec \<Rightarrow> bytes \<Rightarrow> ('j Payload, UcanError) result" where
  "decode_token J token = bindR (split_token token) (\<lambda>(_, payload_b64, _). decode_payload J payload_b64)"

definition verify_token :: "'j ucan_codec \<Rightarrow> crypto \<Rightarrow> int \<Rightarrow> bytes \<Rightarrow> bytes \<Rightarrow> ('j Payload, UcanError) result" where
  "verify_token J C now token public_key =
    bindR (split_token token) (\<lambda>(header_b64, payload_b64, sig_b64).
    bindR (decode_payload J payload_b64) (\<lambda>payload.
      if (case p_expires_at payload of Some e \<Rightarrow> now > e | None \<Rightarrow> False) then Inl Expired
      else if (case p_not_before payload of Some nbf \<Rightarrow> now < nbf | None \<Rightarrow> False) then Inl NotYetValid
      else
        bindR (ok_or InvalidToken (b64_decode J sig_b64)) (\<lambda>sig_bytes.
        bindR (ok_or InvalidToken (to_array 64 sig_bytes)) (\<lambda>sig.
          if \<not> verify_bytes C (as_bytes (header_b64 @ ''.'' @ payload_b64)) sig public_key
          then Inl InvalidSignature
          else Inr payload))))"

definition compute_cid :: "'j ucan_codec \<Rightarrow> crypto \<Rightarrow> bytes \<Rightarrow> string" where
  "compute_cid J C token = b64_encode J (sha256 C token)"

definition get_issuer :: "'j ucan_codec \<Rightarrow> bytes \<Rightarrow> (string, UcanError) result" where
  "get_issuer J token = bindR (decode_token J token) (\<lambda>p. Inr (p_issuer p))"

definition get_audience :: "'j ucan_codec \<Rightarrow> bytes \<Rightarrow> (string, UcanError) result" where
  "get_audience J token = bindR (decode_token J token) (\<lambda>p. Inr (p_audience p))"

definition get_capabilities :: "'j ucan_codec \<Rightarrow> bytes \<Rightarrow> (Capability list, UcanError) result" where
  "get_capabilities J token = bindR (decode_token J token) (\<lambda>p. Inr (p_capabilities p))"

definition get_expiration :: "'j ucan_codec \<Rightarrow> bytes \<Rightarrow> (int option, UcanError) result" where
  "get_expiration J token = bindR (decode_token J token) (\<lambda>p. Inr (p_expires_at p))"

definition get_proofs :: "'j ucan_codec \<Rightarrow> bytes \<Rightarrow> (string list, UcanError) result" where
  "get_proofs J token = bindR (decode_token J token) (\<lambda>p. Inr (p_proofs p))"

definition is_expired :: "'j ucan_codec \<Rightarrow> int \<Rightarrow> bytes \<Rightarrow> (bool, UcanError) result" where
  "is_expired J now token =
    bindR (decode_token J token) (\<lambda>p. Inr (case p_expires_at p of Some e \<Rightarrow> now > e | None \<Rightarrow> False))"

subsection \<open>Policies\<close>

record Policy =
  gated :: bool
  required_issuer :: bytes

definition policy_open :: Policy where
  "policy_open = \<lparr>gated = False, required_issuer = replicate 32 0\<rparr>"

definition policy_required :: "bytes \<Rightarrow> Policy" where
  "policy_required issuer_public_key = \<lparr>gated = True, required_issuer = issuer_public_key\<rparr>"

definition policy_check :: "'j ucan_codec \<Rightarrow> crypto \<Rightarrow> int \<Rightarrow> Policy \<Rightarrow> bytes \<Rightarrow> (unit, UcanError) result" where
  "policy_check J C now pol ucan_token =
    (if \<not> gated pol then Inr ()
     else if ucan_token = [] then Inl NoToken
     else bindR (verify_token J C now ucan_token (required_issuer pol)) (\<lambda>_. Inr ()))"

subsection \<open>What the codecs promise\<close>

definition b64_char :: "char \<Rightarrow> bool" where
  "b64_char c \<longleftrightarrow> c \<in> set ''ABCDEFGHIJKLMNOPQRSTUVWXYZabcdefghijklmnopqrstuvwxyz0123456789-_''"

definition codec_ok :: "'j ucan_codec \<Rightarrow> bool" where
  "codec_ok J \<longleftrightarrow>
     (\<forall>b. b64_decode J (b64_encode J b) = Some b \<and> list_all b64_char (b64_encode J b)) \<and>
     (\<forall>p b. payload_to_json J p = Some b \<longrightarrow> payload_from_json J b = Some p)"

lemma b64_char_facts: "b64_char c \<Longrightarrow> of_char c < (128::nat) \<and> c \<noteq> CHR ''.''"
  by (auto simp: b64_char_def)

lemma split_char_no_sep: "c \<notin> set s \<Longrightarrow> split_char c s = [s]"
  by (induction s) auto

lemma split_char_append:
  "c \<notin> set s \<Longrightarrow> split_char c (s @ c # t) = s # split_char c t"
  by (induction s) auto

lemma split_char_join:
  "split_char c s = ps \<Longrightarrow> s = concat (map (\<lambda>p. p @ [c]) (butlast ps)) @ last ps \<and> ps \<noteq> [] \<and> (\<forall>p \<in> set ps. c \<notin> set p)"
proof (induction s arbitrary: ps)
  case Nil
  then show ?case by auto
next
  case (Cons x xs)
  obtain p qs where s: "split_char c xs = p # qs" by (cases "split_char c xs") (use Cons.IH in auto)
  from Cons.IH [OF s] Cons.prems s show ?case by (cases "x = c"; cases qs) auto
qed

lemma split_token_Inr:
  "split_token token = Inr (h, p, s) \<longleftrightarrow>
    valid_str (h @ ''.'' @ p @ ''.'' @ s) \<and> token = as_bytes (h @ ''.'' @ p @ ''.'' @ s) \<and>
    CHR ''.'' \<notin> set h \<and> CHR ''.'' \<notin> set p \<and> CHR ''.'' \<notin> set s"
  (is "?l \<longleftrightarrow> ?r")
proof
  assume ?l
  then obtain t where t1: "from_utf8 token = Some t"
    and "(case split_char CHR ''.'' t of [h, p, s] \<Rightarrow> Inr (h, p, s) | _ \<Rightarrow> Inl InvalidToken) = Inr (h, p, s)"
    unfolding split_token_def bindR_eq_Inr by auto
  then have t: "from_utf8 token = Some t" "split_char CHR ''.'' t = [h, p, s]" by (simp_all split: list.splits)
  from split_char_join [OF t(2)] t(1) show ?r by (auto simp: from_utf8_eq_Some)
next
  assume r: ?r
  then have "split_char CHR ''.'' (h @ ''.'' @ p @ ''.'' @ s) = [h, p, s]"
    by (simp add: split_char_append split_char_no_sep)
  with r show ?l by (simp add: split_token_def from_utf8_as_bytes del: as_bytes_append)
qed

text \<open>The clock is within the bounds the token sets, if it sets any.\<close>

definition in_time :: "int \<Rightarrow> 'j Payload \<Rightarrow> bool" where
  "in_time now payload \<longleftrightarrow>
     (case p_expires_at payload of Some e \<Rightarrow> now \<le> e | None \<Rightarrow> True) \<and>
     (case p_not_before payload of Some n \<Rightarrow> n \<le> now | None \<Rightarrow> True)"

lemma verify_token_Inr:
  "verify_token J C now token pk = Inr payload \<longleftrightarrow>
    (\<exists>h p s sig. split_token token = Inr (h, p, s) \<and> decode_payload J p = Inr payload \<and> in_time now payload \<and>
      b64_decode J s = Some sig \<and> length sig = 64 \<and> verify_bytes C (as_bytes (h @ ''.'' @ p)) sig pk)"
  by (fastforce simp: verify_token_def in_time_def bindR_eq_Inr not_less split: if_splits option.splits)

subsection \<open>Properties\<close>

text \<open>Minting. A token minted by an identity verifies against that identity's public key at any
  time from its start to its expiry, and gives back the claims it was minted with; a gated policy
  requiring that key admits it.\<close>

theorem created_token_verifies:
  assumes "crypto_ok C" "codec_ok J" "wf_keypair kp"
    "create J C issuer audience caps kp opts = Inr token"
    "\<forall>e. o_expires_at opts = Some e \<longrightarrow> now \<le> e" "\<forall>n. o_not_before opts = Some n \<longrightarrow> n \<le> now"
  shows "\<exists>payload. verify_token J C now token (public_bytes C kp) = Inr payload \<and>
      p_issuer payload = issuer \<and> p_audience payload = audience \<and> p_capabilities payload = caps \<and>
      policy_check J C now (policy_required (public_bytes C kp)) token = Inr ()"
proof -
  let ?wp = "\<lparr>w_iss = issuer, w_aud = audience, w_exp = o_expires_at opts, w_nbf = o_not_before opts,
      w_nnc = o_nonce opts, w_cap = caps, w_fct = o_facts opts,
      w_prf = (case o_proofs opts of Some p \<Rightarrow> p | None \<Rightarrow> [])\<rparr>"
  obtain hj pj where j: "payload_to_json J ?wp = Some pj"
    and token: "token = as_bytes (b64_encode J hj @ ''.'' @ b64_encode J pj @ ''.'' @
      b64_encode J (sign_bytes C kp (as_bytes (b64_encode J hj @ ''.'' @ b64_encode J pj))))"
    using assms(4) by (auto simp: create_def Let_def bindR_eq_Inr simp del: as_bytes_append)
  define h p where "h = b64_encode J hj" and "p = b64_encode J pj"
  define s where "s = b64_encode J (sign_bytes C kp (as_bytes (h @ ''.'' @ p)))"
  have b64: "list_all b64_char h" "list_all b64_char p" "list_all b64_char s"
    using assms(2) by (simp_all add: codec_ok_def h_def p_def s_def)
  then have nodot: "CHR ''.'' \<notin> set h" "CHR ''.'' \<notin> set p" "CHR ''.'' \<notin> set s"
    using b64_char_facts by (auto simp: list_all_iff)
  have "\<forall>b \<in> set (as_bytes (h @ ''.'' @ p @ ''.'' @ s)). b < 0x80"
    using b64 b64_char_facts by (auto simp: as_bytes_def list_all_iff word_less_nat_alt unat_of_char_u8)
  then have "valid_str (h @ ''.'' @ p @ ''.'' @ s)" unfolding valid_str_def by (rule utf8_valid_ascii)
  then have st: "split_token token = Inr (h, p, s)"
    using nodot token by (simp add: split_token_Inr h_def p_def s_def)
  have dp: "\<exists>payload. decode_payload J p = Inr payload \<and> p_issuer payload = issuer \<and> p_audience payload = audience \<and>
      p_capabilities payload = caps \<and> p_expires_at payload = o_expires_at opts \<and> p_not_before payload = o_not_before opts"
    using assms(2) j by (simp add: decode_payload_def codec_ok_def p_def)
  then obtain payload where pl: "decode_payload J p = Inr payload" "p_issuer payload = issuer"
    "p_audience payload = audience" "p_capabilities payload = caps"
    "p_expires_at payload = o_expires_at opts" "p_not_before payload = o_not_before opts" by blast
  have sig: "b64_decode J s = Some (sign_bytes C kp (as_bytes (h @ ''.'' @ p)))"
    using assms(2) by (simp add: codec_ok_def s_def)
  have v: "verify_token J C now token (public_bytes C kp) = Inr payload"
    using st pl sig assms(1,3,5,6)
    by (simp add: verify_token_def length_sign_bytes verify_sign_bytes not_less split: option.split)
  moreover have "token \<noteq> []" by (simp add: token as_bytes_def)
  ultimately have "policy_check J C now (policy_required (public_bytes C kp)) token = Inr ()"
    by (simp add: policy_check_def policy_required_def)
  with v pl show ?thesis by blast
qed

text \<open>A concrete codec for the example: base 16 in letters, and JSON that is the issuer's name.\<close>

definition nib :: "nat \<Rightarrow> char" where
  "nib n = char_of (65 + n)"

definition toy_b64 :: "bytes \<Rightarrow> string" where
  "toy_b64 b = concat (map (\<lambda>x. [nib (unat x div 16), nib (unat x mod 16)]) b)"

fun toy_unb64 :: "string \<Rightarrow> bytes option" where
  "toy_unb64 [] = Some []"
| "toy_unb64 [c] = None"
| "toy_unb64 (c # d # s) =
    map_option (\<lambda>bs. word_of_nat ((of_char c - 65) * 16 + (of_char d - 65)) # bs) (toy_unb64 s)"

definition toy_payload :: "unit WirePayload" where
  "toy_payload = \<lparr>w_iss = ''me'', w_aud = ''you'', w_exp = Some 10, w_nbf = None, w_nnc = None, w_cap = [],
     w_fct = None, w_prf = []\<rparr>"

definition toy_codec :: "unit ucan_codec" where
  "toy_codec = \<lparr>b64_encode = toy_b64, b64_decode = toy_unb64, header_to_json = (\<lambda>_. Some [1]),
     payload_to_json = (\<lambda>p. if p = toy_payload then Some [2] else None),
     payload_from_json = (\<lambda>b. if b = [2] then Some toy_payload else None)\<rparr>"

lemma nib_facts: "n < 16 \<Longrightarrow> of_char (nib n) = 65 + n \<and> b64_char (nib n)"
proof -
  assume n: "n < 16"
  have "\<forall>k \<in> set [0..<16]. b64_char (nib k)"
    by (simp add: upt_rec nib_def b64_char_def char_of_def bit_Suc_0_iff)
  with n show ?thesis by (simp add: nib_def)
qed

lemma toy_b64_ok: "toy_unb64 (toy_b64 b) = Some b \<and> list_all b64_char (toy_b64 b)"
proof (induction b)
  case Nil
  then show ?case by (simp add: toy_b64_def)
next
  case (Cons x b)
  have "unat x div 16 < 16" "unat x mod 16 < 16" using unat_u8_less [of x] by auto
  note nib_facts [OF this(1)] nib_facts [OF this(2)]
  moreover have "word_of_nat (unat x div 16 * 16 + unat x mod 16) = x" by simp
  ultimately show ?case using Cons by (simp add: toy_b64_def)
qed

lemma toy_codec_ok: "codec_ok toy_codec"
  by (auto simp: codec_ok_def toy_codec_def toy_b64_ok split: if_splits)

theorem created_token_verifies_witness:
  "\<exists>token. create toy_codec toy_crypto ''me'' ''you'' [] \<lparr>signing_key = replicate 32 7\<rparr>
      \<lparr>o_expires_at = Some 10, o_not_before = None, o_nonce = None, o_facts = None, o_proofs = None\<rparr> = Inr token \<and>
    policy_check toy_codec toy_crypto 10
      (policy_required (public_bytes toy_crypto \<lparr>signing_key = replicate 32 7\<rparr>)) token = Inr ()"
proof -
  let ?kp = "\<lparr>signing_key = replicate 32 7\<rparr>"
  let ?o = "\<lparr>o_expires_at = Some 10, o_not_before = None, o_nonce = None, o_facts = None, o_proofs = None\<rparr>"
  obtain token where t: "create toy_codec toy_crypto ''me'' ''you'' [] ?kp ?o = Inr token"
    by (simp add: create_def toy_codec_def toy_payload_def)
  have "wf_keypair ?kp" by (simp add: wf_keypair_def)
  from created_token_verifies [OF toy_crypto_ok toy_codec_ok this t, of 10] t show ?thesis by auto
qed

text \<open>C19: Gate soundness. A gated policy admits a token only if its signature over the exact
  header and payload text verifies under the required issuer's key and the clock is within the
  token's bounds; an open policy admits anything.\<close>

theorem gate_sound:
  "policy_check J C now pol token = Inr () \<longleftrightarrow>
    (if gated pol then
      (\<exists>h p s payload sig. token = as_bytes (h @ ''.'' @ p @ ''.'' @ s) \<and>
      split_token token = Inr (h, p, s) \<and> decode_payload J p = Inr payload \<and>
      in_time now payload \<and>
      b64_decode J s = Some sig \<and> length sig = 64 \<and>
      verify_bytes C (as_bytes (h @ ''.'' @ p)) sig (required_issuer pol))
     else True)"
  (is "?l \<longleftrightarrow> ?r")
proof
  assume l: ?l
  show ?r
  proof (cases "gated pol")
    case True
    with l obtain payload where "verify_token J C now token (required_issuer pol) = Inr payload"
      by (auto simp: policy_check_def bindR_eq_Inr split: if_splits)
    then obtain h p s sig where v: "split_token token = Inr (h, p, s)" "decode_payload J p = Inr payload"
      "in_time now payload" "b64_decode J s = Some sig" "length sig = 64"
      "verify_bytes C (as_bytes (h @ ''.'' @ p)) sig (required_issuer pol)"
      by (auto simp: verify_token_Inr)
    then have "token = as_bytes (h @ ''.'' @ p @ ''.'' @ s)" by (simp only: split_token_Inr)
    with v True show ?thesis by auto
  qed simp
next
  assume r: ?r
  show ?l
  proof (cases "gated pol")
    case True
    with r obtain h p s payload sig where v: "token = as_bytes (h @ ''.'' @ p @ ''.'' @ s)"
      "split_token token = Inr (h, p, s)" "decode_payload J p = Inr payload" "in_time now payload"
      "b64_decode J s = Some sig" "length sig = 64"
      "verify_bytes C (as_bytes (h @ ''.'' @ p)) sig (required_issuer pol)" by auto
    then have "\<exists>payload. verify_token J C now token (required_issuer pol) = Inr payload"
      unfolding verify_token_Inr by blast
    moreover have "token \<noteq> []" by (simp add: v(1) as_bytes_def)
    ultimately show ?thesis by (auto simp: policy_check_def)
  qed (simp add: policy_check_def)
qed

end
