(* ===== verification/Certs.thy ===== *)
theory Certs
  imports Prelude
begin

section \<open>Certs: the certificate verifiers of a dial (\<open>src/cert.rs\<close>)\<close>

text \<open>
  The two verifiers a TLS dial can be given: the one that pins the Ed25519 key of the leaf
  certificate and the one that accepts everything. X.509 parsing, PEM decoding and path validation
  are third-party code, the record \<open>x509\<close>: what a DER string parses to, the labelled blocks of a PEM
  buffer (\<open>None\<close> for one that does not decode), the trust anchor and the end entity made of a
  certificate, and whether a path validates at a time. The verdict of rustls on a TLS 1.3 handshake
  signature is an argument.
\<close>

record certificate =
  spki_algorithm :: string
  spki_key :: bytes
  subject_organizations :: "string option list"

record 'a x509 =
  x_parse :: "bytes \<Rightarrow> certificate option"
  x_pems :: "bytes \<Rightarrow> (string \<times> bytes) option list"
  x_anchor :: "bytes \<Rightarrow> 'a option"
  x_end_entity :: "bytes \<Rightarrow> bool"
  x_verify :: "int \<Rightarrow> 'a \<Rightarrow> bytes \<Rightarrow> bytes list \<Rightarrow> bool"

subsection \<open>Pinning\<close>

text \<open>The errors of \<open>ed25519_pubkey_from_cert\<close> are strings that no code inspects: one constructor each.\<close>

datatype CertKeyError = CertUnparsed | CertAlgorithm string | CertKeySize nat

definition ed25519_pubkey_from_cert :: "'a x509 \<Rightarrow> bytes \<Rightarrow> (bytes, CertKeyError) result" where
  "ed25519_pubkey_from_cert X der =
    bindR (ok_or CertUnparsed (x_parse X der)) (\<lambda>cert.
      if spki_algorithm cert \<noteq> ''1.3.101.112'' then Inl (CertAlgorithm (spki_algorithm cert))
      else ok_or (CertKeySize (length (spki_key cert))) (to_array 32 (spki_key cert)))"

datatype PinError = PinExtract CertKeyError | PinMismatch bytes bytes

text \<open>Of the verifier's fields only the pinned key is the code's own; the other is the crypto provider of rustls.\<close>

record PubkeyPinVerifier =
  pv_pinned :: bytes

definition PubkeyPinVerifier_new :: "bytes \<Rightarrow> PubkeyPinVerifier" where
  "PubkeyPinVerifier_new pinned_pubkey = \<lparr>pv_pinned = pinned_pubkey\<rparr>"

definition pinned_verify_server_cert :: "'a x509 \<Rightarrow> bytes \<Rightarrow> bytes \<Rightarrow> (unit, PinError) result" where
  "pinned_verify_server_cert X pinned end_entity =
    bindR (map_err PinExtract (ed25519_pubkey_from_cert X end_entity)) (\<lambda>presented.
      if presented = pinned then Inr () else Inl (PinMismatch pinned presented))"

definition pinned_verify_tls12_signature :: "(unit, PinError) result" where
  "pinned_verify_tls12_signature = Inr ()"

definition pinned_verify_tls13_signature :: "(bytes \<Rightarrow> bytes \<Rightarrow> bytes \<Rightarrow> (unit, PinError) result) \<Rightarrow> bytes \<Rightarrow> bytes \<Rightarrow> bytes \<Rightarrow> (unit, PinError) result" where
  "pinned_verify_tls13_signature rustls_verify message cert dss = rustls_verify message cert dss"

subsection \<open>Skipping verification\<close>

definition skip_verify_server_cert :: "bytes \<Rightarrow> (unit, PinError) result" where
  "skip_verify_server_cert end_entity = Inr ()"

definition skip_verify_tls12_signature :: "bytes \<Rightarrow> bytes \<Rightarrow> bytes \<Rightarrow> (unit, PinError) result" where
  "skip_verify_tls12_signature message cert dss = Inr ()"

definition skip_verify_tls13_signature :: "bytes \<Rightarrow> bytes \<Rightarrow> bytes \<Rightarrow> (unit, PinError) result" where
  "skip_verify_tls13_signature message cert dss = Inr ()"

end
