(* ===== verification/Transport.thy ===== *)
theory Transport
  imports Certs
begin

section \<open>Transport: dialing a station over QUIC (\<open>src/transport.rs\<close>)\<close>

text \<open>
  The trust modes, the TLS and QUIC configuration each gives, and the dial. The resolver of the
  standard library, \<open>quinn\<close> and \<open>rustls\<close> are the parameter \<open>quic\<close>; the errors of theirs are the texts
  they display. \<open>tls_checked\<close> names what the code relies on: rustls lets no handshake complete unless
  the configured verifier accepted the certificate the peer presented.
\<close>

datatype Trust = Pinned bytes | WebPki | Insecure

datatype ConnectError =
    ResolveFailed string
  | NoAddress
  | EndpointFailed string
  | ConfigFailed string
  | StartFailed string
  | ConnectionFailed string

fun connect_error_text :: "ConnectError \<Rightarrow> string" where
  "connect_error_text (ResolveFailed e) = ''resolving station address: '' @ e"
| "connect_error_text NoAddress = ''hostname resolved to no addresses''"
| "connect_error_text (EndpointFailed e) = ''creating QUIC endpoint: '' @ e"
| "connect_error_text (ConfigFailed e) = ''building TLS config: '' @ e"
| "connect_error_text (StartFailed e) = ''starting QUIC connect: '' @ e"
| "connect_error_text (ConnectionFailed e) = ''QUIC connection failed: '' @ e"

subsection \<open>Configuration\<close>

text \<open>Times are milliseconds.\<close>

definition ALPN :: bytes where
  "ALPN = as_bytes ''macula''"

definition DEFAULT_IDLE_TIMEOUT :: nat where
  "DEFAULT_IDLE_TIMEOUT = 300000"

definition DEFAULT_KEEP_ALIVE_INTERVAL :: nat where
  "DEFAULT_KEEP_ALIVE_INTERVAL = 15000"

record TransportConfig =
  tc_max_idle_timeout :: "nat option"
  tc_keep_alive_interval :: "nat option"
  tc_stream_receive_window :: nat
  tc_receive_window :: nat
  tc_send_window :: nat

definition apply_flow_control_defaults :: "TransportConfig \<Rightarrow> TransportConfig" where
  "apply_flow_control_defaults transport =
    transport\<lparr>tc_stream_receive_window := 16 * 1024 * 1024, tc_receive_window := 64 * 1024 * 1024,
              tc_send_window := 64 * 1024 * 1024\<rparr>"

datatype ServerVerifier = VerifyPinned PubkeyPinVerifier | VerifyWebPki | VerifyNothing

record ClientConfig =
  cc_verifier :: ServerVerifier
  cc_alpn_protocols :: "bytes list"
  cc_transport :: TransportConfig

datatype SocketAddr = V4 bytes u16 | V6 bytes u16

record 'q quic =
  q_to_socket_addrs :: "string \<Rightarrow> u16 \<Rightarrow> (SocketAddr list, string) result"
  q_endpoint :: "SocketAddr \<Rightarrow> (unit, string) result"
  q_transport_default :: TransportConfig
  q_tls_config :: "ServerVerifier \<Rightarrow> bytes list \<Rightarrow> (unit, string) result"
  q_connect :: "ClientConfig \<Rightarrow> SocketAddr \<Rightarrow> string \<Rightarrow> (unit, string) result"
  q_handshake :: "ClientConfig \<Rightarrow> SocketAddr \<Rightarrow> string \<Rightarrow> ('q, string) result"

definition server_verifier :: "Trust \<Rightarrow> ServerVerifier" where
  "server_verifier trust =
    (case trust of
       Pinned pubkey \<Rightarrow> VerifyPinned (PubkeyPinVerifier_new pubkey)
     | WebPki \<Rightarrow> VerifyWebPki
     | Insecure \<Rightarrow> VerifyNothing)"

definition client_config :: "'q quic \<Rightarrow> Trust \<Rightarrow> (ClientConfig, string) result" where
  "client_config Q trust =
    (let verifier = server_verifier trust;
         alpn_protocols = [ALPN];
         transport = apply_flow_control_defaults ((q_transport_default Q)
           \<lparr>tc_max_idle_timeout := Some DEFAULT_IDLE_TIMEOUT, tc_keep_alive_interval := Some DEFAULT_KEEP_ALIVE_INTERVAL\<rparr>) in
     bindR (q_tls_config Q verifier alpn_protocols) (\<lambda>_.
       Inr \<lparr>cc_verifier = verifier, cc_alpn_protocols = alpn_protocols, cc_transport = transport\<rparr>))"

subsection \<open>The dial\<close>

definition resolve_address :: "'q quic \<Rightarrow> string \<Rightarrow> u16 \<Rightarrow> (SocketAddr, ConnectError) result" where
  "resolve_address Q host port =
    bindR (map_err ResolveFailed (q_to_socket_addrs Q host port)) (\<lambda>addrs.
      case addrs of [] \<Rightarrow> Inl NoAddress | addr # _ \<Rightarrow> Inr addr)"

definition transport_connect :: "'q quic \<Rightarrow> string \<Rightarrow> u16 \<Rightarrow> Trust \<Rightarrow> ('q, ConnectError) result" where
  "transport_connect Q host port trust =
    bindR (resolve_address Q host port) (\<lambda>addr.
      let bind_addr = (case addr of V6 _ _ \<Rightarrow> V6 (replicate 16 0) 0 | V4 _ _ \<Rightarrow> V4 (replicate 4 0) 0) in
      bindR (map_err EndpointFailed (q_endpoint Q bind_addr)) (\<lambda>_.
      bindR (map_err ConfigFailed (client_config Q trust)) (\<lambda>config.
      bindR (map_err StartFailed (q_connect Q config addr host)) (\<lambda>_.
        map_err ConnectionFailed (q_handshake Q config addr host)))))"

subsection \<open>What the trust mode guarantees\<close>

definition verifier_accepts :: "'a x509 \<Rightarrow> (string \<Rightarrow> bytes \<Rightarrow> bool) \<Rightarrow> ServerVerifier \<Rightarrow> string \<Rightarrow> bytes \<Rightarrow> bool" where
  "verifier_accepts X webpki verifier host end_entity =
    (case verifier of
       VerifyPinned v \<Rightarrow> pinned_verify_server_cert X (pv_pinned v) end_entity = Inr ()
     | VerifyWebPki \<Rightarrow> webpki host end_entity
     | VerifyNothing \<Rightarrow> skip_verify_server_cert end_entity = Inr ())"

definition tls_checked :: "'a x509 \<Rightarrow> (string \<Rightarrow> bytes \<Rightarrow> bool) \<Rightarrow> ('q \<Rightarrow> bytes) \<Rightarrow> 'q quic \<Rightarrow> bool" where
  "tls_checked X webpki presented Q \<longleftrightarrow>
    (\<forall>config addr host q. q_handshake Q config addr host = Inr q \<longrightarrow>
       verifier_accepts X webpki (cc_verifier config) host (presented q))"

lemma pinned_verify_iff:
  "pinned_verify_server_cert X pinned end_entity = Inr () \<longleftrightarrow> ed25519_pubkey_from_cert X end_entity = Inr pinned"
  by (auto simp: pinned_verify_server_cert_def bindR_eq_Inr split: if_splits)

lemma client_config_verifier: "client_config Q trust = Inr config \<Longrightarrow> cc_verifier config = server_verifier trust"
  by (auto simp: client_config_def bindR_eq_Inr Let_def)

lemma transport_connect_checked:
  assumes "tls_checked X webpki presented Q" "transport_connect Q host port trust = Inr q"
  shows "verifier_accepts X webpki (server_verifier trust) host (presented q)"
proof -
  obtain config addr where "client_config Q trust = Inr config" "q_handshake Q config addr host = Inr q"
    using assms(2) by (auto simp: transport_connect_def bindR_eq_Inr Let_def)
  then show ?thesis using assms(1) client_config_verifier by (fastforce simp: tls_checked_def)
qed

lemma transport_connect_pinned:
  assumes "tls_checked X webpki presented Q" "transport_connect Q host port (Pinned pubkey) = Inr q"
  shows "ed25519_pubkey_from_cert X (presented q) = Inr pubkey"
  using transport_connect_checked [OF assms]
  by (simp add: verifier_accepts_def server_verifier_def PubkeyPinVerifier_new_def pinned_verify_iff)

end
