(* ===== verification/Connection.thy ===== *)
theory Connection
  imports ErrorText Ucan Transport
begin

section \<open>Connection: handshake, calls and the provider side (\<open>src/connection.rs\<close>)\<close>

text \<open>
  \<open>FrameStream::call\<close>, the CONNECT/HELLO handshake, \<open>Session\<close> and the reply a provider builds
  for an inbound CALL. Random identifiers and the clock come from an environment \<open>E\<close> read at a
  counter that every use advances; whether the additions of machine integers are checked, as in a
  build of the dev profile, or wrap around, as in a release build, is \<open>env_overflow_checks\<close>. A session
  is its control stream, the connection the later streams are opened on (what \<open>open_bi\<close> returns there
  at each draw) and the station's HELLO. What
  opening the QUIC connection and its stream returns is the argument \<open>dial\<close>. A panic inside
  signing is \<open>Inl Panic\<close> (see \<open>FrameProps\<close>). A handler is a function of the payload whose
  outcome may be a panic, which \<open>tokio::spawn\<close> turns into a join error.
\<close>

record env =
  env_frame_id :: "nat \<Rightarrow> bytes"
  env_now_ms :: "nat \<Rightarrow> u64"
  env_now_s :: "nat \<Rightarrow> int"
  env_id :: "nat \<Rightarrow> bytes"
  env_seq :: "nat \<Rightarrow> u64"
  env_texts :: quinn_texts
  env_overflow_checks :: bool

subsection \<open>CALL and its response\<close>

datatype CallError = CallSend SendFrameError | CallRecv RecvFrameError

function await_call_response ::
  "bytes \<Rightarrow> FrameStream \<Rightarrow> (CallResponse, CallError fail) result \<times> FrameStream" where
  "await_call_response call_id st =
    (case recv_frame st of
       (Inl e, st') \<Rightarrow> (Inl (lift_fail CallRecv e), st')
     | (Inr v, st') \<Rightarrow>
         if frame_call_id v \<noteq> Some call_id then await_call_response call_id st'
         else
           (case parse_call_response v of
              Inr response \<Rightarrow> (Inr response, st')
            | Inl _ \<Rightarrow> await_call_response call_id st'))"
  by pat_completeness auto

termination
  by (relation "measure (\<lambda>(_, st). stream_size (fs_buf st) (fs_reads st))") (auto dest!: recv_frame_size [OF sym])

declare await_call_response.simps [simp del]

definition send_signed ::
  "crypto \<Rightarrow> KeyPair \<Rightarrow> Value \<Rightarrow> FrameStream \<Rightarrow> (unit, SendFrameError fail) result \<times> FrameStream" where
  "send_signed C kp frame st =
    (case (sign_frame C frame kp :: (Value, unit fail) result) of
       Inl _ \<Rightarrow> (Inl Panic, st)
     | Inr signed_frame \<Rightarrow> send_frame st signed_frame)"

definition fs_call_with_ucan ::
  "crypto \<Rightarrow> env \<Rightarrow> nat \<Rightarrow> FrameStream \<Rightarrow> string \<Rightarrow> bytes \<Rightarrow> Value \<Rightarrow> int \<Rightarrow> KeyPair \<Rightarrow> bytes
    \<Rightarrow> (CallResponse, CallError fail) result \<times> FrameStream \<times> nat" where
  "fs_call_with_ucan C E n st procedure realm payload deadline_ms kp ucan_token =
    (let call_id = env_id E n;
         spec = (CallSpec_new call_id procedure realm payload deadline_ms (node_id C kp))
                  \<lparr>ca_ucan_token := ucan_token\<rparr> in
     case send_signed C kp (call_value spec (env_frame_id E n) (env_now_ms E n)) st of
       (Inl e, st') \<Rightarrow> (Inl (lift_fail CallSend e), st', n + 1)
     | (Inr _, st') \<Rightarrow> (case await_call_response call_id st' of (r, st'') \<Rightarrow> (r, st'', n + 1)))"

definition fs_call ::
  "crypto \<Rightarrow> env \<Rightarrow> nat \<Rightarrow> FrameStream \<Rightarrow> string \<Rightarrow> bytes \<Rightarrow> Value \<Rightarrow> int \<Rightarrow> KeyPair
    \<Rightarrow> (CallResponse, CallError fail) result \<times> FrameStream \<times> nat" where
  "fs_call C E n st procedure realm payload deadline_ms kp =
    fs_call_with_ucan C E n st procedure realm payload deadline_ms kp []"

subsection \<open>The handshake\<close>

record Session =
  control :: FrameStream
  session_open_bi :: "nat \<Rightarrow> FrameStream option"
  station :: HelloInfo

datatype dial = DialFails ConnectError | OpenFails | Opened FrameStream "nat \<Rightarrow> FrameStream option"

datatype HandshakeError =
    HsTransport ConnectError
  | HsOpenStream
  | HsWrite
  | HsRead
  | HsStreamClosed
  | HsTimeout
  | HsWaiting
  | HsEncode EncodeFrameError
  | HsDecode DecodeFrameError
  | HsUnexpectedFrameType ParseHelloError
  | HsSignatureInvalid VerifyError
  | HsRefused "int option"

fun hs_send_error :: "SendFrameError \<Rightarrow> HandshakeError" where
  "hs_send_error (SendEncode e) = HsEncode e"
| "hs_send_error SendWrite = HsWrite"

fun hs_recv_error :: "RecvFrameError \<Rightarrow> HandshakeError" where
  "hs_recv_error RecvRead = HsRead"
| "hs_recv_error RecvStreamClosed = HsStreamClosed"
| "hs_recv_error (RecvDecode e) = HsDecode e"
| "hs_recv_error RecvTimeout = HsTimeout"
| "hs_recv_error RecvWaiting = HsWaiting"

definition read_one_frame :: "read list \<Rightarrow> (Value \<times> bytes \<times> read list, HandshakeError fail) result" where
  "read_one_frame reads =
    (case recv_loop decode_frame [] reads of
       (Inl e, _, _) \<Rightarrow> Inl (lift_fail hs_recv_error e)
     | (Inr v, buf, rs) \<Rightarrow> Inr (v, buf, rs))"

definition connect ::
  "crypto \<Rightarrow> env \<Rightarrow> nat \<Rightarrow> KeyPair \<Rightarrow> dial \<Rightarrow> (Session, HandshakeError fail) result" where
  "connect C E n kp dial =
    (case dial of
       DialFails e \<Rightarrow> Inl (Err (HsTransport e))
     | OpenFails \<Rightarrow> Inl (Err HsOpenStream)
     | Opened st later \<Rightarrow>
         (let spec = ConnectSpec_new (node_id C kp) (puzzle_evidence C (public_bytes C kp)) in
          case send_signed C kp (connect_value spec (env_frame_id E n) (env_now_ms E n)) st of
            (Inl e, _) \<Rightarrow> Inl (lift_fail hs_send_error e)
          | (Inr _, st') \<Rightarrow>
              bindR (read_one_frame (fs_reads st')) (\<lambda>(hello_value, buf, rs).
              bindR (map_err (\<lambda>e. Err (HsUnexpectedFrameType e)) (parse_hello hello_value)) (\<lambda>hello.
              bindR (map_err (lift_fail HsSignatureInvalid) (verify_frame C hello_value (he_node_id hello))) (\<lambda>_.
                if \<not> he_accepted hello then Inl (Err (HsRefused (he_refusal_code hello)))
                else Inr \<lparr>control = st'\<lparr>fs_buf := buf, fs_reads := rs\<rparr>, session_open_bi = later, station = hello\<rparr>)))))"

text \<open>
  The dial of a connect: the transport's, and the control stream opened on its connection
  (\<open>open_bi\<close> at the draw of the connect, \<open>None\<close> when that fails); the later streams of the session are
  opened on the same connection. \<open>connect_station\<close> is \<open>connect\<close> with this dial.
\<close>

definition dial_station ::
  "'q quic \<Rightarrow> ('q \<Rightarrow> nat \<Rightarrow> FrameStream option) \<Rightarrow> nat \<Rightarrow> string \<Rightarrow> u16 \<Rightarrow> Trust \<Rightarrow> dial" where
  "dial_station Q open_bi n host port trust =
    (case transport_connect Q host port trust of
       Inl e \<Rightarrow> DialFails e
     | Inr connection \<Rightarrow>
         (case open_bi connection n of None \<Rightarrow> OpenFails | Some st \<Rightarrow> Opened st (open_bi connection)))"

definition connect_station ::
  "crypto \<Rightarrow> env \<Rightarrow> nat \<Rightarrow> 'q quic \<Rightarrow> ('q \<Rightarrow> nat \<Rightarrow> FrameStream option) \<Rightarrow> string \<Rightarrow> u16 \<Rightarrow> Trust \<Rightarrow> KeyPair
    \<Rightarrow> (Session, HandshakeError fail) result" where
  "connect_station C E n Q open_bi host port trust kp = connect C E n kp (dial_station Q open_bi n host port trust)"

subsection \<open>Session operations\<close>

definition session_recv_frame :: "Session \<Rightarrow> (Value, RecvFrameError fail) result \<times> Session" where
  "session_recv_frame s = (case recv_frame (control s) of (r, st) \<Rightarrow> (r, s\<lparr>control := st\<rparr>))"

definition session_send ::
  "crypto \<Rightarrow> KeyPair \<Rightarrow> Value \<Rightarrow> Session \<Rightarrow> (unit, SendFrameError fail) result \<times> Session" where
  "session_send C kp frame s =
    (case send_signed C kp frame (control s) of (r, st) \<Rightarrow> (r, s\<lparr>control := st\<rparr>))"

definition publish ::
  "crypto \<Rightarrow> env \<Rightarrow> nat \<Rightarrow> PublishSpec \<Rightarrow> KeyPair \<Rightarrow> Session
    \<Rightarrow> (unit, SendFrameError fail) result \<times> Session \<times> nat" where
  "publish C E n spec kp s =
    (case (sign_publisher C (publish_value spec (env_frame_id E n) (env_now_ms E n)) kp :: (Value, unit fail) result) of
       Inl _ \<Rightarrow> (Inl Panic, s, n + 1)
     | Inr with_publisher_sig \<Rightarrow>
         (case session_send C kp with_publisher_sig s of (r, s') \<Rightarrow> (r, s', n + 1)))"

definition subscribe ::
  "crypto \<Rightarrow> env \<Rightarrow> nat \<Rightarrow> SubscribeSpec \<Rightarrow> KeyPair \<Rightarrow> Session \<Rightarrow> (unit, SendFrameError fail) result \<times> Session" where
  "subscribe C E n spec kp s = session_send C kp (subscribe_value spec (env_frame_id E n) (env_now_ms E n)) s"

definition unsubscribe ::
  "crypto \<Rightarrow> env \<Rightarrow> nat \<Rightarrow> UnsubscribeSpec \<Rightarrow> KeyPair \<Rightarrow> Session \<Rightarrow> (unit, SendFrameError fail) result \<times> Session" where
  "unsubscribe C E n spec kp s = session_send C kp (unsubscribe_value spec (env_frame_id E n) (env_now_ms E n)) s"

definition advertise ::
  "crypto \<Rightarrow> env \<Rightarrow> nat \<Rightarrow> AdvertiseSpec \<Rightarrow> KeyPair \<Rightarrow> Session \<Rightarrow> (unit, SendFrameError fail) result \<times> Session" where
  "advertise C E n spec kp s = session_send C kp (advertise_value spec (env_frame_id E n) (env_now_ms E n)) s"

definition unadvertise ::
  "crypto \<Rightarrow> env \<Rightarrow> nat \<Rightarrow> UnadvertiseSpec \<Rightarrow> KeyPair \<Rightarrow> Session \<Rightarrow> (unit, SendFrameError fail) result \<times> Session" where
  "unadvertise C E n spec kp s = session_send C kp (unadvertise_value spec (env_frame_id E n) (env_now_ms E n)) s"

datatype RecvEventError = EventRecv RecvFrameError | EventParse ParseEventError

definition recv_event :: "Session \<Rightarrow> (EventInfo, RecvEventError fail) result \<times> Session" where
  "recv_event s =
    (case session_recv_frame s of
       (Inl e, s') \<Rightarrow> (Inl (lift_fail EventRecv e), s')
     | (Inr v, s') \<Rightarrow> (map_err (\<lambda>e. Err (EventParse e)) (parse_event v), s'))"

subsection \<open>Telemetry facts\<close>

definition request_id_payload :: "bytes \<Rightarrow> Value" where
  "request_id_payload request_id = with_field (Map []) ''request_id'' (Bytes request_id)"

text \<open>The outcome of publishing a fact is thrown away, but a panic is not.\<close>

definition fact_outcome :: "(unit, SendFrameError fail) result \<Rightarrow> (unit, 'e fail) result" where
  "fact_outcome r = (case r of Inl Panic \<Rightarrow> Inl Panic | _ \<Rightarrow> Inr ())"

definition announce_fact ::
  "crypto \<Rightarrow> env \<Rightarrow> nat \<Rightarrow> Session \<Rightarrow> bytes \<Rightarrow> KeyPair \<Rightarrow> string \<Rightarrow> Value
    \<Rightarrow> (unit, 'e fail) result \<times> Session \<times> nat" where
  "announce_fact C E n s realm kp topic payload =
    (let fact = PublishSpec_new topic realm (node_id C kp) (env_seq E n) payload (env_now_ms E n) in
     case publish C E (n + 1) fact kp s of (r, s', n') \<Rightarrow> (fact_outcome r, s', n'))"

definition announce_rpc_sent ::
  "crypto \<Rightarrow> env \<Rightarrow> nat \<Rightarrow> Session \<Rightarrow> bytes \<Rightarrow> KeyPair \<Rightarrow> bytes \<Rightarrow> (unit, 'e fail) result \<times> Session \<times> nat" where
  "announce_rpc_sent C E n s realm kp request_id =
    announce_fact C E n s realm kp ''rpc.sent_v1'' (request_id_payload request_id)"

fun call_error_text :: "quinn_texts \<Rightarrow> CallError \<Rightarrow> string" where
  "call_error_text Q (CallSend e) = ''sending CALL: '' @ send_frame_error_text Q e"
| "call_error_text Q (CallRecv e) = ''awaiting RESULT/ERROR: '' @ recv_frame_error_text Q e"

definition completed_payload :: "quinn_texts \<Rightarrow> bytes \<Rightarrow> (CallResponse, CallError) result \<Rightarrow> Value" where
  "completed_payload Q request_id r =
    (let payload = request_id_payload request_id in
     case r of
       Inl e \<Rightarrow>
         with_field (with_field payload ''outcome'' (Text ''failed'')) ''reason'' (Text (call_error_text Q e))
     | Inr (CallResponse.CallError _ name _ _) \<Rightarrow>
         with_field (with_field payload ''outcome'' (Text ''failed'')) ''reason'' (Text name)
     | Inr (CallResult _ _) \<Rightarrow> with_field payload ''outcome'' (Text ''completed''))"

definition announce_rpc_completed ::
  "crypto \<Rightarrow> env \<Rightarrow> nat \<Rightarrow> Session \<Rightarrow> bytes \<Rightarrow> KeyPair \<Rightarrow> bytes \<Rightarrow> (CallResponse, CallError) result
    \<Rightarrow> (unit, 'e fail) result \<times> Session \<times> nat" where
  "announce_rpc_completed C E n s realm kp request_id r =
    announce_fact C E n s realm kp ''rpc.completed_v1'' (completed_payload (env_texts E) request_id r)"

definition announce_rpc_received ::
  "crypto \<Rightarrow> env \<Rightarrow> nat \<Rightarrow> Session \<Rightarrow> bytes \<Rightarrow> KeyPair \<Rightarrow> bytes \<Rightarrow> (unit, 'e fail) result \<times> Session \<times> nat" where
  "announce_rpc_received C E n s realm kp request_id =
    announce_fact C E n s realm kp ''rpc.received_v1'' (request_id_payload request_id)"

definition announce_rpc_replied ::
  "crypto \<Rightarrow> env \<Rightarrow> nat \<Rightarrow> Session \<Rightarrow> bytes \<Rightarrow> KeyPair \<Rightarrow> bytes \<Rightarrow> string option
    \<Rightarrow> (unit, 'e fail) result \<times> Session \<times> nat" where
  "announce_rpc_replied C E n s realm kp request_id handler_err =
    (let payload = request_id_payload request_id;
         payload = (case handler_err of
             Some reason \<Rightarrow>
               with_field (with_field payload ''outcome'' (Text ''failed'')) ''reason'' (Text reason)
           | None \<Rightarrow> with_field payload ''outcome'' (Text ''replied'')) in
     announce_fact C E n s realm kp ''rpc.replied_v1'' payload)"

subsection \<open>Calls on the control stream\<close>

definition session_call_with_ucan ::
  "crypto \<Rightarrow> env \<Rightarrow> nat \<Rightarrow> Session \<Rightarrow> string \<Rightarrow> bytes \<Rightarrow> Value \<Rightarrow> int \<Rightarrow> KeyPair \<Rightarrow> bytes
    \<Rightarrow> (CallResponse, CallError fail) result \<times> Session \<times> nat" where
  "session_call_with_ucan C E n s procedure realm payload deadline_ms kp ucan_token =
    (let request_id = env_id E n in
     case announce_rpc_sent C E (n + 1) s realm kp request_id of
       (Inl e, s1, n1) \<Rightarrow> (Inl e, s1, n1)
     | (Inr _, s1, n1) \<Rightarrow>
         (case fs_call_with_ucan C E n1 (control s1) procedure realm payload deadline_ms kp ucan_token of
            (Inl Panic, st, n2) \<Rightarrow> (Inl Panic, s1\<lparr>control := st\<rparr>, n2)
          | (Inl (Err e), st, n2) \<Rightarrow>
              (case announce_rpc_completed C E n2 (s1\<lparr>control := st\<rparr>) realm kp request_id (Inl e) of
                 (r, s3, n3) \<Rightarrow> (bindR r (\<lambda>_. Inl (Err e)), s3, n3))
          | (Inr response, st, n2) \<Rightarrow>
              (case announce_rpc_completed C E n2 (s1\<lparr>control := st\<rparr>) realm kp request_id (Inr response) of
                 (r, s3, n3) \<Rightarrow> (bindR r (\<lambda>_. Inr response), s3, n3))))"

definition session_call ::
  "crypto \<Rightarrow> env \<Rightarrow> nat \<Rightarrow> Session \<Rightarrow> string \<Rightarrow> bytes \<Rightarrow> Value \<Rightarrow> int \<Rightarrow> KeyPair
    \<Rightarrow> (CallResponse, CallError fail) result \<times> Session \<times> nat" where
  "session_call C E n s procedure realm payload deadline_ms kp =
    session_call_with_ucan C E n s procedure realm payload deadline_ms kp []"

subsection \<open>Serving calls\<close>

datatype HandlerOutcome = HandlerOk Value | HandlerErr string | HandlerPanic | HandlerOutlivesTimeout

type_synonym CallHandler = "Value \<Rightarrow> HandlerOutcome"

datatype ServeCallError = ServeRecv RecvFrameError | ServeSend SendFrameError | ServeTimeout

text \<open>
  The result is the reply to send, the session (if there is one) after the facts announced on
  it, and the payloads handed to a handler. The last outcome of a handler is the timer around
  the whole of \<open>serve_one_call\<close> firing while the handler runs.
\<close>

definition announce_on ::
  "(Session \<Rightarrow> nat \<Rightarrow> (unit, 'e fail) result \<times> Session \<times> nat) \<Rightarrow> Session option \<Rightarrow> nat
    \<Rightarrow> (unit, 'e fail) result \<times> Session option \<times> nat" where
  "announce_on announce session n =
    (case session of
       None \<Rightarrow> (Inr (), None, n)
     | Some s \<Rightarrow> (case announce s n of (r, s', n') \<Rightarrow> (r, Some s', n')))"

definition build_call_reply ::
  "'j ucan_codec \<Rightarrow> crypto \<Rightarrow> env \<Rightarrow> nat \<Rightarrow> CallInfo \<Rightarrow> (bytes \<Rightarrow> string \<Rightarrow> CallHandler option)
    \<Rightarrow> (bytes \<Rightarrow> string \<Rightarrow> Policy) \<Rightarrow> KeyPair \<Rightarrow> Session option
    \<Rightarrow> (Value, ServeCallError fail) result \<times> Session option \<times> nat \<times> Value list" where
  "build_call_reply J C E n ci lookup policy kp session =
    (let self_pub = node_id C kp;
         error_reply = (\<lambda>m code detail. call_error_value
           ((CallErrorSpec_new (ci_call_id ci) code self_pub)\<lparr>er_detail := detail\<rparr>)
           (env_frame_id E m) (env_now_ms E m)) in
     case policy_check J C (env_now_s E n) (policy (ci_realm ci) (ci_procedure ci)) (ci_ucan_token ci) of
       Inl _ \<Rightarrow> (Inr (error_reply n Unauthorized None), session, n + 1, [])
     | Inr _ \<Rightarrow>
         (case lookup (ci_realm ci) (ci_procedure ci) of
            None \<Rightarrow> (Inr (error_reply n UnknownNextPeer None), session, n + 1, [])
          | Some handler \<Rightarrow>
              (let request_id = env_id E n in
               case announce_on (\<lambda>s m. announce_rpc_received C E m s (ci_realm ci) kp request_id) session (n + 1) of
                 (Inl e, s1, n1) \<Rightarrow> (Inl e, s1, n1, [])
               | (Inr _, s1, n1) \<Rightarrow>
                   (case handler (ci_payload ci) of
                      HandlerOk v \<Rightarrow>
                        (case announce_on (\<lambda>s m. announce_rpc_replied C E m s (ci_realm ci) kp request_id None) s1 n1 of
                           (r, s2, n2) \<Rightarrow>
                             (bindR r (\<lambda>_. Inr (result_value (ResultSpec_new (ci_call_id ci) v self_pub)
                                (env_frame_id E n2) (env_now_ms E n2))), s2, n2 + 1, [ci_payload ci]))
                    | HandlerErr reason \<Rightarrow>
                        (case announce_on (\<lambda>s m. announce_rpc_replied C E m s (ci_realm ci) kp request_id (Some reason)) s1 n1 of
                           (r, s2, n2) \<Rightarrow>
                             (bindR r (\<lambda>_. Inr (error_reply n2 UnknownError (Some reason))), s2, n2 + 1, [ci_payload ci]))
                    | HandlerPanic \<Rightarrow>
                        (Inr (error_reply n1 TemporaryRelayFailure None), s1, n1 + 1, [ci_payload ci])
                    | HandlerOutlivesTimeout \<Rightarrow> (Inl (Err ServeTimeout), s1, n1, [ci_payload ci])))))"

definition serve_recv_error :: "RecvFrameError \<Rightarrow> ServeCallError" where
  "serve_recv_error e = (if e = RecvTimeout then ServeTimeout else ServeRecv e)"

lemma session_recv_frame_size:
  "session_recv_frame s = (Inr v, s') \<Longrightarrow>
    stream_size (fs_buf (control s')) (fs_reads (control s')) < stream_size (fs_buf (control s)) (fs_reads (control s))"
  by (auto simp: session_recv_frame_def split: prod.splits dest: recv_frame_size)

function serve_one_call_gated ::
  "'j ucan_codec \<Rightarrow> crypto \<Rightarrow> env \<Rightarrow> nat \<Rightarrow> (bytes \<Rightarrow> string \<Rightarrow> CallHandler option) \<Rightarrow> (bytes \<Rightarrow> string \<Rightarrow> Policy)
    \<Rightarrow> KeyPair \<Rightarrow> Session \<Rightarrow> (unit, ServeCallError fail) result \<times> Session \<times> nat \<times> Value list" where
  "serve_one_call_gated J C E n lookup policy kp s =
    (case session_recv_frame s of
       (Inl e, s') \<Rightarrow> (Inl (lift_fail serve_recv_error e), s', n, [])
     | (Inr v, s') \<Rightarrow>
         (case parse_call v of
            Inl _ \<Rightarrow> serve_one_call_gated J C E n lookup policy kp s'
          | Inr ci \<Rightarrow>
              (case build_call_reply J C E n ci lookup policy kp (Some s') of
                 (Inl e, s2, n2, invoked) \<Rightarrow> (Inl e, the s2, n2, invoked)
               | (Inr reply, s2, n2, invoked) \<Rightarrow>
                   (case session_send C kp reply (the s2) of
                      (r, s3) \<Rightarrow> (map_err (lift_fail ServeSend) r, s3, n2, invoked)))))"
  by pat_completeness auto

termination
  by (relation "measure (\<lambda>(_, _, _, _, _, _, _, s). stream_size (fs_buf (control s)) (fs_reads (control s)))")
    (auto dest!: session_recv_frame_size [OF sym])

declare serve_one_call_gated.simps [simp del]

definition serve_one_call ::
  "'j ucan_codec \<Rightarrow> crypto \<Rightarrow> env \<Rightarrow> nat \<Rightarrow> (bytes \<Rightarrow> string \<Rightarrow> CallHandler option)
    \<Rightarrow> KeyPair \<Rightarrow> Session \<Rightarrow> (unit, ServeCallError fail) result \<times> Session \<times> nat \<times> Value list" where
  "serve_one_call J C E n lookup kp s = serve_one_call_gated J C E n lookup (\<lambda>_ _. policy_open) kp s"

subsection \<open>Publisher, subscriber, re-advertising and closing\<close>

definition run_publisher ::
  "crypto \<Rightarrow> env \<Rightarrow> nat \<Rightarrow> PublishSpec \<Rightarrow> KeyPair \<Rightarrow> bool \<Rightarrow> Session
    \<Rightarrow> (unit, SendFrameError fail) result \<times> Session \<times> nat" where
  "run_publisher C E n spec kp announce s =
    (let publish_id = env_id E n;
         id_payload = with_field (Map []) ''publish_id'' (Bytes publish_id);
         fact = (\<lambda>m s topic payload.
           if announce then announce_fact C E m s (pu_realm spec) kp topic payload else (Inr (), s, m)) in
     case fact (n + 1) s ''pubsub.publish_started_v1''
            (with_field id_payload ''topic'' (Bytes (as_bytes (pu_topic spec)))) of
       (Inl e, s1, n1) \<Rightarrow> (Inl e, s1, n1)
     | (Inr _, s1, n1) \<Rightarrow>
         (case publish C E n1 spec kp s1 of
            (Inl Panic, s2, n2) \<Rightarrow> (Inl Panic, s2, n2)
          | (Inl (Err e), s2, n2) \<Rightarrow>
              (case fact n2 s2 ''pubsub.publish_completed_v1''
                      (with_field (with_field id_payload ''outcome'' (Text ''failed''))
                        ''reason'' (Text (send_frame_error_text (env_texts E) e))) of
                 (r, s3, n3) \<Rightarrow> (bindR r (\<lambda>_. Inl (Err e)), s3, n3))
          | (Inr _, s2, n2) \<Rightarrow>
              (case fact n2 s2 ''pubsub.publish_completed_v1''
                      (with_field id_payload ''outcome'' (Text ''completed'')) of
                 (r, s3, n3) \<Rightarrow> (bindR r (\<lambda>_. Inr ()), s3, n3))))"

text \<open>\<open>stop\<close> resolves after some number of ticks; the errors reported to \<open>on_error\<close> are the result.\<close>

primrec keep_advertised ::
  "nat \<Rightarrow> crypto \<Rightarrow> env \<Rightarrow> nat \<Rightarrow> AdvertiseSpec \<Rightarrow> KeyPair \<Rightarrow> Session
    \<Rightarrow> (SendFrameError list, SendFrameError fail) result \<times> Session" where
  "keep_advertised 0 C E n spec kp s = (Inr [], s)"
| "keep_advertised (Suc ticks) C E n spec kp s =
    (case advertise C E n spec kp s of
       (Inl Panic, s') \<Rightarrow> (Inl Panic, s')
     | (Inl (Err e), s') \<Rightarrow>
         (case keep_advertised ticks C E (n + 1) spec kp s' of
            (r, s'') \<Rightarrow> (bindR r (\<lambda>es. Inr (e # es)), s''))
     | (Inr _, s') \<Rightarrow> keep_advertised ticks C E (n + 1) spec kp s')"

datatype RunSubscriberError = SubscriberSubscribe SendFrameError | SubscriberRecv RecvFrameError

text \<open>\<open>stop\<close> resolving while a receive waits is the read event \<open>ReadTimeout\<close>.\<close>

function subscriber_loop :: "Session \<Rightarrow> (unit, RunSubscriberError fail) result \<times> Session \<times> EventInfo list" where
  "subscriber_loop s =
    (case session_recv_frame s of
       (Inl e, s') \<Rightarrow>
         ((if e = Err RecvTimeout then Inr () else Inl (lift_fail SubscriberRecv e)), s', [])
     | (Inr v, s') \<Rightarrow>
         (case parse_event v of
            Inl _ \<Rightarrow> subscriber_loop s'
          | Inr evt \<Rightarrow> (case subscriber_loop s' of (r, s'', evts) \<Rightarrow> (r, s'', evt # evts))))"
  by pat_completeness auto

termination
  by (relation "measure (\<lambda>s. stream_size (fs_buf (control s)) (fs_reads (control s)))")
    (auto dest!: session_recv_frame_size [OF sym])

declare subscriber_loop.simps [simp del]

definition run_subscriber ::
  "crypto \<Rightarrow> env \<Rightarrow> nat \<Rightarrow> SubscribeSpec \<Rightarrow> KeyPair \<Rightarrow> Session
    \<Rightarrow> (unit, RunSubscriberError fail) result \<times> Session \<times> EventInfo list" where
  "run_subscriber C E n spec kp s =
    (case subscribe C E n spec kp s of
       (Inl e, s') \<Rightarrow> (Inl (lift_fail SubscriberSubscribe e), s', [])
     | (Inr _, s') \<Rightarrow>
         (case subscriber_loop s' of
            (Inl Panic, s2, evts) \<Rightarrow> (Inl Panic, s2, evts)
          | (r, s2, evts) \<Rightarrow>
              (case unsubscribe C E (n + 1)
                      (UnsubscribeSpec_new (su_topic spec) (su_realm spec) (su_subscriber spec)) kp s2 of
                 (Inl Panic, s3) \<Rightarrow> (Inl Panic, s3, evts)
               | (_, s3) \<Rightarrow> (r, s3, evts))))"

text \<open>\<open>close\<close> consumes the session; what it leaves is what was written.\<close>

definition close :: "crypto \<Rightarrow> env \<Rightarrow> nat \<Rightarrow> string \<Rightarrow> string option \<Rightarrow> KeyPair \<Rightarrow> Session \<Rightarrow> (bytes, unit fail) result" where
  "close C E n reason detail kp s =
    (case session_send C kp (goodbye_value reason detail (env_frame_id E n) (env_now_ms E n)) s of
       (Inl Panic, _) \<Rightarrow> Inl Panic
     | (_, s') \<Rightarrow> Inr (fs_sent (control s')))"

end
