(* ===== verification/FrameSize.thy ===== *)
theory FrameSize
  imports FrameStream
begin

section \<open>FrameSize: which frames fit the wire\<close>

text \<open>
  An upper bound of the encoded size of a value, computed from its contents, and how the field
  operations, the constructors and signing change it and the nesting depth: a frame whose payload
  is well below the 16 MiB cap and the nesting limit can always be signed, encoded and decoded.
\<close>

subsection \<open>A bound of the encoded size\<close>

fun esize :: "Value \<Rightarrow> nat" where
  "esize (IntV n) = 9"
| "esize (Bytes b) = 9 + length b"
| "esize (Text s) = 9 + length s"
| "esize (List items) = 9 + sum_list (map esize items)"
| "esize (Map ps) = 9 + sum_list (map (\<lambda>p. esize (fst p) + esize (snd p)) ps)"
| "esize Null = 9"
| "esize (Float f) = 9"

lemma sum_list_sort_key: "sum_list (map f (sort_key k xs)) = sum_list (map f xs)" for f :: "'a \<Rightarrow> nat"
  by (metis mset_map mset_sort sum_mset_sum_list)

lemma sum_list_le: "(\<And>x. x \<in> set xs \<Longrightarrow> f x \<le> g x) \<Longrightarrow> sum_list (map f xs) \<le> sum_list (map g xs)"
  for f g :: "'a \<Rightarrow> nat"
  by (rule sum_list_mono)

lemma length_enc_le: "wfv v \<Longrightarrow> length (enc v) \<le> esize v"
proof (induction v rule: value_induct)
  case (IntV n)
  then show ?case using length_encode_head by (simp add: enc_Int)
next
  case (Bytes b)
  then show ?case using length_encode_head [of 2 "word_of_nat (length b)"] by simp
next
  case (Text s)
  then show ?case using length_encode_head [of 3 "word_of_nat (length s)"] by simp
next
  case (List items)
  have "sum_list (map (length \<circ> enc) items) \<le> sum_list (map esize items)"
    by (rule sum_list_le) (use List in simp)
  then show ?case using List.prems length_encode_head [of 4 "word_of_nat (length items)"]
    by (simp add: enc_List length_concat)
next
  case (Map ps)
  have "sum_list (map (\<lambda>p. length (enc (fst p)) + length (enc (snd p))) ps)
      \<le> sum_list (map (\<lambda>p. esize (fst p) + esize (snd p)) ps)"
    by (rule sum_list_le) (use Map in \<open>simp add: add_mono\<close>)
  then show ?case using Map.prems length_encode_head [of 5 "word_of_nat (length ps)"]
    by (simp add: enc_Map encode_sorted_pairs_enc length_concat comp_def sum_list_sort_key)
next
  case Null
  then show ?case by simp
next
  case (Float f)
  then show ?case by simp
qed

lemma esize_set_field:
  "esize (Map (set_field key x ps)) \<le> esize (Map ps) + (9 + length key) + esize x"
  by (induction key x ps rule: set_field.induct) auto

lemma vdepth_set_field:
  "vdepth (Map (set_field key x ps)) \<le> max (vdepth (Map ps)) (Suc (vdepth x))"
proof -
  have "vdepth (Map (set_field key x ps)) \<le> n" if "vdepth (Map ps) \<le> n" "Suc (vdepth x) \<le> n" for n
    using that unfolding vdepth_Map
    by (induction key x ps rule: set_field.induct) auto
  from this [of "max (vdepth (Map ps)) (Suc (vdepth x))"] show ?thesis by linarith
qed

subsection \<open>Frames within bounds\<close>

definition bounded :: "nat \<Rightarrow> nat \<Rightarrow> Value \<Rightarrow> bool" where
  "bounded n d v \<longleftrightarrow> frame_ok v \<and> esize v \<le> n \<and> vdepth v \<le> d"

lemma bounded_with_field:
  assumes "bounded n d v" "wfv x" "esize x \<le> m" "vdepth x < d" "valid_str key" "length key \<le> 64"
  shows "bounded (n + 73 + m) d (with_field v key x)"
proof -
  obtain ps where v: "v = Map ps" using assms(1) frame_ok_is_Map by (auto simp: bounded_def)
  have "esize (with_field v key x) \<le> n + 73 + m"
    using esize_set_field [of key x ps] assms by (simp add: v bounded_def)
  moreover have "vdepth (with_field v key x) \<le> d"
    using vdepth_set_field [of key x ps] assms unfolding v with_field_Map bounded_def by linarith
  ultimately show ?thesis using assms by (simp add: bounded_def frame_ok_with_field)
qed

lemma bounded_with_fields:
  assumes "bounded n d v"
    "\<forall>f \<in> set fs. wfv (snd f) \<and> vdepth (snd f) < d \<and> valid_str (fst f) \<and> length (fst f) \<le> 64"
    "n + sum_list (map (\<lambda>f. 73 + esize (snd f)) fs) \<le> N"
  shows "bounded N d (with_fields v fs)"
  using assms
proof (induction fs arbitrary: v n)
  case Nil
  then show ?case by (simp add: with_fields_def bounded_def)
next
  case (Cons f fs)
  have "bounded (n + 73 + esize (snd f)) d (with_field v (fst f) (snd f))"
    by (rule bounded_with_field) (use Cons.prems in auto)
  then show ?case using Cons.IH [of "n + 73 + esize (snd f)" "with_field v (fst f) (snd f)"] Cons.prems
    by (simp add: with_fields_def case_prod_unfold add.assoc)
qed

lemma bounded_base: "ascii t \<Longrightarrow> length t \<le> 64 \<Longrightarrow> length frame_id \<le> 64 \<Longrightarrow> 1 \<le> d \<Longrightarrow>
    bounded 600 d (Map (base t caps frame_id ms))"
  using frame_ok_base [of t caps frame_id ms] ascii_valid_str [of t] by (simp add: bounded_def base_def)

lemma bounded_mono: "bounded n d v \<Longrightarrow> n \<le> n' \<Longrightarrow> d \<le> d' \<Longrightarrow> bounded n' d' v"
  by (simp add: bounded_def)

lemma encode_frame_fits:
  assumes "bounded MAX_FRAME_BYTES MAX_NESTING_DEPTH v"
  shows "\<exists>w. frame_sent_as v w"
proof -
  have wf: "wfv v" using assms frame_ok_wfv by (simp add: bounded_def)
  then have "length (enc v) \<le> MAX_FRAME_BYTES"
    using length_enc_le [OF wf] assms by (simp add: bounded_def)
  then show ?thesis using wf assms by (simp add: frame_sent_as_def bounded_def encode_frame_Inr encode_eq_enc)
qed

subsection \<open>Bounds of the constructed frames\<close>

definition wire_room :: nat where
  "wire_room = MAX_FRAME_BYTES - 4096"

lemma bounded_call:
  assumes "wfv (ca_payload spec)" "in_range (ca_deadline_ms spec)" "vdepth (ca_payload spec) < 128"
    "esize (ca_payload spec) + length (ca_procedure spec) + length (ca_ucan_token spec) +
      length (ca_call_id spec) + length (ca_realm spec) + length (ca_caller spec) +
      length (ca_source_route spec) \<le> wire_room"
    "length frame_id \<le> 64"
  shows "bounded (MAX_FRAME_BYTES - 512) MAX_NESTING_DEPTH (call_value spec frame_id ms)"
  unfolding call_value_def
  by (rule bounded_with_fields [OF bounded_base [of _ _ MAX_NESTING_DEPTH]])
    (use assms in \<open>simp_all add: ascii_def ascii_valid_str in_range_def MAX_NESTING_DEPTH_def wire_room_def MAX_FRAME_BYTES_def\<close>)

lemma bounded_result:
  assumes "wfv (re_payload spec)" "vdepth (re_payload spec) < 128"
    "esize (re_payload spec) + length (re_call_id spec) + length (re_responded_by spec) +
      length (re_source_route_reverse spec) \<le> wire_room"
    "length frame_id \<le> 64"
  shows "bounded (MAX_FRAME_BYTES - 512) MAX_NESTING_DEPTH (result_value spec frame_id ms)"
  unfolding result_value_def
  by (rule bounded_with_fields [OF bounded_base [of _ _ MAX_NESTING_DEPTH]])
    (use assms in \<open>simp_all add: ascii_def ascii_valid_str MAX_NESTING_DEPTH_def wire_room_def MAX_FRAME_BYTES_def\<close>)

lemma bounded_call_error:
  assumes "length (er_call_id spec) + length (er_reported_by spec) + length (er_source_route_partial spec) +
      (case er_detail spec of Some d \<Rightarrow> length d | None \<Rightarrow> 0) +
      (case er_offending_hop spec of Some h \<Rightarrow> length h | None \<Rightarrow> 0) \<le> wire_room"
    "length frame_id \<le> 64"
  shows "bounded (MAX_FRAME_BYTES - 512) MAX_NESTING_DEPTH (call_error_value spec frame_id ms)"
  unfolding call_error_value_def
proof (rule bounded_with_fields [OF bounded_base [of _ _ MAX_NESTING_DEPTH]])
  have name: "length (code_name (er_code spec)) \<le> 30" "valid_str (code_name (er_code spec))"
    using valid_str_code_name by auto
  have code: "wfv (IntV (uint (code_as_u8 (er_code spec))))" by (cases "er_code spec") simp_all
  show "\<forall>f\<in>set [(''call_id'', Bytes (er_call_id spec)), (''code'', IntV (uint (code_as_u8 (er_code spec)))),
       (''name'', Text (code_name (er_code spec))), (''reported_by'', Bytes (er_reported_by spec)),
       (''detail'', or_null (map_option (\<lambda>d. Bytes (as_bytes d)) (er_detail spec))),
       (''offending_hop'', or_null (map_option Bytes (er_offending_hop spec))),
       (''source_route_partial'', Bytes (er_source_route_partial spec))].
      wfv (snd f) \<and> vdepth (snd f) < MAX_NESTING_DEPTH \<and> valid_str (fst f) \<and> length (fst f) \<le> 64"
    using name code by (simp add: ascii_def ascii_valid_str MAX_NESTING_DEPTH_def or_null_def split: option.split)
qed (use assms valid_str_code_name [of "er_code spec"] in
  \<open>simp_all add: ascii_def MAX_NESTING_DEPTH_def wire_room_def MAX_FRAME_BYTES_def or_null_def split: option.splits\<close>)

lemma bounded_publish:
  assumes "wfv (pu_payload spec)" "vdepth (pu_payload spec) < 128"
    "esize (pu_payload spec) + length (pu_topic spec) + length (pu_realm spec) + length (pu_publisher spec) \<le> wire_room"
    "length frame_id \<le> 64"
  shows "bounded (MAX_FRAME_BYTES - 512) MAX_NESTING_DEPTH (publish_value spec frame_id ms)"
  unfolding publish_value_def
  by (rule bounded_with_fields [OF bounded_base [of _ _ MAX_NESTING_DEPTH]])
    (use assms in \<open>simp_all add: ascii_def ascii_valid_str MAX_NESTING_DEPTH_def wire_room_def MAX_FRAME_BYTES_def
      or_null_def split: option.split\<close>)

lemma bounded_hello_base: "bounded 600 MAX_NESTING_DEPTH (Map (base ''hello'' 0 (replicate 16 0) 0))"
  by (rule bounded_base) (simp_all add: ascii_def MAX_NESTING_DEPTH_def)

end
