(* ===== verification/ConnProps.thy ===== *)
theory ConnProps
  imports Connection FrameSize
begin

section \<open>ConnProps: what a session promises\<close>

text \<open>
  The handshake, the correlation of responses with calls, the gate in front of handlers, and the
  two ends of a call over the wire: what the caller sends and what the provider answers.
\<close>

subsection \<open>Receiving loses no byte\<close>

lemma recv_loop_conserves:
  "recv_loop decode_frame buf reads = (Inr v, b, rs) \<Longrightarrow>
    \<exists>w. buf @ read_bytes reads = w @ b @ read_bytes rs \<and> decode_frame (w @ b) = Inr (DecodedFrame v (length w))"
proof (induction decode_frame buf reads rule: recv_loop.induct)
  case (1 buf reads)
  show ?case
  proof (cases "decode_frame buf")
    case (Inl e)
    then show ?thesis using 1(2) by (subst (asm) recv_loop.simps) simp
  next
    case (Inr d)
    show ?thesis
    proof (cases d)
      case (DecodedFrame u n)
      then have "n \<le> length buf" using decode_frame_stable(2) Inr by simp
      then show ?thesis using 1(2) Inr DecodedFrame
        by (subst (asm) recv_loop.simps) (auto intro!: exI [of _ "take n buf"])
    next
      case (More n)
      show ?thesis
      proof (cases reads)
        case Nil
        then show ?thesis using 1(2) Inr More by (subst (asm) recv_loop.simps) simp
      next
        case (Cons e rs')
        show ?thesis
        proof (cases e)
          case (ReadChunk c)
          then show ?thesis using 1(1) [OF Inr More Cons ReadChunk] 1(2) Inr More Cons
            by (subst (asm) recv_loop.simps) simp
        qed (use 1(2) Inr More Cons in \<open>subst (asm) recv_loop.simps, simp\<close>)+
      qed
    qed
  qed
qed

subsection \<open>Sending within bounds\<close>

lemma bounded_sig:
  "bounded n d v \<Longrightarrow> 0 < d \<Longrightarrow> length s = 64 \<Longrightarrow> key \<in> set sig_fields \<Longrightarrow>
    bounded (n + 146) d (with_field v key (Bytes s))"
  using bounded_with_field [of n d v "Bytes s" 73 key] by (auto simp: sig_fields_def add.commute)

lemma send_signed_ok:
  assumes "crypto_ok C" "wf_keypair kp" "bounded (MAX_FRAME_BYTES - 146) MAX_NESTING_DEPTH v" "fs_writes st = []"
  obtains g w where "(sign_frame C v kp :: (Value, unit fail) result) = Inr g" "frame_sent_as g w"
    "send_signed C kp v st = (Inr (), st\<lparr>fs_sent := fs_sent st @ w\<rparr>)"
proof -
  have ok: "frame_ok v" using assms(3) by (simp add: bounded_def)
  define g where "g = with_field v ''signature'' (Bytes (sign_bytes C kp (SIG_DOMAIN @ enc (without v sig_fields))))"
  have g: "(sign_frame C v kp :: (Value, unit fail) result) = Inr g"
    by (simp add: sign_frame_ok(1) [OF ok] g_def)
  have "bounded (MAX_FRAME_BYTES - 146 + 146) MAX_NESTING_DEPTH g"
    unfolding g_def by (rule bounded_sig [OF assms(3)])
      (simp_all add: length_sign_bytes [OF assms(1,2)] sig_fields_def MAX_NESTING_DEPTH_def)
  then obtain w where w: "frame_sent_as g w"
    using encode_frame_fits [of g] by (auto simp: MAX_FRAME_BYTES_def)
  then have "send_signed C kp v st = (Inr (), st\<lparr>fs_sent := fs_sent st @ w\<rparr>)"
    using g assms(4) by (simp add: send_signed_def send_frame_def frame_sent_as_def)
  with g w show ?thesis using that by blast
qed

text \<open>A session whose writes succeed and what an operation appended to its stream.\<close>

definition wrote :: "Session \<Rightarrow> bytes \<Rightarrow> Session" where
  "wrote s w = s\<lparr>control := (control s)\<lparr>fs_sent := fs_sent (control s) @ w\<rparr>\<rparr>"

lemma wrote_simps [simp]:
  "fs_sent (control (wrote s w)) = fs_sent (control s) @ w" "fs_writes (control (wrote s w)) = fs_writes (control s)"
  "fs_buf (control (wrote s w)) = fs_buf (control s)" "fs_reads (control (wrote s w)) = fs_reads (control s)"
  "station (wrote s w) = station s" "wrote (wrote s u) w = wrote s (u @ w)"
  by (simp_all add: wrote_def)

definition quiet_frame :: "Value \<Rightarrow> bool" where
  "quiet_frame v \<longleftrightarrow> frame_call_id (normal v) = None"

lemma publish_ok:
  assumes "crypto_ok C" "wf_keypair kp" "fs_writes (control s) = []" "wfv (pu_payload spec)"
    "vdepth (pu_payload spec) < 128" "length (env_frame_id E n) \<le> 64"
    "esize (pu_payload spec) + length (pu_topic spec) + length (pu_realm spec) + length (pu_publisher spec) \<le> wire_room"
  obtains g w where "frame_sent_as g w" "quiet_frame g" "publish C E n spec kp s = (Inr (), wrote s w, n + 1)"
proof -
  let ?v = "publish_value spec (env_frame_id E n) (env_now_ms E n)"
  have b: "bounded (MAX_FRAME_BYTES - 512) MAX_NESTING_DEPTH ?v"
    by (rule bounded_publish [OF assms(4,5,7,6)])
  then have ok: "frame_ok ?v" by (simp add: bounded_def)
  obtain m where m: "publisher_signing_bytes ?v = (Inr m :: (bytes, unit fail) result)"
    using publisher_signing_bytes_ok [OF frame_ok_wfv [OF ok]] by blast
  define p where "p = with_field ?v ''publisher_sig'' (Bytes (sign_bytes C kp m))"
  have p: "(sign_publisher C ?v kp :: (Value, unit fail) result) = Inr p" by (simp add: sign_publisher_def m p_def)
  have "bounded (MAX_FRAME_BYTES - 512 + 146) MAX_NESTING_DEPTH p"
    unfolding p_def by (rule bounded_sig [OF b])
      (simp_all add: length_sign_bytes [OF assms(1,2)] sig_fields_def MAX_NESTING_DEPTH_def)
  then have "bounded (MAX_FRAME_BYTES - 146) MAX_NESTING_DEPTH p"
    by (rule bounded_mono) (simp_all add: MAX_FRAME_BYTES_def)
  then obtain g w where g: "(sign_frame C p kp :: (Value, unit fail) result) = Inr g" "frame_sent_as g w"
    and sent: "send_signed C kp p (control s) = (Inr (), (control s)\<lparr>fs_sent := fs_sent (control s) @ w\<rparr>)"
    by (rule send_signed_ok [OF assms(1,2) _ assms(3)])
  have "quiet_frame g" unfolding quiet_frame_def by (rule publish_answers_no_call [OF assms(4) p g(1)])
  moreover have "publish C E n spec kp s = (Inr (), wrote s w, n + 1)"
    by (simp add: publish_def p session_send_def sent wrote_def)
  ultimately show ?thesis using that g(2) by blast
qed

text \<open>Identifiers have their lengths; and where additions are checked, the clock leaves room for the longest
  timeout that the library adds to it unasked, the 15 seconds of a content call.\<close>

definition env_ok :: "env \<Rightarrow> bool" where
  "env_ok E \<longleftrightarrow> (\<forall>n. length (env_id E n) = 16 \<and> length (env_frame_id E n) = 16) \<and>
     (env_overflow_checks E \<longrightarrow> (\<forall>n. uint (env_now_ms E n) + 15000 < 2 ^ 64))"

lemma announce_fact_ok:
  assumes "crypto_ok C" "wf_keypair kp" "env_ok E" "fs_writes (control s) = []" "wfv payload" "vdepth payload < 128"
    "esize payload + length topic + length realm + 32 \<le> wire_room"
  obtains g w where "frame_sent_as g w" "quiet_frame g"
    "announce_fact C E n s realm kp topic payload = (Inr (), wrote s w, n + 2)"
proof -
  let ?spec = "PublishSpec_new topic realm (node_id C kp) (env_seq E n) payload (env_now_ms E n)"
  obtain g w where "frame_sent_as g w" "quiet_frame g"
    "publish C E (n + 1) ?spec kp s = (Inr (), wrote s w, n + 1 + 1)"
    by (rule publish_ok [of C kp s ?spec E "n + 1"])
      (use assms in \<open>simp_all add: PublishSpec_new_def env_ok_def node_id_def length_public_bytes\<close>)
  then show ?thesis using that by (simp add: announce_fact_def Let_def fact_outcome_def)
qed

subsection \<open>Waiting for a response\<close>

definition quiet :: "FrameStream \<Rightarrow> bool" where
  "quiet st \<longleftrightarrow> undisturbed (fs_reads st) \<and> timeouts (fs_reads st) = 0"

definition incoming :: "FrameStream \<Rightarrow> bytes" where
  "incoming st = fs_buf st @ read_bytes (fs_reads st)"

lemma recv_frame_whole:
  assumes "frame_sent_as v w" "quiet st" "incoming st = w @ rest"
  obtains st' where "recv_frame st = (Inr (normal v), st')" "quiet st'" "incoming st' = rest"
    "fs_sent st' = fs_sent st" "fs_writes st' = fs_writes st"
proof -
  have "undisturbed (fs_reads st)" "timeouts (fs_reads st) = 0" "fs_buf st @ read_bytes (fs_reads st) = w @ rest"
    using assms(2,3) by (simp_all add: quiet_def incoming_def)
  with frame_codec.loop_delivers_first [OF assms(1), of "fs_reads st" "fs_buf st" rest]
  obtain b r where "recv_loop decode_frame (fs_buf st) (fs_reads st) = (Inr (normal v), b, r)"
    "b @ read_bytes r = rest" "undisturbed r" "timeouts r = 0" by auto
  then show ?thesis
    by (intro that [of "st\<lparr>fs_buf := b, fs_reads := r\<rparr>"]) (simp_all add: recv_frame_def quiet_def incoming_def)
qed

definition answers :: "bytes \<Rightarrow> Value \<Rightarrow> bool" where
  "answers call_id v \<longleftrightarrow> frame_call_id v = Some call_id \<and> (\<exists>r. parse_call_response v = Inr r)"

lemma await_first_answer:
  assumes "list_all2 frame_sent_as vs ws" "quiet st" "incoming st = concat ws @ rest"
    "find (answers call_id) (map normal vs) = Some v" "parse_call_response v = Inr r"
  shows "\<exists>st'. await_call_response call_id st = (Inr r, st') \<and> fs_sent st' = fs_sent st"
  using assms(1-4)
proof (induction vs arbitrary: ws st)
  case Nil
  then show ?case by simp
next
  case (Cons u vs)
  then obtain w ws' where ws: "ws = w # ws'" "frame_sent_as u w" "list_all2 frame_sent_as vs ws'"
    by (auto simp: list_all2_Cons1)
  then have "incoming st = w @ (concat ws' @ rest)" using Cons.prems(3) by simp
  from recv_frame_whole [OF ws(2) Cons.prems(2) this]
  obtain st' where st': "recv_frame st = (Inr (normal u), st')" "quiet st'" "incoming st' = concat ws' @ rest"
    "fs_sent st' = fs_sent st" by metis
  show ?case
  proof (cases "answers call_id (normal u)")
    case True
    then have "v = normal u" "frame_call_id (normal u) = Some call_id" using Cons.prems(4) by (simp_all add: answers_def)
    then show ?thesis using st' assms(5) by (simp add: await_call_response.simps)
  next
    case False
    then have "\<exists>st''. await_call_response call_id st' = (Inr r, st'') \<and> fs_sent st'' = fs_sent st'"
      using Cons.IH [OF ws(3) st'(2,3)] Cons.prems(4) by simp
    moreover have "await_call_response call_id st = await_call_response call_id st'"
      using False st'(1) by (subst await_call_response.simps) (auto simp: answers_def split: sum.splits)
    ultimately show ?thesis using st'(4) by simp
  qed
qed

lemma await_sound:
  "await_call_response call_id st = (Inr r, st') \<Longrightarrow>
    \<exists>v w pre. incoming st = pre @ w @ incoming st' \<and> decode_frame (w @ fs_buf st') = Inr (DecodedFrame v (length w)) \<and>
      frame_call_id v = Some call_id \<and> parse_call_response v = Inr r"
proof (induction "stream_size (fs_buf st) (fs_reads st)" arbitrary: st rule: less_induct)
  case (less st)
  obtain x s1 where recv: "recv_frame st = (x, s1)" by (cases "recv_frame st")
  show ?case
  proof (cases x)
    case (Inl e)
    then show ?thesis using less(2) recv by (subst (asm) await_call_response.simps) simp
  next
    case (Inr v)
    then obtain b rs where b: "recv_loop decode_frame (fs_buf st) (fs_reads st) = (Inr v, b, rs)"
      and s1: "s1 = st\<lparr>fs_buf := b, fs_reads := rs\<rparr>"
      using recv by (auto simp: recv_frame_def split: prod.splits)
    from recv_loop_conserves [OF b] obtain w where w: "incoming st = w @ incoming s1"
      "decode_frame (w @ fs_buf s1) = Inr (DecodedFrame v (length w))" by (auto simp: incoming_def s1)
    consider (skip) "await_call_response call_id s1 = (Inr r, st')"
      | (hit) "frame_call_id v = Some call_id" "parse_call_response v = Inr r" "st' = s1"
      using less(2) recv Inr by (subst (asm) await_call_response.simps) (auto split: if_splits sum.splits)
    then show ?thesis
    proof cases
      case skip
      from less(1) [OF recv_frame_size [OF recv [unfolded Inr]] skip]
      obtain v' w' pre where *: "incoming s1 = pre @ w' @ incoming st'"
        "decode_frame (w' @ fs_buf st') = Inr (DecodedFrame v' (length w'))"
        "frame_call_id v' = Some call_id" "parse_call_response v' = Inr r" by blast
      then have "incoming st = (w @ pre) @ w' @ incoming st'" using w by simp
      with * show ?thesis by blast
    next
      case hit
      then show ?thesis using w by (metis append_Nil)
    qed
  qed
qed

subsection \<open>Replies\<close>

text \<open>
  What a caller gets for a call, whatever frames and facts the code produces on the way: the
  BOLT#4 error of a rejected token, an unknown procedure, a failed or crashed handler, or the
  handler's value. A handler that outlives the timer answers nothing.
\<close>

definition rpc_error :: "Code \<Rightarrow> bytes \<Rightarrow> string option \<Rightarrow> CallResponse" where
  "rpc_error code responder detail = CallResponse.CallError (code_as_u8 code) (code_name code) responder detail"

definition rpc_outcome :: "bytes \<Rightarrow> bool \<Rightarrow> CallHandler option \<Rightarrow> Value \<Rightarrow> CallResponse option" where
  "rpc_outcome responder admitted handler payload =
    (if \<not> admitted then Some (rpc_error Unauthorized responder None)
     else case handler of
       None \<Rightarrow> Some (rpc_error UnknownNextPeer responder None)
     | Some h \<Rightarrow>
         (case h payload of
            HandlerOk v \<Rightarrow> Some (CallResult (normal v) responder)
          | HandlerErr reason \<Rightarrow> Some (rpc_error UnknownError responder (Some reason))
          | HandlerPanic \<Rightarrow> Some (rpc_error TemporaryRelayFailure responder None)
          | HandlerOutlivesTimeout \<Rightarrow> None))"

text \<open>A handler's value is encodable and, like its error text, fits a frame.\<close>

definition outcome_fits :: "HandlerOutcome \<Rightarrow> bool" where
  "outcome_fits out \<longleftrightarrow>
     (case out of
        HandlerOk v \<Rightarrow> wfv v \<and> vdepth v < 128 \<and> esize v \<le> wire_room - 512
      | HandlerErr reason \<Rightarrow> valid_str reason \<and> length reason \<le> wire_room - 512
      | _ \<Rightarrow> True)"

definition replies_with :: "crypto \<Rightarrow> KeyPair \<Rightarrow> bytes \<Rightarrow> CallResponse \<Rightarrow> Value \<Rightarrow> bool" where
  "replies_with C kp call_id r reply \<longleftrightarrow>
     bounded (MAX_FRAME_BYTES - 512) MAX_NESTING_DEPTH reply \<and>
     (\<forall>g. sign_frame C reply kp = (Inr g :: (Value, unit fail) result) \<longrightarrow>
        frame_call_id (normal g) = Some call_id \<and> parse_call_response (normal g) = Inr r)"

lemma error_replies:
  assumes "crypto_ok C" "wf_keypair kp" "env_ok E" "length call_id = 16"
    "case detail of Some d \<Rightarrow> valid_str d \<and> length d \<le> wire_room - 512 | None \<Rightarrow> True"
  shows "replies_with C kp call_id (rpc_error code (node_id C kp) detail)
    (call_error_value ((CallErrorSpec_new call_id code (node_id C kp))\<lparr>er_detail := detail\<rparr>) (env_frame_id E m) ms)"
proof -
  let ?spec = "(CallErrorSpec_new call_id code (node_id C kp))\<lparr>er_detail := detail\<rparr>"
  have "bounded (MAX_FRAME_BYTES - 512) MAX_NESTING_DEPTH (call_error_value ?spec (env_frame_id E m) ms)"
    by (rule bounded_call_error) (use assms in \<open>auto simp: CallErrorSpec_new_def env_ok_def node_id_def length_public_bytes
      wire_room_def MAX_FRAME_BYTES_def split: option.splits\<close>)
  moreover have "length (er_call_id ?spec) = 16" "length (er_reported_by ?spec) = 32"
    "case er_detail ?spec of Some d \<Rightarrow> valid_str d | None \<Rightarrow> True"
    using assms by (auto simp: CallErrorSpec_new_def node_id_def length_public_bytes split: option.splits)
  note parse_call_error_signed [OF this, where C = C and kp = kp and frame_id = "env_frame_id E m" and ms = ms]
  ultimately show ?thesis by (auto simp: replies_with_def rpc_error_def CallErrorSpec_new_def)
qed

lemma result_replies:
  assumes "crypto_ok C" "wf_keypair kp" "env_ok E" "length call_id = 16" "outcome_fits (HandlerOk v)"
  shows "replies_with C kp call_id (CallResult (normal v) (node_id C kp))
    (result_value (ResultSpec_new call_id v (node_id C kp)) (env_frame_id E m) ms)"
proof -
  let ?spec = "ResultSpec_new call_id v (node_id C kp)"
  have "bounded (MAX_FRAME_BYTES - 512) MAX_NESTING_DEPTH (result_value ?spec (env_frame_id E m) ms)"
    by (rule bounded_result) (use assms in \<open>auto simp: ResultSpec_new_def env_ok_def node_id_def length_public_bytes
      wire_room_def MAX_FRAME_BYTES_def outcome_fits_def\<close>)
  moreover have "wfv (re_payload ?spec)" "length (re_call_id ?spec) = 16" "length (re_responded_by ?spec) = 32"
    using assms by (auto simp: ResultSpec_new_def node_id_def length_public_bytes outcome_fits_def)
  note parse_result_signed [OF this, where C = C and kp = kp and frame_id = "env_frame_id E m" and ms = ms]
  ultimately show ?thesis by (auto simp: replies_with_def ResultSpec_new_def)
qed

text \<open>The payloads of the facts a provider announces.\<close>

lemma fact_payload_ok:
  assumes "length request_id = 16" "case detail of Some d \<Rightarrow> valid_str d \<and> length d \<le> wire_room - 512 | None \<Rightarrow> True"
  shows "wfv (request_id_payload request_id)" "vdepth (request_id_payload request_id) < 128"
    "esize (request_id_payload request_id) \<le> 64"
    "let p = (case detail of
             Some reason \<Rightarrow> with_field (with_field (request_id_payload request_id) ''outcome'' (Text ''failed'')) ''reason'' (Text reason)
           | None \<Rightarrow> with_field (request_id_payload request_id) ''outcome'' (Text ''replied''))
     in wfv p \<and> vdepth p < 128 \<and> esize p \<le> wire_room - 256"
proof -
  have ok: "frame_ok (request_id_payload request_id)"
    by (simp add: request_id_payload_def frame_ok_Map ascii_def)
  then show "wfv (request_id_payload request_id)" by (rule frame_ok_wfv)
  show "vdepth (request_id_payload request_id) < 128" "esize (request_id_payload request_id) \<le> 64"
    using assms by (simp_all add: request_id_payload_def)
  let ?p = "case detail of
             Some reason \<Rightarrow> with_field (with_field (request_id_payload request_id) ''outcome'' (Text ''failed'')) ''reason'' (Text reason)
           | None \<Rightarrow> with_field (request_id_payload request_id) ''outcome'' (Text ''replied'')"
  have "frame_ok ?p" using assms ok
    by (cases detail) (simp_all add: frame_ok_with_field ascii_valid_str ascii_def)
  then have "wfv ?p" by (rule frame_ok_wfv)
  moreover have "vdepth ?p < 128" "esize ?p \<le> wire_room - 256" using assms
    by (cases detail, simp_all add: request_id_payload_def wire_room_def MAX_FRAME_BYTES_def)+
  ultimately show "let p = ?p in wfv p \<and> vdepth p < 128 \<and> esize p \<le> wire_room - 256" by simp
qed

lemma announce_received_ok:
  assumes "crypto_ok C" "wf_keypair kp" "env_ok E" "fs_writes (control s) = []" "length realm = 32"
  obtains g w where "frame_sent_as g w" "quiet_frame g"
    "announce_rpc_received C E n s realm kp (env_id E m) = (Inr (), wrote s w, n + 2)"
proof -
  have id: "length (env_id E m) = 16" using assms(3) by (simp add: env_ok_def)
  note p = fact_payload_ok(1-3) [OF id, of None, simplified]
  show ?thesis
    by (rule announce_fact_ok [OF assms(1-4) p(1,2), of "''rpc.received_v1''" realm n])
      (use p assms(5) that in \<open>simp_all add: announce_rpc_received_def wire_room_def MAX_FRAME_BYTES_def\<close>)
qed

lemma announce_replied_ok:
  assumes "crypto_ok C" "wf_keypair kp" "env_ok E" "fs_writes (control s) = []" "length realm = 32"
    "case detail of Some d \<Rightarrow> valid_str d \<and> length d \<le> wire_room - 512 | None \<Rightarrow> True"
  obtains g w where "frame_sent_as g w" "quiet_frame g"
    "announce_rpc_replied C E n s realm kp (env_id E m) detail = (Inr (), wrote s w, n + 2)"
proof -
  have id: "length (env_id E m) = 16" using assms(3) by (simp add: env_ok_def)
  define p where "p = (case detail of
             Some reason \<Rightarrow> with_field (with_field (request_id_payload (env_id E m)) ''outcome'' (Text ''failed'')) ''reason'' (Text reason)
           | None \<Rightarrow> with_field (request_id_payload (env_id E m)) ''outcome'' (Text ''replied''))"
  have p: "wfv p" "vdepth p < 128" "esize p \<le> wire_room - 256"
    using fact_payload_ok(4) [OF id assms(6)] by (simp_all add: p_def Let_def)
  show ?thesis
    by (rule announce_fact_ok [OF assms(1-4) p(1,2), of "''rpc.replied_v1''" realm n])
      (use p assms(5) that in \<open>simp_all add: announce_rpc_replied_def Let_def p_def wire_room_def MAX_FRAME_BYTES_def\<close>)
qed

definition admitted :: "'j ucan_codec \<Rightarrow> crypto \<Rightarrow> env \<Rightarrow> nat \<Rightarrow> (bytes \<Rightarrow> string \<Rightarrow> Policy) \<Rightarrow> CallInfo \<Rightarrow> bool" where
  "admitted J C E n policy ci \<longleftrightarrow>
     policy_check J C (env_now_s E n) (policy (ci_realm ci) (ci_procedure ci)) (ci_ucan_token ci) = Inr ()"

lemma admitted_cases:
  obtains e where "policy_check J C (env_now_s E n) (policy (ci_realm ci) (ci_procedure ci)) (ci_ucan_token ci) = Inl e"
    "\<not> admitted J C E n policy ci"
  | "policy_check J C (env_now_s E n) (policy (ci_realm ci) (ci_procedure ci)) (ci_ucan_token ci) = Inr ()"
    "admitted J C E n policy ci"
  by (cases "policy_check J C (env_now_s E n) (policy (ci_realm ci) (ci_procedure ci)) (ci_ucan_token ci)")
    (auto simp: admitted_def)

lemma rejected_reply:
  assumes "\<not> admitted J C E n policy ci"
  shows "build_call_reply J C E n ci lookup policy kp session =
    (Inr (call_error_value (CallErrorSpec_new (ci_call_id ci) Unauthorized (node_id C kp))
      (env_frame_id E n) (env_now_ms E n)), session, n + 1, [])"
  by (rule admitted_cases [of J C E n policy ci])
    (use assms in \<open>simp_all add: build_call_reply_def CallErrorSpec_new_def\<close>)

lemma build_call_reply_ok:
  assumes ok: "crypto_ok C" "wf_keypair kp" "env_ok E" "fs_writes (control s) = []"
    "length (ci_call_id ci) = 16" "length (ci_realm ci) = 32"
    and fits: "\<forall>h. lookup (ci_realm ci) (ci_procedure ci) = Some h \<longrightarrow> outcome_fits (h (ci_payload ci))"
    and r: "rpc_outcome (node_id C kp) (admitted J C E n policy ci) (lookup (ci_realm ci) (ci_procedure ci)) (ci_payload ci) = Some r"
  obtains reply n' gs ws where
    "build_call_reply J C E n ci lookup policy kp (Some s) =
      (Inr reply, Some (wrote s (concat ws)), n',
       if admitted J C E n policy ci \<and> lookup (ci_realm ci) (ci_procedure ci) \<noteq> None then [ci_payload ci] else [])"
    "list_all2 frame_sent_as gs ws" "\<forall>g \<in> set gs. quiet_frame g"
    "replies_with C kp (ci_call_id ci) r reply"
proof -
  note err = error_replies [OF ok(1-3,5)]
  have plain: "(CallErrorSpec_new c d e)\<lparr>er_detail := None\<rparr> = CallErrorSpec_new c d e" for c d e
    by (simp add: CallErrorSpec_new_def)
  let ?policy = "policy_check J C (env_now_s E n) (policy (ci_realm ci) (ci_procedure ci)) (ci_ucan_token ci)"
  show ?thesis
  proof (rule admitted_cases [of J C E n policy ci])
    fix e assume "?policy = Inl e" and no: "\<not> admitted J C E n policy ci"
    then have "r = rpc_error Unauthorized (node_id C kp) None" using r by (simp add: rpc_outcome_def)
    with err [of None Unauthorized n "env_now_ms E n"] show ?thesis
      by (intro that [of _ "[]" "n + 1" "[]"]) (simp_all add: rejected_reply [OF no] no plain wrote_def)
  next
    assume adm: "?policy = Inr ()" "admitted J C E n policy ci"
    show ?thesis
    proof (cases "lookup (ci_realm ci) (ci_procedure ci)")
      case None
      then have "r = rpc_error UnknownNextPeer (node_id C kp) None" using r adm by (simp add: rpc_outcome_def)
      with err [of None UnknownNextPeer n "env_now_ms E n"] None show ?thesis
        by (intro that [of _ "[]" "n + 1" "[]"]) (simp_all add: build_call_reply_def adm plain wrote_def)
    next
      case (Some h)
      obtain g1 w1 where a1: "frame_sent_as g1 w1" "quiet_frame g1"
        "(announce_rpc_received C E (n + 1) s (ci_realm ci) kp (env_id E n) :: (unit, ServeCallError fail) result \<times> _)
          = (Inr (), wrote s w1, n + 1 + 2)"
        by (rule announce_received_ok [OF ok(1-4,6)])
      have w: "fs_writes (control (wrote s w1)) = []" using ok(4) by simp
      note defs = build_call_reply_def adm Some a1(3) announce_on_def
      show ?thesis
      proof (cases "h (ci_payload ci)")
        case (HandlerOk v)
        obtain g2 w2 where a2: "frame_sent_as g2 w2" "quiet_frame g2"
          "(announce_rpc_replied C E (n + 1 + 2) (wrote s w1) (ci_realm ci) kp (env_id E n) None
            :: (unit, ServeCallError fail) result \<times> _) = (Inr (), wrote (wrote s w1) w2, n + 1 + 2 + 2)"
          by (rule announce_replied_ok [OF ok(1-3) w ok(6), where detail = None]) simp_all
        have "r = CallResult (normal v) (node_id C kp)" using r adm Some HandlerOk by (simp add: rpc_outcome_def)
        with result_replies [OF ok(1-3,5), of v "n + 1 + 2 + 2" "env_now_ms E (n + 1 + 2 + 2)"] fits Some HandlerOk a1 a2 show ?thesis
          by (intro that [of _ "[w1, w2]" "n + 1 + 2 + 2 + 1" "[g1, g2]"]) (simp_all add: defs)
      next
        case (HandlerErr reason)
        then have "valid_str reason \<and> length reason \<le> wire_room - 512" using fits Some by (simp add: outcome_fits_def)
        then have d: "case Some reason of Some d \<Rightarrow> valid_str d \<and> length d \<le> wire_room - 512 | None \<Rightarrow> True" by simp
        obtain g2 w2 where a2: "frame_sent_as g2 w2" "quiet_frame g2"
          "(announce_rpc_replied C E (n + 1 + 2) (wrote s w1) (ci_realm ci) kp (env_id E n) (Some reason)
            :: (unit, ServeCallError fail) result \<times> _) = (Inr (), wrote (wrote s w1) w2, n + 1 + 2 + 2)"
          by (rule announce_replied_ok [OF ok(1-3) w ok(6) d])
        have "r = rpc_error UnknownError (node_id C kp) (Some reason)" using r adm Some HandlerErr by (simp add: rpc_outcome_def)
        with err [OF d, of UnknownError "n + 1 + 2 + 2" "env_now_ms E (n + 1 + 2 + 2)"] HandlerErr a1 a2 show ?thesis
          by (intro that [of _ "[w1, w2]" "n + 1 + 2 + 2 + 1" "[g1, g2]"]) (simp_all add: defs)
      next
        case HandlerPanic
        have "r = rpc_error TemporaryRelayFailure (node_id C kp) None" using r adm Some HandlerPanic by (simp add: rpc_outcome_def)
        with err [of None TemporaryRelayFailure "n + 1 + 2" "env_now_ms E (n + 1 + 2)"] HandlerPanic a1 show ?thesis
          by (intro that [of _ "[w1]" "n + 1 + 2 + 1" "[g1]"]) (simp_all add: defs plain)
      next
        case HandlerOutlivesTimeout
        then show ?thesis using r adm Some by (simp add: rpc_outcome_def)
      qed
    qed
  qed
qed

subsection \<open>A call over the wire\<close>

lemma serve_received_call:
  assumes ok: "crypto_ok C" "wf_keypair kp" "env_ok E" "fs_writes (control s) = []"
    "length (ci_call_id ci) = 16" "length (ci_realm ci) = 32"
    and call: "frame_sent_as v w" "quiet (control s)" "incoming (control s) = w @ rest" "parse_call (normal v) = Inr ci"
    and fits: "\<forall>h. lookup (ci_realm ci) (ci_procedure ci) = Some h \<longrightarrow> outcome_fits (h (ci_payload ci))"
    and r: "rpc_outcome (node_id C kp) (admitted J C E n policy ci) (lookup (ci_realm ci) (ci_procedure ci)) (ci_payload ci) = Some r"
  obtains s' n' gs ws answer where
    "serve_one_call_gated J C E n lookup policy kp s = (Inr (), s', n',
       if admitted J C E n policy ci \<and> lookup (ci_realm ci) (ci_procedure ci) \<noteq> None then [ci_payload ci] else [])"
    "fs_sent (control s') = fs_sent (control s) @ concat ws" "list_all2 frame_sent_as gs ws"
    "find (answers (ci_call_id ci)) (map normal gs) = Some answer" "parse_call_response answer = Inr r"
proof -
  obtain st1 where st1: "recv_frame (control s) = (Inr (normal v), st1)" "fs_sent st1 = fs_sent (control s)"
    "fs_writes st1 = []"
    using recv_frame_whole [OF call(1-3)] ok(4) by metis
  define s1 where "s1 = s\<lparr>control := st1\<rparr>"
  have w1: "fs_writes (control s1) = []" by (simp add: s1_def st1)
  obtain reply n' gs ws where rep: "build_call_reply J C E n ci lookup policy kp (Some s1) =
      (Inr reply, Some (wrote s1 (concat ws)), n',
       if admitted J C E n policy ci \<and> lookup (ci_realm ci) (ci_procedure ci) \<noteq> None then [ci_payload ci] else [])"
    and facts: "list_all2 frame_sent_as gs ws" "\<forall>g \<in> set gs. quiet_frame g"
    and answer: "replies_with C kp (ci_call_id ci) r reply"
    by (rule build_call_reply_ok [where J = J and n = n and lookup = lookup and policy = policy, OF ok(1-3) w1 ok(5,6) fits r])
  have b: "bounded (MAX_FRAME_BYTES - 146) MAX_NESTING_DEPTH reply"
    using answer bounded_mono [of "MAX_FRAME_BYTES - 512" MAX_NESTING_DEPTH reply] by (simp add: replies_with_def MAX_FRAME_BYTES_def)
  obtain g u where g: "(sign_frame C reply kp :: (Value, unit fail) result) = Inr g" "frame_sent_as g u"
    and sent: "send_signed C kp reply (control (wrote s1 (concat ws))) = (Inr (), (control (wrote s1 (concat ws)))\<lparr>fs_sent :=
        fs_sent (control (wrote s1 (concat ws))) @ u\<rparr>)"
    by (rule send_signed_ok [OF ok(1,2) b, of "control (wrote s1 (concat ws))"]) (simp_all add: w1)
  have g_answers: "answers (ci_call_id ci) (normal g)" "parse_call_response (normal g) = Inr r"
    using answer g(1) by (auto simp: replies_with_def answers_def)
  have "find (answers (ci_call_id ci)) (map normal (gs @ [g])) = Some (normal g)"
    using facts(2) g_answers(1) by (induction gs) (auto simp: quiet_frame_def answers_def)
  moreover have "list_all2 frame_sent_as (gs @ [g]) (ws @ [u])" using facts(1) g(2) by (simp add: list_all2_appendI)
  moreover have "serve_one_call_gated J C E n lookup policy kp s = (Inr (), wrote s1 (concat (ws @ [u])), n',
       if admitted J C E n policy ci \<and> lookup (ci_realm ci) (ci_procedure ci) \<noteq> None then [ci_payload ci] else [])"
    using sent by (simp add: serve_one_call_gated.simps [of J C E n lookup policy kp s] session_recv_frame_def st1(1)
        call(4) rep [unfolded s1_def] session_send_def s1_def wrote_def)
  moreover have "fs_sent (control s1) = fs_sent (control s)" by (simp add: s1_def st1)
  ultimately show ?thesis using g_answers(2) by (intro that [of "wrote s1 (concat (ws @ [u]))" n' "ws @ [u]" "gs @ [g]" "normal g"]) simp_all
qed

text \<open>What both ends of a call are assumed to be given: values of the code's types that fit a frame.\<close>

definition call_fits :: "string \<Rightarrow> bytes \<Rightarrow> Value \<Rightarrow> int \<Rightarrow> bytes \<Rightarrow> bool" where
  "call_fits procedure realm payload deadline_ms ucan_token \<longleftrightarrow>
     valid_str procedure \<and> length realm = 32 \<and> wfv payload \<and> vdepth payload < 128 \<and> in_range deadline_ms \<and>
     esize payload + length procedure + length ucan_token \<le> wire_room - 512"

lemma call_sent_ok:
  assumes "crypto_ok C" "wf_keypair kp" "env_ok E" "call_fits procedure realm payload deadline_ms ucan_token"
  obtains g w where "frame_sent_as g w"
    "parse_call (normal g) = Inr \<lparr>ci_call_id = env_id E n, ci_procedure = procedure, ci_realm = realm,
       ci_payload = normal payload, ci_deadline_ms = deadline_ms, ci_caller = node_id C kp, ci_ucan_token = ucan_token\<rparr>"
    "\<And>st. fs_writes st = [] \<Longrightarrow> fs_call_with_ucan C E n st procedure realm payload deadline_ms kp ucan_token =
      (case await_call_response (env_id E n) (st\<lparr>fs_sent := fs_sent st @ w\<rparr>) of (r, st'') \<Rightarrow> (r, st'', n + 1))"
proof -
  let ?spec = "(CallSpec_new (env_id E n) procedure realm payload deadline_ms (node_id C kp))\<lparr>ca_ucan_token := ucan_token\<rparr>"
  have id: "length (env_id E n) = 16" "length (env_frame_id E n) \<le> 64" using assms(3) by (simp_all add: env_ok_def)
  have "bounded (MAX_FRAME_BYTES - 512) MAX_NESTING_DEPTH (call_value ?spec (env_frame_id E n) (env_now_ms E n))"
    by (rule bounded_call) (use assms id in \<open>simp_all add: CallSpec_new_def call_fits_def node_id_def
      length_public_bytes wire_room_def MAX_FRAME_BYTES_def\<close>)
  then have "bounded (MAX_FRAME_BYTES - 146) MAX_NESTING_DEPTH (call_value ?spec (env_frame_id E n) (env_now_ms E n))"
    by (rule bounded_mono) (simp_all add: MAX_FRAME_BYTES_def)
  then obtain g w where g: "(sign_frame C (call_value ?spec (env_frame_id E n) (env_now_ms E n)) kp :: (Value, unit fail) result) = Inr g"
    "frame_sent_as g w"
    by (rule send_signed_ok [OF assms(1,2), of _ "\<lparr>fs_buf = [], fs_reads = [], fs_sent = [], fs_writes = []\<rparr>"]) simp
  then have sent: "send_signed C kp (call_value ?spec (env_frame_id E n) (env_now_ms E n)) st =
      (Inr (), st\<lparr>fs_sent := fs_sent st @ w\<rparr>)" if "fs_writes st = []" for st
    using that by (simp add: send_signed_def send_frame_def frame_sent_as_def)
  have "parse_call (normal g) = Inr \<lparr>ci_call_id = ca_call_id ?spec, ci_procedure = ca_procedure ?spec,
      ci_realm = ca_realm ?spec, ci_payload = normal (ca_payload ?spec), ci_deadline_ms = ca_deadline_ms ?spec,
      ci_caller = ca_caller ?spec, ci_ucan_token = ca_ucan_token ?spec\<rparr>"
    by (rule parse_call_signed [OF _ _ _ _ _ _ g(1)])
      (use assms id in \<open>simp_all add: CallSpec_new_def call_fits_def node_id_def length_public_bytes\<close>)
  then show ?thesis using that g(2) sent by (simp add: fs_call_with_ucan_def Let_def CallSpec_new_def)
qed

lemma await_keeps:
  "await_call_response call_id st = (r, st') \<Longrightarrow> fs_sent st' = fs_sent st \<and> fs_writes st' = fs_writes st"
proof (induction "stream_size (fs_buf st) (fs_reads st)" arbitrary: st rule: less_induct)
  case (less st)
  obtain x s1 where recv: "recv_frame st = (x, s1)" by (cases "recv_frame st")
  have s1: "fs_sent s1 = fs_sent st" "fs_writes s1 = fs_writes st" using recv_frame_frame [OF recv] by simp_all
  show ?case
  proof (cases x)
    case (Inl e)
    then show ?thesis using less(2) recv s1 by (subst (asm) await_call_response.simps) simp
  next
    case (Inr v)
    then show ?thesis using less(2) recv s1 less(1) [of s1] recv_frame_size [of st v s1]
      by (subst (asm) await_call_response.simps) (auto split: if_splits sum.splits)
  qed
qed

subsection \<open>Properties\<close>

text \<open>The state in which a stream is opened: nothing read, nothing sent, every write succeeding.\<close>

definition fresh_stream :: "read list \<Rightarrow> FrameStream" where
  "fresh_stream reads = \<lparr>fs_buf = [], fs_reads = reads, fs_sent = [], fs_writes = []\<rparr>"

lemma fresh_stream_simps [simp]:
  "fs_sent (fresh_stream rs) = []" "fs_writes (fresh_stream rs) = []" "fs_buf (fresh_stream rs) = []"
  "fs_reads (fresh_stream rs) = rs" "incoming (fresh_stream [ReadChunk w]) = w" "quiet (fresh_stream [ReadChunk w])"
  by (simp_all add: fresh_stream_def incoming_def quiet_def)

definition demo_env :: env where
  "demo_env = \<lparr>env_frame_id = (\<lambda>_. replicate 16 1), env_now_ms = (\<lambda>_. 5), env_now_s = (\<lambda>_. 0),
     env_id = (\<lambda>n. replicate 16 (word_of_nat n)), env_seq = (\<lambda>_. 9),
     env_texts = \<lparr>write_error_text = ''w'', read_error_text = ''r''\<rparr>, env_overflow_checks = True\<rparr>"

lemma demo_env_ok: "env_ok demo_env"
  by (simp add: env_ok_def demo_env_def)

definition demo_hello :: HelloInfo where
  "demo_hello = \<lparr>he_node_id = public_bytes toy_crypto demo_key, he_station_id = replicate 32 4, he_realms = [],
     he_capabilities = 0, he_accepted = True, he_negotiated_capabilities = 0, he_refusal_code = None\<rparr>"

definition demo_result :: Value where
  "demo_result = Map [(Text ''frame_type'', Text ''result''), (Text ''call_id'', Bytes (replicate 16 3)),
    (Text ''payload'', Null), (Text ''responded_by'', Bytes (replicate 32 2))]"

lemma demo_result:
  obtains w where "frame_sent_as demo_result w"
    "frame_call_id (normal demo_result) = Some (replicate 16 3)"
    "parse_call_response (normal demo_result) = Inr (CallResult Null (replicate 32 2))"
proof -
  have "bounded MAX_FRAME_BYTES MAX_NESTING_DEPTH demo_result"
    by (simp add: demo_result_def bounded_def frame_ok_Map ascii_def ascii_valid_str MAX_FRAME_BYTES_def MAX_NESTING_DEPTH_def)
  then obtain w where w: "frame_sent_as demo_result w" using encode_frame_fits by blast
  then have wf: "wfv demo_result" by (simp add: frame_sent_as_def)
  have get: "get (normal demo_result) f = map_option normal (get demo_result f)" for f
    using wf unfolding demo_result_def by (rule get_normal)
  have "frame_call_id (normal demo_result) = Some (replicate 16 3)"
    "parse_call_response (normal demo_result) = Inr (CallResult Null (replicate 32 2))"
    unfolding frame_call_id_def parse_call_response_def is_frame_type_def read_field_def get
    by (simp_all add: demo_result_def get_def as_array_def)
  with w show ?thesis using that by blast
qed

text \<open>Correlation. A call returns the first received frame that carries its call id and parses
  as a RESULT or an ERROR, skipping whatever other frames the stream carries before it.\<close>

theorem call_returns_first_answer:
  assumes "list_all2 frame_sent_as vs ws" "quiet st" "incoming st = concat ws @ rest"
    "find (answers call_id) (map normal vs) = Some v" "parse_call_response v = Inr r"
  shows "fst (await_call_response call_id st) = Inr r"
  using await_first_answer [OF assms] by auto

theorem call_returns_first_answer_witness:
  "\<exists>vs ws. list_all2 frame_sent_as vs ws \<and> length vs = 2 \<and>
    fst (await_call_response (replicate 16 3) (fresh_stream [ReadChunk (concat ws)])) =
      Inr (CallResult Null (replicate 32 2))"
proof (rule demo_result)
  fix w assume w: "frame_sent_as demo_result w" "frame_call_id (normal demo_result) = Some (replicate 16 3)"
    "parse_call_response (normal demo_result) = Inr (CallResult Null (replicate 32 2))"
  obtain u where u: "frame_sent_as (IntV 5) u" by (auto simp: frame_sent_as_def eval_simps)
  have "\<not> answers (replicate 16 3) (normal (IntV 5))" by (simp add: answers_def frame_call_id_def get_def)
  moreover have "answers (replicate 16 3) (normal demo_result)" using w by (simp add: answers_def)
  ultimately have f: "find (answers (replicate 16 3)) (map normal [IntV 5, demo_result]) = Some (normal demo_result)"
    by (simp del: normal.simps)
  have l: "list_all2 frame_sent_as [IntV 5, demo_result] [u, w]" using u w by simp
  have "fst (await_call_response (replicate 16 3) (fresh_stream [ReadChunk (concat [u, w])])) =
      Inr (CallResult Null (replicate 32 2))"
    by (rule call_returns_first_answer [OF l _ _ f w(3), where rest = "[]"]) simp_all
  with l show ?thesis by (intro exI [of _ "[IntV 5, demo_result]"] exI [of _ "[u, w]"]) simp
qed

text \<open>No false answer. If a call returns a response, then a frame that carries its call id and
  parses as that response stood in the bytes it received, and the bytes behind that frame are
  still there for the next receive.\<close>

theorem call_response_was_received:
  assumes "await_call_response call_id st = (Inr r, st')"
  shows "\<exists>v w pre. incoming st = pre @ w @ incoming st' \<and>
    decode_frame (w @ fs_buf st') = Inr (DecodedFrame v (length w)) \<and>
    frame_call_id v = Some call_id \<and> parse_call_response v = Inr r"
  using assms by (rule await_sound)

theorem call_response_was_received_witness:
  "\<exists>v. frame_call_id v = Some (replicate 16 3) \<and> parse_call_response v = Inr (CallResult Null (replicate 32 2))"
proof (rule demo_result)
  fix w assume w: "frame_sent_as demo_result w" "frame_call_id (normal demo_result) = Some (replicate 16 3)"
    "parse_call_response (normal demo_result) = Inr (CallResult Null (replicate 32 2))"
  obtain st' where "recv_frame (fresh_stream [ReadChunk w]) = (Inr (normal demo_result), st')"
    by (rule recv_frame_whole [OF w(1), of "fresh_stream [ReadChunk w]" "[]"]) simp_all
  then have "await_call_response (replicate 16 3) (fresh_stream [ReadChunk w]) = (Inr (CallResult Null (replicate 32 2)), st')"
    using w by (simp add: await_call_response.simps)
  from call_response_was_received [OF this] show ?thesis by blast
qed

text \<open>C4: The gate. When the token of the CALL being served is not admitted by the procedure's
  policy, then whatever the lookup and the handlers are, no handler runs, nothing is announced,
  and all that is sent is the BOLT#4 \<open>unauthorized\<close> error for this call.\<close>

theorem rejected_call_runs_no_handler:
  assumes "session_recv_frame s = (Inr v, s1)" "parse_call v = Inr ci" "\<not> admitted J C E n policy ci"
  shows "serve_one_call_gated J C E n lookup policy kp s =
    (case session_send C kp (call_error_value (CallErrorSpec_new (ci_call_id ci) Unauthorized (node_id C kp))
        (env_frame_id E n) (env_now_ms E n)) s1 of
       (r, s2) \<Rightarrow> (map_err (lift_fail ServeSend) r, s2, n + 1, []))"
  using assms by (simp add: serve_one_call_gated.simps [of J C E n lookup policy kp s] rejected_reply)

text \<open>A station's HELLO, for examples.\<close>

definition hello_frame :: Value where
  "hello_frame = Map (base ''hello'' 0 (replicate 16 1) 5 @
     [(Text ''node_id'', Bytes (public_bytes toy_crypto demo_key)), (Text ''station_id'', Bytes (replicate 32 4)),
      (Text ''realms'', List []), (Text ''accepted'', Text ''true''), (Text ''negotiated_capabilities'', IntV 0)])"

lemma hello_bounded: "bounded (MAX_FRAME_BYTES - 146) MAX_NESTING_DEPTH hello_frame"
  by (simp add: hello_frame_def base_def bounded_def frame_ok_Map ascii_def ascii_valid_str MAX_FRAME_BYTES_def
      MAX_NESTING_DEPTH_def PROTOCOL_VERSION_def length_public_bytes [OF toy_crypto_ok wf_demo_key])

text \<open>A frame received on a session, for examples.\<close>

lemma session_receives:
  assumes "frame_sent_as v w"
  obtains s1 where "session_recv_frame \<lparr>control = fresh_stream [ReadChunk w], session_open_bi = (\<lambda>_. None), station = h\<rparr> = (Inr (normal v), s1)"
    "fs_writes (control s1) = []"
proof -
  obtain st' where "recv_frame (fresh_stream [ReadChunk w]) = (Inr (normal v), st')" "fs_writes st' = []"
    using recv_frame_whole [OF assms, of "fresh_stream [ReadChunk w]" "[]"]
    by (metis append_Nil2 fresh_stream_simps(2,5,6))
  then show ?thesis using that by (simp add: session_recv_frame_def)
qed

theorem rejected_call_runs_no_handler_witness:
  "\<exists>s s' . serve_one_call_gated toy_codec toy_crypto demo_env 0 (\<lambda>_ _. Some HandlerOk)
      (\<lambda>_ _. policy_required (replicate 32 9)) demo_key s = (Inr (), s', 1, [])"
proof -
  have fits: "call_fits ''p'' (replicate 32 1) (IntV 7) 5 []"
    by (simp add: call_fits_def ascii_valid_str ascii_def in_range_def wire_room_def MAX_FRAME_BYTES_def)
  obtain g w ci where call: "frame_sent_as g w" "parse_call (normal g) = Inr ci" "ci_ucan_token ci = []" "length (ci_call_id ci) = 16"
    by (rule call_sent_ok [OF toy_crypto_ok wf_demo_key demo_env_ok fits, of 0]) (simp add: demo_env_def)
  obtain s1 where s1: "session_recv_frame \<lparr>control = fresh_stream [ReadChunk w], session_open_bi = (\<lambda>_. None), station = demo_hello\<rparr> = (Inr (normal g), s1)"
    "fs_writes (control s1) = []" by (rule session_receives [OF call(1)])
  let ?policy = "\<lambda>_ _. policy_required (replicate 32 9)"
  have no: "\<not> admitted toy_codec toy_crypto demo_env 0 ?policy ci"
    by (simp add: admitted_def policy_check_def policy_required_def call(3))
  let ?reply = "call_error_value (CallErrorSpec_new (ci_call_id ci) Unauthorized (node_id toy_crypto demo_key))
        (env_frame_id demo_env 0) (env_now_ms demo_env 0)"
  have "bounded (MAX_FRAME_BYTES - 512) MAX_NESTING_DEPTH ?reply"
    by (rule bounded_call_error) (simp_all add: CallErrorSpec_new_def call(4) node_id_def demo_env_def wire_room_def
      length_public_bytes [OF toy_crypto_ok wf_demo_key] MAX_FRAME_BYTES_def)
  then have "bounded (MAX_FRAME_BYTES - 146) MAX_NESTING_DEPTH ?reply"
    by (rule bounded_mono) (simp_all add: MAX_FRAME_BYTES_def)
  then obtain u where "send_signed toy_crypto demo_key ?reply (control s1) = (Inr (), (control s1)\<lparr>fs_sent := fs_sent (control s1) @ u\<rparr>)"
    by (rule send_signed_ok [OF toy_crypto_ok wf_demo_key _ s1(2)])
  then have "serve_one_call_gated toy_codec toy_crypto demo_env 0 (\<lambda>_ _. Some HandlerOk) ?policy demo_key
      \<lparr>control = fresh_stream [ReadChunk w], session_open_bi = (\<lambda>_. None), station = demo_hello\<rparr> = (Inr (), wrote s1 u, 1, [])"
    using rejected_call_runs_no_handler [OF s1(1) call(2) no, of "\<lambda>_ _. Some HandlerOk" demo_key]
    by (simp add: session_send_def wrote_def)
  then show ?thesis by blast
qed

subsection \<open>The handshake\<close>

lemma connect_Inr:
  assumes "connect C E n kp d = Inr s"
  obtains st later st1 v b rs where "d = Opened st later" "session_open_bi s = later"
    "send_signed C kp (connect_value (ConnectSpec_new (node_id C kp) (puzzle_evidence C (public_bytes C kp)))
       (env_frame_id E n) (env_now_ms E n)) st = (Inr (), st1)"
    "recv_loop decode_frame [] (fs_reads st1) = (Inr v, b, rs)"
    "parse_hello v = Inr (station s)" "verify_frame C v (he_node_id (station s)) = Inr ()" "he_accepted (station s)"
    "control s = st1\<lparr>fs_buf := b, fs_reads := rs\<rparr>"
  using assms
  by (auto simp: connect_def Let_def bindR_eq_Inr read_one_frame_def split: dial.splits prod.splits sum.splits if_splits)

lemma send_signed_reads:
  "send_signed C kp v st = (r, st1) \<Longrightarrow> fs_reads st1 = fs_reads st \<and> fs_buf st1 = fs_buf st"
  by (auto simp: send_signed_def send_frame_def split: sum.splits list.splits bool.splits if_splits)

text \<open>C10: Authenticated handshake. A session exists only if the station answered with a frame that
  parses as a HELLO, is signed by the very node id it names, and accepts the connection; and the
  session's stream goes on exactly behind that frame, with no received byte lost or kept twice, while
  its later streams are opened on the connection that was dialed.\<close>

theorem session_is_authenticated:
  assumes "connect C E n kp (Opened st later) = Inr s"
  shows "\<exists>v w. decode_frame (w @ leftover_bytes (control s)) = Inr (DecodedFrame v (length w)) \<and>
    parse_hello v = Inr (station s) \<and> verify_frame C v (he_node_id (station s)) = Inr () \<and> he_accepted (station s) \<and>
    read_bytes (fs_reads st) = w @ leftover_bytes (control s) @ read_bytes (fs_reads (control s)) \<and>
    session_open_bi s = later"
proof -
  obtain st1 v b rs where k: "session_open_bi s = later" and c: "send_signed C kp (connect_value (ConnectSpec_new (node_id C kp)
      (puzzle_evidence C (public_bytes C kp))) (env_frame_id E n) (env_now_ms E n)) st = (Inr (), st1)"
    "recv_loop decode_frame [] (fs_reads st1) = (Inr v, b, rs)"
    "parse_hello v = Inr (station s)" "verify_frame C v (he_node_id (station s)) = Inr ()" "he_accepted (station s)"
    "control s = st1\<lparr>fs_buf := b, fs_reads := rs\<rparr>"
    using assms by (rule connect_Inr) simp
  from recv_loop_conserves [OF c(2)] obtain w where "read_bytes (fs_reads st1) = w @ b @ read_bytes rs"
    "decode_frame (w @ b) = Inr (DecodedFrame v (length w))" by auto
  then show ?thesis using c k send_signed_reads [OF c(1)] by (auto simp: leftover_bytes_def)
qed

lemma connect_bounded:
  assumes "crypto_ok C" "wf_keypair kp" "env_ok E"
  shows "bounded (MAX_FRAME_BYTES - 146) MAX_NESTING_DEPTH
    (connect_value (ConnectSpec_new (node_id C kp) (puzzle_evidence C (public_bytes C kp))) (env_frame_id E n) ms)"
proof -
  let ?spec = "ConnectSpec_new (node_id C kp) (puzzle_evidence C (public_bytes C kp))"
  have len: "length (env_frame_id E n) = 16" "length (node_id C kp) = 32" "length (puzzle_evidence C (public_bytes C kp)) = 32"
    using assms by (simp_all add: env_ok_def node_id_def length_public_bytes puzzle_evidence_def crypto_okD)
  have "frame_ok (connect_value ?spec (env_frame_id E n) ms)"
    by (rule frame_ok_connect) (simp_all add: ConnectSpec_new_def)
  then show ?thesis using len
    by (simp add: bounded_def connect_value_def base_def ConnectSpec_new_def bytes32_list_def or_null_def
        MAX_FRAME_BYTES_def MAX_NESTING_DEPTH_def)
qed

lemma connect_completes:
  assumes "crypto_ok C" "wf_keypair kp" "wf_keypair ks" "env_ok E" "fs_writes st = []" "quiet st" "fs_buf st = []"
    "frame_ok h" "sign_frame C h ks = Inr g" "frame_sent_as g w" "incoming st = w @ rest"
    "parse_hello (normal g) = Inr hello" "he_accepted hello" "he_node_id hello = public_bytes C ks"
  shows "\<exists>s. connect C E n kp (Opened st later) = Inr s \<and> station s = hello \<and> incoming (control s) = rest \<and>
    session_open_bi s = later"
proof -
  obtain g' w' where sent: "send_signed C kp (connect_value (ConnectSpec_new (node_id C kp) (puzzle_evidence C (public_bytes C kp)))
      (env_frame_id E n) (env_now_ms E n)) st = (Inr (), st\<lparr>fs_sent := fs_sent st @ w'\<rparr>)"
    by (rule send_signed_ok [OF assms(1,2) connect_bounded [OF assms(1,2,4)] assms(5)])
  have "undisturbed (fs_reads st)" "timeouts (fs_reads st) = 0" "[] @ read_bytes (fs_reads st) = w @ rest"
    using assms(6,7,11) by (simp_all add: quiet_def incoming_def)
  with frame_codec.loop_delivers_first [OF assms(10), of "fs_reads st" "[]" rest]
  obtain b r where recv: "recv_loop decode_frame [] (fs_reads st) = (Inr (normal g), b, r)" "b @ read_bytes r = rest"
    by auto
  have okg: "frame_ok g" "wfv g" using sign_frame_Inr [OF assms(8,9)] frame_ok_wfv by blast+
  then obtain ps where ps: "g = Map ps" using frame_ok_is_Map by blast
  have "verify_frame C (normal g) (he_node_id hello) = Inr ()"
    using verify_signed [OF assms(1,3,8,9)] okg(2) assms(14) unfolding ps by (simp only: verify_normal)
  then show ?thesis using sent recv assms(12,13)
    by (simp add: connect_def Let_def read_one_frame_def incoming_def)
qed

lemma demo_handshake:
  obtains g w hello where "(sign_frame toy_crypto hello_frame demo_key :: (Value, unit fail) result) = Inr g"
    "frame_sent_as g w" "parse_hello (normal g) = Inr hello" "he_accepted hello" "he_node_id hello = public_bytes toy_crypto demo_key"
proof -
  have ok: "frame_ok hello_frame" using hello_bounded by (simp add: bounded_def)
  obtain g w where g: "(sign_frame toy_crypto hello_frame demo_key :: (Value, unit fail) result) = Inr g" "frame_sent_as g w"
    by (rule send_signed_ok [OF toy_crypto_ok wf_demo_key hello_bounded, of "fresh_stream []"]) simp
  note get = get_signed_normal [OF ok g(1)]
  have fields: "get hello_frame ''frame_type'' = Some (Text ''hello'')" "get hello_frame ''refusal_code'' = None"
    "get hello_frame ''node_id'' = Some (Bytes (public_bytes toy_crypto demo_key))"
    "get hello_frame ''station_id'' = Some (Bytes (replicate 32 4))" "get hello_frame ''realms'' = Some (List [])"
    "get hello_frame ''capabilities'' = Some (IntV 0)" "get hello_frame ''accepted'' = Some (Text ''true'')"
    "get hello_frame ''negotiated_capabilities'' = Some (IntV 0)"
    by (simp_all add: hello_frame_def base_def get_def)
  have "parse_hello (normal g) = Inr \<lparr>he_node_id = public_bytes toy_crypto demo_key, he_station_id = replicate 32 4,
     he_realms = [], he_capabilities = 0, he_accepted = True, he_negotiated_capabilities = 0, he_refusal_code = None\<rparr>"
    by (simp add: parse_hello_def is_frame_type_def read_field_def get fields as_array_def
        as_array_list_def as_uint_def as_bool_def length_public_bytes [OF toy_crypto_ok wf_demo_key])
  with g show ?thesis using that by force
qed

theorem session_is_authenticated_witness:
  "\<exists>s w st later v. connect toy_crypto demo_env 0 demo_key (Opened st later) = Inr s \<and>
    read_bytes (fs_reads st) = w @ leftover_bytes (control s) @ read_bytes (fs_reads (control s)) \<and>
    verify_frame toy_crypto v (he_node_id (station s)) = Inr ()"
proof (rule demo_handshake)
  fix g w hello
  assume h: "(sign_frame toy_crypto hello_frame demo_key :: (Value, unit fail) result) = Inr g" "frame_sent_as g w"
    "parse_hello (normal g) = Inr hello" "he_accepted hello" "he_node_id hello = public_bytes toy_crypto demo_key"
  have ok: "frame_ok hello_frame" using hello_bounded by (simp add: bounded_def)
  obtain s where "connect toy_crypto demo_env 0 demo_key (Opened (fresh_stream [ReadChunk w]) (\<lambda>_. None)) = Inr s"
    using connect_completes [OF toy_crypto_ok wf_demo_key wf_demo_key demo_env_ok _ _ _ ok h(1,2) _ h(3-5),
        of "fresh_stream [ReadChunk w]" "[]" 0 "\<lambda>_. None"] by auto
  from session_is_authenticated [OF this] this show ?thesis by blast
qed

text \<open>The handshake completes. When the station sends a HELLO that it signed with the key of the
  node id it names and that accepts, the client gets a session with that station, whose stream goes
  on with the bytes behind the HELLO and which opens its later streams on the same connection.\<close>

theorem handshake_completes:
  assumes "crypto_ok C" "wf_keypair kp" "wf_keypair ks" "env_ok E" "quiet (fresh_stream reads)"
    "frame_ok h" "sign_frame C h ks = Inr g" "frame_sent_as g w" "read_bytes reads = w @ rest"
    "parse_hello (normal g) = Inr hello" "he_accepted hello" "he_node_id hello = public_bytes C ks"
  shows "\<exists>s. connect C E n kp (Opened (fresh_stream reads) later) = Inr s \<and> station s = hello \<and> incoming (control s) = rest \<and>
    session_open_bi s = later"
  by (rule connect_completes [OF assms(1-4) _ assms(5) _ assms(6-8) _ assms(10-12)]) (simp_all add: incoming_def assms(9))

theorem handshake_completes_witness:
  "\<exists>reads s. connect toy_crypto demo_env 0 demo_key (Opened (fresh_stream reads) (\<lambda>_. None)) = Inr s \<and> incoming (control s) = [7]"
proof (rule demo_handshake)
  fix g w hello
  assume h: "(sign_frame toy_crypto hello_frame demo_key :: (Value, unit fail) result) = Inr g" "frame_sent_as g w"
    "parse_hello (normal g) = Inr hello" "he_accepted hello" "he_node_id hello = public_bytes toy_crypto demo_key"
  have ok: "frame_ok hello_frame" using hello_bounded by (simp add: bounded_def)
  from handshake_completes [OF toy_crypto_ok wf_demo_key wf_demo_key demo_env_ok _ ok h(1,2) _ h(3-5),
      of "[ReadChunk (w @ [7])]" "[7]" 0 "\<lambda>_. None"]
  show ?thesis by (auto simp: quiet_def)
qed

end
