(* ===== verification/Manifest.thy ===== *)
theory Manifest
  imports FrameSize
begin

section \<open>Manifest: chunking, Merkle roots and manifests (\<open>src/manifest.rs\<close>)\<close>

text \<open>
  Fixed-size chunks, the Merkle fold over their digests, the content addresses (MCIDs) and the
  wire form of a manifest. A \<open>usize\<close> is a \<open>nat\<close>; the numbers read from the wire go through
  \<open>u64\<close> (and the version through \<open>u32\<close>) as in the code. BLAKE3 and SHA-256 are in the parameter
  \<open>crypto\<close>. \<open>chunks(0)\<close> panics.
\<close>

definition DEFAULT_CHUNK_SIZE :: nat where
  "DEFAULT_CHUNK_SIZE = 262144"

definition VERSION :: u8 where
  "VERSION = 1"

definition CODEC_RAW :: u8 where
  "CODEC_RAW = 0x55"

definition CODEC_MANIFEST :: u8 where
  "CODEC_MANIFEST = 0x56"

type_synonym Mcid = bytes

definition make_mcid :: "u8 \<Rightarrow> bytes \<Rightarrow> Mcid" where
  "make_mcid codec hash = VERSION # codec # hash"

datatype Algorithm = Blake3 | Sha256

fun algorithm_hash :: "crypto \<Rightarrow> Algorithm \<Rightarrow> bytes \<Rightarrow> bytes" where
  "algorithm_hash C Blake3 b = blake3 C b"
| "algorithm_hash C Sha256 b = sha256 C b"

fun algorithm_name :: "Algorithm \<Rightarrow> string" where
  "algorithm_name Blake3 = ''blake3''"
| "algorithm_name Sha256 = ''sha256''"

definition algorithm_from_name :: "string \<Rightarrow> Algorithm" where
  "algorithm_from_name n = (if n = ''sha256'' then Sha256 else Blake3)"

record ChunkInfo =
  ck_index :: nat
  ck_offset :: nat
  ck_size :: nat
  ck_hash :: bytes

record Manifest =
  mf_mcid :: Mcid
  mf_version :: u32
  mf_name :: string
  mf_size :: u64
  mf_created :: u64
  mf_chunk_size :: nat
  mf_chunk_count :: nat
  mf_hash_algorithm :: Algorithm
  mf_root_hash :: bytes
  mf_chunks :: "ChunkInfo list"

record CreateOptions =
  op_name :: string
  op_chunk_size :: nat
  op_hash_algorithm :: Algorithm

definition CreateOptions_default :: CreateOptions where
  "CreateOptions_default = \<lparr>op_name = ''unnamed'', op_chunk_size = DEFAULT_CHUNK_SIZE, op_hash_algorithm = Blake3\<rparr>"

subsection \<open>Chunks and the Merkle fold\<close>

text \<open>\<open>slice::chunks\<close>, for a chunk size that is not zero.\<close>

function slice_chunks :: "nat \<Rightarrow> 'a list \<Rightarrow> 'a list list" where
  "slice_chunks n xs = (if n = 0 \<or> xs = [] then [] else take n xs # slice_chunks n (drop n xs))"
  by pat_completeness auto

termination
  by (relation "measure (\<lambda>(n, xs). length xs)") auto

declare slice_chunks.simps [simp del]

definition do_chunk :: "bytes \<Rightarrow> nat \<Rightarrow> (bytes list, 'e fail) result" where
  "do_chunk b chunk_size = (if chunk_size = 0 then Inl Panic else Inr (slice_chunks chunk_size b))"

fun chunk_infos_from :: "crypto \<Rightarrow> Algorithm \<Rightarrow> nat \<Rightarrow> nat \<Rightarrow> bytes list \<Rightarrow> ChunkInfo list" where
  "chunk_infos_from C alg index offset [] = []"
| "chunk_infos_from C alg index offset (chunk # rest) =
    \<lparr>ck_index = index, ck_offset = offset, ck_size = length chunk, ck_hash = algorithm_hash C alg chunk\<rparr> #
    chunk_infos_from C alg (index + 1) (offset + length chunk) rest"

definition chunk_infos :: "crypto \<Rightarrow> bytes list \<Rightarrow> Algorithm \<Rightarrow> ChunkInfo list" where
  "chunk_infos C cs alg = chunk_infos_from C alg 0 0 cs"

text \<open>One pass: the pairs of \<open>hashes.chunks(2)\<close>, a last single hash paired with itself.\<close>

fun combine :: "crypto \<Rightarrow> Algorithm \<Rightarrow> bytes list \<Rightarrow> bytes list" where
  "combine C alg [] = []"
| "combine C alg [h] = [algorithm_hash C alg (h @ h)]"
| "combine C alg (l # r # hs) = algorithm_hash C alg (l @ r) # combine C alg hs"

lemma length_combine: "length (combine C alg hs) = (length hs + 1) div 2"
  by (induction C alg hs rule: combine.induct) auto

function fold_root :: "crypto \<Rightarrow> Algorithm \<Rightarrow> bytes list \<Rightarrow> bytes list" where
  "fold_root C alg hashes = (if length hashes > 1 then fold_root C alg (combine C alg hashes) else hashes)"
  by pat_completeness auto

termination
  by (relation "measure (\<lambda>(_, _, hs). length hs)") (auto simp: length_combine)

declare fold_root.simps [simp del]

definition root_hash_for :: "crypto \<Rightarrow> ChunkInfo list \<Rightarrow> Algorithm \<Rightarrow> bytes" where
  "root_hash_for C infos alg =
    (if infos = [] then algorithm_hash C alg [] else hd (fold_root C alg (map ck_hash infos)))"

subsection \<open>Content addresses\<close>

definition compute_mcid :: "crypto \<Rightarrow> string \<Rightarrow> u64 \<Rightarrow> nat \<Rightarrow> nat \<Rightarrow> Algorithm \<Rightarrow> bytes \<Rightarrow> (Mcid, 'e fail) result" where
  "compute_mcid C name sz chunk_size chunk_count alg root_hash =
    (let canonical = Map
       [(Text ''name'', Text name),
        (Text ''size'', IntV (uint sz)),
        (Text ''chunk_size'', IntV (int chunk_size)),
        (Text ''chunk_count'', IntV (int chunk_count)),
        (Text ''hash_algorithm'', Text (algorithm_name alg)),
        (Text ''root_hash'', Bytes root_hash)] in
     case encode canonical of
       Inl _ \<Rightarrow> Inl Panic
     | Inr b \<Rightarrow> Inr (make_mcid CODEC_MANIFEST (algorithm_hash C alg b)))"

definition create_manifest :: "crypto \<Rightarrow> bytes \<Rightarrow> CreateOptions \<Rightarrow> u64 \<Rightarrow> (Manifest \<times> bytes list, 'e fail) result" where
  "create_manifest C b opts created =
    bindR (do_chunk b (op_chunk_size opts)) (\<lambda>cs.
      let infos = chunk_infos C cs (op_hash_algorithm opts);
          root_hash = root_hash_for C infos (op_hash_algorithm opts);
          chunk_count = length infos in
      bindR (compute_mcid C (op_name opts) (word_of_nat (length b)) (op_chunk_size opts) chunk_count
               (op_hash_algorithm opts) root_hash) (\<lambda>mcid.
        Inr (\<lparr>mf_mcid = mcid, mf_version = 1, mf_name = op_name opts, mf_size = word_of_nat (length b),
              mf_created = created, mf_chunk_size = op_chunk_size opts, mf_chunk_count = chunk_count,
              mf_hash_algorithm = op_hash_algorithm opts, mf_root_hash = root_hash, mf_chunks = infos\<rparr>, cs)))"

definition chunk_mcid :: "Manifest \<Rightarrow> nat \<Rightarrow> Mcid option" where
  "chunk_mcid m index =
    (if index < length (mf_chunks m) then Some (make_mcid CODEC_RAW (ck_hash (mf_chunks m ! index))) else None)"

definition block_mcid :: "crypto \<Rightarrow> bytes \<Rightarrow> Mcid" where
  "block_mcid C b = make_mcid CODEC_RAW (algorithm_hash C Blake3 b)"

text \<open>An MCID is 34 bytes by its type, so its codec byte is there.\<close>

definition mcid_is_chunked :: "Mcid \<Rightarrow> bool" where
  "mcid_is_chunked mcid \<longleftrightarrow> mcid ! 1 = CODEC_MANIFEST"

datatype ManifestVerifyError = SizeMismatch | RootHashMismatch

definition verify_manifest :: "crypto \<Rightarrow> Manifest \<Rightarrow> bytes \<Rightarrow> (unit, ManifestVerifyError fail) result" where
  "verify_manifest C m b =
    (if word_of_nat (length b) \<noteq> mf_size m then Inl (Err SizeMismatch)
     else
       bindR (do_chunk b (mf_chunk_size m)) (\<lambda>cs.
         let infos = chunk_infos C cs (mf_hash_algorithm m);
             actual_root = root_hash_for C infos (mf_hash_algorithm m) in
         if actual_root = mf_root_hash m then Inr () else Inl (Err RootHashMismatch)))"

subsection \<open>The wire form\<close>

definition chunk_info_to_wire :: "ChunkInfo \<Rightarrow> Value" where
  "chunk_info_to_wire info =
    Map [(Text ''index'', IntV (int (ck_index info))),
         (Text ''offset'', IntV (int (ck_offset info))),
         (Text ''size'', IntV (int (ck_size info))),
         (Text ''hash'', Bytes (ck_hash info))]"

definition to_wire :: "Manifest \<Rightarrow> Value" where
  "to_wire m =
    Map [(Text ''mcid'', Bytes (mf_mcid m)),
         (Text ''version'', IntV (uint (mf_version m))),
         (Text ''name'', Bytes (as_bytes (mf_name m))),
         (Text ''size'', IntV (uint (mf_size m))),
         (Text ''created'', IntV (uint (mf_created m))),
         (Text ''chunk_size'', IntV (int (mf_chunk_size m))),
         (Text ''chunk_count'', IntV (int (mf_chunk_count m))),
         (Text ''hash_algorithm'', Text (algorithm_name (mf_hash_algorithm m))),
         (Text ''root_hash'', Bytes (mf_root_hash m)),
         (Text ''chunks'', List (map chunk_info_to_wire (mf_chunks m)))]"

datatype FromWireError =
    MissingField string
  | WrongFieldType string
  | ZeroChunkSize
  | InconsistentChunkCount

definition wire_field :: "(Value \<Rightarrow> 'a option) \<Rightarrow> Value \<Rightarrow> string \<Rightarrow> ('a, FromWireError) result" where
  "wire_field = read_field FromWireError.MissingField FromWireError.WrongFieldType"

definition chunk_info_from_wire :: "Value \<Rightarrow> (ChunkInfo, FromWireError) result" where
  "chunk_info_from_wire v =
    bindR (wire_field as_uint v ''index'') (\<lambda>index.
    bindR (wire_field as_uint v ''offset'') (\<lambda>offset.
    bindR (wire_field as_uint v ''size'') (\<lambda>sz.
    bindR (wire_field (as_array 32) v ''hash'') (\<lambda>hash.
      Inr \<lparr>ck_index = unat index, ck_offset = unat offset, ck_size = unat sz, ck_hash = hash\<rparr>))))"

definition from_wire :: "Value \<Rightarrow> (Manifest, FromWireError) result" where
  "from_wire v =
    bindR (wire_field (as_array 34) v ''mcid'') (\<lambda>mcid.
    bindR (wire_field as_uint v ''version'') (\<lambda>version.
    bindR (wire_field as_utf8 v ''name'') (\<lambda>name.
    bindR (wire_field as_uint v ''size'') (\<lambda>sz.
    bindR (wire_field as_uint v ''created'') (\<lambda>created.
    bindR (wire_field as_uint v ''chunk_size'') (\<lambda>chunk_size.
    bindR (wire_field as_uint v ''chunk_count'') (\<lambda>chunk_count.
    bindR (wire_field as_text v ''hash_algorithm'') (\<lambda>alg.
    bindR (wire_field (as_array 32) v ''root_hash'') (\<lambda>root_hash.
    bindR (case get v ''chunks'' of
             Some (List items) \<Rightarrow> mapR chunk_info_from_wire items
           | Some _ \<Rightarrow> Inl (FromWireError.WrongFieldType ''chunks'')
           | None \<Rightarrow> Inl (FromWireError.MissingField ''chunks'')) (\<lambda>cs.
      if unat chunk_size = 0 then Inl ZeroChunkSize
      else if length cs \<noteq> unat chunk_count then Inl InconsistentChunkCount
      else Inr \<lparr>mf_mcid = mcid, mf_version = ucast version, mf_name = name, mf_size = sz, mf_created = created,
                mf_chunk_size = unat chunk_size, mf_chunk_count = unat chunk_count,
                mf_hash_algorithm = algorithm_from_name alg, mf_root_hash = root_hash, mf_chunks = cs\<rparr>))))))))))"

end
