(* ===== verification/ManifestProps.thy ===== *)
theory ManifestProps
  imports Manifest ConnProps
begin

section \<open>ManifestProps: what a manifest promises\<close>

text \<open>
  Chunking covers the content, a created manifest verifies it and survives the wire, a parsed
  manifest can be used without a panic, and the Merkle root binds the content.
\<close>

subsection \<open>Chunks\<close>

lemma concat_slice_chunks: "0 < n \<Longrightarrow> concat (slice_chunks n xs) = xs"
  by (induction n xs rule: slice_chunks.induct) (subst slice_chunks.simps, simp)

lemma slice_chunks_Nil [simp]: "slice_chunks n [] = []"
  by (simp add: slice_chunks.simps)

lemma slice_chunks_step: "0 < n \<Longrightarrow> xs \<noteq> [] \<Longrightarrow> slice_chunks n xs = take n xs # slice_chunks n (drop n xs)"
  by (subst slice_chunks.simps) simp

lemma slice_chunks_eq_Nil: "0 < n \<Longrightarrow> slice_chunks n xs = [] \<longleftrightarrow> xs = []"
  by (subst slice_chunks.simps) simp

lemma length_slice_chunks: "0 < n \<Longrightarrow> length (slice_chunks n xs) = (length xs + n - 1) div n"
proof (induction n xs rule: slice_chunks.induct)
  case (1 n xs)
  show ?case
  proof (cases "xs = []")
    case True
    then show ?thesis using 1 by simp
  next
    case False
    then have ih: "length (slice_chunks n (drop n xs)) = (length xs - n + n - 1) div n" using 1 by simp
    show ?thesis
    proof (cases "length xs \<le> n")
      case True
      have "length xs + n - 1 = (length xs - 1) + n" "length xs - 1 < n" using False True 1 by (cases xs; simp)+
      then have "(length xs + n - 1) div n = 1" using 1(2) by (simp only: div_add_self2) simp
      then show ?thesis using False True 1(2) by (simp add: slice_chunks_step)
    next
      case large: False
      then have "length xs + n - 1 = (length xs - n + n - 1) + n" using 1(2) by simp
      then have "(length xs + n - 1) div n = (length xs - n + n - 1) div n + 1"
        using 1(2) by (simp only: div_add_self2)
      moreover have "length (slice_chunks n xs) = 1 + length (slice_chunks n (drop n xs))"
        using False 1(2) by (simp add: slice_chunks_step)
      ultimately show ?thesis using ih by simp
    qed
  qed
qed

lemma length_slice_chunks_le: "0 < n \<Longrightarrow> length (slice_chunks n xs) \<le> length xs"
proof (induction n xs rule: slice_chunks.induct)
  case (1 n xs)
  show ?case
  proof (cases "xs = []")
    case False
    then have "length (slice_chunks n xs) = 1 + length (slice_chunks n (drop n xs))" using 1(2) by (simp add: slice_chunks_step)
    moreover have "length (slice_chunks n (drop n xs)) \<le> length xs - n" using 1 False by simp
    moreover have "0 < length xs" using False by simp
    ultimately show ?thesis using 1(2) by linarith
  qed simp
qed

lemma nth_slice_chunks: "0 < n \<Longrightarrow> i < length (slice_chunks n xs) \<Longrightarrow> slice_chunks n xs ! i = take n (drop (i * n) xs)"
proof (induction n xs arbitrary: i rule: slice_chunks.induct)
  case (1 n xs)
  then have ne: "xs \<noteq> []" by auto
  show ?case
  proof (cases i)
    case 0
    then show ?thesis using 1(2) ne by (simp add: slice_chunks_step)
  next
    case (Suc j)
    then have "slice_chunks n (drop n xs) ! j = take n (drop (j * n) (drop n xs))"
      using 1 ne by (simp add: slice_chunks_step)
    then show ?thesis using Suc 1(2) ne by (simp add: slice_chunks_step add.commute)
  qed
qed

lemma slice_chunks_inj:
  "0 < n \<Longrightarrow> slice_chunks n xs = slice_chunks n ys \<Longrightarrow> xs = ys"
  by (metis concat_slice_chunks)

lemma chunk_infos_from_facts:
  "length (chunk_infos_from C alg i off cs) = length cs"
  "map ck_hash (chunk_infos_from C alg i off cs) = map (algorithm_hash C alg) cs"
  by (induction cs arbitrary: i off) simp_all

lemma chunk_infos_from_nth:
  "k < length cs \<Longrightarrow> chunk_infos_from C alg i off cs ! k =
    \<lparr>ck_index = i + k, ck_offset = off + length (concat (take k cs)), ck_size = length (cs ! k),
     ck_hash = algorithm_hash C alg (cs ! k)\<rparr>"
proof (induction cs arbitrary: i off k)
  case Nil
  then show ?case by simp
next
  case (Cons c cs)
  then show ?case by (cases k) simp_all
qed

lemma concat_take_chunks:
  assumes "0 < n" "k < length (slice_chunks n xs)"
  shows "length (concat (take k (slice_chunks n xs))) = k * n"
proof -
  have "xs = concat (take k (slice_chunks n xs)) @ concat (drop k (slice_chunks n xs))"
    using concat_slice_chunks [OF assms(1), of xs] by (metis append_take_drop_id concat_append)
  have "k \<le> length (slice_chunks n xs) \<Longrightarrow> k * n \<le> length xs \<Longrightarrow> concat (take k (slice_chunks n xs)) = take (k * n) xs" for k
  proof (induction k arbitrary: xs)
    case 0
    then show ?case by simp
  next
    case (Suc k)
    then have ne: "xs \<noteq> []" by auto
    have "concat (take k (slice_chunks n (drop n xs))) = take (k * n) (drop n xs)"
      by (rule Suc.IH) (use Suc.prems ne assms(1) in \<open>simp_all add: slice_chunks_step\<close>)
    then show ?case using ne assms(1) by (simp add: slice_chunks_step take_add)
  qed
  moreover have "k * n \<le> length xs"
  proof -
    have "k < (length xs + n - 1) div n" using assms by (simp add: length_slice_chunks)
    then have "Suc k * n \<le> length xs + n - 1" using assms(1) by (metis Suc_leI div_times_less_eq_dividend le_trans mult_le_mono1)
    then show ?thesis using assms(1) by simp
  qed
  ultimately show ?thesis using assms(2) by simp
qed

subsection \<open>The Merkle root binds the chunks\<close>

text \<open>The byte strings one pass and the whole computation of a root feed to the hash.\<close>

fun pair_inputs :: "bytes list \<Rightarrow> bytes list" where
  "pair_inputs [] = []"
| "pair_inputs [h] = [h @ h]"
| "pair_inputs (l # r # hs) = (l @ r) # pair_inputs hs"

lemma combine_map: "combine C alg hs = map (algorithm_hash C alg) (pair_inputs hs)"
  by (induction hs rule: pair_inputs.induct) simp_all

function fold_inputs :: "crypto \<Rightarrow> Algorithm \<Rightarrow> bytes list \<Rightarrow> bytes list" where
  "fold_inputs C alg hs = (if length hs > 1 then pair_inputs hs @ fold_inputs C alg (combine C alg hs) else [])"
  by pat_completeness auto

termination
  by (relation "measure (\<lambda>(_, _, hs). length hs)") (auto simp: length_combine)

declare fold_inputs.simps [simp del]

definition hashed_inputs :: "crypto \<Rightarrow> Algorithm \<Rightarrow> nat \<Rightarrow> bytes \<Rightarrow> bytes set" where
  "hashed_inputs C alg n b =
    set (slice_chunks n b) \<union> set (fold_inputs C alg (map (algorithm_hash C alg) (slice_chunks n b)))"

lemma pair_inputs_inj:
  "length hs = length hs' \<Longrightarrow> \<forall>h \<in> set hs \<union> set hs'. length h = 32 \<Longrightarrow> pair_inputs hs = pair_inputs hs' \<Longrightarrow> hs = hs'"
proof (induction hs arbitrary: hs' rule: pair_inputs.induct)
  case 1
  then show ?case by simp
next
  case (2 h)
  then obtain h' where "hs' = [h']" by (cases hs') auto
  then show ?case using 2 by (simp add: append_eq_append_conv)
next
  case (3 l r hs)
  then obtain l' r' t where hs': "hs' = l' # r' # t" by (cases hs'; cases "tl hs'") auto
  then have "l = l' \<and> r = r'" "pair_inputs hs = pair_inputs t" using 3 by (auto simp: append_eq_append_conv)
  then show ?case using 3 hs' by simp
qed

lemma fold_root_inj:
  assumes "\<And>m. length (algorithm_hash C alg m) = 32"
  shows "length hs = length hs' \<Longrightarrow> hs \<noteq> [] \<Longrightarrow> \<forall>h \<in> set hs \<union> set hs'. length h = 32 \<Longrightarrow>
    inj_on (algorithm_hash C alg) (set (fold_inputs C alg hs) \<union> set (fold_inputs C alg hs')) \<Longrightarrow>
    hd (fold_root C alg hs) = hd (fold_root C alg hs') \<Longrightarrow> hs = hs'"
proof (induction "length hs" arbitrary: hs hs' rule: less_induct)
  case less
  show ?case
  proof (cases "length hs > 1")
    case False
    then obtain h where "hs = [h]" using less.prems(2) by (cases hs) auto
    moreover obtain h' where "hs' = [h']" using less.prems(1) calculation by (cases hs') auto
    ultimately show ?thesis using less.prems(5) by (simp add: fold_root.simps)
  next
    case True
    let ?c = "combine C alg"
    have inputs: "set (fold_inputs C alg hs) = set (pair_inputs hs) \<union> set (fold_inputs C alg (?c hs))"
      "set (fold_inputs C alg hs') = set (pair_inputs hs') \<union> set (fold_inputs C alg (?c hs'))"
      using True less.prems(1) by (simp_all add: fold_inputs.simps [of C alg hs] fold_inputs.simps [of C alg hs'])
    have "?c hs = ?c hs'"
    proof (rule less.hyps)
      show "length (?c hs) < length hs" "length (?c hs) = length (?c hs')" using True less.prems(1) by (simp_all add: length_combine)
      show "?c hs \<noteq> []" using length_combine [of C alg hs] True by auto
      show "\<forall>h \<in> set (?c hs) \<union> set (?c hs'). length h = 32" using assms by (auto simp: combine_map)
      show "inj_on (algorithm_hash C alg) (set (fold_inputs C alg (?c hs)) \<union> set (fold_inputs C alg (?c hs')))"
        using less.prems(4) by (rule inj_on_subset) (auto simp: inputs)
      show "hd (fold_root C alg (?c hs)) = hd (fold_root C alg (?c hs'))"
        using less.prems(1,5) True by (simp add: fold_root.simps [of C alg hs] fold_root.simps [of C alg hs'])
    qed
    then have "map (algorithm_hash C alg) (pair_inputs hs) = map (algorithm_hash C alg) (pair_inputs hs')"
      by (simp add: combine_map)
    moreover have "inj_on (algorithm_hash C alg) (set (pair_inputs hs) \<union> set (pair_inputs hs'))"
      using less.prems(4) by (rule inj_on_subset) (auto simp: inputs)
    ultimately have "pair_inputs hs = pair_inputs hs'" by (simp add: map_inj_on)
    from pair_inputs_inj [OF less.prems(1,3) this] show ?thesis .
  qed
qed

lemma algorithm_hash_length: "crypto_ok C \<Longrightarrow> length (algorithm_hash C alg m) = 32"
  by (cases alg) (simp_all add: crypto_okD)

subsection \<open>Creating and verifying\<close>

lemma create_manifest_facts:
  assumes "create_manifest C b opts created = Inr (m, cs)"
  shows "0 < op_chunk_size opts" "cs = slice_chunks (op_chunk_size opts) b"
    "mf_size m = word_of_nat (length b)" "mf_chunk_size m = op_chunk_size opts" "mf_name m = op_name opts"
    "mf_hash_algorithm m = op_hash_algorithm opts" "mf_chunks m = chunk_infos C cs (op_hash_algorithm opts)"
    "mf_root_hash m = root_hash_for C (mf_chunks m) (op_hash_algorithm opts)" "mf_chunk_count m = length cs"
    "mf_version m = 1" "mf_created m = created"
    "\<exists>d. mf_mcid m = make_mcid CODEC_MANIFEST (algorithm_hash C (op_hash_algorithm opts) d)"
proof -
  have n: "0 < op_chunk_size opts"
    using assms by (cases "op_chunk_size opts = 0") (simp_all add: create_manifest_def do_chunk_def)
  let ?infos = "chunk_infos C cs (op_hash_algorithm opts)"
  let ?root = "root_hash_for C ?infos (op_hash_algorithm opts)"
  have cs: "cs = slice_chunks (op_chunk_size opts) b"
    using assms n unfolding create_manifest_def do_chunk_def Let_def by (auto simp: bindR_eq_Inr)
  obtain mcid where mcid: "compute_mcid C (op_name opts) (word_of_nat (length b)) (op_chunk_size opts) (length ?infos)
      (op_hash_algorithm opts) ?root = (Inr mcid :: (Mcid, 'a fail) result)"
    and m: "m = \<lparr>mf_mcid = mcid, mf_version = 1, mf_name = op_name opts, mf_size = word_of_nat (length b),
              mf_created = created, mf_chunk_size = op_chunk_size opts, mf_chunk_count = length ?infos,
              mf_hash_algorithm = op_hash_algorithm opts, mf_root_hash = ?root, mf_chunks = ?infos\<rparr>"
    using assms n cs by (simp add: create_manifest_def do_chunk_def Let_def bindR_eq_Inr) blast
  show "0 < op_chunk_size opts" "cs = slice_chunks (op_chunk_size opts) b" by (rule n, rule cs)
  show "mf_size m = word_of_nat (length b)" "mf_chunk_size m = op_chunk_size opts" "mf_name m = op_name opts"
    "mf_hash_algorithm m = op_hash_algorithm opts" "mf_chunks m = ?infos"
    "mf_root_hash m = root_hash_for C (mf_chunks m) (op_hash_algorithm opts)" "mf_chunk_count m = length cs"
    "mf_version m = 1" "mf_created m = created"
    by (simp_all add: m chunk_infos_def chunk_infos_from_facts)
  show "\<exists>d. mf_mcid m = make_mcid CODEC_MANIFEST (algorithm_hash C (op_hash_algorithm opts) d)"
    using mcid by (auto simp: m compute_mcid_def Let_def split: sum.splits)
qed

lemma create_manifest_ok:
  assumes "0 < op_chunk_size opts" "op_chunk_size opts < 2 ^ 64" "length b < 2 ^ 64" "valid_str (op_name opts)"
  shows "\<exists>m. create_manifest C b opts created = Inr (m, slice_chunks (op_chunk_size opts) b)"
proof -
  let ?cs = "slice_chunks (op_chunk_size opts) b"
  have "length ?cs \<le> length b" by (rule length_slice_chunks_le [OF assms(1)])
  then have count: "length ?cs < 2 ^ 64" using assms(3) by simp
  have "frame_ok (Map [(Text ''name'', Text (op_name opts)), (Text ''size'', IntV (uint (word_of_nat (length b) :: u64))),
        (Text ''chunk_size'', IntV (int (op_chunk_size opts))), (Text ''chunk_count'', IntV (int (length ?cs))),
        (Text ''hash_algorithm'', Text (algorithm_name (op_hash_algorithm opts))), (Text ''root_hash'', Bytes r)])" for r
    using assms count by (cases "op_hash_algorithm opts") (simp_all add: frame_ok_Map ascii_def ascii_valid_str)
  from encode_eq_enc [OF frame_ok_wfv [OF this]] show ?thesis using assms(1)
    by (simp add: create_manifest_def do_chunk_def compute_mcid_def Let_def chunk_infos_def chunk_infos_from_facts)
qed

lemma chunk_infos_nth:
  "k < length cs \<Longrightarrow> chunk_infos C cs alg ! k =
    \<lparr>ck_index = k, ck_offset = length (concat (take k cs)), ck_size = length (cs ! k),
     ck_hash = algorithm_hash C alg (cs ! k)\<rparr>"
  by (simp add: chunk_infos_def chunk_infos_from_nth)

lemma verify_created:
  assumes "create_manifest C b opts created = Inr (m, cs)"
  shows "verify_manifest C m b = Inr ()"
proof -
  note f = create_manifest_facts [OF assms]
  have "root_hash_for C (chunk_infos C (slice_chunks (op_chunk_size opts) b) (op_hash_algorithm opts)) (op_hash_algorithm opts) =
      mf_root_hash m"
    by (simp add: f(8) f(7) f(2))
  then show ?thesis using f(1) by (simp add: verify_manifest_def do_chunk_def f(3-6))
qed

subsection \<open>The wire form\<close>

text \<open>What the Rust types and \<open>create\<close> say of a manifest: array sizes, UTF-8, \<open>usize\<close> of 64 bits.\<close>

definition wf_chunk_info :: "ChunkInfo \<Rightarrow> bool" where
  "wf_chunk_info i \<longleftrightarrow> ck_index i < 2 ^ 64 \<and> ck_offset i < 2 ^ 64 \<and> ck_size i < 2 ^ 64 \<and> length (ck_hash i) = 32"

definition wf_manifest :: "Manifest \<Rightarrow> bool" where
  "wf_manifest m \<longleftrightarrow>
     length (mf_mcid m) = 34 \<and> valid_str (mf_name m) \<and> 0 < mf_chunk_size m \<and> mf_chunk_size m < 2 ^ 64 \<and>
     mf_chunk_count m = length (mf_chunks m) \<and> mf_chunk_count m < 2 ^ 64 \<and> length (mf_root_hash m) = 32 \<and>
     (\<forall>i \<in> set (mf_chunks m). wf_chunk_info i)"

lemma frame_ok_chunk_info: "wf_chunk_info i \<Longrightarrow> frame_ok (chunk_info_to_wire i)"
  by (simp add: chunk_info_to_wire_def frame_ok_Map ascii_def wf_chunk_info_def)

lemma frame_ok_to_wire:
  assumes "wf_manifest m"
  shows "frame_ok (to_wire m)"
proof -
  have "wfv (List (map chunk_info_to_wire (mf_chunks m)))"
    using assms frame_ok_wfv [OF frame_ok_chunk_info] by (simp add: wf_manifest_def)
  moreover have "wfv (IntV (uint (mf_version m)))"
  proof -
    have "- 18446744073709551616 \<le> uint (mf_version m)" using uint_ge_0 [of "mf_version m"] by linarith
    then show ?thesis using uint_lt2p [of "mf_version m"] by simp
  qed
  moreover have "wfv (Text (algorithm_name (mf_hash_algorithm m)))"
    by (cases "mf_hash_algorithm m") (simp_all add: ascii_def ascii_valid_str)
  ultimately show ?thesis using assms by (simp add: to_wire_def frame_ok_Map ascii_def wf_manifest_def)
qed

lemma get_frame_normal: "frame_ok v \<Longrightarrow> get (normal v) f = map_option normal (get v f)"
  using frame_ok_wfv get_normal frame_ok_is_Map by metis

lemma as_uint_int: "n < 2 ^ 64 \<Longrightarrow> as_uint (IntV (int n)) = Some (word_of_nat n)"
  by (simp add: as_uint_def)

lemma unat_word_of_nat_u64: "n < 2 ^ 64 \<Longrightarrow> unat (word_of_nat n :: u64) = n"
  by (simp add: unsigned_of_nat take_bit_nat_eq_self)

lemma chunk_info_roundtrip:
  assumes "wf_chunk_info i"
  shows "chunk_info_from_wire (normal (chunk_info_to_wire i)) = Inr i"
proof -
  note get = get_frame_normal [OF frame_ok_chunk_info [OF assms]]
  have fields: "get (chunk_info_to_wire i) ''index'' = Some (IntV (int (ck_index i)))"
    "get (chunk_info_to_wire i) ''offset'' = Some (IntV (int (ck_offset i)))"
    "get (chunk_info_to_wire i) ''size'' = Some (IntV (int (ck_size i)))"
    "get (chunk_info_to_wire i) ''hash'' = Some (Bytes (ck_hash i))"
    by (simp_all add: chunk_info_to_wire_def get_def)
  show ?thesis using assms
    by (simp add: chunk_info_from_wire_def wire_field_def read_field_def get fields as_uint_int unat_word_of_nat_u64
        as_array_def wf_chunk_info_def)
qed

lemma manifest_roundtrip:
  assumes "wf_manifest m"
  shows "from_wire (normal (to_wire m)) = Inr m"
proof -
  note get = get_frame_normal [OF frame_ok_to_wire [OF assms]]
  have fields: "get (to_wire m) ''mcid'' = Some (Bytes (mf_mcid m))" "get (to_wire m) ''version'' = Some (IntV (uint (mf_version m)))"
    "get (to_wire m) ''name'' = Some (Bytes (as_bytes (mf_name m)))" "get (to_wire m) ''size'' = Some (IntV (uint (mf_size m)))"
    "get (to_wire m) ''created'' = Some (IntV (uint (mf_created m)))" "get (to_wire m) ''chunk_size'' = Some (IntV (int (mf_chunk_size m)))"
    "get (to_wire m) ''chunk_count'' = Some (IntV (int (mf_chunk_count m)))"
    "get (to_wire m) ''hash_algorithm'' = Some (Text (algorithm_name (mf_hash_algorithm m)))"
    "get (to_wire m) ''root_hash'' = Some (Bytes (mf_root_hash m))"
    "get (to_wire m) ''chunks'' = Some (List (map chunk_info_to_wire (mf_chunks m)))"
    by (simp_all add: to_wire_def get_def)
  have cs: "mapR chunk_info_from_wire (map normal (map chunk_info_to_wire (mf_chunks m))) = Inr (mf_chunks m)"
    using assms chunk_info_roundtrip by (simp add: mapR_eq_Inr list_all2_map1 list_all2_same wf_manifest_def)
  have version: "ucast (word_of_int (uint (mf_version m)) :: u64) = mf_version m"
    using uint_lt2p [of "mf_version m"]
    by (intro word_uint_eqI) (simp add: unsigned_ucast_eq unsigned_of_int unsigned_take_bit_eq take_bit_int_eq_self)
  have alg: "algorithm_from_name (algorithm_name a) = a" for a by (cases a) (simp_all add: algorithm_from_name_def)
  show ?thesis using assms cs version
    by (simp add: from_wire_def wire_field_def read_field_def get fields as_uint_int unat_word_of_nat_u64 as_array_def
        as_utf8_def as_text_def from_utf8_as_bytes alg wf_manifest_def as_uint_def [of "IntV (uint _)"])
qed

lemma length_root_hash:
  assumes "\<And>x. length (algorithm_hash C alg x) = 32"
  shows "hs \<noteq> [] \<Longrightarrow> \<forall>h \<in> set hs. length h = 32 \<Longrightarrow> length (hd (fold_root C alg hs)) = 32"
proof (induction "length hs" arbitrary: hs rule: less_induct)
  case less
  show ?case
  proof (cases "length hs > 1")
    case True
    have "length (hd (fold_root C alg (combine C alg hs))) = 32"
      using less True length_combine [of C alg hs] assms by (intro less.hyps) (auto simp: combine_map)
    then show ?thesis using True by (simp add: fold_root.simps [of C alg hs])
  next
    case False
    then show ?thesis using less.prems by (simp add: fold_root.simps [of C alg hs])
  qed
qed

lemma length_in_concat:
  "k < length cs \<Longrightarrow> length (concat (take k cs)) \<le> length (concat cs) \<and> length (cs ! k) \<le> length (concat cs)"
proof (induction cs arbitrary: k)
  case Nil
  then show ?case by simp
next
  case (Cons c cs)
  then show ?case by (cases k) (auto intro: le_trans [OF _ le_add2])
qed

lemma root_hash_for_infos:
  "cs \<noteq> [] \<Longrightarrow> root_hash_for C (chunk_infos C cs alg) alg = hd (fold_root C alg (map (algorithm_hash C alg) cs))"
  using chunk_infos_from_facts(1) [of C alg 0 0 cs]
  by (auto simp: root_hash_for_def chunk_infos_def chunk_infos_from_facts(2))

lemma wf_created:
  assumes "crypto_ok C" "create_manifest C b opts created = Inr (m, cs)" "op_chunk_size opts < 2 ^ 64"
    "length b < 2 ^ 64" "valid_str (op_name opts)"
  shows "wf_manifest m"
proof -
  note f = create_manifest_facts [OF assms(2)]
  let ?alg = "op_hash_algorithm opts"
  have len: "length (algorithm_hash C alg x) = 32" for alg x by (rule algorithm_hash_length [OF assms(1)])
  have infos: "length (mf_chunks m) = length cs" "map ck_hash (mf_chunks m) = map (algorithm_hash C ?alg) cs"
    by (simp_all add: f(7) chunk_infos_def chunk_infos_from_facts)
  have count: "length cs < 2 ^ 64" using length_slice_chunks_le [OF f(1), of b] f(2) assms(4) by simp
  have total: "concat cs = b" using f(1,2) by (simp add: concat_slice_chunks)
  have "wf_chunk_info (mf_chunks m ! k)" if "k < length cs" for k
  proof -
    have "length (concat (take k cs)) \<le> length b" "length (cs ! k) \<le> length b"
      using length_in_concat [OF that] by (simp_all add: total)
    then show ?thesis using that assms(4) count len by (simp add: f(7) chunk_infos_nth wf_chunk_info_def)
  qed
  then have "\<forall>i \<in> set (mf_chunks m). wf_chunk_info i" using infos(1) by (auto simp: in_set_conv_nth)
  moreover have "length (mf_root_hash m) = 32"
  proof -
    have "cs = [] \<longleftrightarrow> mf_chunks m = []" using infos(1) by (metis length_0_conv)
    then show ?thesis using length_root_hash [of C ?alg "map ck_hash (mf_chunks m)"] len infos
      by (auto simp: f(8) root_hash_for_def)
  qed
  moreover have "length (mf_mcid m) = 34" using f(12) len by (auto simp: make_mcid_def)
  ultimately show ?thesis using assms count f infos by (simp add: wf_manifest_def)
qed

subsection \<open>Properties\<close>

text \<open>Chunking. With a non-zero chunk size a manifest is created for any content; its chunks are
  the consecutive slices of the content, each recorded with its index, offset, size and digest,
  their number is the rounded-up quotient, and the content verifies against the manifest.\<close>

theorem created_manifest_describes_content:
  assumes "0 < op_chunk_size opts" "op_chunk_size opts < 2 ^ 64" "length b < 2 ^ 64" "valid_str (op_name opts)"
  shows "\<exists>m cs. create_manifest C b opts created = (Inr (m, cs) :: (Manifest \<times> bytes list, 'e fail) result) \<and> verify_manifest C m b = Inr () \<and>
    concat cs = b \<and> mf_chunk_count m = (length b + op_chunk_size opts - 1) div op_chunk_size opts \<and>
    length (mf_chunks m) = mf_chunk_count m \<and>
    (\<forall>k < mf_chunk_count m. cs ! k = take (op_chunk_size opts) (drop (k * op_chunk_size opts) b) \<and>
       mf_chunks m ! k = \<lparr>ck_index = k, ck_offset = k * op_chunk_size opts, ck_size = length (cs ! k),
         ck_hash = algorithm_hash C (op_hash_algorithm opts) (cs ! k)\<rparr>)"
proof -
  let ?n = "op_chunk_size opts"
  obtain m where m: "create_manifest C b opts created =
      (Inr (m, slice_chunks ?n b) :: (Manifest \<times> bytes list, 'e fail) result)"
    using create_manifest_ok [OF assms] by blast
  note f = create_manifest_facts [OF m]
  have "mf_chunks m ! k = \<lparr>ck_index = k, ck_offset = k * ?n, ck_size = length (slice_chunks ?n b ! k),
         ck_hash = algorithm_hash C (op_hash_algorithm opts) (slice_chunks ?n b ! k)\<rparr>"
    if "k < length (slice_chunks ?n b)" for k
    using that by (simp add: f(7) chunk_infos_nth concat_take_chunks [OF assms(1)])
  then show ?thesis using m verify_created [OF m] assms(1)
    by (intro exI [of _ m] exI [of _ "slice_chunks ?n b"])
      (simp add: f(9) concat_slice_chunks length_slice_chunks [symmetric] nth_slice_chunks f(7)
        chunk_infos_def chunk_infos_from_facts del: One_nat_def)
qed

theorem created_manifest_describes_content_witness:
  "\<exists>m cs. create_manifest toy_crypto [1, 2, 3] \<lparr>op_name = ''n'', op_chunk_size = 2, op_hash_algorithm = Sha256\<rparr> 5 =
      (Inr (m, cs) :: (_, unit fail) result) \<and> mf_chunk_count m = 2 \<and> cs ! 1 = [3]"
proof -
  have "\<exists>m cs. create_manifest toy_crypto [1, 2, 3] \<lparr>op_name = ''n'', op_chunk_size = 2, op_hash_algorithm = Sha256\<rparr> 5 =
      (Inr (m, cs) :: (_, unit fail) result) \<and> mf_chunk_count m = 2 \<and> (\<forall>k < mf_chunk_count m. cs ! k = take 2 (drop (k * 2) [1, 2, 3]))"
    using created_manifest_describes_content [of "\<lparr>op_name = ''n'', op_chunk_size = 2, op_hash_algorithm = Sha256\<rparr>" "[1, 2, 3]"
        toy_crypto 5, where 'e = unit] by (auto simp: ascii_valid_str ascii_def)
  then show ?thesis by force
qed

text \<open>C28: Integrity. A manifest binds its content: two contents that both verify against it are
  equal, unless the hash collides on two of the very strings hashed while computing the two roots
  (the chunks and the pairs of the Merkle fold).\<close>

theorem manifest_binds_content:
  assumes "crypto_ok C" "length b < 2 ^ 64" "length b' < 2 ^ 64"
    "verify_manifest C m b = Inr ()" "verify_manifest C m b' = Inr ()"
    "inj_on (algorithm_hash C (mf_hash_algorithm m))
      (hashed_inputs C (mf_hash_algorithm m) (mf_chunk_size m) b \<union> hashed_inputs C (mf_hash_algorithm m) (mf_chunk_size m) b')"
  shows "b = b'"
proof -
  let ?n = "mf_chunk_size m" and ?alg = "mf_hash_algorithm m"
  let ?cs = "slice_chunks ?n b" and ?cs' = "slice_chunks ?n b'"
  have n: "0 < ?n" using assms(4) by (cases "?n = 0") (simp_all add: verify_manifest_def do_chunk_def split: if_splits)
  have "word_of_nat (length b) = mf_size m" "word_of_nat (length b') = mf_size m"
    using assms(4,5) by (auto simp: verify_manifest_def split: if_splits)
  then have len: "length b = length b'" using assms(2,3) by (metis unat_word_of_nat_u64)
  have roots: "root_hash_for C (chunk_infos C ?cs ?alg) ?alg = root_hash_for C (chunk_infos C ?cs' ?alg) ?alg"
    using assms(4,5) n by (auto simp: verify_manifest_def do_chunk_def Let_def split: if_splits)
  show ?thesis
  proof (cases "b = []")
    case True
    then show ?thesis using len by simp
  next
    case False
    then have ne: "?cs \<noteq> []" "?cs' \<noteq> []" using n len by (auto simp: slice_chunks_eq_Nil)
    have "map (algorithm_hash C ?alg) ?cs = map (algorithm_hash C ?alg) ?cs'"
    proof (rule fold_root_inj [of C ?alg])
      show "hd (fold_root C ?alg (map (algorithm_hash C ?alg) ?cs)) = hd (fold_root C ?alg (map (algorithm_hash C ?alg) ?cs'))"
        using roots ne by (simp add: root_hash_for_infos)
      show "inj_on (algorithm_hash C ?alg) (set (fold_inputs C ?alg (map (algorithm_hash C ?alg) ?cs)) \<union>
          set (fold_inputs C ?alg (map (algorithm_hash C ?alg) ?cs')))"
        using assms(6) by (rule inj_on_subset) (auto simp: hashed_inputs_def)
    qed (use ne n len assms(1) in \<open>auto simp: length_slice_chunks algorithm_hash_length\<close>)
    moreover have "inj_on (algorithm_hash C ?alg) (set ?cs \<union> set ?cs')"
      using assms(6) by (rule inj_on_subset) (auto simp: hashed_inputs_def)
    ultimately have "?cs = ?cs'" by (simp add: map_inj_on)
    with n show ?thesis by (rule slice_chunks_inj)
  qed
qed

theorem manifest_binds_content_witness:
  "\<exists>m b. verify_manifest toy_crypto m b = Inr () \<and> length b = 2 \<and>
     inj_on (algorithm_hash toy_crypto (mf_hash_algorithm m)) (hashed_inputs toy_crypto (mf_hash_algorithm m) (mf_chunk_size m) b) \<and> b = [1, 2]"
proof -
  let ?opts = "\<lparr>op_name = ''n'', op_chunk_size = 2, op_hash_algorithm = Sha256\<rparr>"
  obtain m where m: "create_manifest toy_crypto [1, 2] ?opts 5 = (Inr (m, slice_chunks 2 [1, 2]) :: (_, unit fail) result)"
    using create_manifest_ok [of ?opts "[1, 2]" toy_crypto 5] by (auto simp: ascii_valid_str ascii_def)
  note v = verify_created [OF m]
  have one: "slice_chunks 2 [1, 2 :: u8] = [[1, 2]]" by (simp add: slice_chunks.simps)
  have inj: "inj_on (algorithm_hash toy_crypto (mf_hash_algorithm m)) (hashed_inputs toy_crypto (mf_hash_algorithm m) (mf_chunk_size m) [1, 2])"
    using create_manifest_facts(4) [OF m] by (simp add: hashed_inputs_def one fold_inputs.simps)
  have "[1, 2 :: u8] = [1, 2]"
    by (rule manifest_binds_content [OF toy_crypto_ok _ _ v v]) (use inj in simp_all)
  with v inj show ?thesis by (intro exI [of _ m] exI [of _ "[1, 2]"]) simp
qed

text \<open>Wire form. A manifest of the code's types comes back from the wire as it was, and every
  created manifest is one.\<close>

theorem manifest_wire_roundtrip:
  assumes "crypto_ok C" "create_manifest C b opts created = Inr (m, cs)" "op_chunk_size opts < 2 ^ 64"
    "length b < 2 ^ 64" "valid_str (op_name opts)"
  shows "from_wire (normal (to_wire m)) = Inr m"
  by (rule manifest_roundtrip [OF wf_created [OF assms]])

theorem manifest_wire_roundtrip_witness:
  "\<exists>m. from_wire (normal (to_wire m)) = Inr m \<and> mf_size m = 3"
proof -
  let ?opts = "\<lparr>op_name = ''n'', op_chunk_size = 2, op_hash_algorithm = Sha256\<rparr>"
  obtain m where m: "create_manifest toy_crypto [1, 2, 3] ?opts 5 = (Inr (m, slice_chunks 2 [1, 2, 3]) :: (_, unit fail) result)"
    using create_manifest_ok [of ?opts "[1, 2, 3]" toy_crypto 5] by (auto simp: ascii_valid_str ascii_def)
  have "from_wire (normal (to_wire m)) = Inr m"
    by (rule manifest_wire_roundtrip [OF toy_crypto_ok m]) (simp_all add: ascii_valid_str ascii_def)
  then show ?thesis using create_manifest_facts(3) [OF m] by auto
qed

lemma from_wire_facts:
  assumes "from_wire v = Inr m"
  shows "mf_chunk_size m \<noteq> 0" "length (mf_chunks m) = mf_chunk_count m" "length (mf_mcid m) = 34"
    "length (mf_root_hash m) = 32"
  using assms by (auto simp: from_wire_def wire_field_def bindR_eq_Inr read_field_eq_Inr as_array_length
    split: if_splits)

text \<open>C40: Untrusted manifests. A manifest that was accepted from the wire can be used without a
  panic: every index below its chunk count has an address, verifying any content returns, and its
  digests and address have their sizes.\<close>

theorem parsed_manifest_is_usable:
  assumes "from_wire v = Inr m"
  shows "(\<forall>k < mf_chunk_count m. chunk_mcid m k \<noteq> None) \<and> verify_manifest C m b \<noteq> Inl Panic \<and>
    length (mf_mcid m) = 34 \<and> length (mf_root_hash m) = 32"
  using from_wire_facts [OF assms]
  by (auto simp: chunk_mcid_def verify_manifest_def do_chunk_def Let_def)

theorem parsed_manifest_is_usable_witness:
  "\<exists>m. from_wire (normal (to_wire m)) = Inr m \<and> mf_chunk_count m = 2 \<and> chunk_mcid m 1 \<noteq> None"
proof -
  let ?opts = "\<lparr>op_name = ''n'', op_chunk_size = 2, op_hash_algorithm = Sha256\<rparr>"
  obtain m where m: "create_manifest toy_crypto [1, 2, 3] ?opts 5 = (Inr (m, slice_chunks 2 [1, 2, 3]) :: (_, unit fail) result)"
    using create_manifest_ok [of ?opts "[1, 2, 3]" toy_crypto 5] by (auto simp: ascii_valid_str ascii_def)
  have w: "from_wire (normal (to_wire m)) = Inr m"
    by (rule manifest_roundtrip [OF wf_created [OF toy_crypto_ok m]]) (simp_all add: ascii_valid_str ascii_def)
  have "mf_chunk_count m = 2" using create_manifest_facts(9) [OF m] by (simp add: length_slice_chunks)
  with parsed_manifest_is_usable [OF w, of toy_crypto "[]"] w show ?thesis by auto
qed

end
