(* ===== verification/Content.thy ===== *)
theory Content
  imports Manifest Connection
begin

section \<open>Content: storing and fetching by content address (\<open>src/content.rs\<close>)\<close>

text \<open>
  \<open>put\<close> and \<open>get\<close> over one dedicated stream, one call in flight at a time. What opening the
  stream returns is an argument (\<open>None\<close> when it fails), which a caller fills with what the connection of
  the session opens. The state threaded through the calls is
  the stream and the counter of the environment's draws; the backoff between attempts has no
  state.
\<close>

type_synonym content_state = "FrameStream \<times> nat"

definition bindS ::
  "('a, 'e fail) result \<times> content_state \<Rightarrow> ('a \<Rightarrow> content_state \<Rightarrow> ('b, 'e fail) result \<times> content_state)
    \<Rightarrow> ('b, 'e fail) result \<times> content_state" where
  "bindS r f = (case r of (Inl e, s) \<Rightarrow> (Inl e, s) | (Inr x, s) \<Rightarrow> f x s)"

lemma bindS_simps [simp, result_simps]:
  "bindS (Inl e, s) f = (Inl e, s)" "bindS (Inr x, s) f = f x s"
  by (simp_all add: bindS_def)

definition CONTENT_REALM :: bytes where
  "CONTENT_REALM = replicate 32 0"

definition BLOCK_TIMEOUT :: u64 where
  "BLOCK_TIMEOUT = 15000"

definition MANIFEST_TIMEOUT :: u64 where
  "MANIFEST_TIMEOUT = 5000"

definition MAX_ATTEMPTS :: nat where
  "MAX_ATTEMPTS = 3"

datatype PutError =
    PutOpenStream
  | PutCall CallError
  | PutRemote u8 string "string option"
  | PutUnexpectedReply Value
  | PutHashMismatch

datatype GetError =
    GetOpenStream
  | GetCall CallError
  | GetRemote u8 string "string option"
  | GetUnexpectedReply Value
  | GetNotFound
  | GetManifestDecode FromWireError
  | GetHashMismatch
  | GetVerify ManifestVerifyError

subsection \<open>Calls with retry\<close>

definition retryable_outcome :: "(CallResponse, CallError fail) result \<Rightarrow> bool" where
  "retryable_outcome outcome =
    (case outcome of
       Inr (CallResponse.CallError code _ _ _) \<Rightarrow>
         (case code_from_u8 code of Some c \<Rightarrow> is_retryable c | None \<Rightarrow> False)
     | _ \<Rightarrow> False)"

function call_attempts ::
  "nat \<Rightarrow> crypto \<Rightarrow> env \<Rightarrow> string \<Rightarrow> Value \<Rightarrow> u64 \<Rightarrow> KeyPair \<Rightarrow> content_state
    \<Rightarrow> (CallResponse, CallError fail) result \<times> content_state" where
  "call_attempts attempt C E procedure payload timeout kp (st, n) =
    (if env_overflow_checks E \<and> 2 ^ 64 \<le> uint (env_now_ms E n) + uint timeout then (Inl Panic, st, n)
     else
       case fs_call C E n st procedure CONTENT_REALM payload (uint (env_now_ms E n + timeout)) kp of
         (outcome, st', n') \<Rightarrow>
           if attempt < MAX_ATTEMPTS \<and> retryable_outcome outcome
           then call_attempts (attempt + 1) C E procedure payload timeout kp (st', n')
           else (outcome, st', n'))"
  by pat_completeness auto

termination
  by (relation "measure (\<lambda>(attempt, _). MAX_ATTEMPTS - attempt)") auto

declare call_attempts.simps [simp del]

definition call_with_retry ::
  "crypto \<Rightarrow> env \<Rightarrow> string \<Rightarrow> Value \<Rightarrow> u64 \<Rightarrow> KeyPair \<Rightarrow> content_state
    \<Rightarrow> (CallResponse, CallError fail) result \<times> content_state" where
  "call_with_retry = call_attempts 1"

definition map_err_call ::
  "(CallError \<Rightarrow> 'e) \<Rightarrow> (CallResponse, CallError fail) result \<times> content_state
    \<Rightarrow> (CallResponse, 'e fail) result \<times> content_state" where
  "map_err_call g r = (case r of (x, s) \<Rightarrow> (map_err (lift_fail g) x, s))"

subsection \<open>The four procedures\<close>

definition put_block ::
  "crypto \<Rightarrow> env \<Rightarrow> KeyPair \<Rightarrow> Mcid \<Rightarrow> bytes \<Rightarrow> content_state \<Rightarrow> (unit, PutError fail) result \<times> content_state" where
  "put_block C E kp mcid b s =
    bindS (map_err_call PutCall (call_with_retry C E ''_content.put_block''
             (Map [(Text ''mcid'', Bytes mcid), (Text ''payload'', Bytes b)]) BLOCK_TIMEOUT kp s))
      (\<lambda>response s.
        ((case response of
            CallResult (Text t) _ \<Rightarrow>
              if t = ''ok'' then Inr ()
              else if t = ''hash_mismatch'' then Inl (Err PutHashMismatch)
              else Inl (Err (PutUnexpectedReply (Text t)))
          | CallResult other _ \<Rightarrow> Inl (Err (PutUnexpectedReply other))
          | CallResponse.CallError code name _ detail \<Rightarrow> Inl (Err (PutRemote code name detail))), s))"

definition put_manifest ::
  "crypto \<Rightarrow> env \<Rightarrow> KeyPair \<Rightarrow> Manifest \<Rightarrow> content_state \<Rightarrow> (unit, PutError fail) result \<times> content_state" where
  "put_manifest C E kp m s =
    bindS (map_err_call PutCall (call_with_retry C E ''_content.put_manifest''
             (Map [(Text ''manifest'', to_wire m)]) MANIFEST_TIMEOUT kp s))
      (\<lambda>response s.
        ((case response of
            CallResult (Text t) _ \<Rightarrow> if t = ''ok'' then Inr () else Inl (Err (PutUnexpectedReply (Text t)))
          | CallResult other _ \<Rightarrow> Inl (Err (PutUnexpectedReply other))
          | CallResponse.CallError code name _ detail \<Rightarrow> Inl (Err (PutRemote code name detail))), s))"

definition get_block ::
  "crypto \<Rightarrow> env \<Rightarrow> KeyPair \<Rightarrow> Mcid \<Rightarrow> content_state \<Rightarrow> (bytes, GetError fail) result \<times> content_state" where
  "get_block C E kp mcid s =
    bindS (map_err_call GetCall (call_with_retry C E ''_content.get_block''
             (Map [(Text ''mcid'', Bytes mcid)]) BLOCK_TIMEOUT kp s))
      (\<lambda>response s.
        ((case response of
            CallResult (Bytes b) _ \<Rightarrow> Inr b
          | CallResult (Text t) _ \<Rightarrow>
              if t = ''not_found'' then Inl (Err GetNotFound) else Inl (Err (GetUnexpectedReply (Text t)))
          | CallResult other _ \<Rightarrow> Inl (Err (GetUnexpectedReply other))
          | CallResponse.CallError code name _ detail \<Rightarrow> Inl (Err (GetRemote code name detail))), s))"

definition get_manifest ::
  "crypto \<Rightarrow> env \<Rightarrow> KeyPair \<Rightarrow> Mcid \<Rightarrow> content_state \<Rightarrow> (Manifest, GetError fail) result \<times> content_state" where
  "get_manifest C E kp mcid s =
    bindS (map_err_call GetCall (call_with_retry C E ''_content.get_manifest''
             (Map [(Text ''mcid'', Bytes mcid)]) MANIFEST_TIMEOUT kp s))
      (\<lambda>response s.
        ((case response of
            CallResult (Map ps) _ \<Rightarrow> map_err (\<lambda>e. Err (GetManifestDecode e)) (from_wire (Map ps))
          | CallResult (Text t) _ \<Rightarrow>
              if t = ''not_found'' then Inl (Err GetNotFound) else Inl (Err (GetUnexpectedReply (Text t)))
          | CallResult other _ \<Rightarrow> Inl (Err (GetUnexpectedReply other))
          | CallResponse.CallError code name _ detail \<Rightarrow> Inl (Err (GetRemote code name detail))), s))"

subsection \<open>Put\<close>

fun put_chunks ::
  "crypto \<Rightarrow> env \<Rightarrow> KeyPair \<Rightarrow> Manifest \<Rightarrow> nat \<Rightarrow> bytes list \<Rightarrow> content_state
    \<Rightarrow> (unit, PutError fail) result \<times> content_state" where
  "put_chunks C E kp m index [] s = (Inr (), s)"
| "put_chunks C E kp m index (chunk # rest) s =
    (case chunk_mcid m index of
       None \<Rightarrow> (Inl Panic, s)
     | Some mcid \<Rightarrow> bindS (put_block C E kp mcid chunk s) (\<lambda>_ s. put_chunks C E kp m (index + 1) rest s))"

text \<open>\<open>created\<close> is the second the manifest is stamped with.\<close>

definition content_put ::
  "crypto \<Rightarrow> env \<Rightarrow> nat \<Rightarrow> KeyPair \<Rightarrow> FrameStream option \<Rightarrow> u64 \<Rightarrow> bytes \<Rightarrow> string
    \<Rightarrow> (Mcid, PutError fail) result \<times> content_state option" where
  "content_put C E n kp opened created b name =
    (case opened of
       None \<Rightarrow> (Inl (Err PutOpenStream), None)
     | Some st \<Rightarrow>
         if length b \<le> DEFAULT_CHUNK_SIZE then
           (let mcid = block_mcid C b in
            case put_block C E kp mcid b (st, n) of
              (r, s) \<Rightarrow> (bindR r (\<lambda>_. Inr mcid), Some s))
         else
           (case create_manifest C b (CreateOptions_default\<lparr>op_name := name\<rparr>) created of
              Inl e \<Rightarrow> (Inl e, Some (st, n))
            | Inr (m, cs) \<Rightarrow>
                (case bindS (put_chunks C E kp m 0 cs (st, n)) (\<lambda>_ s.
                        bindS (put_manifest C E kp m s) (\<lambda>_ s. (Inr (mf_mcid m), s))) of
                   (r, s) \<Rightarrow> (r, Some s))))"

subsection \<open>Get\<close>

fun get_chunks ::
  "crypto \<Rightarrow> env \<Rightarrow> KeyPair \<Rightarrow> Manifest \<Rightarrow> nat list \<Rightarrow> bytes \<Rightarrow> content_state
    \<Rightarrow> (bytes, GetError fail) result \<times> content_state" where
  "get_chunks C E kp m [] acc s = (Inr acc, s)"
| "get_chunks C E kp m (index # rest) acc s =
    (case chunk_mcid m index of
       None \<Rightarrow> (Inl Panic, s)
     | Some mcid \<Rightarrow>
         bindS (get_block C E kp mcid s) (\<lambda>chunk s.
           if block_mcid C chunk \<noteq> mcid then (Inl (Err GetHashMismatch), s)
           else get_chunks C E kp m rest (acc @ chunk) s))"

definition content_get ::
  "crypto \<Rightarrow> env \<Rightarrow> nat \<Rightarrow> KeyPair \<Rightarrow> FrameStream option \<Rightarrow> Mcid \<Rightarrow> (bytes, GetError fail) result" where
  "content_get C E n kp opened mcid =
    (case opened of
       None \<Rightarrow> Inl (Err GetOpenStream)
     | Some st \<Rightarrow>
         if \<not> mcid_is_chunked mcid then
           fst (bindS (get_block C E kp mcid (st, n)) (\<lambda>b s.
             if block_mcid C b \<noteq> mcid then (Inl (Err GetHashMismatch), s) else (Inr b, s)))
         else
           fst (bindS (get_manifest C E kp mcid (st, n)) (\<lambda>m s.
             bindS (get_chunks C E kp m [0..<mf_chunk_count m] [] s) (\<lambda>b s.
               (bindR (map_err (lift_fail GetVerify) (verify_manifest C m b)) (\<lambda>_. Inr b), s)))))"

end
