(* ===== verification/ContentProps.thy ===== *)
theory ContentProps
  imports Content ManifestProps
begin

section \<open>ContentProps: what put and get promise\<close>

text \<open>
  What \<open>get\<close> returns has been checked against its address (a block) or against the manifest it
  was served with (chunked content); it returns what a station serves; and it does not check the
  manifest against the address it was asked for.
\<close>

subsection \<open>A station that answers\<close>

text \<open>
  The bytes of a station that answers the calls to come, in order, with these payloads: the call
  whose id is drawn at each of these counters of the environment, or at consecutive ones.
\<close>

fun answers_at :: "env \<Rightarrow> (nat \<times> Value) list \<Rightarrow> bytes \<Rightarrow> bool" where
  "answers_at E [] b \<longleftrightarrow> b = []"
| "answers_at E ((n, p) # ps) b \<longleftrightarrow>
     (\<exists>g w rest responder. frame_sent_as g w \<and> b = w @ rest \<and> frame_call_id (normal g) = Some (env_id E n) \<and>
        parse_call_response (normal g) = Inr (CallResult p responder) \<and> answers_at E ps rest)"

definition frames_answer :: "env \<Rightarrow> nat \<Rightarrow> Value list \<Rightarrow> bytes \<Rightarrow> bool" where
  "frames_answer E n ps = answers_at E (enumerate n ps)"

lemma frames_answer_simps [simp]:
  "frames_answer E n [] b \<longleftrightarrow> b = []"
  "frames_answer E n (p # ps) b \<longleftrightarrow>
     (\<exists>g w rest responder. frame_sent_as g w \<and> b = w @ rest \<and> frame_call_id (normal g) = Some (env_id E n) \<and>
        parse_call_response (normal g) = Inr (CallResult p responder) \<and> frames_answer E (n + 1) ps rest)"
  by (simp_all add: frames_answer_def)

definition serves_at :: "env \<Rightarrow> (nat \<times> Value) list \<Rightarrow> FrameStream \<Rightarrow> bool" where
  "serves_at E ps st \<longleftrightarrow> quiet st \<and> fs_writes st = [] \<and> answers_at E ps (incoming st)"

definition serves :: "env \<Rightarrow> nat \<Rightarrow> Value list \<Rightarrow> FrameStream \<Rightarrow> bool" where
  "serves E n ps st \<longleftrightarrow> quiet st \<and> fs_writes st = [] \<and> frames_answer E n ps (incoming st)"

lemma serves_eq: "serves E n ps st \<longleftrightarrow> serves_at E (enumerate n ps) st"
  by (simp add: serves_def serves_at_def frames_answer_def)

lemma serves_Cons: "serves E n (p # ps) st \<longleftrightarrow> serves_at E ((n, p) # enumerate (n + 1) ps) st"
  by (simp add: serves_eq)

lemma serves_at_sent [simp]: "serves_at E ps (st\<lparr>fs_sent := u\<rparr>) \<longleftrightarrow> serves_at E ps st"
  by (simp add: serves_at_def quiet_def incoming_def)

lemma answers_at_exist:
  assumes "crypto_ok C" "wf_keypair ks" "env_ok E"
  shows "\<forall>(n, p) \<in> set ps. outcome_fits (HandlerOk p) \<Longrightarrow> \<exists>b. answers_at E (map (\<lambda>(n, p). (n, normal p)) ps) b"
proof (induction ps)
  case Nil
  then show ?case by simp
next
  case (Cons q ps)
  obtain n p where q: "q = (n, p)" by (cases q)
  obtain b where b: "answers_at E (map (\<lambda>(n, p). (n, normal p)) ps) b" using Cons by auto
  have id: "length (env_id E n) = 16" using assms(3) by (simp add: env_ok_def)
  let ?v = "result_value (ResultSpec_new (env_id E n) p (node_id C ks)) (env_frame_id E n) 0"
  have rep: "replies_with C ks (env_id E n) (CallResult (normal p) (node_id C ks)) ?v"
    by (rule result_replies [OF assms id]) (use Cons.prems q in simp)
  then have "bounded (MAX_FRAME_BYTES - 512) MAX_NESTING_DEPTH ?v" by (simp add: replies_with_def)
  then have "bounded (MAX_FRAME_BYTES - 146) MAX_NESTING_DEPTH ?v" by (rule bounded_mono) (simp_all add: MAX_FRAME_BYTES_def)
  then obtain g w where g: "(sign_frame C ?v ks :: (Value, unit fail) result) = Inr g" "frame_sent_as g w"
    by (rule send_signed_ok [OF assms(1,2), of _ "fresh_stream []"]) simp
  have "frame_call_id (normal g) = Some (env_id E n)" "parse_call_response (normal g) = Inr (CallResult (normal p) (node_id C ks))"
    using rep g(1) by (simp_all add: replies_with_def)
  with g(2) b have "answers_at E (map (\<lambda>(n, p). (n, normal p)) (q # ps)) (w @ b)" by (auto simp: q)
  then show ?case by blast
qed

lemma map_enumerate: "map (\<lambda>(n, p). (n, f p)) (enumerate n ps) = enumerate n (map f ps)"
  by (induction ps arbitrary: n) simp_all

lemma answers_exist:
  assumes "crypto_ok C" "wf_keypair ks" "env_ok E" "\<forall>p \<in> set ps. outcome_fits (HandlerOk p)"
  shows "\<exists>b. frames_answer E n (map normal ps) b"
proof -
  have "\<forall>(m, p) \<in> set (enumerate n ps). outcome_fits (HandlerOk p)" using assms(4) by (auto simp: enumerate_eq_zip dest: set_zip_rightD)
  from answers_at_exist [OF assms(1-3) this] show ?thesis by (simp add: frames_answer_def map_enumerate)
qed

lemma serves_fresh: "frames_answer E n ps b \<Longrightarrow> serves E n ps (fresh_stream [ReadChunk b])"
  by (simp add: serves_def)

subsection \<open>Calls that are answered\<close>

lemma fs_call_served:
  assumes "crypto_ok C" "wf_keypair kp" "env_ok E" "call_fits procedure realm payload deadline_ms []" "serves_at E ((n, p) # ps) st"
  obtains st' responder where "fs_call C E n st procedure realm payload deadline_ms kp = (Inr (CallResult p responder), st', n + 1)"
    "serves_at E ps st'"
proof -
  obtain g w rest responder where a: "frame_sent_as g w" "incoming st = w @ rest" "frame_call_id (normal g) = Some (env_id E n)"
    "parse_call_response (normal g) = Inr (CallResult p responder)" "answers_at E ps rest"
    using assms(5) by (auto simp: serves_at_def)
  obtain u where call: "\<And>st. fs_writes st = [] \<Longrightarrow> fs_call_with_ucan C E n st procedure realm payload deadline_ms kp [] =
      (case await_call_response (env_id E n) (st\<lparr>fs_sent := fs_sent st @ u\<rparr>) of (r, st'') \<Rightarrow> (r, st'', n + 1))"
    using call_sent_ok [OF assms(1-4), of n] by blast
  let ?st = "st\<lparr>fs_sent := fs_sent st @ u\<rparr>"
  have "quiet ?st" "incoming ?st = w @ rest" "fs_writes ?st = []"
    using assms(5) a(2) by (simp_all add: serves_at_def quiet_def incoming_def)
  then obtain st' where st': "recv_frame ?st = (Inr (normal g), st')" "quiet st'" "incoming st' = rest" "fs_writes st' = []"
    using recv_frame_whole [OF a(1), of ?st rest] by metis
  then have "await_call_response (env_id E n) ?st = (Inr (CallResult p responder), st')"
    using a(3,4) by (simp add: await_call_response.simps)
  moreover have "fs_writes st = []" using assms(5) by (simp add: serves_at_def)
  ultimately have "fs_call C E n st procedure realm payload deadline_ms kp = (Inr (CallResult p responder), st', n + 1)"
    by (simp add: fs_call_def call)
  moreover have "serves_at E ps st'" using st' a(5) by (simp add: serves_at_def)
  ultimately show ?thesis by (rule that)
qed

lemma fs_call_answered:
  assumes "crypto_ok C" "wf_keypair kp" "env_ok E" "call_fits procedure realm payload deadline_ms []" "serves E n (p # ps) st"
  obtains st' responder where "fs_call C E n st procedure realm payload deadline_ms kp = (Inr (CallResult p responder), st', n + 1)"
    "serves E (n + 1) ps st'"
  using fs_call_served [OF assms(1-4) assms(5) [unfolded serves_Cons]] that by (simp add: serves_eq) blast

lemma content_timeouts:
  "BLOCK_TIMEOUT \<in> {BLOCK_TIMEOUT, MANIFEST_TIMEOUT}" "MANIFEST_TIMEOUT \<in> {BLOCK_TIMEOUT, MANIFEST_TIMEOUT}"
  by simp_all

lemma content_timeout_ok:
  assumes "env_ok E" "timeout \<in> {BLOCK_TIMEOUT, MANIFEST_TIMEOUT}"
  shows "\<not> (env_overflow_checks E \<and> 2 ^ 64 \<le> uint (env_now_ms E n) + uint timeout)"
proof
  assume o: "env_overflow_checks E \<and> 2 ^ 64 \<le> uint (env_now_ms E n) + uint timeout"
  have "uint timeout \<le> 15000" using assms(2) by (auto simp: BLOCK_TIMEOUT_def MANIFEST_TIMEOUT_def)
  moreover have "uint (env_now_ms E n) + 15000 < 2 ^ 64" using o assms(1) by (simp only: env_ok_def simp_thms)
  ultimately show False using o by linarith
qed

lemma content_call_answered:
  assumes "crypto_ok C" "wf_keypair kp" "env_ok E" "ascii procedure" "length procedure \<le> 64" "frame_ok payload"
    "vdepth payload < 128" "esize payload \<le> wire_room - 1024" "serves E n (p # ps) st" "timeout \<in> {BLOCK_TIMEOUT, MANIFEST_TIMEOUT}"
  obtains st' responder where "call_with_retry C E procedure payload timeout kp (st, n) = (Inr (CallResult p responder), st', n + 1)"
    "serves E (n + 1) ps st'"
proof -
  have "call_fits procedure CONTENT_REALM payload (uint (env_now_ms E n + timeout)) []"
    using assms(4-8) frame_ok_wfv
    by (simp add: call_fits_def CONTENT_REALM_def ascii_valid_str in_range_def wire_room_def MAX_FRAME_BYTES_def)
  then obtain st' responder where "fs_call C E n st procedure CONTENT_REALM payload (uint (env_now_ms E n + timeout)) kp =
      (Inr (CallResult p responder), st', n + 1)" "serves E (n + 1) ps st'"
    by (rule fs_call_answered [OF assms(1-3) _ assms(9)])
  moreover from this(1) have "call_with_retry C E procedure payload timeout kp (st, n) = (Inr (CallResult p responder), st', n + 1)"
    unfolding call_with_retry_def call_attempts.simps [of 1] if_not_P [OF content_timeout_ok [OF assms(3,10)]]
    by (simp add: retryable_outcome_def)
  ultimately show ?thesis using that by blast
qed

lemma mcid_payload_ok:
  assumes "length mcid \<le> 64"
  shows "frame_ok (Map [(Text ''mcid'', Bytes mcid)])" "vdepth (Map [(Text ''mcid'', Bytes mcid)]) < 128"
    "esize (Map [(Text ''mcid'', Bytes mcid)]) \<le> wire_room - 1024"
  using assms by (simp_all add: frame_ok_Map ascii_def wire_room_def MAX_FRAME_BYTES_def)

lemma content_procedures:
  "ascii ''_content.get_block''" "length ''_content.get_block'' \<le> 64"
  "ascii ''_content.get_manifest''" "length ''_content.get_manifest'' \<le> 64"
  "ascii ''_content.put_block''" "length ''_content.put_block'' \<le> 64"
  "ascii ''_content.put_manifest''" "length ''_content.put_manifest'' \<le> 64"
  by (simp_all add: ascii_def)

lemma get_block_answered:
  assumes "crypto_ok C" "wf_keypair kp" "env_ok E" "length mcid \<le> 64" "serves E n (Bytes b # ps) st"
  obtains st' where "get_block C E kp mcid (st, n) = (Inr b, st', n + 1)" "serves E (n + 1) ps st'"
proof -
  obtain st' responder where "call_with_retry C E ''_content.get_block'' (Map [(Text ''mcid'', Bytes mcid)]) BLOCK_TIMEOUT kp (st, n) =
      (Inr (CallResult (Bytes b) responder), st', n + 1)" "serves E (n + 1) ps st'"
    by (rule content_call_answered [OF assms(1-3) content_procedures(1,2) mcid_payload_ok [OF assms(4)] assms(5) content_timeouts(1)])
  then show ?thesis using that by (simp add: get_block_def map_err_call_def)
qed

lemma get_manifest_answered:
  assumes "crypto_ok C" "wf_keypair kp" "env_ok E" "length mcid \<le> 64" "wf_manifest m" "serves E n (normal (to_wire m) # ps) st"
  obtains st' where "get_manifest C E kp mcid (st, n) = (Inr m, st', n + 1)" "serves E (n + 1) ps st'"
proof -
  obtain st' responder where c: "call_with_retry C E ''_content.get_manifest'' (Map [(Text ''mcid'', Bytes mcid)]) MANIFEST_TIMEOUT kp (st, n) =
      (Inr (CallResult (normal (to_wire m)) responder), st', n + 1)" "serves E (n + 1) ps st'"
    by (rule content_call_answered [OF assms(1-3) content_procedures(3,4) mcid_payload_ok [OF assms(4)] assms(6) content_timeouts(2)])
  obtain qs where qs: "normal (to_wire m) = Map qs" by (simp add: to_wire_def)
  have "from_wire (Map qs) = Inr m" using manifest_roundtrip [OF assms(5)] by (simp add: qs)
  then show ?thesis using that c by (simp add: get_manifest_def map_err_call_def qs)
qed

lemma get_chunks_served:
  assumes "crypto_ok C" "wf_keypair kp" "env_ok E" "k + length cs \<le> length (mf_chunks m)"
    "\<forall>j < length cs. ck_hash (mf_chunks m ! (k + j)) = blake3 C (cs ! j)" "\<forall>j < length cs. length (blake3 C (cs ! j)) = 32"
    "serves E n (map Bytes cs) st"
  shows "\<exists>st'. get_chunks C E kp m [k..<k + length cs] acc (st, n) = (Inr (acc @ concat cs), st', n + length cs)"
  using assms(4-)
proof (induction cs arbitrary: k acc st n)
  case Nil
  then show ?case by simp
next
  case (Cons c cs)
  let ?mcid = "make_mcid CODEC_RAW (ck_hash (mf_chunks m ! k))"
  have mcid: "chunk_mcid m k = Some ?mcid" using Cons.prems(1) by (simp add: chunk_mcid_def)
  have hash: "block_mcid C c = ?mcid" "length ?mcid \<le> 64"
    using Cons.prems(2) [rule_format, of 0] Cons.prems(3) [rule_format, of 0]
    by (simp_all add: block_mcid_def make_mcid_def)
  have "serves E n (Bytes c # map Bytes cs) st" using Cons.prems(4) by simp
  then obtain st' where st': "get_block C E kp ?mcid (st, n) = (Inr c, st', n + 1)" "serves E (n + 1) (map Bytes cs) st'"
    by (rule get_block_answered [OF assms(1-3) hash(2)])
  have "\<exists>st''. get_chunks C E kp m [Suc k..<Suc k + length cs] (acc @ c) (st', n + 1) =
      (Inr ((acc @ c) @ concat cs), st'', n + 1 + length cs)"
  proof (rule Cons.IH)
    show "Suc k + length cs \<le> length (mf_chunks m)" using Cons.prems(1) by simp
    show "\<forall>j < length cs. ck_hash (mf_chunks m ! (Suc k + j)) = blake3 C (cs ! j)"
      using Cons.prems(2) by (metis Suc_less_eq add_Suc add_Suc_right length_Cons nth_Cons_Suc)
    show "\<forall>j < length cs. length (blake3 C (cs ! j)) = 32"
      using Cons.prems(3) by (metis Suc_less_eq length_Cons nth_Cons_Suc)
  qed (rule st'(2))
  moreover have "[k..<k + length (c # cs)] = k # [Suc k..<Suc k + length cs]" by (simp add: upt_conv_Cons del: upt_Suc)
  ultimately show ?case by (simp add: mcid st'(1) hash(1) del: upt_Suc)
qed

text \<open>A manifest over BLAKE3 and the chunks it was created with.\<close>

lemma get_served:
  assumes "crypto_ok C" "wf_keypair kp" "env_ok E" "length mcid = 34" "mcid_is_chunked mcid"
    "create_manifest C b opts created = Inr (m, cs)" "op_hash_algorithm opts = Blake3" "op_chunk_size opts < 2 ^ 64"
    "length b < 2 ^ 64" "valid_str (op_name opts)" "serves E n (normal (to_wire m) # map Bytes cs) st"
  shows "content_get C E n kp (Some st) mcid = Inr b"
proof -
  note f = create_manifest_facts [OF assms(6)]
  have wf: "wf_manifest m" by (rule wf_created [OF assms(1,6,8-10)])
  have mcid: "length mcid \<le> 64" using assms(4) by simp
  obtain st' where st': "get_manifest C E kp mcid (st, n) = (Inr m, st', n + 1)" "serves E (n + 1) (map Bytes cs) st'"
    by (rule get_manifest_answered [OF assms(1-3) mcid wf assms(11)])
  have chunks: "length (mf_chunks m) = length cs" "\<forall>j < length cs. ck_hash (mf_chunks m ! j) = blake3 C (cs ! j)"
    by (simp_all add: f(7) assms(7) chunk_infos_nth) (simp add: chunk_infos_def chunk_infos_from_facts)
  have "\<exists>st''. get_chunks C E kp m [0..<0 + length cs] [] (st', n + 1) = (Inr ([] @ concat cs), st'', n + 1 + length cs)"
    by (rule get_chunks_served [OF assms(1-3) _ _ _ st'(2)]) (simp_all add: chunks crypto_okD [OF assms(1)])
  then obtain st'' where st'': "get_chunks C E kp m [0..<length cs] [] (st', n + 1) = (Inr b, st'', n + 1 + length cs)"
    using f(1,2) by (auto simp: concat_slice_chunks)
  show ?thesis using assms(5) verify_created [OF assms(6)] by (simp add: content_get_def st'(1) f(9) st'' [simplified])
qed

subsection \<open>What get has checked\<close>

lemma get_chunks_checked:
  "get_chunks C E kp m ks acc s = (Inr b, s') \<Longrightarrow>
    \<exists>cs. b = acc @ concat cs \<and> list_all2 (\<lambda>k c. chunk_mcid m k = Some (block_mcid C c)) ks cs"
proof (induction ks arbitrary: acc s)
  case Nil
  then show ?case by (intro exI [of _ "[]"]) simp
next
  case (Cons k ks)
  obtain mcid where mcid: "chunk_mcid m k = Some mcid" using Cons.prems by (auto split: option.splits)
  obtain x s1 where x: "get_block C E kp mcid s = (x, s1)" by (cases "get_block C E kp mcid s")
  obtain c where c: "x = Inr c" using Cons.prems mcid x by (cases x) simp_all
  then have "block_mcid C c = mcid" "get_chunks C E kp m ks (acc @ c) s1 = (Inr b, s')"
    using Cons.prems mcid x by (auto split: if_splits)
  with Cons.IH obtain cs where "b = (acc @ c) @ concat cs" "list_all2 (\<lambda>k c. chunk_mcid m k = Some (block_mcid C c)) ks cs"
    by blast
  with mcid \<open>block_mcid C c = mcid\<close> show ?case by (intro exI [of _ "c # cs"]) simp
qed

lemma get_chunked_checked:
  assumes "content_get C E n kp (Some st) mcid = Inr b" "mcid_is_chunked mcid"
  obtains m cs s1 s2 where "get_manifest C E kp mcid (st, n) = (Inr m, s1)"
    "get_chunks C E kp m [0..<mf_chunk_count m] [] s1 = (Inr b, s2)" "verify_manifest C m b = Inr ()"
proof -
  obtain x s1 where x: "get_manifest C E kp mcid (st, n) = (x, s1)" by (cases "get_manifest C E kp mcid (st, n)")
  obtain m where m: "x = Inr m" using assms x by (cases x) (simp_all add: content_get_def)
  obtain y s2 where y: "get_chunks C E kp m [0..<mf_chunk_count m] [] s1 = (y, s2)"
    by (cases "get_chunks C E kp m [0..<mf_chunk_count m] [] s1")
  obtain d where d: "y = Inr d" using assms x m y by (cases y) (simp_all add: content_get_def)
  have "d = b" "verify_manifest C m b = Inr ()" using assms x m y d by (auto simp: content_get_def bindR_eq_Inr)
  with that x y m d show ?thesis by simp
qed

subsection \<open>A manifest fits a frame\<close>

lemma to_wire_bounds:
  assumes "wf_manifest m"
  shows "vdepth (to_wire m) \<le> 3" "esize (to_wire m) \<le> 600 + length (mf_name m) + 160 * mf_chunk_count m"
proof -
  have d: "vdepth (chunk_info_to_wire i) \<le> 1" for i by (simp add: chunk_info_to_wire_def)
  have "vdepth (List (map chunk_info_to_wire (mf_chunks m))) \<le> 2"
    unfolding vdepth_List using d by (auto simp: numeral_2_eq_2)
  then show "vdepth (to_wire m) \<le> 3" unfolding to_wire_def vdepth_Map by (auto simp del: vdepth.simps(1))
  have e: "esize (chunk_info_to_wire i) \<le> 160" if "i \<in> set (mf_chunks m)" for i
    using assms that by (simp add: chunk_info_to_wire_def wf_manifest_def wf_chunk_info_def)
  have "sum_list (map (\<lambda>i. esize (chunk_info_to_wire i)) (mf_chunks m)) \<le> sum_list (map (\<lambda>_. 160) (mf_chunks m))"
    by (rule sum_list_mono) (rule e)
  moreover have "length (algorithm_name (mf_hash_algorithm m)) = 6" by (cases "mf_hash_algorithm m") simp_all
  ultimately show "esize (to_wire m) \<le> 600 + length (mf_name m) + 160 * mf_chunk_count m"
    using assms by (simp add: to_wire_def wf_manifest_def comp_def sum_list_triv)
qed

lemma served_fits:
  assumes "crypto_ok C" "create_manifest C b opts created = Inr (m, cs)" "op_chunk_size opts \<le> 2 ^ 20" "valid_str (op_name opts)"
    "length (op_name opts) + 160 * length cs \<le> 2 ^ 20" "length b < 2 ^ 64"
  shows "\<forall>p \<in> set (to_wire m # map Bytes cs). outcome_fits (HandlerOk p)"
proof -
  note f = create_manifest_facts [OF assms(2)]
  have wf: "wf_manifest m" by (rule wf_created [OF assms(1,2) _ assms(6,4)]) (use assms(3) in simp)
  have "outcome_fits (HandlerOk (to_wire m))"
    using to_wire_bounds [OF wf] frame_ok_wfv [OF frame_ok_to_wire [OF wf]] assms(5) f(5,9)
    by (simp add: outcome_fits_def wire_room_def MAX_FRAME_BYTES_def)
  moreover have "length c \<le> 2 ^ 20" if c: "c \<in> set cs" for c
  proof -
    obtain k where "k < length cs" "c = cs ! k" using c by (auto simp: in_set_conv_nth)
    then show ?thesis using f(1,2) assms(3) by (simp add: nth_slice_chunks)
  qed
  ultimately show ?thesis by (force simp: outcome_fits_def wire_room_def MAX_FRAME_BYTES_def)
qed

definition demo_opts :: CreateOptions where
  "demo_opts = \<lparr>op_name = ''n'', op_chunk_size = 2, op_hash_algorithm = Blake3\<rparr>"

lemma demo_served:
  obtains m cs b where "create_manifest toy_crypto [1, 2, 3] demo_opts 5 = (Inr (m, cs) :: (_, unit fail) result)"
    "serves demo_env 0 (normal (to_wire m) # map Bytes cs) (fresh_stream [ReadChunk b])"
proof -
  have name: "valid_str (op_name demo_opts)" by (simp add: demo_opts_def ascii_valid_str ascii_def)
  obtain m where m: "create_manifest toy_crypto [1, 2, 3] demo_opts 5 = (Inr (m, slice_chunks 2 [1, 2, 3]) :: (_, unit fail) result)"
    using create_manifest_ok [of demo_opts "[1, 2, 3]" toy_crypto 5] name by (auto simp: demo_opts_def)
  have "\<forall>p \<in> set (to_wire m # map Bytes (slice_chunks 2 [1, 2, 3])). outcome_fits (HandlerOk p)"
    by (rule served_fits [OF toy_crypto_ok m _ name]) (simp_all add: demo_opts_def length_slice_chunks)
  then obtain b where "frames_answer demo_env 0 (map normal (to_wire m # map Bytes (slice_chunks 2 [1, 2, 3]))) b"
    using answers_exist [OF toy_crypto_ok wf_demo_key demo_env_ok] by blast
  then have "serves demo_env 0 (normal (to_wire m) # map Bytes (slice_chunks 2 [1, 2, 3])) (fresh_stream [ReadChunk b])"
    by (intro serves_fresh) (simp add: comp_def)
  with m show ?thesis by (rule that)
qed

subsection \<open>Properties\<close>

text \<open>C26: Checked content. A block that \<open>get\<close> returns has the address it was asked for. Chunked
  content that \<open>get\<close> returns is the concatenation of chunks that each have the address its manifest
  gives them, and as a whole it verifies against that manifest, the one the station sent.\<close>

theorem get_checks_content:
  assumes "content_get C E n kp opened mcid = Inr b"
  shows "if mcid_is_chunked mcid
    then \<exists>m cs. verify_manifest C m b = Inr () \<and> b = concat cs \<and>
      list_all2 (\<lambda>k c. chunk_mcid m k = Some (block_mcid C c)) [0..<mf_chunk_count m] cs \<and>
      (\<exists>st s. opened = Some st \<and> get_manifest C E kp mcid (st, n) = (Inr m, s))
    else block_mcid C b = mcid"
proof -
  obtain st where st: "opened = Some st" using assms by (cases opened) (simp_all add: content_get_def)
  show ?thesis
  proof (cases "mcid_is_chunked mcid")
    case True
    obtain m s1 s2 where m: "get_manifest C E kp mcid (st, n) = (Inr m, s1)"
      "get_chunks C E kp m [0..<mf_chunk_count m] [] s1 = (Inr b, s2)" "verify_manifest C m b = Inr ()"
      by (rule get_chunked_checked [OF assms [unfolded st] True])
    from get_chunks_checked [OF m(2)] m st True show ?thesis by auto
  next
    case False
    then show ?thesis using assms st
      by (cases "get_block C E kp mcid (st, n)"; cases "fst (get_block C E kp mcid (st, n))")
        (auto simp: content_get_def split: if_splits)
  qed
qed

text \<open>Serving. Chunked content comes back from a station that serves its manifest and chunks:
  \<open>get\<close> returns exactly the content the manifest was created from.\<close>

theorem get_returns_what_is_served:
  assumes "crypto_ok C" "wf_keypair kp" "env_ok E"
    "create_manifest C b opts created = Inr (m, cs)" "op_hash_algorithm opts = Blake3" "op_chunk_size opts < 2 ^ 64"
    "length b < 2 ^ 64" "valid_str (op_name opts)" "serves E n (normal (to_wire m) # map Bytes cs) st"
  shows "content_get C E n kp (Some st) (mf_mcid m) = Inr b"
proof -
  note f = create_manifest_facts [OF assms(4)]
  have "length (mf_mcid m) = 34" using f(12) algorithm_hash_length [OF assms(1)] by (auto simp: make_mcid_def)
  moreover have "mcid_is_chunked (mf_mcid m)" using f(12) by (auto simp: make_mcid_def mcid_is_chunked_def)
  ultimately show ?thesis by (rule get_served [OF assms(1-3) _ _ assms(4-9)])
qed

theorem get_returns_what_is_served_witness:
  "\<exists>mcid st. content_get toy_crypto demo_env 0 demo_key (Some st) mcid = Inr [1, 2, 3]"
proof (rule demo_served)
  fix m cs b assume m: "create_manifest toy_crypto [1, 2, 3] demo_opts 5 = (Inr (m, cs) :: (_, unit fail) result)"
    "serves demo_env 0 (normal (to_wire m) # map Bytes cs) (fresh_stream [ReadChunk b])"
  have "content_get toy_crypto demo_env 0 demo_key (Some (fresh_stream [ReadChunk b])) (mf_mcid m) = Inr [1, 2, 3]"
    by (rule get_returns_what_is_served [OF toy_crypto_ok wf_demo_key demo_env_ok m(1) _ _ _ _ m(2)])
      (simp_all add: demo_opts_def ascii_valid_str ascii_def)
  then show ?thesis by blast
qed

theorem get_checks_content_witness:
  "\<exists>mcid st m. content_get toy_crypto demo_env 0 demo_key (Some st) mcid = Inr [1, 2, 3] \<and>
    verify_manifest toy_crypto m [1, 2, 3] = Inr ()"
proof (rule demo_served)
  fix m cs b assume m: "create_manifest toy_crypto [1, 2, 3] demo_opts 5 = (Inr (m, cs) :: (_, unit fail) result)"
    "serves demo_env 0 (normal (to_wire m) # map Bytes cs) (fresh_stream [ReadChunk b])"
  let ?mcid = "make_mcid CODEC_MANIFEST (replicate 32 0)"
  have chunked: "mcid_is_chunked ?mcid" by (simp add: mcid_is_chunked_def make_mcid_def)
  have "content_get toy_crypto demo_env 0 demo_key (Some (fresh_stream [ReadChunk b])) ?mcid = Inr [1, 2, 3]"
    by (rule get_served [OF toy_crypto_ok wf_demo_key demo_env_ok _ chunked m(1) _ _ _ _ m(2)])
      (simp_all add: demo_opts_def ascii_valid_str ascii_def make_mcid_def)
  from get_checks_content [OF this] this chunked show ?thesis by auto
qed

text \<open>C35: A missing check. \<open>get\<close> of chunked content does not compare what it fetched with the
  address it was asked for: for every manifest address and every content (of at most one chunk of a
  mebibyte) there are station bytes that make \<open>get\<close> return this content for this address. The
  manifest's own address is neither recomputed nor compared, although the code's comments require
  that a station's answer is never trusted without such a check.\<close>

theorem get_accepts_any_manifest:
  assumes "crypto_ok C" "wf_keypair kp" "wf_keypair ks" "env_ok E" "length mcid = 34" "mcid_is_chunked mcid"
    "length b \<le> 2 ^ 20"
  shows "\<exists>reads. content_get C E n kp (Some (fresh_stream reads)) mcid = Inr b"
proof -
  let ?opts = "\<lparr>op_name = ''n'', op_chunk_size = 2 ^ 20, op_hash_algorithm = Blake3\<rparr>"
  let ?cs = "slice_chunks (2 ^ 20) b"
  have name: "valid_str (op_name ?opts)" by (simp add: ascii_valid_str ascii_def)
  obtain m where m: "create_manifest C b ?opts 0 = (Inr (m, ?cs) :: (_, unit fail) result)"
    using create_manifest_ok [of ?opts b C 0] name assms(7) by auto
  have "length ?cs \<le> 1"
  proof (cases "b = []")
    case False
    have "drop (2 ^ 20) b = []" using assms(7) by simp
    then have "?cs = [take (2 ^ 20) b]" using False by (simp add: slice_chunks_step)
    then show ?thesis by simp
  qed simp
  then have "\<forall>p \<in> set (to_wire m # map Bytes ?cs). outcome_fits (HandlerOk p)"
    by (intro served_fits [OF assms(1) m _ name]) (use assms(7) in simp_all)
  then obtain w where "frames_answer E n (map normal (to_wire m # map Bytes ?cs)) w"
    using answers_exist [OF assms(1,3,4)] by blast
  then have "serves E n (normal (to_wire m) # map Bytes ?cs) (fresh_stream [ReadChunk w])"
    by (intro serves_fresh) (simp add: comp_def)
  from get_served [OF assms(1,2,4-6) m _ _ _ name this] assms(7) show ?thesis by auto
qed

theorem get_accepts_any_manifest_witness:
  "\<exists>reads. content_get toy_crypto demo_env 0 demo_key (Some (fresh_stream reads))
    (make_mcid CODEC_MANIFEST (replicate 32 0)) = Inr [9, 9]"
  by (rule get_accepts_any_manifest [OF toy_crypto_ok wf_demo_key wf_demo_key demo_env_ok])
    (simp_all add: make_mcid_def mcid_is_chunked_def)

lemma put_address:
  assumes "content_put C E n kp (Some st) created b name = (Inr mcid, s)"
  shows "if length b \<le> DEFAULT_CHUNK_SIZE then mcid = block_mcid C b
    else \<exists>m cs. create_manifest C b (CreateOptions_default\<lparr>op_name := name\<rparr>) created = (Inr (m, cs) :: (_, PutError fail) result) \<and>
      mcid = mf_mcid m"
proof (cases "length b \<le> DEFAULT_CHUNK_SIZE")
  case True
  then show ?thesis using assms by (auto simp: content_put_def Let_def bindR_eq_Inr split: prod.splits)
next
  case False
  obtain x where x: "create_manifest C b (CreateOptions_default\<lparr>op_name := name\<rparr>) created = (x :: (_, PutError fail) result)" by simp
  with False assms obtain m cs where m: "x = Inr (m, cs)" by (cases x) (auto simp: content_put_def)
  obtain y s1 where y: "put_chunks C E kp m 0 cs (st, n) = (y, s1)" by (cases "put_chunks C E kp m 0 cs (st, n)")
  obtain z s2 where z: "put_manifest C E kp m s1 = (z, s2)" by (cases "put_manifest C E kp m s1")
  have "mcid = mf_mcid m" using assms False x m y z by (cases y; cases z) (auto simp: content_put_def)
  with False x m show ?thesis by auto
qed

text \<open>C29: Put, then get. When \<open>put\<close> has returned an address, \<open>get\<close> of this address returns the
  stored content from every station that serves the block, or the manifest and the chunks, that
  this \<open>put\<close> uploads.\<close>

theorem put_then_get:
  assumes "crypto_ok C" "wf_keypair kp" "env_ok E"
    "content_put C E' n' kp' (Some st') created b name = (Inr mcid, s)" "length b < 2 ^ 64" "valid_str name"
    "create_manifest C b (CreateOptions_default\<lparr>op_name := name\<rparr>) created = (Inr (m, cs) :: (_, PutError fail) result)"
    "serves E n (if length b \<le> DEFAULT_CHUNK_SIZE then [Bytes b] else normal (to_wire m) # map Bytes cs) st"
  shows "content_get C E n kp (Some st) mcid = Inr b"
proof (cases "length b \<le> DEFAULT_CHUNK_SIZE")
  case True
  then have mcid: "mcid = block_mcid C b" using put_address [OF assms(4)] by simp
  have len: "length mcid \<le> 64" by (simp add: mcid block_mcid_def make_mcid_def crypto_okD [OF assms(1)])
  have raw: "\<not> mcid_is_chunked mcid"
    by (simp add: mcid block_mcid_def make_mcid_def mcid_is_chunked_def CODEC_RAW_def CODEC_MANIFEST_def)
  have "serves E n (Bytes b # []) st" using assms(8) True by simp
  then obtain st1 where "get_block C E kp mcid (st, n) = (Inr b, st1, n + 1)"
    by (rule get_block_answered [OF assms(1-3) len])
  then show ?thesis using raw by (simp add: content_get_def mcid)
next
  case False
  then have mcid: "mcid = mf_mcid m" using put_address [OF assms(4)] assms(7) by auto
  note f = create_manifest_facts [OF assms(7)]
  have "length mcid = 34" "mcid_is_chunked mcid"
    using f(12) algorithm_hash_length [OF assms(1)] by (auto simp: mcid make_mcid_def mcid_is_chunked_def)
  then show ?thesis
    by (rule get_served [OF assms(1-3) _ _ assms(7)])
      (use assms(5,6,8) False in \<open>simp_all add: CreateOptions_default_def DEFAULT_CHUNK_SIZE_def\<close>)
qed

text \<open>A station that acknowledges the upload of a block.\<close>

lemma demo_put:
  obtains st s where "content_put toy_crypto demo_env 0 demo_key (Some st) 5 [1, 2, 3] ''n'' =
    (Inr (block_mcid toy_crypto [1, 2, 3]), s)"
proof -
  have "\<forall>p \<in> set [Text ''ok'']. outcome_fits (HandlerOk p)"
    by (simp add: outcome_fits_def ascii_valid_str ascii_def wire_room_def MAX_FRAME_BYTES_def)
  from answers_exist [OF toy_crypto_ok wf_demo_key demo_env_ok this, of 0]
  obtain w where "frames_answer demo_env 0 (map normal [Text ''ok'']) w" by blast
  then have ok: "serves demo_env 0 [Text ''ok''] (fresh_stream [ReadChunk w])" by (intro serves_fresh) simp
  let ?mcid = "block_mcid toy_crypto [1, 2, 3]"
  let ?p = "Map [(Text ''mcid'', Bytes ?mcid), (Text ''payload'', Bytes [1, 2, 3])]"
  have p: "frame_ok ?p" "vdepth ?p < 128" "esize ?p \<le> wire_room - 1024"
    by (simp_all add: frame_ok_Map ascii_def wire_room_def MAX_FRAME_BYTES_def block_mcid_def make_mcid_def
        crypto_okD [OF toy_crypto_ok])
  obtain st' responder where "call_with_retry toy_crypto demo_env ''_content.put_block'' ?p BLOCK_TIMEOUT demo_key
      (fresh_stream [ReadChunk w], 0) = (Inr (CallResult (Text ''ok'') responder), st', 0 + 1)"
    by (rule content_call_answered [OF toy_crypto_ok wf_demo_key demo_env_ok content_procedures(5,6) p ok content_timeouts(1)])
  then show ?thesis
    by (intro that [of "fresh_stream [ReadChunk w]" "Some (st', 1)"])
      (simp add: content_put_def DEFAULT_CHUNK_SIZE_def put_block_def map_err_call_def)
qed

theorem put_then_get_witness:
  "\<exists>mcid st' s st. content_put toy_crypto demo_env 0 demo_key (Some st') 5 [1, 2, 3] ''n'' = (Inr mcid, s) \<and>
    content_get toy_crypto demo_env 0 demo_key (Some st) mcid = Inr [1, 2, 3]"
proof (rule demo_put)
  fix st' s assume put: "content_put toy_crypto demo_env 0 demo_key (Some st') 5 [1, 2, 3] ''n'' =
    (Inr (block_mcid toy_crypto [1, 2, 3]), s)"
  have name: "valid_str ''n''" by (simp add: ascii_valid_str ascii_def)
  obtain m cs where m: "create_manifest toy_crypto [1, 2, 3] (CreateOptions_default\<lparr>op_name := ''n''\<rparr>) 5 =
      (Inr (m, cs) :: (_, PutError fail) result)"
    using create_manifest_ok [of "CreateOptions_default\<lparr>op_name := ''n''\<rparr>" "[1, 2, 3]" toy_crypto 5] name
    by (auto simp: CreateOptions_default_def DEFAULT_CHUNK_SIZE_def)
  have "\<forall>p \<in> set [Bytes [1, 2, 3]]. outcome_fits (HandlerOk p)"
    by (simp add: outcome_fits_def wire_room_def MAX_FRAME_BYTES_def)
  from answers_exist [OF toy_crypto_ok wf_demo_key demo_env_ok this, of 0]
  obtain w where "frames_answer demo_env 0 (map normal [Bytes [1, 2, 3]]) w" by blast
  then have st: "serves demo_env 0 (if length [1, 2, 3 :: u8] \<le> DEFAULT_CHUNK_SIZE then [Bytes [1, 2, 3]]
      else normal (to_wire m) # map Bytes cs) (fresh_stream [ReadChunk w])"
    by (intro serves_fresh) (simp add: DEFAULT_CHUNK_SIZE_def)
  from put_then_get [OF toy_crypto_ok wf_demo_key demo_env_ok put _ name m st] put show ?thesis by auto
qed

text \<open>SHA-256 manifests cannot be fetched. A manifest may name SHA-256 as its hash algorithm, and
  \<open>verify\<close> honours it, but \<open>get\<close> compares every chunk's BLAKE3 address: even from a station that
  serves the manifest and its chunks faithfully, non-empty content is refused as a hash mismatch
  whenever the two digests of its first chunk differ.\<close>

theorem get_refuses_sha256_manifest:
  assumes "crypto_ok C" "wf_keypair kp" "env_ok E" "length mcid = 34" "mcid_is_chunked mcid"
    "create_manifest C b opts created = (Inr (m, c # cs) :: (_, unit fail) result)" "op_hash_algorithm opts = Sha256"
    "op_chunk_size opts < 2 ^ 64" "length b < 2 ^ 64" "valid_str (op_name opts)" "sha256 C c \<noteq> blake3 C c"
    "serves E n (normal (to_wire m) # map Bytes (c # cs)) st"
  shows "content_get C E n kp (Some st) mcid = Inl (Err GetHashMismatch)"
proof -
  note f = create_manifest_facts [OF assms(6)]
  have wf: "wf_manifest m" by (rule wf_created [OF assms(1,6,8-10)])
  have mcid: "length mcid \<le> 64" using assms(4) by simp
  obtain st1 where st1: "get_manifest C E kp mcid (st, n) = (Inr m, st1, n + 1)" "serves E (n + 1) (map Bytes (c # cs)) st1"
    by (rule get_manifest_answered [OF assms(1-3) mcid wf assms(12)])
  have chunk: "chunk_mcid m 0 = Some (make_mcid CODEC_RAW (sha256 C c))"
    by (simp add: chunk_mcid_def f(7) assms(7) chunk_infos_def)
  have len: "length (make_mcid CODEC_RAW (sha256 C c)) \<le> 64" by (simp add: make_mcid_def crypto_okD [OF assms(1)])
  have "serves E (n + 1) (Bytes c # map Bytes cs) st1" using st1(2) by simp
  then obtain st2 where "get_block C E kp (make_mcid CODEC_RAW (sha256 C c)) (st1, n + 1) = (Inr c, st2, n + 1 + 1)"
    by (rule get_block_answered [OF assms(1-3) len])
  moreover have "[0..<mf_chunk_count m] = 0 # [1..<mf_chunk_count m]" by (simp add: f(9) upt_conv_Cons del: upt_Suc)
  moreover have "block_mcid C c \<noteq> make_mcid CODEC_RAW (sha256 C c)" using assms(11) by (simp add: block_mcid_def make_mcid_def)
  ultimately show ?thesis using assms(5) st1(1) chunk by (simp add: content_get_def)
qed

theorem get_refuses_sha256_manifest_witness:
  "\<exists>mcid st. content_get toy_crypto demo_env 0 demo_key (Some st) mcid = Inl (Err GetHashMismatch)"
proof -
  let ?opts = "demo_opts\<lparr>op_hash_algorithm := Sha256\<rparr>"
  have name: "valid_str (op_name ?opts)" by (simp add: demo_opts_def ascii_valid_str ascii_def)
  obtain m where "create_manifest toy_crypto [1, 2] ?opts 5 = (Inr (m, slice_chunks 2 [1, 2]) :: (_, unit fail) result)"
    using create_manifest_ok [of ?opts "[1, 2]" toy_crypto 5] name by (auto simp: demo_opts_def)
  then have m: "create_manifest toy_crypto [1, 2] ?opts 5 = (Inr (m, [1, 2] # []) :: (_, unit fail) result)"
    by (simp add: slice_chunks.simps)
  have "\<forall>p \<in> set (to_wire m # map Bytes ([1, 2] # [])). outcome_fits (HandlerOk p)"
    by (rule served_fits [OF toy_crypto_ok m _ name]) (simp_all add: demo_opts_def)
  then obtain w where "frames_answer demo_env 0 (map normal (to_wire m # map Bytes ([1, 2] # []))) w"
    using answers_exist [OF toy_crypto_ok wf_demo_key demo_env_ok] by blast
  then have st: "serves demo_env 0 (normal (to_wire m) # map Bytes ([1, 2] # [])) (fresh_stream [ReadChunk w])"
    by (intro serves_fresh) simp
  let ?mcid = "make_mcid CODEC_MANIFEST (replicate 32 0)"
  have "sha256 toy_crypto [1, 2] \<noteq> blake3 toy_crypto [1, 2]"
    by (simp add: toy_crypto_def pad_to_def numeral_eq_Suc)
  then have "content_get toy_crypto demo_env 0 demo_key (Some (fresh_stream [ReadChunk w])) ?mcid = Inl (Err GetHashMismatch)"
    by (intro get_refuses_sha256_manifest [OF toy_crypto_ok wf_demo_key demo_env_ok _ _ m _ _ _ name _ st])
      (simp_all add: demo_opts_def make_mcid_def mcid_is_chunked_def)
  then show ?thesis by blast
qed

end
