(* ===== verification/Dht.thy ===== *)
theory Dht
  imports Manifest Connection
begin

section \<open>Dht: signed records and the \<open>_dht\<close> procedures (\<open>src/dht.rs\<close>)\<close>

text \<open>
  The record envelope, its signature over the compact canonical form, the three payloads the
  crate builds or reads, the storage keys, the map a record travels as, and the wrappers around
  the \<open>_dht.*\<close> calls. The clock (milliseconds, as an \<open>i128\<close>) and the UUIDv7 of a new record are
  arguments; a TTL is its number of milliseconds. \<open>sign\<close>, \<open>verify\<close> and \<open>SIG_DOMAIN\<close> of the source
  carry \<open>record\<close> in their names. The \<open>expect\<close> on the encoder is the one way in which signing or
  verifying could panic.
\<close>

definition TYPE_PROCEDURE_ADVERTISEMENT :: u8 where
  "TYPE_PROCEDURE_ADVERTISEMENT = 0x06"

definition TYPE_STATION_ENDPOINT :: u8 where
  "TYPE_STATION_ENDPOINT = 0x12"

definition TYPE_CONTENT_ANNOUNCEMENT :: u8 where
  "TYPE_CONTENT_ANNOUNCEMENT = 0x11"

definition DEFAULT_TTL :: nat where
  "DEFAULT_TTL = 48 * 60 * 60 * 1000"

definition RECORD_SIG_DOMAIN :: bytes where
  "RECORD_SIG_DOMAIN = as_bytes ''macula-v2-record'' @ [0]"

record Record =
  rc_record_type :: u8
  rc_key :: bytes
  rc_version :: bytes
  rc_created_at :: int
  rc_expires_at :: int
  rc_payload :: Value
  rc_signature :: bytes

definition new_envelope :: "int \<Rightarrow> bytes \<Rightarrow> u8 \<Rightarrow> bytes \<Rightarrow> Value \<Rightarrow> nat \<Rightarrow> Record" where
  "new_envelope now uuid record_type key payload ttl =
    \<lparr>rc_record_type = record_type, rc_key = key, rc_version = uuid, rc_created_at = now,
     rc_expires_at = now + int ttl, rc_payload = payload, rc_signature = []\<rparr>"

definition new_procedure_advertisement :: "int \<Rightarrow> bytes \<Rightarrow> bytes \<Rightarrow> string \<Rightarrow> bytes \<Rightarrow> nat \<Rightarrow> Record" where
  "new_procedure_advertisement now uuid advertiser_node procedure_uri serving_station ttl =
    (let ttl = (if ttl = 0 then DEFAULT_TTL else ttl);
         payload = Map
           [(Text ''procedure_uri'', Text procedure_uri),
            (Text ''advertiser_node'', Bytes advertiser_node),
            (Text ''serving_station'', Bytes serving_station)] in
     new_envelope now uuid TYPE_PROCEDURE_ADVERTISEMENT advertiser_node payload ttl)"

definition new_procedure_advertisement_with_cert_chain ::
  "int \<Rightarrow> bytes \<Rightarrow> bytes \<Rightarrow> string \<Rightarrow> bytes \<Rightarrow> nat \<Rightarrow> bytes \<Rightarrow> (Record, 'e fail) result" where
  "new_procedure_advertisement_with_cert_chain now uuid advertiser_node procedure_uri serving_station ttl cert_chain_pem =
    (let r = new_procedure_advertisement now uuid advertiser_node procedure_uri serving_station ttl in
     case rc_payload r of
       Map entries \<Rightarrow> Inr (r\<lparr>rc_payload := Map (entries @ [(Text ''cert_chain'', Bytes cert_chain_pem)])\<rparr>)
     | _ \<Rightarrow> Inl Panic)"

definition new_content_announcement :: "int \<Rightarrow> bytes \<Rightarrow> bytes \<Rightarrow> Mcid \<Rightarrow> string \<Rightarrow> nat \<Rightarrow> Record" where
  "new_content_announcement now uuid announcer_node mcid endpoint ttl =
    new_envelope now uuid TYPE_CONTENT_ANNOUNCEMENT announcer_node
      (Map [(Text ''announcer_node'', Bytes announcer_node),
            (Text ''mcid'', Bytes mcid),
            (Text ''endpoint'', Text endpoint)]) ttl"

subsection \<open>Reading payloads\<close>

datatype ReadRecordError = WrongRecordType | MissingField string | WrongFieldType string

record ProcedureAdvertisement =
  pa_procedure_uri :: string
  pa_advertiser_node :: bytes
  pa_serving_station :: bytes
  pa_cert_chain :: "bytes option"

record StationEndpoint =
  ep_quic_port :: u16
  ep_host_advertised :: "string list"

record ContentAnnouncement =
  an_announcer_node :: bytes
  an_mcid :: Mcid
  an_endpoint :: string

definition record_field :: "(Value \<Rightarrow> 'a option) \<Rightarrow> Value \<Rightarrow> string \<Rightarrow> ('a, ReadRecordError) result" where
  "record_field = read_field ReadRecordError.MissingField ReadRecordError.WrongFieldType"

definition as_port :: "Value \<Rightarrow> u16 option" where
  "as_port v = (case v of IntV n \<Rightarrow> if 1 \<le> n \<and> n \<le> 65535 then Some (word_of_int n) else None | _ \<Rightarrow> None)"

definition read_content_announcement :: "Record \<Rightarrow> (ContentAnnouncement, ReadRecordError) result" where
  "read_content_announcement r =
    (if rc_record_type r \<noteq> TYPE_CONTENT_ANNOUNCEMENT then Inl WrongRecordType
     else
       bindR (record_field (as_array 32) (rc_payload r) ''announcer_node'') (\<lambda>announcer.
       bindR (record_field (as_array 34) (rc_payload r) ''mcid'') (\<lambda>mcid.
       bindR (record_field as_text (rc_payload r) ''endpoint'') (\<lambda>endpoint.
         Inr \<lparr>an_announcer_node = announcer, an_mcid = mcid, an_endpoint = endpoint\<rparr>))))"

definition read_procedure_advertisement :: "Record \<Rightarrow> (ProcedureAdvertisement, ReadRecordError) result" where
  "read_procedure_advertisement r =
    (if rc_record_type r \<noteq> TYPE_PROCEDURE_ADVERTISEMENT then Inl WrongRecordType
     else
       bindR (record_field as_text (rc_payload r) ''procedure_uri'') (\<lambda>uri.
       bindR (record_field (as_array 32) (rc_payload r) ''advertiser_node'') (\<lambda>advertiser.
       bindR (record_field (as_array 32) (rc_payload r) ''serving_station'') (\<lambda>station.
         let cert_chain = (case get (rc_payload r) ''cert_chain'' of Some (Bytes b) \<Rightarrow> Some b | _ \<Rightarrow> None) in
         Inr \<lparr>pa_procedure_uri = uri, pa_advertiser_node = advertiser, pa_serving_station = station,
              pa_cert_chain = cert_chain\<rparr>))))"

definition host_item :: "Value \<Rightarrow> string option" where
  "host_item item = (case item of Bytes b \<Rightarrow> from_utf8 b | Text t \<Rightarrow> Some t | _ \<Rightarrow> None)"

definition read_station_endpoint :: "Record \<Rightarrow> (StationEndpoint, ReadRecordError) result" where
  "read_station_endpoint r =
    (if rc_record_type r \<noteq> TYPE_STATION_ENDPOINT then Inl WrongRecordType
     else
       bindR (record_field as_port (rc_payload r) ''quic_port'') (\<lambda>port.
         let hosts = (case get (rc_payload r) ''host_advertised'' of
                        Some (List items) \<Rightarrow> List.map_filter host_item items
                      | _ \<Rightarrow> []) in
         Inr \<lparr>ep_quic_port = port, ep_host_advertised = hosts\<rparr>))"

subsection \<open>Signing and verifying\<close>

definition canonical_unsigned :: "Record \<Rightarrow> (bytes, 'e fail) result" where
  "canonical_unsigned r =
    (case encode (Map
       [(Text ''t'', IntV (uint (rc_record_type r))),
        (Text ''k'', Bytes (rc_key r)),
        (Text ''v'', Bytes (rc_version r)),
        (Text ''c'', IntV (rc_created_at r)),
        (Text ''x'', IntV (rc_expires_at r)),
        (Text ''p'', rc_payload r)]) of
       Inl _ \<Rightarrow> Inl Panic
     | Inr b \<Rightarrow> Inr b)"

definition sign_record :: "crypto \<Rightarrow> Record \<Rightarrow> KeyPair \<Rightarrow> (Record, 'e fail) result" where
  "sign_record C r kp =
    bindR (canonical_unsigned r) (\<lambda>b. Inr (r\<lparr>rc_signature := sign_bytes C kp (RECORD_SIG_DOMAIN @ b)\<rparr>))"

datatype RecordVerifyError = InvalidRecordSignature | RecordExpired

definition verify_record :: "crypto \<Rightarrow> int \<Rightarrow> Record \<Rightarrow> (unit, RecordVerifyError fail) result" where
  "verify_record C now r =
    bindR (ok_or (Err InvalidRecordSignature) (to_array 64 (rc_signature r))) (\<lambda>sig.
    bindR (canonical_unsigned r) (\<lambda>b.
      if \<not> verify_bytes C (RECORD_SIG_DOMAIN @ b) sig (rc_key r) then Inl (Err InvalidRecordSignature)
      else if rc_expires_at r > 0 \<and> now \<ge> rc_expires_at r then Inl (Err RecordExpired)
      else Inr ()))"

subsection \<open>Storage keys\<close>

definition STORAGE_DOMAIN_STATION_ENDPOINT :: bytes where
  "STORAGE_DOMAIN_STATION_ENDPOINT = as_bytes ''station_endpoint''"

definition procedure_key :: "crypto \<Rightarrow> string \<Rightarrow> bytes" where
  "procedure_key C procedure_uri = sha256 C (as_bytes procedure_uri)"

definition station_endpoint_key :: "crypto \<Rightarrow> bytes \<Rightarrow> bytes" where
  "station_endpoint_key C station_pubkey = sha256 C (STORAGE_DOMAIN_STATION_ENDPOINT @ station_pubkey)"

definition content_key :: "crypto \<Rightarrow> Mcid \<Rightarrow> bytes" where
  "content_key C mcid = sha256 C mcid"

definition hex_digit :: "nat \<Rightarrow> char" where
  "hex_digit n = ''0123456789ABCDEF'' ! n"

text \<open>\<open>format!("{b:02X}")\<close>.\<close>

definition hex_byte :: "u8 \<Rightarrow> string" where
  "hex_byte b = [hex_digit (unat b div 16), hex_digit (unat b mod 16)]"

definition discovery_uri :: "bytes \<Rightarrow> string \<Rightarrow> string" where
  "discovery_uri realm procedure = concat (map hex_byte realm) @ ''/'' @ procedure"

subsection \<open>Records as call arguments and results\<close>

definition DHT_REALM :: bytes where
  "DHT_REALM = replicate 32 0"

definition DHT_TIMEOUT :: int where
  "DHT_TIMEOUT = 5000"

definition to_rpc_value :: "Record \<Rightarrow> Value" where
  "to_rpc_value r =
    Map ([(Text ''type'', IntV (uint (rc_record_type r))),
          (Text ''key'', Bytes (rc_key r)),
          (Text ''version'', Bytes (rc_version r)),
          (Text ''created_at'', IntV (rc_created_at r)),
          (Text ''expires_at'', IntV (rc_expires_at r)),
          (Text ''payload'', rc_payload r)] @
         (if length (rc_signature r) = 64 then [(Text ''signature'', Bytes (rc_signature r))] else []))"

datatype RecordFromRpcError = MissingField string | WrongFieldType string

abbreviation rpc_field :: "(Value \<Rightarrow> 'a option) \<Rightarrow> Value \<Rightarrow> string \<Rightarrow> ('a, RecordFromRpcError) result" where
  "rpc_field \<equiv> read_field RecordFromRpcError.MissingField RecordFromRpcError.WrongFieldType"

definition record_from_rpc_value :: "Value \<Rightarrow> (Record, RecordFromRpcError) result" where
  "record_from_rpc_value v =
    bindR (rpc_field as_byte v ''type'') (\<lambda>record_type.
    bindR (rpc_field (as_array 32) v ''key'') (\<lambda>key.
    bindR (rpc_field (as_array 16) v ''version'') (\<lambda>version.
    bindR (rpc_field as_int v ''created_at'') (\<lambda>created_at.
    bindR (rpc_field as_int v ''expires_at'') (\<lambda>expires_at.
    bindR (rpc_field Some v ''payload'') (\<lambda>payload.
      let signature = (case get v ''signature'' of Some (Bytes b) \<Rightarrow> b | _ \<Rightarrow> []) in
      Inr \<lparr>rc_record_type = record_type, rc_key = key, rc_version = version, rc_created_at = created_at,
           rc_expires_at = expires_at, rc_payload = payload, rc_signature = signature\<rparr>))))))"

datatype DhtError = DhtCall CallError | DhtRemote string | DhtNotFound | DhtMalformed RecordFromRpcError | ExpectedList

definition dht_call ::
  "crypto \<Rightarrow> env \<Rightarrow> nat \<Rightarrow> Session \<Rightarrow> KeyPair \<Rightarrow> string \<Rightarrow> Value
    \<Rightarrow> (CallResponse, DhtError fail) result \<times> Session \<times> nat" where
  "dht_call C E n s kp procedure args =
    (case session_call C E (n + 1) s procedure DHT_REALM args (uint (env_now_ms E n) + DHT_TIMEOUT) kp of
       (r, s', n') \<Rightarrow> (map_err (lift_fail DhtCall) r, s', n'))"

definition put_record ::
  "crypto \<Rightarrow> env \<Rightarrow> nat \<Rightarrow> Session \<Rightarrow> KeyPair \<Rightarrow> Record \<Rightarrow> (unit, DhtError fail) result \<times> Session \<times> nat" where
  "put_record C E n s kp r =
    (case dht_call C E n s kp ''_dht.put_record'' (to_rpc_value r) of
       (resp, s', n') \<Rightarrow>
         (bindR resp (\<lambda>resp. case resp of
            CallResult _ _ \<Rightarrow> Inr ()
          | CallResponse.CallError _ name _ _ \<Rightarrow> Inl (Err (DhtRemote name))), s', n'))"

definition record_from_response :: "CallResponse \<Rightarrow> (Record, DhtError fail) result" where
  "record_from_response resp =
    (case resp of
       CallResult payload _ \<Rightarrow>
         if payload = Text ''not_found'' then Inl (Err DhtNotFound)
         else map_err (\<lambda>e. Err (DhtMalformed e)) (record_from_rpc_value payload)
     | CallResponse.CallError _ name _ _ \<Rightarrow> Inl (Err (DhtRemote name)))"

definition records_list_from_response :: "CallResponse \<Rightarrow> (Record list, DhtError fail) result" where
  "records_list_from_response resp =
    (case resp of
       CallResult (List items) _ \<Rightarrow> Inr (List.map_filter (\<lambda>item. okR (record_from_rpc_value item)) items)
     | CallResult _ _ \<Rightarrow> Inl (Err ExpectedList)
     | CallResponse.CallError _ name _ _ \<Rightarrow> Inl (Err (DhtRemote name)))"

definition find_record ::
  "crypto \<Rightarrow> env \<Rightarrow> nat \<Rightarrow> Session \<Rightarrow> KeyPair \<Rightarrow> bytes \<Rightarrow> (Record, DhtError fail) result \<times> Session \<times> nat" where
  "find_record C E n s kp key =
    (case dht_call C E n s kp ''_dht.find_record'' (Map [(Text ''key'', Bytes key)]) of
       (resp, s', n') \<Rightarrow> (bindR resp record_from_response, s', n'))"

definition find_records ::
  "crypto \<Rightarrow> env \<Rightarrow> nat \<Rightarrow> Session \<Rightarrow> KeyPair \<Rightarrow> bytes \<Rightarrow> (Record list, DhtError fail) result \<times> Session \<times> nat" where
  "find_records C E n s kp key =
    (case dht_call C E n s kp ''_dht.find_records'' (Map [(Text ''key'', Bytes key)]) of
       (resp, s', n') \<Rightarrow> (bindR resp records_list_from_response, s', n'))"

definition find_records_by_type ::
  "crypto \<Rightarrow> env \<Rightarrow> nat \<Rightarrow> Session \<Rightarrow> KeyPair \<Rightarrow> u8 \<Rightarrow> (Record list, DhtError fail) result \<times> Session \<times> nat" where
  "find_records_by_type C E n s kp typ =
    (case dht_call C E n s kp ''_dht.find_records_by_type'' (Map [(Text ''type'', IntV (uint typ))]) of
       (resp, s', n') \<Rightarrow> (bindR resp records_list_from_response, s', n'))"

end
