(* ===== verification/IpAddr.thy ===== *)
theory IpAddr
  imports Prelude
begin

section \<open>IpAddr: which strings are IP address literals\<close>

text \<open>
  The pool tells a host name from a bare address with \<open>host.parse::<IpAddr>().is_ok()\<close>. This is
  the standard library's parser as a recogniser: every reader returns what is left of the
  string, or \<open>None\<close> and the string is read anew from where the reader started.
\<close>

definition to_digit :: "nat \<Rightarrow> char \<Rightarrow> nat option" where
  "to_digit radix c =
    (let n = (of_char c :: nat);
         d = (if 48 \<le> n \<and> n \<le> 57 then n - 48
              else if 97 \<le> n \<and> n \<le> 122 then n - 87
              else if 65 \<le> n \<and> n \<le> 90 then n - 55 else radix) in
     if d < radix then Some d else None)"

fun read_digits :: "nat \<Rightarrow> string \<Rightarrow> nat list \<times> string" where
  "read_digits radix [] = ([], [])"
| "read_digits radix (c # s) =
    (case to_digit radix c of
       None \<Rightarrow> ([], c # s)
     | Some d \<Rightarrow> (case read_digits radix s of (ds, r) \<Rightarrow> (d # ds, r)))"

definition read_number :: "nat \<Rightarrow> nat \<Rightarrow> bool \<Rightarrow> nat \<Rightarrow> string \<Rightarrow> string option" where
  "read_number radix max_digits allow_zero_prefix bound s =
    (case read_digits radix s of (ds, rest) \<Rightarrow>
       if length ds > max_digits \<or> ds = [] then None
       else if \<not> allow_zero_prefix \<and> hd ds = 0 \<and> length ds > 1 then None
       else if foldl (\<lambda>n d. n * radix + d) 0 ds < bound then Some rest else None)"

definition read_separator :: "char \<Rightarrow> nat \<Rightarrow> string \<Rightarrow> string option" where
  "read_separator c i s =
    (if i = 0 then Some s else case s of [] \<Rightarrow> None | x # r \<Rightarrow> if x = c then Some r else None)"

fun read_octets :: "nat \<Rightarrow> nat \<Rightarrow> string \<Rightarrow> string option" where
  "read_octets 0 i s = Some s"
| "read_octets (Suc k) i s =
    Option.bind (read_separator CHR ''.'' i s) (\<lambda>r.
    Option.bind (read_number 10 3 False 256 r) (\<lambda>r'. read_octets k (i + 1) r'))"

definition read_ipv4 :: "string \<Rightarrow> string option" where
  "read_ipv4 = read_octets 4 0"

text \<open>The groups read, whether an embedded IPv4 address ended them, and the rest.\<close>

fun read_groups :: "nat \<Rightarrow> nat \<Rightarrow> string \<Rightarrow> nat \<times> bool \<times> string" where
  "read_groups limit 0 s = (limit, False, s)"
| "read_groups limit (Suc k) s =
    (let i = limit - Suc k in
     case (if i < limit - 1 then Option.bind (read_separator CHR '':'' i s) read_ipv4 else None) of
       Some r \<Rightarrow> (i + 2, True, r)
     | None \<Rightarrow>
         (case Option.bind (read_separator CHR '':'' i s) (read_number 16 4 True 65536) of
            Some r \<Rightarrow> read_groups limit k r
          | None \<Rightarrow> (i, False, s)))"

definition read_ipv6 :: "string \<Rightarrow> string option" where
  "read_ipv6 s =
    (case read_groups 8 8 s of (head_size, head_ipv4, r) \<Rightarrow>
       if head_size = 8 then Some r
       else if head_ipv4 then None
       else
         Option.bind (read_separator CHR '':'' 1 r) (\<lambda>r.
         Option.bind (read_separator CHR '':'' 1 r) (\<lambda>r.
           let limit = 8 - (head_size + 1) in Some (snd (snd (read_groups limit limit r))))))"

definition is_ip_addr :: "string \<Rightarrow> bool" where
  "is_ip_addr s \<longleftrightarrow> (case read_ipv4 s of Some r \<Rightarrow> Some r | None \<Rightarrow> read_ipv6 s) = Some []"

lemmas [eval_simps] = to_digit_def read_number_def read_separator_def read_ipv4_def read_ipv6_def is_ip_addr_def

lemma is_ip_addr_examples:
  "is_ip_addr ''172.104.10.9''" "is_ip_addr ''::1''" "is_ip_addr ''2a01:7e00::f03c''" "is_ip_addr ''::ffff:1.2.3.4''"
  "\<not> is_ip_addr ''station.macula.io''" "\<not> is_ip_addr ''1.2.3''" "\<not> is_ip_addr ''01.2.3.4''" "\<not> is_ip_addr ''1:2:3:4:5:6:7:8::''"
  by code_simp+

end
