(* ===== verification/Pool.thy ===== *)
theory Pool
  imports Dht IpAddr "HOL-Library.Multiset"
begin

section \<open>Pool: several sessions, chosen, redialed and discovered (\<open>src/pool.rs\<close>)\<close>

text \<open>
  The data of the pool and its sequential operations. An \<open>Arc<PooledLink>\<close> is an index into
  \<open>pl_store\<close>, which holds every link ever made; \<open>pl_links\<close> is the \<open>Vec\<close> of the pool. The tasks that
  run, in the pool's \<open>JoinSet\<close> or as callers, are a multiset, each with the place it has reached;
  \<open>PoolSteps\<close> lets them run in any order. A duration is its number of milliseconds. The shuffle
  of the \<open>rand\<close> crate is an argument, a function on lists.
\<close>

record Seed =
  seed_host :: string
  seed_port :: u16

datatype LinkSelection = Auto | FirstSuccess | Random

definition resolve_link_selection :: "LinkSelection \<Rightarrow> bool \<Rightarrow> LinkSelection" where
  "resolve_link_selection configured station_discovery_enabled =
    (case configured of
       Auto \<Rightarrow> if station_discovery_enabled then Random else FirstSuccess
     | other \<Rightarrow> other)"

definition select_links :: "('a list \<Rightarrow> 'a list) \<Rightarrow> 'a list \<Rightarrow> LinkSelection \<Rightarrow> 'a list" where
  "select_links shuffle candidates resolved =
    (if resolved \<noteq> Random \<or> length candidates \<le> 1 then candidates else shuffle candidates)"

record StationDiscoveryOptions =
  sd_enabled :: bool
  sd_refresh_interval :: nat
  sd_max_links :: nat

definition StationDiscoveryOptions_default :: StationDiscoveryOptions where
  "StationDiscoveryOptions_default = \<lparr>sd_enabled = False, sd_refresh_interval = 30 * 60 * 1000, sd_max_links = 5\<rparr>"

definition DEFAULT_RESPAWN_DELAY :: nat where
  "DEFAULT_RESPAWN_DELAY = 1000"

record PoolOptions =
  po_link_selection :: LinkSelection
  po_station_discovery :: StationDiscoveryOptions
  po_respawn_delay :: nat
  po_call_timeout :: nat
  po_replication_factor :: nat

text \<open>\<open>call_timeout\<close> is \<open>connection::DEFAULT_CALL_TIMEOUT\<close>.\<close>

definition PoolOptions_default :: "nat \<Rightarrow> PoolOptions" where
  "PoolOptions_default call_timeout =
    \<lparr>po_link_selection = Auto, po_station_discovery = StationDiscoveryOptions_default,
     po_respawn_delay = DEFAULT_RESPAWN_DELAY, po_call_timeout = call_timeout, po_replication_factor = 1\<rparr>"

definition DISCOVERY_LINK_MAX_RESPAWN_ATTEMPTS :: u32 where
  "DISCOVERY_LINK_MAX_RESPAWN_ATTEMPTS = 5"

datatype LinkOrigin = Bootstrap | Discovered

definition should_give_up :: "LinkOrigin \<Rightarrow> u32 \<Rightarrow> bool" where
  "should_give_up origin consecutive_failures \<longleftrightarrow>
    origin = Discovered \<and> consecutive_failures \<ge> DISCOVERY_LINK_MAX_RESPAWN_ATTEMPTS"

record PooledLink =
  ln_seed :: Seed
  ln_origin :: LinkOrigin
  ln_trust :: Trust
  ln_session :: "Session option"
  ln_peer_node_id :: "bytes option"
  ln_connected :: bool
  ln_consecutive_failures :: u32
  ln_gave_up :: bool
  ln_redialing :: bool

definition PooledLink_new :: "Seed \<Rightarrow> LinkOrigin \<Rightarrow> Trust \<Rightarrow> PooledLink" where
  "PooledLink_new seed origin trust =
    \<lparr>ln_seed = seed, ln_origin = origin, ln_trust = trust, ln_session = None, ln_peer_node_id = None,
     ln_connected = False, ln_consecutive_failures = 0, ln_gave_up = False, ln_redialing = False\<rparr>"

record LinkInfo =
  li_seed :: Seed
  li_connected :: bool
  li_node_id :: "bytes option"

record PoolStatus =
  healthy_links :: nat
  total_links :: nat

definition is_healthy :: "PoolStatus \<Rightarrow> bool" where
  "is_healthy s \<longleftrightarrow> healthy_links s > 0"

datatype PoolCallError = CallNoHealthyStation | CallAllFailed CallError

datatype PoolPublishError = PublishNoHealthyStation | PublishAllFailed nat

subsection \<open>The pool and its tasks\<close>

text \<open>
  Where a task is. A link's life cycle: not polled yet, at the head of its loop, dialing, holding
  a session to store, past each store that follows, past a failed dial, asleep, and about to
  release its claim. A caller: about to lock its first candidate, in \<open>mark_disconnected\<close> about to
  lock, about to claim, about to spawn. Discovery: not polled yet, waiting for a healthy link, at
  the head of its loop, in \<open>discover_once\<close>, with rows to go through, about to add a link, about to claim and about to
  spawn for it, asleep. \<open>close\<close>: past the stop signal, about to lock the list of links, and holding that
  lock with the links it has taken out of the list and not closed yet.
\<close>

datatype life_pc =
    LSpawned | LTop | LDial | LInstall Session | LStored | LReset | LFailed | LGivingUp | LSleep | LDone

datatype caller_job = CallJob | PublishJob

datatype caller_pc = CTry | CLock | CClaim | CSpawn

datatype disc_pc =
    DSpawned | DWait | DTop | DQuery | DRows "Value list" | DAdd Seed Trust "Value list"
  | DClaim nat "Value list" | DSpawn nat "Value list" | DSleep

datatype close_pc = CloShutdown | CloDrain | CloHold "nat list"

datatype task =
    Life nat life_pc
  | Caller caller_job "nat list" caller_pc
  | Disc disc_pc
  | Closer close_pc

record Pool =
  pl_identity :: KeyPair
  pl_trust :: Trust
  pl_options :: PoolOptions
  pl_store :: "PooledLink list"
  pl_links :: "nat list"
  pl_stop :: bool
  pl_tasks :: "task multiset"

definition set_link :: "nat \<Rightarrow> (PooledLink \<Rightarrow> PooledLink) \<Rightarrow> Pool \<Rightarrow> Pool" where
  "set_link i f p = p\<lparr>pl_store := (pl_store p)[i := f (pl_store p ! i)]\<rparr>"

definition spawn_task :: "task \<Rightarrow> Pool \<Rightarrow> Pool" where
  "spawn_task t p = p\<lparr>pl_tasks := add_mset t (pl_tasks p)\<rparr>"

text \<open>\<open>try_claim_redial\<close>: the compare-exchange, and the link with the claim taken.\<close>

definition try_claim_redial :: "nat \<Rightarrow> Pool \<Rightarrow> bool \<times> Pool" where
  "try_claim_redial i p =
    (if ln_redialing (pl_store p ! i) then (False, p)
     else (True, set_link i (ln_redialing_update (\<lambda>_. True)) p))"

definition spawn_lifecycle :: "nat \<Rightarrow> Pool \<Rightarrow> Pool" where
  "spawn_lifecycle i = spawn_task (Life i LSpawned)"

definition claim_and_spawn :: "nat \<Rightarrow> Pool \<Rightarrow> Pool" where
  "claim_and_spawn i p = (case try_claim_redial i p of (won, p') \<Rightarrow> if won then spawn_lifecycle i p' else p')"

definition drop_session :: "PooledLink \<Rightarrow> PooledLink" where
  "drop_session l = l\<lparr>ln_session := None, ln_connected := False\<rparr>"

definition mark_disconnected :: "nat \<Rightarrow> Pool \<Rightarrow> Pool" where
  "mark_disconnected i p = claim_and_spawn i (set_link i drop_session p)"

text \<open>\<open>Pool::connect\<close>; its assertion on the seeds is a panic.\<close>

definition pool_connect :: "Seed list \<Rightarrow> Trust \<Rightarrow> KeyPair \<Rightarrow> PoolOptions \<Rightarrow> (Pool, 'e fail) result" where
  "pool_connect seeds trust kp options =
    (if seeds = [] then Inl Panic
     else
       let p = \<lparr>pl_identity = kp, pl_trust = trust, pl_options = options,
                pl_store = map (\<lambda>seed. PooledLink_new seed Bootstrap trust) seeds,
                pl_links = [0..<length seeds], pl_stop = False, pl_tasks = {#}\<rparr>;
           p = fold claim_and_spawn [0..<length seeds] p in
       Inr (if sd_enabled (po_station_discovery options) then spawn_task (Disc DSpawned) p else p))"

subsection \<open>Reading the pool\<close>

definition is_connected :: "Pool \<Rightarrow> nat \<Rightarrow> bool" where
  "is_connected p i \<longleftrightarrow> ln_connected (pl_store p ! i)"

definition pool_status :: "Pool \<Rightarrow> PoolStatus" where
  "pool_status p =
    \<lparr>healthy_links = length (filter (is_connected p) (pl_links p)), total_links = length (pl_links p)\<rparr>"

definition pool_links :: "Pool \<Rightarrow> LinkInfo list" where
  "pool_links p =
    map (\<lambda>i. let l = pl_store p ! i in
           \<lparr>li_seed = ln_seed l, li_connected = ln_connected l,
            li_node_id = (if ln_connected l then ln_peer_node_id l else None)\<rparr>) (pl_links p)"

definition select_connected_links :: "(nat list \<Rightarrow> nat list) \<Rightarrow> Pool \<Rightarrow> nat list" where
  "select_connected_links shuffle p =
    (let candidates = filter (is_connected p) (pl_links p);
         resolved = resolve_link_selection (po_link_selection (pl_options p))
                      (sd_enabled (po_station_discovery (pl_options p))) in
     select_links shuffle candidates resolved)"

subsection \<open>Calls and publishes\<close>

fun call_candidates ::
  "crypto \<Rightarrow> env \<Rightarrow> string \<Rightarrow> bytes \<Rightarrow> Value \<Rightarrow> int \<Rightarrow> nat list \<Rightarrow> CallError option \<Rightarrow> Pool \<times> nat
    \<Rightarrow> (CallResponse, PoolCallError fail) result \<times> Pool \<times> nat" where
  "call_candidates C E procedure realm payload deadline_ms [] last_err (p, n) =
    (Inl (Err (case last_err of Some e \<Rightarrow> CallAllFailed e | None \<Rightarrow> CallNoHealthyStation)), p, n)"
| "call_candidates C E procedure realm payload deadline_ms (i # candidates) last_err (p, n) =
    (case ln_session (pl_store p ! i) of
       None \<Rightarrow> call_candidates C E procedure realm payload deadline_ms candidates last_err (p, n)
     | Some s \<Rightarrow>
         (case session_call C E n s procedure realm payload deadline_ms (pl_identity p) of
            (r, s', n') \<Rightarrow>
              let p' = set_link i (ln_session_update (\<lambda>_. Some s')) p in
              (case r of
                 Inr response \<Rightarrow> (Inr response, p', n')
               | Inl Panic \<Rightarrow> (Inl Panic, p', n')
               | Inl (Err e) \<Rightarrow>
                   call_candidates C E procedure realm payload deadline_ms candidates (Some e)
                     (mark_disconnected i p', n'))))"

definition pool_call ::
  "(nat list \<Rightarrow> nat list) \<Rightarrow> crypto \<Rightarrow> env \<Rightarrow> nat \<Rightarrow> string \<Rightarrow> bytes \<Rightarrow> Value \<Rightarrow> int \<Rightarrow> Pool
    \<Rightarrow> (CallResponse, PoolCallError fail) result \<times> Pool \<times> nat" where
  "pool_call shuffle C E n procedure realm payload deadline_ms p =
    (let candidates = select_connected_links shuffle p in
     if candidates = [] then (Inl (Err CallNoHealthyStation), p, n)
     else call_candidates C E procedure realm payload deadline_ms candidates None (p, n))"

fun publish_targets ::
  "crypto \<Rightarrow> env \<Rightarrow> PublishSpec \<Rightarrow> nat list \<Rightarrow> nat \<Rightarrow> Pool \<times> nat \<Rightarrow> (nat, PoolPublishError fail) result \<times> Pool \<times> nat" where
  "publish_targets C E spec [] successes (p, n) = (Inr successes, p, n)"
| "publish_targets C E spec (i # targets) successes (p, n) =
    (case ln_session (pl_store p ! i) of
       None \<Rightarrow> publish_targets C E spec targets successes (p, n)
     | Some s \<Rightarrow>
         (case publish C E n spec (pl_identity p) s of
            (r, s', n') \<Rightarrow>
              let p' = set_link i (ln_session_update (\<lambda>_. Some s')) p in
              (case r of
                 Inr _ \<Rightarrow> publish_targets C E spec targets (successes + 1) (p', n')
               | Inl Panic \<Rightarrow> (Inl Panic, p', n')
               | Inl (Err _) \<Rightarrow> publish_targets C E spec targets successes (mark_disconnected i p', n'))))"

definition pool_publish ::
  "(nat list \<Rightarrow> nat list) \<Rightarrow> crypto \<Rightarrow> env \<Rightarrow> nat \<Rightarrow> PublishSpec \<Rightarrow> Pool
    \<Rightarrow> (unit, PoolPublishError fail) result \<times> Pool \<times> nat" where
  "pool_publish shuffle C E n spec p =
    (let candidates = select_connected_links shuffle p in
     if candidates = [] then (Inl (Err PublishNoHealthyStation), p, n)
     else
       let targets = take (max (po_replication_factor (pl_options p)) 1) candidates in
       case publish_targets C E spec targets 0 (p, n) of
         (r, p', n') \<Rightarrow>
           (bindR r (\<lambda>successes. if successes > 0 then Inr () else Inl (Err (PublishAllFailed (length targets)))), p', n'))"

subsection \<open>Station discovery\<close>

definition LIST_STATIONS_PROCEDURE :: string where
  "LIST_STATIONS_PROCEDURE = ''hecate_stations.list_stations''"

text \<open>\<open>str::is_char_boundary\<close>, and \<open>u8::from_str_radix\<close> at 16 on the two bytes of a slice.\<close>

definition is_char_boundary :: "string \<Rightarrow> nat \<Rightarrow> bool" where
  "is_char_boundary s i \<longleftrightarrow> i = 0 \<or> i = length s \<or> (i < length s \<and> \<not> cont_byte (of_char (s ! i)))"

definition hex_pair :: "char \<Rightarrow> char \<Rightarrow> u8 option" where
  "hex_pair a b =
    (case to_digit 16 b of
       None \<Rightarrow> None
     | Some low \<Rightarrow>
         if a = CHR ''+'' then Some (word_of_nat low)
         else map_option (\<lambda>high. word_of_nat (16 * high + low)) (to_digit 16 a))"

text \<open>\<open>&s[i..i + 2]\<close> panics at a position inside a character; the first bad pair ends the loop.\<close>

fun hex_decode_at :: "string \<Rightarrow> nat list \<Rightarrow> (bytes option, 'e fail) result" where
  "hex_decode_at s [] = Inr (Some [])"
| "hex_decode_at s (i # is) =
    (if \<not> (is_char_boundary s i \<and> is_char_boundary s (i + 2)) then Inl Panic
     else
       case hex_pair (s ! i) (s ! (i + 1)) of
         None \<Rightarrow> Inr None
       | Some b \<Rightarrow> bindR (hex_decode_at s is) (\<lambda>r. Inr (map_option ((#) b) r)))"

definition hex_decode :: "string \<Rightarrow> (bytes option, 'e fail) result" where
  "hex_decode s =
    (if length s mod 2 \<noteq> 0 then Inr None else hex_decode_at s (map (\<lambda>k. 2 * k) [0..<length s div 2]))"

definition strip_suffix :: "string \<Rightarrow> string \<Rightarrow> string option" where
  "strip_suffix s suffix =
    (let n = length s - length suffix in
     if length suffix \<le> length s \<and> drop n s = suffix then Some (take n s) else None)"

definition try_match_list_stations_realm :: "string \<Rightarrow> (bytes option, 'e fail) result" where
  "try_match_list_stations_realm procedure_uri =
    (case strip_suffix procedure_uri (''/'' @ LIST_STATIONS_PROCEDURE) of
       None \<Rightarrow> Inr None
     | Some hex_realm \<Rightarrow>
         if length hex_realm \<noteq> 64 then Inr None
         else bindR (hex_decode hex_realm) (\<lambda>r. Inr (Option.bind r (to_array 32))))"

text \<open>The records that \<open>resolve_list_stations_realm\<close> goes through, at the time \<open>now\<close>.\<close>

fun first_list_stations_realm :: "crypto \<Rightarrow> int \<Rightarrow> Record list \<Rightarrow> (bytes option, 'e fail) result" where
  "first_list_stations_realm C now [] = Inr None"
| "first_list_stations_realm C now (r # rs) =
    (case verify_record C now r of
       Inl Panic \<Rightarrow> Inl Panic
     | Inl (Err _) \<Rightarrow> first_list_stations_realm C now rs
     | Inr _ \<Rightarrow>
         (case read_procedure_advertisement r of
            Inl _ \<Rightarrow> first_list_stations_realm C now rs
          | Inr advertisement \<Rightarrow>
              bindR (try_match_list_stations_realm (pa_procedure_uri advertisement)) (\<lambda>m.
                case m of
                  Some realm \<Rightarrow> Inr (Some realm)
                | None \<Rightarrow> first_list_stations_realm C now rs)))"

definition count_occupied_discovery_slots :: "PooledLink list \<Rightarrow> nat" where
  "count_occupied_discovery_slots ls = length (filter (\<lambda>l. ln_origin l = Discovered \<and> \<not> ln_gave_up l) ls)"

definition dial_target_from_station_row :: "Value \<Rightarrow> (string \<times> u16 \<times> bytes option) option" where
  "dial_target_from_station_row row =
    (case row of
       Map _ \<Rightarrow>
         Option.bind (Option.bind (get row ''quic_port'') as_port) (\<lambda>port.
           let hostname =
                 (case get row ''hostname'' of
                    Some (Text t) \<Rightarrow> if t \<noteq> [] then Some t else None
                  | Some (Bytes b) \<Rightarrow> if b \<noteq> [] then from_utf8 b else None
                  | _ \<Rightarrow> None);
               host_advertised =
                 (case get row ''host_advertised'' of
                    Some (List items) \<Rightarrow>
                      (case List.map_filter host_item items of [] \<Rightarrow> None | h # _ \<Rightarrow> Some h)
                  | _ \<Rightarrow> None);
               host = (case hostname of Some h \<Rightarrow> Some h | None \<Rightarrow> host_advertised);
               node = (case get row ''node_id'' of Some (Bytes b) \<Rightarrow> to_array 32 b | _ \<Rightarrow> None) in
           map_option (\<lambda>h. (h, port, node)) host)
     | _ \<Rightarrow> None)"

text \<open>The trust a discovered station is dialed under; \<open>None\<close> when there is no way to validate it.\<close>

definition discovered_trust :: "Trust \<Rightarrow> string \<Rightarrow> bytes option \<Rightarrow> Trust option" where
  "discovered_trust pool_trust host node =
    (if is_ip_addr host \<and> pool_trust = WebPki then map_option Pinned node else Some pool_trust)"

definition has_link_for_node_id :: "Pool \<Rightarrow> bytes \<Rightarrow> bool" where
  "has_link_for_node_id p node \<longleftrightarrow>
    list_ex (\<lambda>i. is_connected p i \<and> ln_peer_node_id (pl_store p ! i) = Some node) (pl_links p)"

text \<open>What \<open>add_discovered_links\<close> does with one row up to the point where it adds a link.\<close>

datatype row_action = Break | Skip | Add Seed Trust

definition station_row :: "Pool \<Rightarrow> Value \<Rightarrow> row_action" where
  "station_row p row =
    (if count_occupied_discovery_slots (map ((!) (pl_store p)) (pl_links p))
          \<ge> sd_max_links (po_station_discovery (pl_options p)) then Break
     else
       case dial_target_from_station_row row of
         None \<Rightarrow> Skip
       | Some (host, port, node) \<Rightarrow>
           (case discovered_trust (pl_trust p) host node of
              None \<Rightarrow> Skip
            | Some trust \<Rightarrow>
                if (case node of Some peer \<Rightarrow> has_link_for_node_id p peer | None \<Rightarrow> False) then Skip
                else Add \<lparr>seed_host = host, seed_port = port\<rparr> trust))"

text \<open>The critical section of \<open>spawn_seed_link_if_absent\<close>: the new link, if there is one.\<close>

definition push_link_if_absent :: "Seed \<Rightarrow> Trust \<Rightarrow> Pool \<Rightarrow> nat option \<times> Pool" where
  "push_link_if_absent seed trust p =
    (if list_ex (\<lambda>i. ln_seed (pl_store p ! i) = seed) (pl_links p) then (None, p)
     else
       let i = length (pl_store p) in
       (Some i, p\<lparr>pl_store := pl_store p @ [PooledLink_new seed Discovered trust], pl_links := pl_links p @ [i]\<rparr>))"

definition station_rows :: "CallResponse \<Rightarrow> Value list option" where
  "station_rows response =
    (case response of
       CallResult (Map entries) _ \<Rightarrow> (case get (Map entries) ''stations'' of Some (List stations) \<Rightarrow> Some stations | _ \<Rightarrow> None)
     | _ \<Rightarrow> None)"

subsection \<open>Discovery as one operation\<close>

text \<open>
  \<open>discover_once\<close> when nothing else happens to the pool meanwhile. Every failure on the way ends it
  quietly, except a panic of the records' verification, of the decoding of a procedure name or of the call.
\<close>

definition DISCOVERY_CALL_DEADLINE :: int where
  "DISCOVERY_CALL_DEADLINE = 5000"

definition resolve_list_stations_realm ::
  "crypto \<Rightarrow> env \<Rightarrow> nat \<Rightarrow> Pool \<Rightarrow> (bytes option, unit fail) result \<times> Pool \<times> nat" where
  "resolve_list_stations_realm C E n p =
    (case find (is_connected p) (pl_links p) of
       None \<Rightarrow> (Inr None, p, n)
     | Some i \<Rightarrow>
         (case ln_session (pl_store p ! i) of
            None \<Rightarrow> (Inr None, p, n)
          | Some session \<Rightarrow>
              (case find_records_by_type C E n session (pl_identity p) TYPE_PROCEDURE_ADVERTISEMENT of
                 (r, session', n') \<Rightarrow>
                   ((case r of
                       Inl Panic \<Rightarrow> Inl Panic
                     | Inl (Err _) \<Rightarrow> Inr None
                     | Inr records \<Rightarrow> first_list_stations_realm C (uint (env_now_ms E n')) records),
                    set_link i (ln_session_update (\<lambda>_. Some session')) p, n' + 1))))"

definition spawn_seed_link_if_absent :: "Seed \<Rightarrow> Trust \<Rightarrow> Pool \<Rightarrow> Pool" where
  "spawn_seed_link_if_absent seed trust p =
    (case push_link_if_absent seed trust p of
       (None, p') \<Rightarrow> p'
     | (Some link, p') \<Rightarrow> claim_and_spawn link p')"

fun add_discovered_links :: "Value list \<Rightarrow> Pool \<Rightarrow> Pool" where
  "add_discovered_links [] p = p"
| "add_discovered_links (row # stations) p =
    (case station_row p row of
       Break \<Rightarrow> p
     | Skip \<Rightarrow> add_discovered_links stations p
     | Add seed trust \<Rightarrow> add_discovered_links stations (spawn_seed_link_if_absent seed trust p))"

definition discover_once ::
  "(nat list \<Rightarrow> nat list) \<Rightarrow> crypto \<Rightarrow> env \<Rightarrow> nat \<Rightarrow> Pool \<Rightarrow> (unit, unit fail) result \<times> Pool \<times> nat" where
  "discover_once shuffle C E n p =
    (case resolve_list_stations_realm C E n p of
       (Inl e, p1, n1) \<Rightarrow> (Inl e, p1, n1)
     | (Inr None, p1, n1) \<Rightarrow> (Inr (), p1, n1)
     | (Inr (Some realm), p1, n1) \<Rightarrow>
         (let deadline = uint (env_now_ms E n1) + DISCOVERY_CALL_DEADLINE in
          case pool_call shuffle C E (n1 + 1) LIST_STATIONS_PROCEDURE realm (Map []) deadline p1 of
            (Inl Panic, p2, n2) \<Rightarrow> (Inl Panic, p2, n2)
          | (Inl (Err _), p2, n2) \<Rightarrow> (Inr (), p2, n2)
          | (Inr response, p2, n2) \<Rightarrow>
              (case station_rows response of
                 None \<Rightarrow> (Inr (), p2, n2)
               | Some stations \<Rightarrow> (Inr (), add_discovered_links stations p2, n2))))"

end
