(* ===== verification/PoolSteps.thy ===== *)
theory PoolSteps
  imports Pool
begin

section \<open>PoolSteps: the tasks of a pool in any order\<close>

text \<open>
  Everything that can happen to a pool, one atomic action at a time: a critical section under a
  link's lock, one store of an atomic, one poll of the stop signal. Which task moves next, what a
  dial or a call returns, and when a caller or \<open>close\<close> comes along is not determined. The stop
  signal is a \<open>tokio::sync::watch\<close> channel: what \<open>send\<close> makes of the old value, when there are
  receivers or none, is the argument \<open>W\<close>; its documented behaviour is \<open>watch_ok\<close>. A background
  task can be aborted where it awaits. The call that discovery makes through the pool is one of
  the callers; discovery ends with it if it panics. The future of a caller can be dropped wherever it
  awaits: at a lock, in its call, and between winning a link's claim and spawning the life cycle.
  \<open>close\<close> empties the list of links when it locks it, as \<open>drain\<close> does, and closes the links under that
  lock; who reads the list meanwhile reads it empty, as after the lock is released, for which the
  code makes it wait. The \<open>u32\<close> counter of failed dials wraps around.
\<close>

type_synonym watch = "bool \<Rightarrow> bool \<Rightarrow> bool \<Rightarrow> bool"

definition watch_ok :: "watch \<Rightarrow> bool" where
  "watch_ok W \<longleftrightarrow> (\<forall>receivers old new. W receivers old new = (if receivers then new else old))"

definition shuffle_ok :: "(nat list \<Rightarrow> nat list) \<Rightarrow> bool" where
  "shuffle_ok shuffle \<longleftrightarrow> (\<forall>xs. mset (shuffle xs) = mset xs)"

text \<open>\<open>stop_tx.subscribe()\<close> is the first thing a background task does; it drops its receiver when it returns.\<close>

fun holds_receiver :: "task \<Rightarrow> bool" where
  "holds_receiver (Life i pc) \<longleftrightarrow> pc \<noteq> LSpawned \<and> pc \<noteq> LDone"
| "holds_receiver (Disc pc) \<longleftrightarrow> pc \<noteq> DSpawned"
| "holds_receiver _ \<longleftrightarrow> False"

fun is_background :: "task \<Rightarrow> bool" where
  "is_background (Life i pc) \<longleftrightarrow> True"
| "is_background (Disc pc) \<longleftrightarrow> True"
| "is_background _ \<longleftrightarrow> False"

fun awaits :: "task \<Rightarrow> bool" where
  "awaits (Life i pc) \<longleftrightarrow> (case pc of LSpawned \<Rightarrow> True | LDial \<Rightarrow> True | LInstall s \<Rightarrow> True | LSleep \<Rightarrow> True | _ \<Rightarrow> False)"
| "awaits (Disc pc) \<longleftrightarrow> (case pc of DClaim i rows \<Rightarrow> False | _ \<Rightarrow> True)"
| "awaits _ \<longleftrightarrow> True"

definition job_targets :: "PoolOptions \<Rightarrow> caller_job \<Rightarrow> nat list \<Rightarrow> nat list" where
  "job_targets options job candidates =
    (case job of CallJob \<Rightarrow> candidates | PublishJob \<Rightarrow> take (max (po_replication_factor options) 1) candidates)"

abbreviation with_tasks :: "Pool \<Rightarrow> task multiset \<Rightarrow> Pool" where
  "with_tasks p ts \<equiv> p\<lparr>pl_tasks := ts\<rparr>"

abbreviation install :: "nat \<Rightarrow> Session \<Rightarrow> Pool \<Rightarrow> Pool" where
  "install i s p \<equiv> set_link i (ln_session_update (\<lambda>_. Some s)) p"

subsection \<open>One link's life cycle\<close>

inductive life_step :: "crypto \<Rightarrow> Pool \<Rightarrow> Pool \<Rightarrow> bool" for C where
  life_start: "pl_tasks p = add_mset (Life i LSpawned) ts \<Longrightarrow> life_step C p (with_tasks p (add_mset (Life i LTop) ts))"
| life_stop: "pl_tasks p = add_mset (Life i LTop) ts \<Longrightarrow> pl_stop p \<Longrightarrow>
    life_step C p (with_tasks p (add_mset (Life i LDone) ts))"
| life_dial: "pl_tasks p = add_mset (Life i LTop) ts \<Longrightarrow> \<not> pl_stop p \<Longrightarrow>
    life_step C p (with_tasks p (add_mset (Life i LDial) ts))"
| life_dialed: "pl_tasks p = add_mset (Life i LDial) ts \<Longrightarrow> connect C E n (pl_identity p) d = Inr s \<Longrightarrow>
    life_step C p (with_tasks p (add_mset (Life i (LInstall s)) ts))"
| life_dial_failed: "pl_tasks p = add_mset (Life i LDial) ts \<Longrightarrow> connect C E n (pl_identity p) d = Inl (Err e) \<Longrightarrow>
    life_step C p (with_tasks p (add_mset (Life i LFailed) ts))"
| life_install: "pl_tasks p = add_mset (Life i (LInstall s)) ts \<Longrightarrow>
    life_step C p (with_tasks
      (set_link i (\<lambda>l. l\<lparr>ln_session := Some s, ln_peer_node_id := Some (he_node_id (station s))\<rparr>) p)
      (add_mset (Life i LStored) ts))"
| life_connected: "pl_tasks p = add_mset (Life i LStored) ts \<Longrightarrow>
    life_step C p (with_tasks (set_link i (ln_connected_update (\<lambda>_. True)) p) (add_mset (Life i LReset) ts))"
| life_reset: "pl_tasks p = add_mset (Life i LReset) ts \<Longrightarrow>
    life_step C p (with_tasks (set_link i (ln_consecutive_failures_update (\<lambda>_. 0)) p) (add_mset (Life i LDone) ts))"
| life_failed: "pl_tasks p = add_mset (Life i LFailed) ts \<Longrightarrow> failures = ln_consecutive_failures (pl_store p ! i) + 1 \<Longrightarrow>
    life_step C p (with_tasks (set_link i (ln_consecutive_failures_update (\<lambda>_. failures)) p)
      (add_mset (Life i (if should_give_up (ln_origin (pl_store p ! i)) failures then LGivingUp else LSleep)) ts))"
| life_give_up: "pl_tasks p = add_mset (Life i LGivingUp) ts \<Longrightarrow>
    life_step C p (with_tasks (set_link i (ln_gave_up_update (\<lambda>_. True)) p) (add_mset (Life i LDone) ts))"
| life_wake: "pl_tasks p = add_mset (Life i LSleep) ts \<Longrightarrow> life_step C p (with_tasks p (add_mset (Life i LTop) ts))"
| life_sleep_stop: "pl_tasks p = add_mset (Life i LSleep) ts \<Longrightarrow> pl_stop p \<Longrightarrow>
    life_step C p (with_tasks p (add_mset (Life i LDone) ts))"
| life_done: "pl_tasks p = add_mset (Life i LDone) ts \<Longrightarrow>
    life_step C p (with_tasks (set_link i (ln_redialing_update (\<lambda>_. False)) p) ts)"

subsection \<open>Callers\<close>

inductive caller_step :: "crypto \<Rightarrow> (nat list \<Rightarrow> nat list) \<Rightarrow> Pool \<Rightarrow> Pool \<Rightarrow> bool" for C shuffle where
  caller_select:
    "caller_step C shuffle p (spawn_task (Caller job (job_targets (pl_options p) job (select_connected_links shuffle p)) CTry) p)"
| caller_skip: "pl_tasks p = add_mset (Caller job (i # is) CTry) ts \<Longrightarrow> ln_session (pl_store p ! i) = None \<Longrightarrow>
    caller_step C shuffle p (with_tasks p (add_mset (Caller job is CTry) ts))"
| caller_answered: "pl_tasks p = add_mset (Caller CallJob (i # is) CTry) ts \<Longrightarrow> ln_session (pl_store p ! i) = Some s \<Longrightarrow>
    session_call C E n s procedure realm payload deadline_ms (pl_identity p) = (r, s', n') \<Longrightarrow> \<forall>e. r \<noteq> Inl (Err e) \<Longrightarrow>
    caller_step C shuffle p (with_tasks (install i s' p) ts)"
| caller_call_failed: "pl_tasks p = add_mset (Caller CallJob (i # is) CTry) ts \<Longrightarrow> ln_session (pl_store p ! i) = Some s \<Longrightarrow>
    session_call C E n s procedure realm payload deadline_ms (pl_identity p) = (Inl (Err e), s', n') \<Longrightarrow>
    caller_step C shuffle p (with_tasks (install i s' p) (add_mset (Caller CallJob (i # is) CLock) ts))"
| caller_published: "pl_tasks p = add_mset (Caller PublishJob (i # is) CTry) ts \<Longrightarrow> ln_session (pl_store p ! i) = Some s \<Longrightarrow>
    publish C E n spec (pl_identity p) s = (Inr (), s', n') \<Longrightarrow>
    caller_step C shuffle p (with_tasks (install i s' p) (add_mset (Caller PublishJob is CTry) ts))"
| caller_publish_panicked: "pl_tasks p = add_mset (Caller PublishJob (i # is) CTry) ts \<Longrightarrow> ln_session (pl_store p ! i) = Some s \<Longrightarrow>
    publish C E n spec (pl_identity p) s = (Inl Panic, s', n') \<Longrightarrow>
    caller_step C shuffle p (with_tasks (install i s' p) ts)"
| caller_publish_failed: "pl_tasks p = add_mset (Caller PublishJob (i # is) CTry) ts \<Longrightarrow> ln_session (pl_store p ! i) = Some s \<Longrightarrow>
    publish C E n spec (pl_identity p) s = (Inl (Err e), s', n') \<Longrightarrow>
    caller_step C shuffle p (with_tasks (install i s' p) (add_mset (Caller PublishJob (i # is) CLock) ts))"
| caller_lock: "pl_tasks p = add_mset (Caller job (i # is) CLock) ts \<Longrightarrow>
    caller_step C shuffle p (with_tasks (set_link i drop_session p) (add_mset (Caller job (i # is) CClaim) ts))"
| caller_claim: "pl_tasks p = add_mset (Caller job (i # is) CClaim) ts \<Longrightarrow> try_claim_redial i p = (True, p') \<Longrightarrow>
    caller_step C shuffle p (with_tasks p' (add_mset (Caller job (i # is) CSpawn) ts))"
| caller_claim_lost: "pl_tasks p = add_mset (Caller job (i # is) CClaim) ts \<Longrightarrow> try_claim_redial i p = (False, p') \<Longrightarrow>
    caller_step C shuffle p (with_tasks p' (add_mset (Caller job is CTry) ts))"
| caller_spawn: "pl_tasks p = add_mset (Caller job (i # is) CSpawn) ts \<Longrightarrow>
    caller_step C shuffle p (with_tasks p (add_mset (Life i LSpawned) (add_mset (Caller job is CTry) ts)))"
| caller_done: "pl_tasks p = add_mset (Caller job [] CTry) ts \<Longrightarrow> caller_step C shuffle p (with_tasks p ts)"

subsection \<open>Discovery\<close>

inductive disc_step :: "crypto \<Rightarrow> Pool \<Rightarrow> Pool \<Rightarrow> bool" for C where
  disc_pointless: "pl_tasks p = add_mset (Disc DSpawned) ts \<Longrightarrow> pl_trust p = Pinned k \<Longrightarrow> disc_step C p (with_tasks p ts)"
| disc_start: "pl_tasks p = add_mset (Disc DSpawned) ts \<Longrightarrow> \<forall>k. pl_trust p \<noteq> Pinned k \<Longrightarrow>
    disc_step C p (with_tasks p (add_mset (Disc DWait) ts))"
| disc_healthy: "pl_tasks p = add_mset (Disc DWait) ts \<Longrightarrow> \<not> pl_stop p \<Longrightarrow> is_healthy (pool_status p) \<Longrightarrow>
    disc_step C p (with_tasks p (add_mset (Disc DTop) ts))"
| disc_stop: "pl_tasks p = add_mset (Disc pc) ts \<Longrightarrow> pc \<in> {DWait, DTop, DSleep} \<Longrightarrow> pl_stop p \<Longrightarrow> disc_step C p (with_tasks p ts)"
| disc_query: "pl_tasks p = add_mset (Disc DQuery) ts \<Longrightarrow> find (is_connected p) (pl_links p) = Some i \<Longrightarrow>
    ln_session (pl_store p ! i) = Some s \<Longrightarrow>
    find_records_by_type C E n s (pl_identity p) TYPE_PROCEDURE_ADVERTISEMENT = (r, s', n') \<Longrightarrow>
    r \<noteq> Inl Panic \<Longrightarrow> \<forall>rs. r = Inr rs \<longrightarrow> first_list_stations_realm C now rs \<noteq> (Inl Panic :: (_, unit fail) result) \<Longrightarrow>
    disc_step C p (install i s' p)"
| disc_panicked: "pl_tasks p = add_mset (Disc DQuery) ts \<Longrightarrow> find (is_connected p) (pl_links p) = Some i \<Longrightarrow>
    ln_session (pl_store p ! i) = Some s \<Longrightarrow>
    find_records_by_type C E n s (pl_identity p) TYPE_PROCEDURE_ADVERTISEMENT = (Inr rs, s', n') \<Longrightarrow>
    first_list_stations_realm C now rs = (Inl Panic :: (_, unit fail) result) \<Longrightarrow>
    disc_step C p (with_tasks (install i s' p) ts)"
| disc_found: "pl_tasks p = add_mset (Disc DQuery) ts \<Longrightarrow> station_rows response = Some rows \<Longrightarrow>
    disc_step C p (with_tasks p (add_mset (Disc (DRows rows)) ts))"
| disc_nothing: "pl_tasks p = add_mset (Disc DQuery) ts \<Longrightarrow> disc_step C p (with_tasks p (add_mset (Disc DSleep) ts))"
| disc_rows_done: "pl_tasks p = add_mset (Disc (DRows [])) ts \<Longrightarrow> disc_step C p (with_tasks p (add_mset (Disc DSleep) ts))"
| disc_break: "pl_tasks p = add_mset (Disc (DRows (row # rows))) ts \<Longrightarrow> station_row p row = Break \<Longrightarrow>
    disc_step C p (with_tasks p (add_mset (Disc DSleep) ts))"
| disc_skip: "pl_tasks p = add_mset (Disc (DRows (row # rows))) ts \<Longrightarrow> station_row p row = Skip \<Longrightarrow>
    disc_step C p (with_tasks p (add_mset (Disc (DRows rows)) ts))"
| disc_row: "pl_tasks p = add_mset (Disc (DRows (row # rows))) ts \<Longrightarrow> station_row p row = Add seed trust \<Longrightarrow>
    disc_step C p (with_tasks p (add_mset (Disc (DAdd seed trust rows)) ts))"
| disc_present: "pl_tasks p = add_mset (Disc (DAdd seed trust rows)) ts \<Longrightarrow> push_link_if_absent seed trust p = (None, p') \<Longrightarrow>
    disc_step C p (with_tasks p' (add_mset (Disc (DRows rows)) ts))"
| disc_push: "pl_tasks p = add_mset (Disc (DAdd seed trust rows)) ts \<Longrightarrow> push_link_if_absent seed trust p = (Some i, p') \<Longrightarrow>
    disc_step C p (with_tasks p' (add_mset (Disc (DClaim i rows)) ts))"
| disc_claim: "pl_tasks p = add_mset (Disc (DClaim i rows)) ts \<Longrightarrow> try_claim_redial i p = (True, p') \<Longrightarrow>
    disc_step C p (with_tasks p' (add_mset (Disc (DSpawn i rows)) ts))"
| disc_claim_lost: "pl_tasks p = add_mset (Disc (DClaim i rows)) ts \<Longrightarrow> try_claim_redial i p = (False, p') \<Longrightarrow>
    disc_step C p (with_tasks p' (add_mset (Disc (DRows rows)) ts))"
| disc_spawn: "pl_tasks p = add_mset (Disc (DSpawn i rows)) ts \<Longrightarrow>
    disc_step C p (with_tasks p (add_mset (Life i LSpawned) (add_mset (Disc (DRows rows)) ts)))"
| disc_wake: "pl_tasks p = add_mset (Disc DSleep) ts \<Longrightarrow> disc_step C p (with_tasks p (add_mset (Disc DTop) ts))"
| disc_enter: "pl_tasks p = add_mset (Disc DTop) ts \<Longrightarrow> \<not> pl_stop p \<Longrightarrow>
    disc_step C p (with_tasks p (add_mset (Disc DQuery) ts))"
| disc_query_died: "pl_tasks p = add_mset (Disc DQuery) ts \<Longrightarrow> find (is_connected p) (pl_links p) = Some i \<Longrightarrow>
    ln_session (pl_store p ! i) = Some s \<Longrightarrow>
    find_records_by_type C E n s (pl_identity p) TYPE_PROCEDURE_ADVERTISEMENT = (Inl Panic, s', n') \<Longrightarrow>
    disc_step C p (with_tasks (install i s' p) ts)"
| disc_call_died: "pl_tasks p = add_mset (Disc DQuery) ts \<Longrightarrow>
    session_call C E n s LIST_STATIONS_PROCEDURE realm (Map []) deadline_ms (pl_identity p) = (Inl Panic, s', n') \<Longrightarrow>
    disc_step C p (with_tasks p ts)"

subsection \<open>Callers that are dropped\<close>

text \<open>
  A future that is dropped runs no further: at \<open>lock().await\<close> of a link or of the tasks nothing else
  happens; in the middle of its call or publish the session stays in its link, on the same connection
  and with whatever was written and read so far.
\<close>

inductive cancel_step :: "Pool \<Rightarrow> Pool \<Rightarrow> bool" where
  cancel_waiting: "pl_tasks p = add_mset (Caller job is pc) ts \<Longrightarrow> pc \<in> {CTry, CLock, CSpawn} \<Longrightarrow> cancel_step p (with_tasks p ts)"
| cancel_calling: "pl_tasks p = add_mset (Caller job (i # is) CTry) ts \<Longrightarrow> ln_session (pl_store p ! i) = Some s \<Longrightarrow>
    station s' = station s \<Longrightarrow> session_open_bi s' = session_open_bi s \<Longrightarrow> cancel_step p (with_tasks (install i s' p) ts)"

subsection \<open>Close, and all of it together\<close>

inductive close_step :: "watch \<Rightarrow> Pool \<Rightarrow> Pool \<Rightarrow> bool" for W where
  close_start: "close_step W p
    (spawn_task (Closer CloShutdown) (p\<lparr>pl_stop := W (\<exists>t \<in># pl_tasks p. holds_receiver t) (pl_stop p) True\<rparr>))"
| close_shutdown: "pl_tasks p = add_mset (Closer CloShutdown) ts \<Longrightarrow> \<forall>t \<in># ts. is_background t \<longrightarrow> awaits t \<Longrightarrow>
    close_step W p (with_tasks p (add_mset (Closer CloDrain) (filter_mset (\<lambda>t. \<not> is_background t) ts)))"
| close_lock: "pl_tasks p = add_mset (Closer CloDrain) ts \<Longrightarrow>
    close_step W p (with_tasks (p\<lparr>pl_links := []\<rparr>) (add_mset (Closer (CloHold (pl_links p))) ts))"
| close_drain: "pl_tasks p = add_mset (Closer (CloHold (i # is))) ts \<Longrightarrow>
    close_step W p (with_tasks (set_link i drop_session p) (add_mset (Closer (CloHold is)) ts))"
| close_done: "pl_tasks p = add_mset (Closer (CloHold [])) ts \<Longrightarrow> close_step W p (with_tasks p ts)"

inductive pool_step :: "crypto \<Rightarrow> (nat list \<Rightarrow> nat list) \<Rightarrow> watch \<Rightarrow> Pool \<Rightarrow> Pool \<Rightarrow> bool" for C shuffle W where
  pool_life: "life_step C p q \<Longrightarrow> pool_step C shuffle W p q"
| pool_caller: "caller_step C shuffle p q \<Longrightarrow> pool_step C shuffle W p q"
| pool_disc: "disc_step C p q \<Longrightarrow> pool_step C shuffle W p q"
| pool_close: "close_step W p q \<Longrightarrow> pool_step C shuffle W p q"
| pool_cancel: "cancel_step p q \<Longrightarrow> pool_step C shuffle W p q"

abbreviation pool_steps :: "crypto \<Rightarrow> (nat list \<Rightarrow> nat list) \<Rightarrow> watch \<Rightarrow> Pool \<Rightarrow> Pool \<Rightarrow> bool" where
  "pool_steps C shuffle W \<equiv> (pool_step C shuffle W)\<^sup>*\<^sup>*"

end
