(* ===== verification/PoolInv.thy ===== *)
theory PoolInv
  imports PoolSteps ConnProps
begin

section \<open>PoolInv: what holds of a pool however its tasks interleave\<close>

text \<open>
  Invariants of the reachable states: a link is worked on by at most one life cycle, which holds its
  claim; discovery keeps to its budget, adds no seed twice and dials nothing it cannot validate; a
  bootstrap link never gives up. Then what the redial guard and the stop signal do not prevent.
\<close>

subsection \<open>Links\<close>

lemma set_link_sel [simp]:
  "pl_links (set_link i f p) = pl_links p" "pl_tasks (set_link i f p) = pl_tasks p" "pl_stop (set_link i f p) = pl_stop p"
  "pl_trust (set_link i f p) = pl_trust p" "pl_options (set_link i f p) = pl_options p" "pl_identity (set_link i f p) = pl_identity p"
  "length (pl_store (set_link i f p)) = length (pl_store p)"
  by (simp_all add: set_link_def)

lemma set_link_nth [simp]:
  "j < length (pl_store p) \<Longrightarrow> pl_store (set_link i f p) ! j = (if i = j then f (pl_store p ! j) else pl_store p ! j)"
  by (simp add: set_link_def)

lemma try_claim_redial_cases:
  "try_claim_redial i p = (True, q) \<longleftrightarrow> \<not> ln_redialing (pl_store p ! i) \<and> q = set_link i (ln_redialing_update (\<lambda>_. True)) p"
  "try_claim_redial i p = (False, q) \<longleftrightarrow> ln_redialing (pl_store p ! i) \<and> q = p"
  by (auto simp: try_claim_redial_def)

lemma push_link_if_absent_cases:
  "push_link_if_absent seed trust p = (None, q) \<longleftrightarrow> (\<exists>i \<in> set (pl_links p). ln_seed (pl_store p ! i) = seed) \<and> q = p"
  "push_link_if_absent seed trust p = (Some i, q) \<longleftrightarrow> (\<forall>j \<in> set (pl_links p). ln_seed (pl_store p ! j) \<noteq> seed) \<and>
     i = length (pl_store p) \<and>
     q = p\<lparr>pl_store := pl_store p @ [PooledLink_new seed Discovered trust], pl_links := pl_links p @ [i]\<rparr>"
  by (auto simp: push_link_if_absent_def list_ex_iff Let_def)

inductive_cases life_stepE: "life_step C p q"
inductive_cases caller_stepE: "caller_step C shuffle p q"
inductive_cases disc_stepE: "disc_step C p q"
inductive_cases close_stepE: "close_step W p q"
inductive_cases cancel_stepE: "cancel_step p q"

inductive_simps pool_step_iff: "pool_step C shuffle W p q"

subsection \<open>Which links a task is about\<close>

fun refers_to :: "task \<Rightarrow> nat set" where
  "refers_to (Life i pc) = {i}"
| "refers_to (Caller job is pc) = set is"
| "refers_to (Disc pc) = (case pc of DClaim i rows \<Rightarrow> {i} | DSpawn i rows \<Rightarrow> {i} | _ \<Rightarrow> {})"
| "refers_to (Closer pc) = {}"

text \<open>The life cycles a link has: the running ones and the one about to be spawned for a claim.\<close>

fun redials :: "nat \<Rightarrow> task \<Rightarrow> bool" where
  "redials i (Life j pc) \<longleftrightarrow> i = j"
| "redials i (Caller job is pc) \<longleftrightarrow> pc = CSpawn \<and> is \<noteq> [] \<and> hd is = i"
| "redials i (Disc pc) \<longleftrightarrow> (case pc of DSpawn j rows \<Rightarrow> i = j | _ \<Rightarrow> False)"
| "redials i (Closer pc) \<longleftrightarrow> False"

definition redial_count :: "Pool \<Rightarrow> nat \<Rightarrow> nat" where
  "redial_count p i = size (filter_mset (redials i) (pl_tasks p))"

definition in_bounds :: "Pool \<Rightarrow> bool" where
  "in_bounds p \<longleftrightarrow> (\<forall>t \<in># pl_tasks p. \<forall>i \<in> refers_to t. i < length (pl_store p)) \<and>
     (\<forall>i \<in> set (pl_links p). i < length (pl_store p)) \<and> distinct (pl_links p) \<and>
     (\<forall>is. Closer (CloHold is) \<in># pl_tasks p \<longrightarrow> (\<forall>i \<in> set is. i < length (pl_store p)))"

text \<open>The claim of a link and its life cycles agree: exactly, as long as no close has aborted any and no caller was
  dropped on the way to spawning one.\<close>

definition claims :: "bool \<Rightarrow> Pool \<Rightarrow> bool" where
  "claims exact p \<longleftrightarrow> (\<forall>i < length (pl_store p).
     redial_count p i \<le> (if ln_redialing (pl_store p ! i) then 1 else 0) \<and>
     (exact \<and> ln_redialing (pl_store p ! i) \<longrightarrow> redial_count p i = 1))"

lemma redials_refers: "redials i t \<Longrightarrow> i \<in> refers_to t"
  by (cases t) (auto split: disc_pc.splits simp: hd_in_set)

lemma redial_count_new: "in_bounds p \<Longrightarrow> i = length (pl_store p) \<Longrightarrow> redial_count p i = 0"
  using redials_refers
  by (fastforce simp: redial_count_def in_bounds_def simp flip: set_mset_eq_empty_iff)

lemma select_connected_subset:
  "shuffle_ok shuffle \<Longrightarrow> set (select_connected_links shuffle p) \<subseteq> {i \<in> set (pl_links p). is_connected p i}"
proof -
  assume "shuffle_ok shuffle"
  then have "set (shuffle xs) = set xs" for xs by (metis shuffle_ok_def set_mset_mset)
  then show ?thesis by (auto simp: select_connected_links_def select_links_def Let_def)
qed

lemma job_targets_subset: "set (job_targets options job is) \<subseteq> set is"
  by (auto simp: job_targets_def dest: in_set_takeD split: caller_job.splits)

lemma life_step_bounds: "life_step C p q \<Longrightarrow> in_bounds p \<Longrightarrow> in_bounds q"
  by (erule life_stepE) (auto simp: in_bounds_def)

lemma caller_step_bounds:
  assumes "shuffle_ok shuffle" "caller_step C shuffle p q" "in_bounds p"
  shows "in_bounds q"
  using assms(2,3)
proof (cases rule: caller_step.cases)
  case (caller_select job)
  have "set (job_targets (pl_options p) job (select_connected_links shuffle p)) \<subseteq> set (pl_links p)"
    using job_targets_subset select_connected_subset [OF assms(1)] by fastforce
  then show ?thesis using caller_select assms(3) by (auto simp: in_bounds_def spawn_task_def)
qed (auto simp: in_bounds_def try_claim_redial_cases)

lemma disc_step_bounds: "disc_step C p q \<Longrightarrow> in_bounds p \<Longrightarrow> in_bounds q"
  by (erule disc_stepE) (fastforce simp: in_bounds_def try_claim_redial_cases push_link_if_absent_cases)+

lemma close_step_bounds: "close_step W p q \<Longrightarrow> in_bounds p \<Longrightarrow> in_bounds q"
  by (erule close_stepE) (auto simp: in_bounds_def spawn_task_def)

lemma cancel_step_bounds: "cancel_step p q \<Longrightarrow> in_bounds p \<Longrightarrow> in_bounds q"
  by (erule cancel_stepE) (auto simp: in_bounds_def)

lemma pool_step_bounds: "shuffle_ok shuffle \<Longrightarrow> pool_step C shuffle W p q \<Longrightarrow> in_bounds p \<Longrightarrow> in_bounds q"
  using life_step_bounds caller_step_bounds disc_step_bounds close_step_bounds cancel_step_bounds by (metis pool_step_iff)

subsection \<open>One life cycle per link\<close>

lemma claims_ok_same:
  assumes "claims ex p" "length (pl_store q) = length (pl_store p)" "\<And>i. i < length (pl_store p) \<Longrightarrow> redial_count q i = redial_count p i"
    "\<And>i. i < length (pl_store p) \<Longrightarrow> ln_redialing (pl_store q ! i) = ln_redialing (pl_store p ! i)"
  shows "claims ex q"
  using assms by (simp add: claims_def)

lemma life_step_claims: "life_step C p q \<Longrightarrow> in_bounds p \<Longrightarrow> claims ex p \<Longrightarrow> claims ex q"
proof (erule life_stepE, goal_cases)
  case (13 i ts)
  show ?case unfolding claims_def
  proof (intro allI impI)
    fix j assume "j < length (pl_store q)"
    then have j: "j < length (pl_store p)" by (simp add: 13)
    then have c: "redial_count p j \<le> (if ln_redialing (pl_store p ! j) then 1 else 0)"
      "ex \<and> ln_redialing (pl_store p ! j) \<longrightarrow> redial_count p j = 1" using 13 by (simp_all add: claims_def)
    show "redial_count q j \<le> (if ln_redialing (pl_store q ! j) then 1 else 0) \<and>
        (ex \<and> ln_redialing (pl_store q ! j) \<longrightarrow> redial_count q j = 1)"
      using c j by (cases "i = j") (auto simp: 13 redial_count_def split: if_splits)
  qed
qed (erule claims_ok_same; simp add: redial_count_def)+

lemma claims_ok_claimed:
  assumes "claims ex p" "i < length (pl_store p)" "\<not> ln_redialing (pl_store p ! i)"
    "pl_store q = pl_store (set_link i (ln_redialing_update (\<lambda>_. True)) p)"
    "\<And>j. j < length (pl_store p) \<Longrightarrow> redial_count q j = redial_count p j + (if j = i then 1 else 0)"
  shows "claims ex q"
proof -
  have "redial_count p i = 0" using assms(1-3) by (auto simp: claims_def)
  then show ?thesis using assms by (auto simp: claims_def)
qed

lemma caller_step_claims: "caller_step C shuffle p q \<Longrightarrow> in_bounds p \<Longrightarrow> claims ex p \<Longrightarrow> claims ex q"
proof (erule caller_stepE, goal_cases)
  case (9 job i cs ts p')
  then have f: "i < length (pl_store p)" "\<not> ln_redialing (pl_store p ! i)" "p' = set_link i (ln_redialing_update (\<lambda>_. True)) p"
    by (simp_all add: in_bounds_def try_claim_redial_cases)
  show ?case by (rule claims_ok_claimed [OF 9(2) f(1,2)]) (simp_all add: 9(3-) f(3) redial_count_def)
qed (erule claims_ok_same; simp add: redial_count_def spawn_task_def try_claim_redial_cases drop_session_def)+

lemma disc_step_claims: "disc_step C p q \<Longrightarrow> in_bounds p \<Longrightarrow> claims ex p \<Longrightarrow> claims ex q"
proof (erule disc_stepE, goal_cases)
  case (14 seed trust rows ts i p')
  have new: "i = length (pl_store p)" "redial_count p i = 0"
    using 14 redial_count_new by (simp_all add: push_link_if_absent_cases)
  have "redial_count q j = redial_count p j" for j using 14 by (auto simp: redial_count_def push_link_if_absent_cases)
  then show ?case using 14 new by (auto simp: claims_def push_link_if_absent_cases nth_append less_Suc_eq PooledLink_new_def)
next
  case (15 i rows ts p')
  then have f: "i < length (pl_store p)" "\<not> ln_redialing (pl_store p ! i)" "p' = set_link i (ln_redialing_update (\<lambda>_. True)) p"
    by (simp_all add: in_bounds_def try_claim_redial_cases)
  show ?case by (rule claims_ok_claimed [OF 15(2) f(1,2)]) (simp_all add: 15(3-) f(3) redial_count_def)
qed (erule claims_ok_same; auto simp: redial_count_def try_claim_redial_cases push_link_if_absent_cases)+

lemma claims_weaken: "claims ex p \<Longrightarrow> claims False p"
  by (simp add: claims_def)

lemma close_step_claims: "close_step W p q \<Longrightarrow> claims False p \<Longrightarrow> claims False q"
proof (erule close_stepE, goal_cases)
  case (2 ts)
  have "redial_count q j \<le> redial_count p j" for j
    using 2 by (auto simp: redial_count_def intro!: size_mset_mono multiset_filter_mono)
  moreover have "pl_store q = pl_store p" by (simp add: 2)
  ultimately show ?case using 2(1) unfolding claims_def by (metis le_trans)
qed (erule claims_ok_same; simp add: redial_count_def spawn_task_def drop_session_def)+

text \<open>A dropped caller may leave a claim that nothing redeems.\<close>

lemma cancel_step_claims: "cancel_step p q \<Longrightarrow> claims False p \<Longrightarrow> claims False q"
proof (erule cancel_stepE, goal_cases)
  case (1 job cs pc ts)
  have "redial_count q j \<le> redial_count p j" for j using 1 by (simp add: redial_count_def)
  moreover have "pl_store q = pl_store p" by (simp add: 1)
  ultimately show ?case using 1(1) unfolding claims_def by (metis le_trans)
qed (erule claims_ok_same; simp add: redial_count_def)

lemma pool_step_claims: "pool_step C shuffle W p q \<Longrightarrow> in_bounds p \<Longrightarrow> claims False p \<Longrightarrow> claims False q"
  using life_step_claims caller_step_claims disc_step_claims close_step_claims cancel_step_claims by (metis pool_step_iff)

text \<open>The steps of a pool that nobody closes and whose callers are not dropped.\<close>

definition open_step :: "crypto \<Rightarrow> (nat list \<Rightarrow> nat list) \<Rightarrow> Pool \<Rightarrow> Pool \<Rightarrow> bool" where
  "open_step C shuffle p q \<longleftrightarrow> life_step C p q \<or> caller_step C shuffle p q \<or> disc_step C p q"

lemma open_step_claims: "open_step C shuffle p q \<Longrightarrow> in_bounds p \<Longrightarrow> claims ex p \<Longrightarrow> claims ex q"
  using life_step_claims caller_step_claims disc_step_claims by (metis open_step_def)

lemma open_step_pool: "open_step C shuffle p q \<Longrightarrow> pool_step C shuffle W p q"
  by (auto simp: open_step_def intro: pool_step.intros)

subsection \<open>The pool as it is made\<close>

lemma claim_and_spawn_fresh:
  assumes "in_bounds p" "claims True p" "i < length (pl_store p)"
  shows "in_bounds (claim_and_spawn i p)" "claims True (claim_and_spawn i p)"
proof -
  show "in_bounds (claim_and_spawn i p)"
    using assms by (auto simp: in_bounds_def claim_and_spawn_def try_claim_redial_def spawn_lifecycle_def spawn_task_def)
  show "claims True (claim_and_spawn i p)"
  proof (cases "ln_redialing (pl_store p ! i)")
    case False
    then show ?thesis
      by (intro claims_ok_claimed [OF assms(2,3)])
        (simp_all add: claim_and_spawn_def try_claim_redial_def spawn_lifecycle_def spawn_task_def redial_count_def)
  qed (simp add: claim_and_spawn_def try_claim_redial_def assms(2))
qed

lemma claim_and_spawn_sel [simp]:
  "pl_links (claim_and_spawn i p) = pl_links p" "pl_stop (claim_and_spawn i p) = pl_stop p" "pl_trust (claim_and_spawn i p) = pl_trust p"
  "pl_options (claim_and_spawn i p) = pl_options p" "length (pl_store (claim_and_spawn i p)) = length (pl_store p)"
  "pl_identity (claim_and_spawn i p) = pl_identity p"
  by (simp_all add: claim_and_spawn_def try_claim_redial_def spawn_lifecycle_def spawn_task_def)

lemma fold_claim_and_spawn:
  assumes "in_bounds p" "claims True p" "\<forall>i \<in> set js. i < length (pl_store p)"
  shows "in_bounds (fold claim_and_spawn js p) \<and> claims True (fold claim_and_spawn js p)"
  using assms
proof (induction js arbitrary: p)
  case (Cons j js)
  then have "in_bounds (claim_and_spawn j p)" "claims True (claim_and_spawn j p)" by (simp_all add: claim_and_spawn_fresh)
  with Cons show ?case by simp
qed simp

lemma pool_connect_ok:
  assumes "pool_connect seeds trust kp options = (Inr p :: (Pool, 'e fail) result)"
  shows "in_bounds p" "claims True p"
proof -
  let ?p = "\<lparr>pl_identity = kp, pl_trust = trust, pl_options = options, pl_store = map (\<lambda>seed. PooledLink_new seed Bootstrap trust) seeds,
      pl_links = [0..<length seeds], pl_stop = False, pl_tasks = {#}\<rparr>"
  let ?q = "fold claim_and_spawn [0..<length seeds] ?p"
  have "in_bounds ?p" "claims True ?p" by (auto simp: in_bounds_def claims_def redial_count_def PooledLink_new_def)
  then have q: "in_bounds ?q" "claims True ?q" using fold_claim_and_spawn [of ?p "[0..<length seeds]"] by auto
  have p: "p = (if sd_enabled (po_station_discovery options) then spawn_task (Disc DSpawned) ?q else ?q)"
    using assms by (simp add: pool_connect_def Let_def split: if_splits)
  show "in_bounds p" using q(1) by (simp add: p in_bounds_def spawn_task_def)
  show "claims True p" using q(2) unfolding p by (auto simp: spawn_task_def redial_count_def intro: claims_ok_same)
qed

lemma reachable_claims:
  assumes "shuffle_ok shuffle" "pool_connect seeds trust kp options = (Inr p0 :: (Pool, 'e fail) result)" "pool_steps C shuffle W p0 p"
  shows "in_bounds p \<and> claims False p"
  using assms(3)
proof (induction rule: rtranclp_induct)
  case base
  then show ?case using pool_connect_ok [OF assms(2)] claims_weaken by blast
next
  case (step p q)
  then show ?case using pool_step_bounds [OF assms(1)] pool_step_claims by blast
qed

lemma open_reachable_claims:
  assumes "shuffle_ok shuffle" "pool_connect seeds trust kp options = (Inr p0 :: (Pool, 'e fail) result)" "(open_step C shuffle)\<^sup>*\<^sup>* p0 p"
  shows "in_bounds p \<and> claims True p"
  using assms(3)
proof (induction rule: rtranclp_induct)
  case base
  then show ?case using pool_connect_ok [OF assms(2)] by blast
next
  case (step p q)
  then show ?case using pool_step_bounds [OF assms(1) open_step_pool] open_step_claims by blast
qed

subsection \<open>What discovery may add\<close>

text \<open>What the rules of discovery are about: of each link the fields that identify it, and discovery's own task.\<close>

record link_key =
  lk_seed :: Seed
  lk_origin :: LinkOrigin
  lk_trust :: Trust
  lk_gave_up :: bool

definition key_of :: "PooledLink \<Rightarrow> link_key" where
  "key_of l = \<lparr>lk_seed = ln_seed l, lk_origin = ln_origin l, lk_trust = ln_trust l, lk_gave_up = ln_gave_up l\<rparr>"

fun is_disc :: "task \<Rightarrow> bool" where
  "is_disc (Disc pc) \<longleftrightarrow> True"
| "is_disc _ \<longleftrightarrow> False"

definition occupied :: "link_key list \<Rightarrow> nat list \<Rightarrow> nat" where
  "occupied keys links = length (filter (\<lambda>i. lk_origin (keys ! i) = Discovered \<and> \<not> lk_gave_up (keys ! i)) links)"

definition trust_ok :: "Trust \<Rightarrow> Seed \<Rightarrow> Trust \<Rightarrow> bool" where
  "trust_ok pool_trust seed trust \<longleftrightarrow>
     (if pool_trust = WebPki \<and> is_ip_addr (seed_host seed) then \<exists>node. trust = Pinned node else trust = pool_trust)"

definition key_ok :: "Trust \<Rightarrow> link_key \<Rightarrow> bool" where
  "key_ok pool_trust k \<longleftrightarrow>
     (case lk_origin k of
        Bootstrap \<Rightarrow> lk_trust k = pool_trust \<and> \<not> lk_gave_up k
      | Discovered \<Rightarrow> trust_ok pool_trust (lk_seed k) (lk_trust k))"

definition view_ok :: "Trust \<Rightarrow> nat \<Rightarrow> link_key list \<Rightarrow> nat list \<Rightarrow> task multiset \<Rightarrow> bool" where
  "view_ok pool_trust budget keys links discs \<longleftrightarrow>
     (\<forall>k \<in> set keys. key_ok pool_trust k) \<and> (\<forall>i \<in> set links. i < length keys) \<and>
     (\<forall>i \<in> set links. \<forall>j \<in> set links. i \<noteq> j \<and> lk_origin (keys ! j) = Discovered \<longrightarrow> lk_seed (keys ! i) \<noteq> lk_seed (keys ! j)) \<and>
     occupied keys links \<le> budget \<and> size discs \<le> 1 \<and>
     (\<forall>seed trust rows. Disc (DAdd seed trust rows) \<in># discs \<longrightarrow> occupied keys links < budget \<and> trust_ok pool_trust seed trust)"

definition discovery_ok :: "Pool \<Rightarrow> bool" where
  "discovery_ok p \<longleftrightarrow> view_ok (pl_trust p) (sd_max_links (po_station_discovery (pl_options p)))
     (map key_of (pl_store p)) (pl_links p) (filter_mset is_disc (pl_tasks p))"

lemma keys_set_link: "(\<And>l. key_of (f l) = key_of l) \<Longrightarrow> map key_of (pl_store (set_link i f p)) = map key_of (pl_store p)"
proof (rule nth_equalityI)
  fix j assume "\<And>l. key_of (f l) = key_of l" "j < length (map key_of (pl_store (set_link i f p)))"
  then show "map key_of (pl_store (set_link i f p)) ! j = map key_of (pl_store p) ! j"
    by (cases "i = j") (simp_all add: set_link_def)
qed simp

lemma keys_set_link_simps [simp]:
  "map key_of (pl_store (set_link i (ln_session_update g) p)) = map key_of (pl_store p)"
  "map key_of (pl_store (set_link i (ln_connected_update h) p)) = map key_of (pl_store p)"
  "map key_of (pl_store (set_link i (ln_redialing_update h) p)) = map key_of (pl_store p)"
  "map key_of (pl_store (set_link i (ln_consecutive_failures_update u) p)) = map key_of (pl_store p)"
  "map key_of (pl_store (set_link i drop_session p)) = map key_of (pl_store p)"
  "map key_of (pl_store (set_link i (\<lambda>l. l\<lparr>ln_session := x, ln_peer_node_id := y\<rparr>) p)) = map key_of (pl_store p)"
  by (rule keys_set_link, simp add: key_of_def drop_session_def)+

lemma occupied_station_row:
  assumes "in_bounds p"
  shows "count_occupied_discovery_slots (map ((!) (pl_store p)) (pl_links p)) = occupied (map key_of (pl_store p)) (pl_links p)"
proof -
  have "filter (\<lambda>i. ln_origin (pl_store p ! i) = Discovered \<and> \<not> ln_gave_up (pl_store p ! i)) (pl_links p) =
      filter (\<lambda>i. lk_origin (map key_of (pl_store p) ! i) = Discovered \<and> \<not> lk_gave_up (map key_of (pl_store p) ! i)) (pl_links p)"
    using assms by (intro filter_cong) (simp_all add: in_bounds_def key_of_def)
  then show ?thesis by (simp add: count_occupied_discovery_slots_def occupied_def filter_map comp_def)
qed

text \<open>Giving up frees a slot.\<close>

lemma view_ok_give_up:
  assumes "view_ok pool_trust budget keys links discs" "i < length keys" "lk_origin (keys ! i) = Discovered"
  shows "view_ok pool_trust budget (keys[i := (keys ! i)\<lparr>lk_gave_up := True\<rparr>]) links discs"
proof -
  let ?keys = "keys[i := (keys ! i)\<lparr>lk_gave_up := True\<rparr>]"
  have nth: "j < length keys \<Longrightarrow> lk_seed (?keys ! j) = lk_seed (keys ! j)"
    "j < length keys \<Longrightarrow> lk_origin (?keys ! j) = lk_origin (keys ! j)"
    "j < length keys \<Longrightarrow> lk_gave_up (keys ! j) \<Longrightarrow> lk_gave_up (?keys ! j)" for j
    by (cases "i = j"; simp)+
  have sub: "length (filter P js) \<le> length (filter Q js)" if "\<And>j. j \<in> set js \<Longrightarrow> P j \<Longrightarrow> Q j" for P Q and js :: "nat list"
    using that by (induction js) auto
  have "occupied ?keys links \<le> occupied keys links"
    unfolding occupied_def by (rule sub) (use nth assms(1) in \<open>auto simp: view_ok_def\<close>)
  moreover have "key_ok pool_trust ((keys ! i)\<lparr>lk_gave_up := True\<rparr>)"
    using assms by (auto simp: view_ok_def key_ok_def dest!: nth_mem)
  then have "\<forall>k \<in> set ?keys. key_ok pool_trust k"
    using assms(1) by (auto simp: view_ok_def dest!: set_update_subset_insert [THEN subsetD])
  moreover have "\<forall>j \<in> set links. j < length keys" using assms(1) by (simp add: view_ok_def)
  then have "\<forall>h \<in> set links. \<forall>j \<in> set links. h \<noteq> j \<and> lk_origin (?keys ! j) = Discovered \<longrightarrow> lk_seed (?keys ! h) \<noteq> lk_seed (?keys ! j)"
    using assms(1) by (simp add: view_ok_def nth)
  ultimately show ?thesis using assms(1) unfolding view_ok_def by (simp del: nth_list_update_eq) (meson le_less_trans)
qed

definition giving_up_ok :: "Pool \<Rightarrow> bool" where
  "giving_up_ok p \<longleftrightarrow> (\<forall>i. Life i LGivingUp \<in># pl_tasks p \<longrightarrow> ln_origin (pl_store p ! i) = Discovered)"

lemma life_step_giving_up: "life_step C p q \<Longrightarrow> in_bounds p \<Longrightarrow> giving_up_ok p \<Longrightarrow> giving_up_ok q"
  by (erule life_stepE) (fastforce simp: giving_up_ok_def in_bounds_def should_give_up_def split: if_splits)+

lemma caller_step_giving_up: "caller_step C shuffle p q \<Longrightarrow> in_bounds p \<Longrightarrow> giving_up_ok p \<Longrightarrow> giving_up_ok q"
  by (erule caller_stepE)
    (fastforce simp: giving_up_ok_def in_bounds_def spawn_task_def try_claim_redial_cases drop_session_def split: if_splits)+

lemma disc_step_giving_up: "disc_step C p q \<Longrightarrow> in_bounds p \<Longrightarrow> giving_up_ok p \<Longrightarrow> giving_up_ok q"
  by (erule disc_stepE)
    (fastforce simp: giving_up_ok_def in_bounds_def try_claim_redial_cases push_link_if_absent_cases nth_append split: if_splits)+

lemma close_step_giving_up: "close_step W p q \<Longrightarrow> in_bounds p \<Longrightarrow> giving_up_ok p \<Longrightarrow> giving_up_ok q"
  by (erule close_stepE) (fastforce simp: giving_up_ok_def in_bounds_def spawn_task_def drop_session_def split: if_splits)+

lemma cancel_step_giving_up: "cancel_step p q \<Longrightarrow> in_bounds p \<Longrightarrow> giving_up_ok p \<Longrightarrow> giving_up_ok q"
  by (erule cancel_stepE) (fastforce simp: giving_up_ok_def in_bounds_def split: if_splits)+

lemma pool_step_giving_up: "pool_step C shuffle W p q \<Longrightarrow> in_bounds p \<Longrightarrow> giving_up_ok p \<Longrightarrow> giving_up_ok q"
  using life_step_giving_up caller_step_giving_up disc_step_giving_up close_step_giving_up cancel_step_giving_up by (metis pool_step_iff)

lemma life_step_discovery: "life_step C p q \<Longrightarrow> in_bounds p \<Longrightarrow> giving_up_ok p \<Longrightarrow> discovery_ok p \<Longrightarrow> discovery_ok q"
proof (erule life_stepE, goal_cases)
  case (10 i ts)
  then have i: "i < length (pl_store p)" "ln_origin (pl_store p ! i) = Discovered" by (simp_all add: in_bounds_def giving_up_ok_def)
  have "map key_of (pl_store q) = (map key_of (pl_store p))[i := (map key_of (pl_store p) ! i)\<lparr>lk_gave_up := True\<rparr>]"
    using i(1) 10 by (simp add: set_link_def map_update key_of_def)
  moreover have "lk_origin (map key_of (pl_store p) ! i) = Discovered" using i by (simp add: key_of_def)
  ultimately show ?case using 10 i view_ok_give_up [of _ _ "map key_of (pl_store p)" _ _ i] by (simp add: discovery_ok_def)
qed (simp_all add: discovery_ok_def)

lemma caller_step_discovery: "caller_step C shuffle p q \<Longrightarrow> discovery_ok p \<Longrightarrow> discovery_ok q"
  by (erule caller_stepE) (auto simp: discovery_ok_def spawn_task_def try_claim_redial_cases)

lemma station_row_Add:
  assumes "station_row p row = Add seed trust" "in_bounds p"
  shows "occupied (map key_of (pl_store p)) (pl_links p) < sd_max_links (po_station_discovery (pl_options p))"
    "trust_ok (pl_trust p) seed trust"
  using assms by (auto simp: station_row_def occupied_station_row trust_ok_def discovered_trust_def split: if_splits option.splits prod.splits)

lemma view_ok_tasks:
  assumes "view_ok pool_trust budget keys links (add_mset (Disc pc) discs)"
    "\<And>seed trust rows. pc' = DAdd seed trust rows \<Longrightarrow> occupied keys links < budget \<and> trust_ok pool_trust seed trust"
  shows "view_ok pool_trust budget keys links (add_mset (Disc pc') discs)" "view_ok pool_trust budget keys links discs"
  using assms by (auto simp: view_ok_def)

lemma view_ok_push:
  assumes "view_ok pool_trust budget keys links (add_mset (Disc (DAdd seed trust rows)) discs)"
    "\<forall>j \<in> set links. lk_seed (keys ! j) \<noteq> seed"
  shows "view_ok pool_trust budget (keys @ [\<lparr>lk_seed = seed, lk_origin = Discovered, lk_trust = trust, lk_gave_up = False\<rparr>])
    (links @ [length keys]) (add_mset (Disc (DClaim i rows)) discs)"
proof -
  let ?k = "\<lparr>lk_seed = seed, lk_origin = Discovered, lk_trust = trust, lk_gave_up = False\<rparr>"
  have b: "\<forall>j \<in> set links. j < length keys" using assms(1) by (simp add: view_ok_def)
  then have nth: "j \<in> set links \<Longrightarrow> (keys @ [?k]) ! j = keys ! j" for j by (simp add: nth_append)
  have "filter (\<lambda>j. lk_origin ((keys @ [?k]) ! j) = Discovered \<and> \<not> lk_gave_up ((keys @ [?k]) ! j)) links =
      filter (\<lambda>j. lk_origin (keys ! j) = Discovered \<and> \<not> lk_gave_up (keys ! j)) links"
    using nth by (intro filter_cong) simp_all
  then have "occupied (keys @ [?k]) (links @ [length keys]) = occupied keys links + 1" by (simp add: occupied_def)
  moreover have "occupied keys links < budget" "trust_ok pool_trust seed trust" using assms(1) by (auto simp: view_ok_def)
  moreover have "\<forall>h \<in> set (links @ [length keys]). \<forall>j \<in> set (links @ [length keys]). h \<noteq> j \<and> lk_origin ((keys @ [?k]) ! j) = Discovered \<longrightarrow>
      lk_seed ((keys @ [?k]) ! h) \<noteq> lk_seed ((keys @ [?k]) ! j)"
    using assms nth by (auto simp: view_ok_def)
  ultimately show ?thesis using assms(1) b unfolding view_ok_def by (auto simp: key_ok_def)
qed

lemma disc_step_discovery: "disc_step C p q \<Longrightarrow> in_bounds p \<Longrightarrow> discovery_ok p \<Longrightarrow> discovery_ok q"
proof (erule disc_stepE, goal_cases)
  case (12 row rows ts seed trust)
  then show ?case using station_row_Add by (auto simp: discovery_ok_def intro: view_ok_tasks)
next
  case (14 seed trust rows ts i p')
  then have q: "map key_of (pl_store q) = map key_of (pl_store p) @ [\<lparr>lk_seed = seed, lk_origin = Discovered, lk_trust = trust, lk_gave_up = False\<rparr>]"
    "pl_links q = pl_links p @ [length (map key_of (pl_store p))]"
    by (simp_all add: push_link_if_absent_cases key_of_def PooledLink_new_def)
  have "\<forall>j \<in> set (pl_links p). lk_seed (map key_of (pl_store p) ! j) \<noteq> seed"
    using 14 by (auto simp: push_link_if_absent_cases in_bounds_def key_of_def)
  then have "view_ok (pl_trust p) (sd_max_links (po_station_discovery (pl_options p))) (map key_of (pl_store q)) (pl_links q)
      (add_mset (Disc (DClaim i rows)) (filter_mset is_disc ts))"
    using 14 unfolding q by (intro view_ok_push) (simp_all add: discovery_ok_def)
  moreover have "pl_trust q = pl_trust p" "pl_options q = pl_options p" "pl_tasks q = add_mset (Disc (DClaim i rows)) ts"
    using 14 by (simp_all add: push_link_if_absent_cases)
  ultimately show ?case by (simp add: discovery_ok_def)
qed (auto simp: discovery_ok_def try_claim_redial_cases push_link_if_absent_cases intro: view_ok_tasks)

lemma view_ok_locked: "view_ok pool_trust budget keys links discs \<Longrightarrow> view_ok pool_trust budget keys [] discs"
  unfolding view_ok_def by (simp add: occupied_def) (metis gr_zeroI not_less_zero)

lemma close_step_discovery: "close_step W p q \<Longrightarrow> discovery_ok p \<Longrightarrow> discovery_ok q"
proof (erule close_stepE, goal_cases)
  case (2 ts)
  have "is_disc t \<Longrightarrow> is_background t" for t by (cases t) simp_all
  then have "filter_mset is_disc (pl_tasks q) = {#}" using 2 by (auto simp: filter_filter_mset)
  moreover have "pl_store q = pl_store p" "pl_links q = pl_links p" "pl_trust q = pl_trust p" "pl_options q = pl_options p"
    by (simp_all add: 2)
  moreover have "view_ok pool_trust budget keys links discs \<Longrightarrow> view_ok pool_trust budget keys links {#}" for pool_trust budget keys links discs
    by (simp add: view_ok_def)
  ultimately show ?case using 2(1) unfolding discovery_ok_def by metis
next
  case (3 ts)
  then show ?case using view_ok_locked by (simp add: discovery_ok_def)
qed (simp_all add: discovery_ok_def spawn_task_def)

lemma cancel_step_discovery: "cancel_step p q \<Longrightarrow> discovery_ok p \<Longrightarrow> discovery_ok q"
  by (erule cancel_stepE) (auto simp: discovery_ok_def)

lemma pool_step_discovery:
  "pool_step C shuffle W p q \<Longrightarrow> in_bounds p \<Longrightarrow> giving_up_ok p \<Longrightarrow> discovery_ok p \<Longrightarrow> discovery_ok q"
  using life_step_discovery caller_step_discovery disc_step_discovery close_step_discovery cancel_step_discovery by (metis pool_step_iff)

subsection \<open>Reachable pools\<close>

lemma discovery_ok_start:
  assumes "pool_connect seeds trust kp options = (Inr p :: (Pool, 'e fail) result)"
  shows "discovery_ok p" "giving_up_ok p"
proof -
  let ?p = "\<lparr>pl_identity = kp, pl_trust = trust, pl_options = options, pl_store = map (\<lambda>seed. PooledLink_new seed Bootstrap trust) seeds,
      pl_links = [0..<length seeds], pl_stop = False, pl_tasks = {#}\<rparr>"
  let ?q = "fold claim_and_spawn [0..<length seeds] ?p"
  have keep: "map key_of (pl_store (fold claim_and_spawn js r)) = map key_of (pl_store r) \<and> pl_links (fold claim_and_spawn js r) = pl_links r \<and>
      pl_trust (fold claim_and_spawn js r) = pl_trust r \<and> pl_options (fold claim_and_spawn js r) = pl_options r \<and>
      filter_mset is_disc (pl_tasks (fold claim_and_spawn js r)) = filter_mset is_disc (pl_tasks r) \<and>
      {i. Life i LGivingUp \<in># pl_tasks (fold claim_and_spawn js r)} = {i. Life i LGivingUp \<in># pl_tasks r}" for js r
  proof (induction js arbitrary: r)
    case (Cons j js)
    have "map key_of (pl_store (claim_and_spawn j r)) = map key_of (pl_store r)"
      "filter_mset is_disc (pl_tasks (claim_and_spawn j r)) = filter_mset is_disc (pl_tasks r)"
      "{i. Life i LGivingUp \<in># pl_tasks (claim_and_spawn j r)} = {i. Life i LGivingUp \<in># pl_tasks r}"
      by (simp_all add: claim_and_spawn_def try_claim_redial_def spawn_lifecycle_def spawn_task_def)
    with Cons.IH [of "claim_and_spawn j r"] show ?case by simp
  qed simp
  have p: "p = (if sd_enabled (po_station_discovery options) then spawn_task (Disc DSpawned) ?q else ?q)"
    using assms by (simp add: pool_connect_def Let_def split: if_splits)
  have keys: "map key_of (pl_store ?p) = map (\<lambda>seed. \<lparr>lk_seed = seed, lk_origin = Bootstrap, lk_trust = trust, lk_gave_up = False\<rparr>) seeds"
    by (simp add: key_of_def PooledLink_new_def)
  have "view_ok trust budget (map key_of (pl_store ?p)) [0..<length seeds] ds" if "size ds \<le> 1" "\<forall>s t rs. Disc (DAdd s t rs) \<notin># ds" for budget ds
    using that unfolding keys view_ok_def occupied_def by (auto simp: key_ok_def)
  then have start: "view_ok trust (sd_max_links (po_station_discovery options)) (map key_of (pl_store ?p)) [0..<length seeds] {#}"
    "view_ok trust (sd_max_links (po_station_discovery options)) (map key_of (pl_store ?p)) [0..<length seeds] {#Disc DSpawned#}"
    by simp_all
  note q = keep [of "[0..<length seeds]" ?p]
  have "map key_of (pl_store p) = map key_of (pl_store ?p)" "pl_links p = [0..<length seeds]" "pl_trust p = trust" "pl_options p = options"
    "filter_mset is_disc (pl_tasks p) = {#} \<or> filter_mset is_disc (pl_tasks p) = {#Disc DSpawned#}"
    using q unfolding p by (simp_all add: spawn_task_def)
  then show "discovery_ok p" using start unfolding discovery_ok_def by metis
  have "{i. Life i LGivingUp \<in># pl_tasks p} = {i. Life i LGivingUp \<in># pl_tasks ?q}" unfolding p by (simp add: spawn_task_def)
  then show "giving_up_ok p" using q by (auto simp: giving_up_ok_def)
qed

lemma reachable_discovery:
  assumes "shuffle_ok shuffle" "pool_connect seeds trust kp options = (Inr p0 :: (Pool, 'e fail) result)" "pool_steps C shuffle W p0 p"
  shows "in_bounds p \<and> giving_up_ok p \<and> discovery_ok p \<and> pl_trust p = trust \<and> pl_options p = options"
  using assms(3)
proof (induction rule: rtranclp_induct)
  case base
  have "pl_trust (fold claim_and_spawn js r) = pl_trust r \<and> pl_options (fold claim_and_spawn js r) = pl_options r" for js r
    by (induction js arbitrary: r) simp_all
  then show ?case using pool_connect_ok [OF assms(2)] discovery_ok_start [OF assms(2)] assms(2)
    by (auto simp: pool_connect_def Let_def spawn_task_def split: if_splits)
next
  case (step p q)
  have "pl_trust q = pl_trust p \<and> pl_options q = pl_options p"
    using step.hyps(2) by (auto simp: pool_step_iff try_claim_redial_cases push_link_if_absent_cases spawn_task_def
      elim!: life_stepE caller_stepE disc_stepE close_stepE cancel_stepE)
  with step show ?case using pool_step_bounds [OF assms(1)] pool_step_giving_up pool_step_discovery by blast
qed

subsection \<open>A link that nothing redials\<close>

definition lost :: "nat \<Rightarrow> Pool \<Rightarrow> bool" where
  "lost i p \<longleftrightarrow> i < length (pl_store p) \<and> ln_session (pl_store p ! i) = None \<and> \<not> ln_connected (pl_store p ! i) \<and>
     (\<forall>t \<in># pl_tasks p. i \<notin> refers_to t)"

lemma life_step_lost: "life_step C p q \<Longrightarrow> lost i p \<Longrightarrow> lost i q"
  by (erule life_stepE) (auto simp: lost_def)

lemma caller_step_lost:
  assumes "shuffle_ok shuffle" "caller_step C shuffle p q" "lost i p"
  shows "lost i q"
  using assms(2,3)
proof (cases rule: caller_step.cases)
  case (caller_select job)
  have "i \<notin> set (select_connected_links shuffle p)"
    using assms(3) select_connected_subset [OF assms(1), of p] by (auto simp: lost_def is_connected_def)
  then show ?thesis using caller_select assms(3) job_targets_subset by (fastforce simp: lost_def spawn_task_def)
qed (auto simp: lost_def try_claim_redial_cases)

lemma disc_step_lost: "disc_step C p q \<Longrightarrow> in_bounds p \<Longrightarrow> lost i p \<Longrightarrow> lost i q"
proof (erule disc_stepE, goal_cases)
  case (5 ts j E n s r s' n' now)
  then show ?case by (cases "i = j") (auto simp: lost_def)
next
  case (6 ts j E n s rs s' n' now)
  then show ?case by (cases "i = j") (auto simp: lost_def)
qed (auto simp: lost_def try_claim_redial_cases push_link_if_absent_cases nth_append)

lemma close_step_lost: "close_step W p q \<Longrightarrow> lost i p \<Longrightarrow> lost i q"
  by (erule close_stepE) (auto simp: lost_def spawn_task_def drop_session_def)

lemma cancel_step_lost: "cancel_step p q \<Longrightarrow> lost i p \<Longrightarrow> lost i q"
  by (erule cancel_stepE) (auto simp: lost_def)

lemma pool_step_lost: "shuffle_ok shuffle \<Longrightarrow> pool_step C shuffle W p q \<Longrightarrow> in_bounds p \<Longrightarrow> lost i p \<Longrightarrow> lost i q"
  by (erule pool_step.cases) (blast dest: life_step_lost caller_step_lost disc_step_lost close_step_lost cancel_step_lost)+

lemma pool_steps_lost:
  assumes "shuffle_ok shuffle" "in_bounds p" "lost i p" "pool_steps C shuffle W p q"
  shows "in_bounds q \<and> lost i q"
  using assms(4)
proof (induction rule: rtranclp_induct)
  case (step q r)
  then show ?case using pool_step_bounds [OF assms(1)] pool_step_lost [OF assms(1)] by blast
qed (use assms in blast)

subsection \<open>Runs of a pool with one link\<close>

definition one_link :: "KeyPair \<Rightarrow> Trust \<Rightarrow> PoolOptions \<Rightarrow> PooledLink \<Rightarrow> task list \<Rightarrow> Pool" where
  "one_link kp trust options l ts =
    \<lparr>pl_identity = kp, pl_trust = trust, pl_options = options, pl_store = [l], pl_links = [0], pl_stop = False, pl_tasks = mset ts\<rparr>"

lemma one_link_simps [simp]:
  "pl_tasks (one_link kp trust options l ts) = mset ts" "pl_store (one_link kp trust options l ts) = [l]"
  "pl_links (one_link kp trust options l ts) = [0]" "\<not> pl_stop (one_link kp trust options l ts)"
  "pl_identity (one_link kp trust options l ts) = kp" "pl_options (one_link kp trust options l ts) = options"
  "set_link 0 f (one_link kp trust options l ts) = one_link kp trust options (f l) ts"
  by (simp_all add: one_link_def set_link_def)

lemma with_tasks_one_link:
  "mset ts' = M \<Longrightarrow> with_tasks (one_link kp trust options l ts) M = one_link kp trust options l ts'"
  by (auto simp: one_link_def)

lemma with_tasks_one_link_simps [simp]:
  "with_tasks (one_link kp trust options l ts) {#} = one_link kp trust options l []"
  "with_tasks (one_link kp trust options l ts) {#a#} = one_link kp trust options l [a]"
  "with_tasks (one_link kp trust options l ts) {#a, b#} = one_link kp trust options l [a, b]"
  "with_tasks (one_link kp trust options l ts) (add_mset a (mset us)) = one_link kp trust options l (a # us)"
  by (simp_all add: one_link_def)

lemma connect_one_link:
  assumes "\<not> sd_enabled (po_station_discovery options)"
  shows "(pool_connect [seed] trust kp options :: (Pool, 'e fail) result) =
    Inr (one_link kp trust options ((PooledLink_new seed Bootstrap trust)\<lparr>ln_redialing := True\<rparr>) [Life 0 LSpawned])"
  using assms by (simp add: pool_connect_def one_link_def claim_and_spawn_def try_claim_redial_def spawn_lifecycle_def spawn_task_def
      set_link_def PooledLink_new_def)

lemma select_one_link: "ln_connected l \<Longrightarrow> select_connected_links shuffle (one_link kp trust options l ts) = [0]"
  by (simp add: select_connected_links_def is_connected_def select_links_def Let_def)

lemma open_then:
  "open_step C shuffle p q \<Longrightarrow> (open_step C shuffle)\<^sup>*\<^sup>* q r \<Longrightarrow> (open_step C shuffle)\<^sup>*\<^sup>* p r"
  by (rule converse_rtranclp_into_rtranclp)

lemma pool_then: "pool_step C shuffle W p q \<Longrightarrow> pool_steps C shuffle W q r \<Longrightarrow> pool_steps C shuffle W p r"
  by (rule converse_rtranclp_into_rtranclp)

lemma open_steps_pool: "(open_step C shuffle)\<^sup>*\<^sup>* p q \<Longrightarrow> pool_steps C shuffle W p q"
  by (induction rule: rtranclp_induct) (auto intro: open_step_pool rtranclp.rtrancl_into_rtrancl)

text \<open>The first dial of the link, up to the store that makes it visible as connected.\<close>

lemma one_link_dials:
  assumes "connect C E n kp d = Inr s"
  shows "(open_step C shuffle)\<^sup>*\<^sup>* (one_link kp trust options l (Life 0 LSpawned # us))
    (one_link kp trust options (l\<lparr>ln_session := Some s, ln_peer_node_id := Some (he_node_id (station s)), ln_connected := True\<rparr>)
      (Life 0 LReset # us))"
proof -
  let ?P = "\<lambda>l pc. one_link kp trust options l (Life 0 pc # us)"
  let ?l = "l\<lparr>ln_session := Some s, ln_peer_node_id := Some (he_node_id (station s))\<rparr>"
  have 1: "open_step C shuffle (?P l LSpawned) (?P l LTop)"
    using life_start [of "?P l LSpawned" 0 "mset us" C] by (simp add: open_step_def)
  have 2: "open_step C shuffle (?P l LTop) (?P l LDial)"
    using life_dial [of "?P l LTop" 0 "mset us" C] by (simp add: open_step_def)
  have 3: "open_step C shuffle (?P l LDial) (?P l (LInstall s))"
    using life_dialed [of "?P l LDial" 0 "mset us" C] assms by (simp add: open_step_def)
  have 4: "open_step C shuffle (?P l (LInstall s)) (?P ?l LStored)"
    using life_install [of "?P l (LInstall s)" 0 s "mset us" C] by (simp add: open_step_def)
  have 5: "open_step C shuffle (?P ?l LStored) (?P (?l\<lparr>ln_connected := True\<rparr>) LReset)"
    using life_connected [of "?P ?l LStored" 0 "mset us" C] by (simp add: open_step_def)
  show ?thesis
    by (rule open_then [OF 1], rule open_then [OF 2], rule open_then [OF 3], rule open_then [OF 4], rule open_then [OF 5], simp)
qed

text \<open>The dial, the end of the life cycle, and a caller whose call then fails.\<close>

lemma idle_link_fails:
  assumes "connect C E n kp d = Inr s" "session_call C E' m s procedure realm payload deadline_ms kp = (Inl (Err e), s', m')"
    "l = (PooledLink_new seed Bootstrap trust)\<lparr>ln_redialing := True\<rparr>"
    "l' = (PooledLink_new seed Bootstrap trust)\<lparr>ln_session := Some s', ln_peer_node_id := Some (he_node_id (station s)), ln_connected := True\<rparr>"
  shows "(open_step C shuffle)\<^sup>*\<^sup>* (one_link kp trust options l [Life 0 LSpawned]) (one_link kp trust options l' [Caller CallJob [0] CLock])"
proof -
  let ?P = "one_link kp trust options" and ?t = "Caller CallJob [0]"
  let ?l = "l\<lparr>ln_session := Some s, ln_peer_node_id := Some (he_node_id (station s)), ln_connected := True\<rparr>"
  let ?r = "?l\<lparr>ln_consecutive_failures := 0\<rparr>"
  let ?u = "?r\<lparr>ln_redialing := False\<rparr>"
  have l': "l' = ?u\<lparr>ln_session := Some s'\<rparr>" by (simp add: assms(3,4) PooledLink_new_def)
  have 1: "open_step C shuffle (?P ?l [Life 0 LReset]) (?P ?r [Life 0 LDone])"
    using life_reset [of "?P ?l [Life 0 LReset]" 0 "{#}" C] by (simp add: open_step_def)
  have 2: "open_step C shuffle (?P ?r [Life 0 LDone]) (?P ?u [])"
    using life_done [of "?P ?r [Life 0 LDone]" 0 "{#}" C] by (simp add: open_step_def)
  have 3: "open_step C shuffle (?P ?u []) (?P ?u [?t CTry])"
    using caller_select [of C shuffle "?P ?u []" CallJob] by (simp add: open_step_def select_one_link job_targets_def spawn_task_def)
  have 4: "open_step C shuffle (?P ?u [?t CTry]) (?P l' [?t CLock])"
    using caller_call_failed [of "?P ?u [?t CTry]" 0 "[]" "{#}" s C] assms(2) by (simp add: open_step_def l')
  have "(open_step C shuffle)\<^sup>*\<^sup>* (?P ?l [Life 0 LReset]) (?P l' [?t CLock])"
    by (rule open_then [OF 1], rule open_then [OF 2], rule open_then [OF 3], rule open_then [OF 4], simp)
  with one_link_dials [OF assms(1), of shuffle trust options l "[]"] show ?thesis by (rule rtranclp_trans)
qed

lemma lost_link_run:
  assumes "shuffle_ok shuffle" "\<not> sd_enabled (po_station_discovery options)" "connect C E n kp d = Inr s"
    "session_call C E' m s procedure realm payload deadline_ms kp = (Inl (Err e), s', m')"
  obtains p0 l where "pool_connect [seed] trust kp options = (Inr p0 :: (Pool, 'e fail) result)"
    "(open_step C shuffle)\<^sup>*\<^sup>* p0 (one_link kp trust options l [])" "lost 0 (one_link kp trust options l [])"
    "ln_origin l = Bootstrap" "ln_seed l = seed"
proof -
  let ?P = "one_link kp trust options" and ?t = "Caller CallJob [0]"
  let ?new = "(PooledLink_new seed Bootstrap trust)\<lparr>ln_redialing := True\<rparr>"
  let ?l = "?new\<lparr>ln_session := Some s, ln_peer_node_id := Some (he_node_id (station s)), ln_connected := True\<rparr>"
  let ?l' = "?l\<lparr>ln_session := Some s'\<rparr>" and ?d = "drop_session (?l\<lparr>ln_session := Some s'\<rparr>)"
  have 1: "open_step C shuffle (?P ?l [Life 0 LReset]) (?P ?l [?t CTry, Life 0 LReset])"
    using caller_select [of C shuffle "?P ?l [Life 0 LReset]" CallJob]
    by (simp add: open_step_def select_one_link job_targets_def spawn_task_def)
  have 2: "open_step C shuffle (?P ?l [?t CTry, Life 0 LReset]) (?P ?l' [?t CLock, Life 0 LReset])"
    using caller_call_failed [of "?P ?l [?t CTry, Life 0 LReset]" 0 "[]" "{#Life 0 LReset#}" s C] assms(4)
    by (simp add: open_step_def)
  have 3: "open_step C shuffle (?P ?l' [?t CLock, Life 0 LReset]) (?P ?d [?t CClaim, Life 0 LReset])"
    using caller_lock [of "?P ?l' [?t CLock, Life 0 LReset]" CallJob 0 "[]" "{#Life 0 LReset#}" C] by (simp add: open_step_def)
  have 4: "open_step C shuffle (?P ?d [?t CClaim, Life 0 LReset]) (?P ?d [Caller CallJob [] CTry, Life 0 LReset])"
    using caller_claim_lost [of "?P ?d [?t CClaim, Life 0 LReset]" CallJob 0 "[]" "{#Life 0 LReset#}" "?P ?d [?t CClaim, Life 0 LReset]" C]
    by (simp add: open_step_def try_claim_redial_cases drop_session_def)
  have 5: "open_step C shuffle (?P ?d [Caller CallJob [] CTry, Life 0 LReset]) (?P ?d [Life 0 LReset])"
    using caller_done [of "?P ?d [Caller CallJob [] CTry, Life 0 LReset]" CallJob "{#Life 0 LReset#}" C] by (simp add: open_step_def)
  let ?r = "?d\<lparr>ln_consecutive_failures := 0\<rparr>"
  have 6: "open_step C shuffle (?P ?d [Life 0 LReset]) (?P ?r [Life 0 LDone])"
    using life_reset [of "?P ?d [Life 0 LReset]" 0 "{#}" C] by (simp add: open_step_def)
  have 7: "open_step C shuffle (?P ?r [Life 0 LDone]) (?P (?r\<lparr>ln_redialing := False\<rparr>) [])"
    using life_done [of "?P ?r [Life 0 LDone]" 0 "{#}" C] by (simp add: open_step_def)
  have "(open_step C shuffle)\<^sup>*\<^sup>* (?P ?l [Life 0 LReset]) (?P (?r\<lparr>ln_redialing := False\<rparr>) [])"
    by (rule open_then [OF 1], rule open_then [OF 2], rule open_then [OF 3], rule open_then [OF 4], rule open_then [OF 5],
        rule open_then [OF 6], rule open_then [OF 7], simp)
  with one_link_dials [OF assms(3), of shuffle trust options ?new "[]"]
  have "(open_step C shuffle)\<^sup>*\<^sup>* (?P ?new [Life 0 LSpawned]) (?P (?r\<lparr>ln_redialing := False\<rparr>) [])" by (rule rtranclp_trans)
  then show ?thesis using that connect_one_link [OF assms(2), of seed trust kp, where 'e = 'e]
    by (force simp: lost_def drop_session_def PooledLink_new_def)
qed

text \<open>The same pool once its links are drained.\<close>

definition drained :: "KeyPair \<Rightarrow> Trust \<Rightarrow> PoolOptions \<Rightarrow> PooledLink \<Rightarrow> task list \<Rightarrow> Pool" where
  "drained kp trust options l ts = (one_link kp trust options l ts)\<lparr>pl_links := []\<rparr>"

lemma drained_simps [simp]:
  "pl_tasks (drained kp trust options l ts) = mset ts" "pl_store (drained kp trust options l ts) = [l]"
  "pl_links (drained kp trust options l ts) = []" "\<not> pl_stop (drained kp trust options l ts)"
  "pl_identity (drained kp trust options l ts) = kp"
  "set_link 0 f (drained kp trust options l ts) = drained kp trust options (f l) ts"
  "with_tasks (drained kp trust options l ts) {#} = drained kp trust options l []"
  "with_tasks (drained kp trust options l ts) {#a#} = drained kp trust options l [a]"
  "with_tasks (drained kp trust options l ts) {#a, b#} = drained kp trust options l [a, b]"
  by (simp_all add: drained_def one_link_def set_link_def)

lemma locked_one_link:
  "(one_link kp trust options l ts)\<lparr>pl_links := [], pl_tasks := {#a, b#}\<rparr> = drained kp trust options l [a, b]"
  by (simp add: drained_def one_link_def)

lemma close_run:
  assumes "watch_ok W" "\<not> sd_enabled (po_station_discovery options)" "connect C E n kp d = Inr s"
    "session_call C E' m s procedure realm payload deadline_ms kp = (Inl (Err e), s', m')"
  obtains p0 l where "pool_connect [seed] trust kp options = (Inr p0 :: (Pool, 'e fail) result)"
    "pool_steps C shuffle W p0 (drained kp trust options l [Life 0 LDial])" "ln_origin l = Bootstrap"
proof -
  let ?P = "one_link kp trust options" and ?D = "drained kp trust options" and ?t = "Caller CallJob [0]"
  let ?new = "(PooledLink_new seed Bootstrap trust)\<lparr>ln_redialing := True\<rparr>"
  let ?c = "(PooledLink_new seed Bootstrap trust)\<lparr>ln_session := Some s', ln_peer_node_id := Some (he_node_id (station s)), ln_connected := True\<rparr>"
  let ?d = "drop_session ?c"
  let ?e = "?d\<lparr>ln_redialing := True\<rparr>"
  have up: "pool_steps C shuffle W (?P ?new [Life 0 LSpawned]) (?P ?c [?t CLock])"
    by (rule open_steps_pool [OF idle_link_fails [OF assms(3,4) refl refl]])
  have 5: "pool_step C shuffle W (?P ?c [?t CLock]) (?P ?c [Closer CloShutdown, ?t CLock])"
    using close_start [of W "?P ?c [?t CLock]"] assms(1) by (simp add: pool_close watch_ok_def spawn_task_def one_link_def)
  have 6: "pool_step C shuffle W (?P ?c [Closer CloShutdown, ?t CLock]) (?P ?c [Closer CloDrain, ?t CLock])"
    using close_shutdown [of "?P ?c [Closer CloShutdown, ?t CLock]" "{#?t CLock#}" W] by (simp add: pool_close)
  have 7: "pool_step C shuffle W (?P ?c [Closer CloDrain, ?t CLock]) (?D ?c [Closer (CloHold [0]), ?t CLock])"
    using close_lock [of "?P ?c [Closer CloDrain, ?t CLock]" "{#?t CLock#}" W] by (simp add: pool_close locked_one_link)
  have 8: "pool_step C shuffle W (?D ?c [Closer (CloHold [0]), ?t CLock]) (?D ?d [Closer (CloHold []), ?t CLock])"
    using close_drain [of "?D ?c [Closer (CloHold [0]), ?t CLock]" 0 "[]" "{#?t CLock#}" W] by (simp add: pool_close)
  have hold: "pool_step C shuffle W (?D ?d [Closer (CloHold []), ?t CLock]) (?D ?d [?t CLock])"
    using close_done [of "?D ?d [Closer (CloHold []), ?t CLock]" "{#?t CLock#}" W] by (simp add: pool_close)
  have 9: "pool_step C shuffle W (?D ?d [?t CLock]) (?D ?d [?t CClaim])"
    using caller_lock [of "?D ?d [?t CLock]" CallJob 0 "[]" "{#}" C] by (simp add: pool_caller drop_session_def)
  have 10: "pool_step C shuffle W (?D ?d [?t CClaim]) (?D ?e [?t CSpawn])"
    using caller_claim [of "?D ?d [?t CClaim]" CallJob 0 "[]" "{#}" "?D ?e [?t CClaim]" C]
    by (simp add: pool_caller try_claim_redial_cases drop_session_def PooledLink_new_def)
  have 11: "pool_step C shuffle W (?D ?e [?t CSpawn]) (?D ?e [Life 0 LSpawned, Caller CallJob [] CTry])"
    using caller_spawn [of "?D ?e [?t CSpawn]" CallJob 0 "[]" "{#}" C] by (simp add: pool_caller)
  have 12: "pool_step C shuffle W (?D ?e [Life 0 LSpawned, Caller CallJob [] CTry]) (?D ?e [Life 0 LSpawned])"
    using caller_done [of "?D ?e [Life 0 LSpawned, Caller CallJob [] CTry]" CallJob "{#Life 0 LSpawned#}" C]
    by (simp add: pool_caller add_mset_commute)
  have 13: "pool_step C shuffle W (?D ?e [Life 0 LSpawned]) (?D ?e [Life 0 LTop])"
    using life_start [of "?D ?e [Life 0 LSpawned]" 0 "{#}" C] by (simp add: pool_life)
  have 14: "pool_step C shuffle W (?D ?e [Life 0 LTop]) (?D ?e [Life 0 LDial])"
    using life_dial [of "?D ?e [Life 0 LTop]" 0 "{#}" C] by (simp add: pool_life)
  have "pool_steps C shuffle W (?P ?c [?t CLock]) (?D ?e [Life 0 LDial])"
    by (rule pool_then [OF 5], rule pool_then [OF 6], rule pool_then [OF 7], rule pool_then [OF 8], rule pool_then [OF hold],
        rule pool_then [OF 9], rule pool_then [OF 10], rule pool_then [OF 11], rule pool_then [OF 12], rule pool_then [OF 13],
        rule pool_then [OF 14], simp)
  with up have "pool_steps C shuffle W (?P ?new [Life 0 LSpawned]) (?D ?e [Life 0 LDial])" by (rule rtranclp_trans)
  then show ?thesis using that connect_one_link [OF assms(2), of seed trust kp, where 'e = 'e]
    by (force simp: drop_session_def PooledLink_new_def)
qed

text \<open>A caller dropped between the claim and the spawn.\<close>

lemma cancelled_run:
  assumes "\<not> sd_enabled (po_station_discovery options)" "connect C E n kp d = Inr s"
    "session_call C E' m s procedure realm payload deadline_ms kp = (Inl (Err e), s', m')"
  obtains start l where "pool_connect [seed] trust kp options = (Inr start :: (Pool, 'e fail) result)"
    "(open_step C shuffle)\<^sup>*\<^sup>* start (one_link kp trust options l [Caller CallJob [0] CSpawn])"
    "cancel_step (one_link kp trust options l [Caller CallJob [0] CSpawn]) (one_link kp trust options l [])"
    "lost 0 (one_link kp trust options l [])" "ln_origin l = Bootstrap" "ln_redialing l"
proof -
  let ?P = "one_link kp trust options" and ?t = "Caller CallJob [0]"
  let ?c = "(PooledLink_new seed Bootstrap trust)\<lparr>ln_session := Some s', ln_peer_node_id := Some (he_node_id (station s)), ln_connected := True\<rparr>"
  let ?d = "drop_session ?c"
  let ?e = "?d\<lparr>ln_redialing := True\<rparr>"
  have 1: "open_step C shuffle (?P ?c [?t CLock]) (?P ?d [?t CClaim])"
    using caller_lock [of "?P ?c [?t CLock]" CallJob 0 "[]" "{#}" C] by (simp add: open_step_def)
  have 2: "open_step C shuffle (?P ?d [?t CClaim]) (?P ?e [?t CSpawn])"
    using caller_claim [of "?P ?d [?t CClaim]" CallJob 0 "[]" "{#}" "?P ?e [?t CClaim]" C]
    by (simp add: open_step_def try_claim_redial_cases drop_session_def PooledLink_new_def)
  have "(open_step C shuffle)\<^sup>*\<^sup>* (?P ?c [?t CLock]) (?P ?e [?t CSpawn])" by (rule open_then [OF 1], rule open_then [OF 2], simp)
  with idle_link_fails [OF assms(2,3) refl refl, where shuffle = shuffle and options = options and seed = seed and trust = trust]
  have run: "(open_step C shuffle)\<^sup>*\<^sup>* (?P ((PooledLink_new seed Bootstrap trust)\<lparr>ln_redialing := True\<rparr>) [Life 0 LSpawned]) (?P ?e [?t CSpawn])"
    by (rule rtranclp_trans)
  have "cancel_step (?P ?e [?t CSpawn]) (?P ?e [])" using cancel_waiting [of "?P ?e [?t CSpawn]" CallJob "[0]" CSpawn "{#}"] by simp
  then show ?thesis by (rule that [OF connect_one_link [OF assms(1)] run]) (simp_all add: lost_def drop_session_def PooledLink_new_def)
qed

subsection \<open>A pool that was told to stop\<close>

text \<open>A link that \<open>close\<close> has taken out of the list and not closed yet.\<close>

definition held :: "Pool \<Rightarrow> nat \<Rightarrow> bool" where
  "held p i \<longleftrightarrow> (\<exists>is. Closer (CloHold is) \<in># pl_tasks p \<and> i \<in> set is)"

definition winding_down :: "Pool \<Rightarrow> bool" where
  "winding_down p \<longleftrightarrow> pl_stop p \<and>
     (\<forall>t \<in># pl_tasks p. case t of Life i pc \<Rightarrow> pc \<in> {LSpawned, LTop, LDone} | Disc pc \<Rightarrow> False | _ \<Rightarrow> True) \<and>
     (\<forall>i < length (pl_store p). i \<in> set (pl_links p) \<or> held p i \<or> ln_session (pl_store p ! i) = None)"

lemma life_step_winding_down: "life_step C p q \<Longrightarrow> winding_down p \<Longrightarrow> winding_down q"
  by (erule life_stepE) (auto simp: winding_down_def held_def)

lemma caller_step_winding_down: "caller_step C shuffle p q \<Longrightarrow> in_bounds p \<Longrightarrow> winding_down p \<Longrightarrow> winding_down q"
  by (erule caller_stepE) (auto simp: winding_down_def held_def spawn_task_def try_claim_redial_cases drop_session_def in_bounds_def)

lemma cancel_step_winding_down: "cancel_step p q \<Longrightarrow> in_bounds p \<Longrightarrow> winding_down p \<Longrightarrow> winding_down q"
  by (erule cancel_stepE) (auto simp: winding_down_def held_def in_bounds_def)

lemma disc_step_winding_down: "disc_step C p q \<Longrightarrow> winding_down p \<Longrightarrow> winding_down q"
  by (erule disc_stepE) (auto simp: winding_down_def)

lemma close_step_winding_down:
  "watch_ok W \<Longrightarrow> close_step W p q \<Longrightarrow> in_bounds p \<Longrightarrow> winding_down p \<Longrightarrow> winding_down q"
proof (erule close_stepE, goal_cases)
  case (4 i cs ts)
  have held: "held p j \<Longrightarrow> j \<noteq> i \<Longrightarrow> held q j" for j using 4 by (auto simp: held_def)
  have "j \<in> set (pl_links q) \<or> held q j \<or> ln_session (pl_store q ! j) = None" if "j < length (pl_store q)" for j
    using 4 that held [of j] by (auto simp: winding_down_def drop_session_def)
  then show ?case using 4 by (simp add: winding_down_def)
next
  case (5 ts)
  have held: "held p j \<Longrightarrow> held q j" for j using 5 by (auto simp: held_def)
  then show ?case using 5 by (auto simp: winding_down_def)
qed (auto simp: winding_down_def held_def spawn_task_def watch_ok_def)

lemma pool_step_winding_down:
  "watch_ok W \<Longrightarrow> pool_step C shuffle W p q \<Longrightarrow> in_bounds p \<Longrightarrow> winding_down p \<Longrightarrow> winding_down q"
  by (erule pool_step.cases)
    (blast dest: life_step_winding_down caller_step_winding_down disc_step_winding_down close_step_winding_down cancel_step_winding_down)+

lemma pool_steps_winding_down:
  assumes "shuffle_ok shuffle" "watch_ok W" "in_bounds p" "winding_down p" "pool_steps C shuffle W p q"
  shows "in_bounds q \<and> winding_down q"
  using assms(5)
proof (induction rule: rtranclp_induct)
  case (step q r)
  then show ?case using pool_step_bounds [OF assms(1)] pool_step_winding_down [OF assms(2)] by blast
qed (use assms in blast)

end
