(* ===== verification/PoolRuns.thy ===== *)
theory PoolRuns
  imports PoolInv
begin

section \<open>PoolRuns: the sequential operations of a pool are runs of its tasks\<close>

text \<open>
  \<open>pool_call\<close>, \<open>pool_publish\<close> and \<open>discover_once\<close> are written as one function each, as in the source; here each is
  shown to be a run of the interleaving model in which only its own task moves.
\<close>

subsection \<open>Calls and publishes\<close>

lemma spawn_task_simps [simp]:
  "pl_tasks (spawn_task t p) = add_mset t (pl_tasks p)" "pl_store (spawn_task t p) = pl_store p" "pl_links (spawn_task t p) = pl_links p"
  "pl_identity (spawn_task t p) = pl_identity p" "pl_options (spawn_task t p) = pl_options p" "pl_trust (spawn_task t p) = pl_trust p"
  "with_tasks (spawn_task t p) M = with_tasks p M" "set_link i f (spawn_task t p) = spawn_task t (set_link i f p)"
  "pl_tasks p = M \<Longrightarrow> with_tasks p (add_mset t M) = spawn_task t p" "pl_tasks p = M \<Longrightarrow> with_tasks p M = p"
  by (auto simp: spawn_task_def set_link_def)

lemma mark_disconnected_run:
  "pool_steps C shuffle W (spawn_task (Caller job (i # cs) CLock) p) (spawn_task (Caller job cs CTry) (mark_disconnected i p))"
proof -
  let ?d = "set_link i drop_session p"
  have 1: "pool_step C shuffle W (spawn_task (Caller job (i # cs) CLock) p) (spawn_task (Caller job (i # cs) CClaim) ?d)"
    using caller_lock [of "spawn_task (Caller job (i # cs) CLock) p" job i cs "pl_tasks p" C] by (simp add: pool_caller)
  show ?thesis
  proof (cases "ln_redialing (pl_store ?d ! i)")
    case True
    then have "caller_step C shuffle (spawn_task (Caller job (i # cs) CClaim) ?d) (spawn_task (Caller job cs CTry) ?d)"
      using caller_claim_lost [of "spawn_task (Caller job (i # cs) CClaim) ?d" job i cs "pl_tasks p" "spawn_task (Caller job (i # cs) CClaim) ?d" C]
      by (simp add: try_claim_redial_cases)
    moreover have "mark_disconnected i p = ?d" using True by (simp add: mark_disconnected_def claim_and_spawn_def try_claim_redial_def)
    ultimately show ?thesis using 1 by (auto intro: pool_then pool_caller)
  next
    case False
    let ?c = "set_link i (ln_redialing_update (\<lambda>_. True)) ?d"
    have 2: "pool_step C shuffle W (spawn_task (Caller job (i # cs) CClaim) ?d) (spawn_task (Caller job (i # cs) CSpawn) ?c)"
      using False caller_claim [of "spawn_task (Caller job (i # cs) CClaim) ?d" job i cs "pl_tasks p"
          "spawn_task (Caller job (i # cs) CClaim) ?c" C]
      by (simp add: pool_caller try_claim_redial_cases)
    have 3: "pool_step C shuffle W (spawn_task (Caller job (i # cs) CSpawn) ?c) (spawn_task (Caller job cs CTry) (spawn_lifecycle i ?c))"
    proof -
      have "spawn_task (Caller job cs CTry) (spawn_lifecycle i ?c) =
          with_tasks ?c (add_mset (Life i LSpawned) (add_mset (Caller job cs CTry) (pl_tasks p)))"
        unfolding spawn_lifecycle_def spawn_task_def by (simp add: add_mset_commute del: spawn_task_simps)
      then show ?thesis
        using caller_spawn [of "spawn_task (Caller job (i # cs) CSpawn) ?c" job i cs "pl_tasks p" C] by (simp add: pool_caller)
    qed
    have "mark_disconnected i p = spawn_lifecycle i ?c"
      using False by (simp add: mark_disconnected_def claim_and_spawn_def try_claim_redial_def)
    then show ?thesis using pool_then [OF 1 pool_then [OF 2 r_into_rtranclp [where r = "pool_step C shuffle W", OF 3]]] by simp
  qed
qed

lemma call_candidates_run:
  "call_candidates C E procedure realm payload deadline_ms cs last_err (p, n) = (r, q, n') \<Longrightarrow>
    pool_steps C shuffle W (spawn_task (Caller CallJob cs CTry) p) q"
proof (induction cs arbitrary: last_err p n)
  case Nil
  then have "caller_step C shuffle (spawn_task (Caller CallJob [] CTry) p) q"
    using caller_done [of "spawn_task (Caller CallJob [] CTry) p" CallJob "pl_tasks p" C] by simp
  then show ?case by (auto intro: pool_caller)
next
  case (Cons i cs)
  show ?case
  proof (cases "ln_session (pl_store p ! i)")
    case None
    then have "caller_step C shuffle (spawn_task (Caller CallJob (i # cs) CTry) p) (spawn_task (Caller CallJob cs CTry) p)"
      using caller_skip [of "spawn_task (Caller CallJob (i # cs) CTry) p" CallJob i cs "pl_tasks p" C] by simp
    moreover have "pool_steps C shuffle W (spawn_task (Caller CallJob cs CTry) p) q" using Cons None by simp
    ultimately show ?thesis by (auto intro: pool_then pool_caller)
  next
    case (Some s)
    obtain x s' m where x: "session_call C E n s procedure realm payload deadline_ms (pl_identity p) = (x, s', m)"
      by (cases "session_call C E n s procedure realm payload deadline_ms (pl_identity p)")
    show ?thesis
    proof (cases "\<exists>e. x = Inl (Err e)")
      case True
      then obtain e where e: "x = Inl (Err e)" by blast
      have "caller_step C shuffle (spawn_task (Caller CallJob (i # cs) CTry) p) (spawn_task (Caller CallJob (i # cs) CLock) (install i s' p))"
        using caller_call_failed [of "spawn_task (Caller CallJob (i # cs) CTry) p" i cs "pl_tasks p" s C] Some x e by simp
      moreover have "pool_steps C shuffle W (spawn_task (Caller CallJob cs CTry) (mark_disconnected i (install i s' p))) q"
        using Cons Some x e by simp
      ultimately show ?thesis using mark_disconnected_run by (blast intro: pool_then pool_caller rtranclp_trans)
    next
      case False
      then have "q = install i s' p" using Cons.prems Some x by (cases x) (auto simp: Let_def split: fail.splits)
      then have "caller_step C shuffle (spawn_task (Caller CallJob (i # cs) CTry) p) q"
        using caller_answered [of "spawn_task (Caller CallJob (i # cs) CTry) p" i cs "pl_tasks p" s C] Some x False by simp
      then show ?thesis by (auto intro: pool_caller)
    qed
  qed
qed

lemma publish_targets_run:
  "publish_targets C E spec cs k (p, n) = (r, q, n') \<Longrightarrow> pool_steps C shuffle W (spawn_task (Caller PublishJob cs CTry) p) q"
proof (induction cs arbitrary: k p n)
  case Nil
  then have "caller_step C shuffle (spawn_task (Caller PublishJob [] CTry) p) q"
    using caller_done [of "spawn_task (Caller PublishJob [] CTry) p" PublishJob "pl_tasks p" C] by simp
  then show ?case by (auto intro: pool_caller)
next
  case (Cons i cs)
  let ?t = "Caller PublishJob (i # cs)"
  show ?case
  proof (cases "ln_session (pl_store p ! i)")
    case None
    then have "caller_step C shuffle (spawn_task (?t CTry) p) (spawn_task (Caller PublishJob cs CTry) p)"
      using caller_skip [of "spawn_task (?t CTry) p" PublishJob i cs "pl_tasks p" C] by simp
    moreover have "pool_steps C shuffle W (spawn_task (Caller PublishJob cs CTry) p) q" using Cons None by simp
    ultimately show ?thesis by (auto intro: pool_then pool_caller)
  next
    case (Some s)
    obtain x s' m where x: "publish C E n spec (pl_identity p) s = (x, s', m)" by (cases "publish C E n spec (pl_identity p) s")
    consider (ok) "x = Inr ()" | (panic) "x = Inl Panic" | (err) e where "x = Inl (Err e)" by (cases x) (auto intro: fail.exhaust)
    then show ?thesis
    proof cases
      case ok
      then have "caller_step C shuffle (spawn_task (?t CTry) p) (spawn_task (Caller PublishJob cs CTry) (install i s' p))"
        using caller_published [of "spawn_task (?t CTry) p" i cs "pl_tasks p" s C] Some x by simp
      moreover have "pool_steps C shuffle W (spawn_task (Caller PublishJob cs CTry) (install i s' p)) q" using Cons Some x ok by simp
      ultimately show ?thesis by (auto intro: pool_then pool_caller)
    next
      case panic
      then have "caller_step C shuffle (spawn_task (?t CTry) p) q"
        using caller_publish_panicked [of "spawn_task (?t CTry) p" i cs "pl_tasks p" s C] Cons.prems Some x by auto
      then show ?thesis by (auto intro: pool_caller)
    next
      case err
      then have "caller_step C shuffle (spawn_task (?t CTry) p) (spawn_task (?t CLock) (install i s' p))"
        using caller_publish_failed [of "spawn_task (?t CTry) p" i cs "pl_tasks p" s C] Some x by simp
      moreover have "pool_steps C shuffle W (spawn_task (Caller PublishJob cs CTry) (mark_disconnected i (install i s' p))) q"
        using Cons Some x err by simp
      ultimately show ?thesis using mark_disconnected_run by (blast intro: pool_then pool_caller rtranclp_trans)
    qed
  qed
qed

subsection \<open>A task that does not move\<close>

lemma is_connected_spawn [simp]: "is_connected (spawn_task t p) = is_connected p"
  by (rule ext) (simp add: is_connected_def)

lemma select_spawn [simp]: "select_connected_links shuffle (spawn_task t p) = select_connected_links shuffle p"
  by (simp add: select_connected_links_def)

lemma spawn_task_commute: "spawn_task t (spawn_task u p) = spawn_task u (spawn_task t p)"
  unfolding spawn_task_def by (simp add: add_mset_commute del: spawn_task_simps)

lemma claim_and_spawn_frame: "claim_and_spawn i (spawn_task t p) = spawn_task t (claim_and_spawn i p)"
  by (simp add: claim_and_spawn_def try_claim_redial_def spawn_lifecycle_def spawn_task_commute)

lemma mark_disconnected_frame: "mark_disconnected i (spawn_task t p) = spawn_task t (mark_disconnected i p)"
  by (simp add: mark_disconnected_def claim_and_spawn_frame)

lemma call_candidates_frame:
  "call_candidates C E procedure realm payload deadline_ms cs last_err (p, n) = (r, q, n') \<Longrightarrow>
    call_candidates C E procedure realm payload deadline_ms cs last_err (spawn_task t p, n) = (r, spawn_task t q, n')"
  by (induction cs arbitrary: last_err p n)
    (auto simp: Let_def mark_disconnected_frame split: option.splits prod.splits sum.splits fail.splits)

lemma pool_call_frame:
  "pool_call shuffle C E n procedure realm payload deadline_ms p = (r, q, n') \<Longrightarrow>
    pool_call shuffle C E n procedure realm payload deadline_ms (spawn_task t p) = (r, spawn_task t q, n')"
  by (auto simp: pool_call_def Let_def call_candidates_frame split: if_splits)

lemma pool_call_run:
  "pool_call shuffle C E n procedure realm payload deadline_ms p = (r, q, n') \<Longrightarrow> pool_steps C shuffle W p q"
proof -
  assume call: "pool_call shuffle C E n procedure realm payload deadline_ms p = (r, q, n')"
  let ?s = "select_connected_links shuffle p"
  have "pool_step C shuffle W p (spawn_task (Caller CallJob ?s CTry) p)"
    using pool_caller [OF caller_select [of C shuffle p CallJob]] by (simp add: job_targets_def)
  moreover obtain x y m where c: "call_candidates C E procedure realm payload deadline_ms ?s None (p, n) = (x, y, m)"
    by (cases "call_candidates C E procedure realm payload deadline_ms ?s None (p, n)")
  ultimately have "pool_steps C shuffle W p y" using call_candidates_run [OF c] by (blast intro: pool_then)
  moreover have "q = y" using call c by (auto simp: pool_call_def Let_def split: if_splits)
  ultimately show ?thesis by simp
qed

lemma pool_publish_run:
  "pool_publish shuffle C E n spec p = (r, q, n') \<Longrightarrow> pool_steps C shuffle W p q"
proof -
  assume pub: "pool_publish shuffle C E n spec p = (r, q, n')"
  let ?t = "take (max (po_replication_factor (pl_options p)) 1) (select_connected_links shuffle p)"
  have "pool_step C shuffle W p (spawn_task (Caller PublishJob ?t CTry) p)"
    using pool_caller [OF caller_select [of C shuffle p PublishJob]] by (simp add: job_targets_def)
  moreover obtain x y m where c: "publish_targets C E spec ?t 0 (p, n) = (x, y, m)" by (cases "publish_targets C E spec ?t 0 (p, n)")
  ultimately have "pool_steps C shuffle W p y" using publish_targets_run [OF c] by (blast intro: pool_then)
  moreover have "q = fst (snd (pool_publish shuffle C E n spec p))" using pub by simp
  then have "q = y" using c by (cases "select_connected_links shuffle p = []") (simp_all add: pool_publish_def Let_def)
  ultimately show ?thesis by simp
qed

lemma mark_disconnected_identity [simp]: "pl_identity (mark_disconnected i p) = pl_identity p"
  by (simp add: mark_disconnected_def claim_and_spawn_def try_claim_redial_def spawn_lifecycle_def set_link_def)

lemma call_candidates_panic:
  "call_candidates C E procedure realm payload deadline_ms cs last_err (p, n) = (Inl Panic, q, n') \<Longrightarrow>
    pl_identity q = pl_identity p \<and>
    (\<exists>m s s' m'. session_call C E m s procedure realm payload deadline_ms (pl_identity p) = (Inl Panic, s', m'))"
  by (induction cs arbitrary: last_err p n)
    (fastforce simp: Let_def set_link_def split: option.splits prod.splits sum.splits fail.splits)+

subsection \<open>Discovery\<close>

lemma has_link_spawn [simp]: "has_link_for_node_id (spawn_task t p) = has_link_for_node_id p"
  by (rule ext) (simp add: has_link_for_node_id_def)

lemma station_row_spawn [simp]: "station_row (spawn_task t p) row = station_row p row"
  by (simp add: station_row_def split: option.split prod.split)

lemma claim_run:
  "pool_steps C shuffle W (spawn_task (Disc (DClaim i rows)) p) (spawn_task (Disc (DRows rows)) (claim_and_spawn i p))"
proof (cases "ln_redialing (pl_store p ! i)")
  case True
  have "disc_step C (spawn_task (Disc (DClaim i rows)) p) (spawn_task (Disc (DRows rows)) p)"
    using True disc_claim_lost [of "spawn_task (Disc (DClaim i rows)) p" i rows "pl_tasks p" "spawn_task (Disc (DClaim i rows)) p" C]
    by (simp add: try_claim_redial_cases)
  then show ?thesis using True by (auto simp: claim_and_spawn_def try_claim_redial_def intro: pool_disc)
next
  case False
  let ?c = "set_link i (ln_redialing_update (\<lambda>_. True)) p"
  have 1: "pool_step C shuffle W (spawn_task (Disc (DClaim i rows)) p) (spawn_task (Disc (DSpawn i rows)) ?c)"
    using False disc_claim [of "spawn_task (Disc (DClaim i rows)) p" i rows "pl_tasks p" "spawn_task (Disc (DClaim i rows)) ?c" C]
    by (simp add: pool_disc try_claim_redial_cases)
  have spawned: "spawn_task (Disc (DRows rows)) (spawn_lifecycle i ?c) =
      with_tasks ?c (add_mset (Life i LSpawned) (add_mset (Disc (DRows rows)) (pl_tasks p)))"
    unfolding spawn_lifecycle_def spawn_task_def by (simp add: add_mset_commute del: spawn_task_simps)
  have 2: "pool_step C shuffle W (spawn_task (Disc (DSpawn i rows)) ?c) (spawn_task (Disc (DRows rows)) (spawn_lifecycle i ?c))"
    unfolding spawned using disc_spawn [of "spawn_task (Disc (DSpawn i rows)) ?c" i rows "pl_tasks p" C] by (simp add: pool_disc)
  have "claim_and_spawn i p = spawn_lifecycle i ?c" using False by (simp add: claim_and_spawn_def try_claim_redial_def)
  then show ?thesis using pool_then [OF 1 r_into_rtranclp [where r = "pool_step C shuffle W", OF 2]] by simp
qed

lemma seed_link_run:
  "pool_steps C shuffle W (spawn_task (Disc (DAdd seed trust rows)) p) (spawn_task (Disc (DRows rows)) (spawn_seed_link_if_absent seed trust p))"
proof (cases "push_link_if_absent seed trust p")
  case (Pair added p')
  show ?thesis
  proof (cases added)
    case None
    then have "disc_step C (spawn_task (Disc (DAdd seed trust rows)) p) (spawn_task (Disc (DRows rows)) p')"
      using disc_present [of "spawn_task (Disc (DAdd seed trust rows)) p" seed trust rows "pl_tasks p"
          "spawn_task (Disc (DAdd seed trust rows)) p" C] Pair
      by (simp add: push_link_if_absent_cases)
    then show ?thesis using Pair None by (auto simp: spawn_seed_link_if_absent_def intro: pool_disc)
  next
    case (Some i)
    let ?pushed = "(spawn_task (Disc (DAdd seed trust rows)) p)\<lparr>pl_store := pl_store p @ [PooledLink_new seed Discovered trust], pl_links := pl_links p @ [i]\<rparr>"
    have "push_link_if_absent seed trust (spawn_task (Disc (DAdd seed trust rows)) p) = (Some i, ?pushed)"
      using Pair Some by (simp add: push_link_if_absent_cases)
    then have "disc_step C (spawn_task (Disc (DAdd seed trust rows)) p) (with_tasks ?pushed (add_mset (Disc (DClaim i rows)) (pl_tasks p)))"
      by (intro disc_push) simp_all
    moreover have "with_tasks ?pushed (add_mset (Disc (DClaim i rows)) (pl_tasks p)) = spawn_task (Disc (DClaim i rows)) p'"
      using Pair Some by (simp add: push_link_if_absent_cases spawn_task_def del: spawn_task_simps)
    ultimately have "pool_step C shuffle W (spawn_task (Disc (DAdd seed trust rows)) p) (spawn_task (Disc (DClaim i rows)) p')"
      by (simp add: pool_disc)
    from pool_then [OF this claim_run] show ?thesis using Pair Some by (simp add: spawn_seed_link_if_absent_def)
  qed
qed

lemma add_discovered_links_run:
  "pool_steps C shuffle W (spawn_task (Disc (DRows rows)) p) (spawn_task (Disc DSleep) (add_discovered_links rows p))"
proof (induction rows arbitrary: p)
  case Nil
  have "disc_step C (spawn_task (Disc (DRows [])) p) (spawn_task (Disc DSleep) p)"
    using disc_rows_done [of "spawn_task (Disc (DRows [])) p" "pl_tasks p" C] by simp
  then show ?case by (auto intro: pool_disc)
next
  case (Cons row rows)
  let ?p = "spawn_task (Disc (DRows (row # rows))) p"
  show ?case
  proof (cases "station_row p row")
    case Break
    then have "disc_step C ?p (spawn_task (Disc DSleep) p)" using disc_break [of ?p row rows "pl_tasks p" C] by simp
    with Break show ?thesis by (auto intro: pool_disc)
  next
    case Skip
    then have "disc_step C ?p (spawn_task (Disc (DRows rows)) p)" using disc_skip [of ?p row rows "pl_tasks p" C] by simp
    with Skip Cons show ?thesis by (auto intro: pool_then pool_disc)
  next
    case (Add seed trust)
    then have "disc_step C ?p (spawn_task (Disc (DAdd seed trust rows)) p)" using disc_row [of ?p row rows "pl_tasks p" seed trust C] by simp
    from pool_then [OF pool_disc [OF this] seed_link_run] Add Cons show ?thesis by (auto intro: rtranclp_trans)
  qed
qed

lemma resolve_realm_run:
  assumes "resolve_list_stations_realm C E n p = (r, q, n')"
  shows "pool_steps C shuffle W (spawn_task (Disc DQuery) p) (if r = Inl Panic then q else spawn_task (Disc DQuery) q)"
proof -
  let ?p = "spawn_task (Disc DQuery) p" and ?find = "find (is_connected p) (pl_links p)"
  show ?thesis
  proof (cases "\<exists>i s. ?find = Some i \<and> ln_session (pl_store p ! i) = Some s")
    case False
    then have "r = Inr None" "q = p"
      using assms by (auto simp: resolve_list_stations_realm_def split: option.splits)
    then show ?thesis by simp
  next
    case True
    then obtain i s where i: "?find = Some i" "ln_session (pl_store p ! i) = Some s" by blast
    obtain x s' m where x: "find_records_by_type C E n s (pl_identity p) TYPE_PROCEDURE_ADVERTISEMENT = (x, s', m)"
      by (cases "find_records_by_type C E n s (pl_identity p) TYPE_PROCEDURE_ADVERTISEMENT")
    let ?first = "\<lambda>rs. first_list_stations_realm C (uint (env_now_ms E m)) rs :: (_, unit fail) result"
    have q: "q = install i s' p" and r: "r = (case x of Inl Panic \<Rightarrow> Inl Panic | Inl (Err _) \<Rightarrow> Inr None | Inr records \<Rightarrow> ?first records)"
      using assms i x by (simp_all add: resolve_list_stations_realm_def)
    consider "x = Inl Panic" | rs where "x = Inr rs" "?first rs = Inl Panic" | "x \<noteq> Inl Panic" "\<forall>rs. x = Inr rs \<longrightarrow> ?first rs \<noteq> Inl Panic"
      by blast
    then show ?thesis
    proof cases
      case 1
      have "disc_step C ?p (with_tasks (install i s' ?p) (pl_tasks p))"
        by (rule disc_query_died [of ?p "pl_tasks p" i s C E n s' m]) (use i x 1 in simp_all)
      then show ?thesis using r q 1 by (auto intro: pool_disc)
    next
      case (2 rs)
      have "disc_step C ?p (with_tasks (install i s' ?p) (pl_tasks p))"
        by (rule disc_panicked [of ?p "pl_tasks p" i s C E n rs s' m]) (use i x 2 in simp_all)
      then show ?thesis using r q 2 by (auto intro: pool_disc)
    next
      case 3
      have "disc_step C ?p (install i s' ?p)"
        by (rule disc_query [of ?p "pl_tasks p" i s C E n x s' m "uint (env_now_ms E m)"]) (use i x 3 in simp_all)
      moreover have "r \<noteq> Inl Panic" using r 3 by (auto split: sum.splits fail.splits)
      ultimately show ?thesis using q by (auto intro: pool_disc)
    qed
  qed
qed

lemma discover_once_run:
  assumes "discover_once shuffle C E n p = (r, q, n')"
  shows "pool_steps C shuffle W (spawn_task (Disc DQuery) p) (if r = Inl Panic then q else spawn_task (Disc DSleep) q)"
proof -
  obtain x p1 n1 where res: "resolve_list_stations_realm C E n p = (x, p1, n1)" by (cases "resolve_list_stations_realm C E n p")
  note run = resolve_realm_run [OF res, of shuffle W]
  have idle: "pool_step C shuffle W (spawn_task (Disc DQuery) p') (spawn_task (Disc DSleep) p')" for p'
    using disc_nothing [of "spawn_task (Disc DQuery) p'" "pl_tasks p'" C] by (simp add: pool_disc)
  consider "x = Inl Panic" | "x \<noteq> Inl Panic" "r \<noteq> Inl Panic" "q = p1" | realm where "x = Inr (Some realm)"
    using assms res by (auto simp: discover_once_def split: sum.splits option.splits)
  then show ?thesis
  proof cases
    case 1
    then show ?thesis using run assms res by (simp add: discover_once_def)
  next
    case 2
    then have "pool_steps C shuffle W (spawn_task (Disc DQuery) p) (spawn_task (Disc DQuery) p1)" using run by simp
    from rtranclp_trans [OF this r_into_rtranclp [where r = "pool_step C shuffle W", OF idle]] 2 show ?thesis by simp
  next
    case (3 realm)
    let ?d = "uint (env_now_ms E n1) + DISCOVERY_CALL_DEADLINE"
    obtain y p2 n2 where call: "pool_call shuffle C E (n1 + 1) LIST_STATIONS_PROCEDURE realm (Map []) ?d p1 = (y, p2, n2)"
      by (cases "pool_call shuffle C E (n1 + 1) LIST_STATIONS_PROCEDURE realm (Map []) ?d p1")
    from run 3 pool_call_run [OF pool_call_frame [OF call, of "Disc DQuery"]]
    have asked: "pool_steps C shuffle W (spawn_task (Disc DQuery) p) (spawn_task (Disc DQuery) p2)" by (auto intro: rtranclp_trans)
    have out: "(r, q) = (case y of Inl Panic \<Rightarrow> (Inl Panic, p2) | Inl (Err _) \<Rightarrow> (Inr (), p2)
        | Inr response \<Rightarrow> (case station_rows response of None \<Rightarrow> (Inr (), p2) | Some rows \<Rightarrow> (Inr (), add_discovered_links rows p2)))"
      using assms res 3 call by (auto simp: discover_once_def Let_def split: sum.splits fail.splits option.splits)
    consider "y = Inl Panic" | "r = Inr ()" "q = p2"
      | response rows where "station_rows response = Some rows" "r = Inr ()" "q = add_discovered_links rows p2"
      using out by (auto split: sum.splits fail.splits option.splits)
    then show ?thesis
    proof cases
      case 1
      have "select_connected_links shuffle p1 \<noteq> []" using call 1 by (auto simp: pool_call_def Let_def split: if_splits)
      then have "call_candidates C E LIST_STATIONS_PROCEDURE realm (Map []) ?d (select_connected_links shuffle p1) None (p1, n1 + 1) = (Inl Panic, p2, n2)"
        using call 1 by (simp add: pool_call_def Let_def)
      from call_candidates_panic [OF this] obtain m s s' m' where
        "session_call C E m s LIST_STATIONS_PROCEDURE realm (Map []) ?d (pl_identity p2) = (Inl Panic, s', m')" by auto
      then have "disc_step C (spawn_task (Disc DQuery) p2) (with_tasks (spawn_task (Disc DQuery) p2) (pl_tasks p2))"
        by (intro disc_call_died) simp_all
      then have "pool_step C shuffle W (spawn_task (Disc DQuery) p2) p2" by (simp add: pool_disc)
      then show ?thesis using rtranclp.rtrancl_into_rtrancl [OF asked] out 1 by simp
    next
      case 2
      then show ?thesis using rtranclp.rtrancl_into_rtrancl [OF asked idle] by simp
    next
      case (3 response rows)
      have "disc_step C (spawn_task (Disc DQuery) p2) (spawn_task (Disc (DRows rows)) p2)"
        using disc_found [of "spawn_task (Disc DQuery) p2" "pl_tasks p2" response rows C] 3(1) by simp
      from rtranclp_trans [OF asked pool_then [OF pool_disc [OF this] add_discovered_links_run]] 3 show ?thesis by simp
    qed
  qed
qed

end
