(* ===== verification/PoolCalls.thy ===== *)
theory PoolCalls
  imports PoolRuns
begin

section \<open>PoolCalls: what a call through the pool does, link by link\<close>

text \<open>
  The calls that fail one after another, each on the session its link had when the call through the
  pool began, and the pool they leave behind: exactly the failed links lose their session and are
  being redialed, exactly one life cycle is spawned for each of them that had none, and the link
  that answered keeps its session as the call left it.
\<close>

fun failed_calls ::
  "crypto \<Rightarrow> env \<Rightarrow> string \<Rightarrow> bytes \<Rightarrow> Value \<Rightarrow> int \<Rightarrow> Pool \<Rightarrow> nat list \<Rightarrow> nat \<Rightarrow> ((nat \<times> CallError) list \<times> nat) option" where
  "failed_calls C E procedure realm payload deadline_ms p [] n = Some ([], n)"
| "failed_calls C E procedure realm payload deadline_ms p (i # cs) n =
    (case ln_session (pl_store p ! i) of
       None \<Rightarrow> failed_calls C E procedure realm payload deadline_ms p cs n
     | Some s \<Rightarrow>
         (case session_call C E n s procedure realm payload deadline_ms (pl_identity p) of
            (Inl (Err e), _, n') \<Rightarrow>
              map_option (apfst ((#) (i, e))) (failed_calls C E procedure realm payload deadline_ms p cs n')
          | _ \<Rightarrow> None))"

definition left_behind :: "Pool \<Rightarrow> nat list \<Rightarrow> (nat \<times> Session) option \<Rightarrow> Pool" where
  "left_behind p failed used = p\<lparr>
     pl_store := map (\<lambda>j. let l = pl_store p ! j in
       if j \<in> set failed then l\<lparr>ln_session := None, ln_connected := False, ln_redialing := True\<rparr>
       else (case used of Some (i, s) \<Rightarrow> if j = i then l\<lparr>ln_session := Some s\<rparr> else l | None \<Rightarrow> l)) [0..<length (pl_store p)],
     pl_tasks := pl_tasks p + mset (map (\<lambda>j. Life j LSpawned) (filter (\<lambda>j. \<not> ln_redialing (pl_store p ! j)) failed))\<rparr>"

lemma failed_calls_cong:
  assumes "\<And>i. i \<in> set cs \<Longrightarrow> ln_session (pl_store p' ! i) = ln_session (pl_store p ! i)" "pl_identity p' = pl_identity p"
  shows "failed_calls C E procedure realm payload deadline_ms p' cs n = failed_calls C E procedure realm payload deadline_ms p cs n"
  using assms(1)
proof (induction cs arbitrary: n)
  case (Cons i cs)
  have "ln_session (pl_store p' ! i) = ln_session (pl_store p ! i)" by (rule Cons.prems) simp
  moreover have "failed_calls C E procedure realm payload deadline_ms p' cs m = failed_calls C E procedure realm payload deadline_ms p cs m" for m
    by (rule Cons.IH) (rule Cons.prems, simp)
  ultimately show ?case using assms(2) by (simp split: option.split prod.split sum.split fail.split)
qed simp

lemma failed_calls_links:
  "failed_calls C E procedure realm payload deadline_ms p cs n = Some (errs, m) \<Longrightarrow> fst ` set errs \<subseteq> set cs"
proof (induction cs arbitrary: n errs)
  case (Cons i cs)
  then show ?case by (fastforce split: option.splits prod.splits sum.splits fail.splits)
qed simp

lemma mark_disconnected_failed:
  assumes "i < length (pl_store p)"
  shows "mark_disconnected i (install i s p) = left_behind p [i] None"
proof (rule Pool.equality)
  show "pl_store (mark_disconnected i (install i s p)) = pl_store (left_behind p [i] None)"
    using assms by (intro nth_equalityI)
      (auto simp: left_behind_def mark_disconnected_def claim_and_spawn_def try_claim_redial_def spawn_lifecycle_def drop_session_def)
  show "pl_tasks (mark_disconnected i (install i s p)) = pl_tasks (left_behind p [i] None)"
    using assms by (simp add: left_behind_def mark_disconnected_def claim_and_spawn_def try_claim_redial_def spawn_lifecycle_def drop_session_def)
qed (simp_all add: left_behind_def mark_disconnected_def)

lemma left_behind_simps [simp]:
  "pl_links (left_behind p failed used) = pl_links p" "pl_identity (left_behind p failed used) = pl_identity p"
  "length (pl_store (left_behind p failed used)) = length (pl_store p)"
  "left_behind p [] None = p"
  by (simp_all add: left_behind_def map_nth)

lemma left_behind_nth:
  "j < length (pl_store p) \<Longrightarrow> pl_store (left_behind p [i] None) ! j =
    (if j = i then (pl_store p ! j)\<lparr>ln_session := None, ln_connected := False, ln_redialing := True\<rparr> else pl_store p ! j)"
  by (simp add: left_behind_def)

lemma left_behind_answered: "i < length (pl_store p) \<Longrightarrow> install i s p = left_behind p [] (Some (i, s))"
  by (rule Pool.equality) (auto simp: left_behind_def intro: nth_equalityI)

lemma left_behind_twice:
  assumes "i \<notin> set failed" "\<forall>j \<in> set failed. j < length (pl_store p)" "\<forall>k s. used = Some (k, s) \<longrightarrow> k \<noteq> i" "i < length (pl_store p)"
  shows "left_behind (left_behind p [i] None) failed used = left_behind p (i # failed) used"
proof (rule Pool.equality)
  show "pl_store (left_behind (left_behind p [i] None) failed used) = pl_store (left_behind p (i # failed) used)"
    by (rule nth_equalityI) (use assms(1,3,4) in \<open>auto simp: left_behind_def Let_def split: option.splits\<close>)
  have "filter (\<lambda>j. \<not> ln_redialing (pl_store (left_behind p [i] None) ! j)) failed = filter (\<lambda>j. \<not> ln_redialing (pl_store p ! j)) failed"
    by (rule filter_cong) (use assms(1,2) in \<open>auto simp: left_behind_nth\<close>)
  then have "pl_tasks (left_behind (left_behind p [i] None) failed used) = pl_tasks (left_behind p [i] None) +
      mset (map (\<lambda>j. Life j LSpawned) (filter (\<lambda>j. \<not> ln_redialing (pl_store p ! j)) failed))"
    by (subst left_behind_def) simp
  then show "pl_tasks (left_behind (left_behind p [i] None) failed used) = pl_tasks (left_behind p (i # failed) used)"
    by (simp add: left_behind_def)
qed (simp_all add: left_behind_def)

text \<open>The candidates in turn: a prefix of them fails, and the next one, if there is one, decides.\<close>

lemma call_candidates_outcome:
  assumes "call_candidates C E procedure realm payload deadline_ms cs last_err (p, n) = (r, q, n')"
    "distinct cs" "\<forall>i \<in> set cs. i < length (pl_store p)"
  shows "\<exists>pre post errs m. cs = pre @ post \<and> failed_calls C E procedure realm payload deadline_ms p pre n = Some (errs, m) \<and>
    (case r of
       Inl (Err e) \<Rightarrow> post = [] \<and> n' = m \<and> q = left_behind p (map fst errs) None \<and>
         e = (if errs = [] then (case last_err of Some c \<Rightarrow> CallAllFailed c | None \<Rightarrow> CallNoHealthyStation)
              else CallAllFailed (snd (last errs)))
     | Inl Panic \<Rightarrow> \<exists>i rest s s'. post = i # rest \<and> ln_session (pl_store p ! i) = Some s \<and>
         session_call C E m s procedure realm payload deadline_ms (pl_identity p) = (Inl Panic, s', n') \<and>
         q = left_behind p (map fst errs) (Some (i, s'))
     | Inr response \<Rightarrow> \<exists>i rest s s'. post = i # rest \<and> ln_session (pl_store p ! i) = Some s \<and>
         session_call C E m s procedure realm payload deadline_ms (pl_identity p) = (Inr response, s', n') \<and>
         q = left_behind p (map fst errs) (Some (i, s')))"
  (is "\<exists>pre post errs m. ?concl cs last_err p n pre post errs m")
  using assms
proof (induction cs arbitrary: last_err p n)
  case Nil
  then show ?case by (intro exI [of _ "[]"] exI [of _ n]) auto
next
  case (Cons i cs)
  have i: "i \<notin> set cs" "i < length (pl_store p)" using Cons.prems by simp_all
  show ?case
  proof (cases "ln_session (pl_store p ! i)")
    case None
    then obtain pre post errs m where "?concl cs last_err p n pre post errs m"
      using Cons.IH [of last_err p n] Cons.prems by auto
    then have "?concl (i # cs) last_err p n (i # pre) post errs m" using None by simp
    then show ?thesis by blast
  next
    case (Some s)
    obtain x s' k where x: "session_call C E n s procedure realm payload deadline_ms (pl_identity p) = (x, s', k)"
      by (cases "session_call C E n s procedure realm payload deadline_ms (pl_identity p)")
    show ?thesis
    proof (cases "\<exists>e. x = Inl (Err e)")
      case False
      then have "?concl (i # cs) last_err p n [] (i # cs) [] n"
        using Cons.prems(1) Some x left_behind_answered [OF i(2), of s'] by (cases x) (auto simp: Let_def split: fail.splits)
      then show ?thesis by blast
    next
      case True
      then obtain e where e: "x = Inl (Err e)" by blast
      let ?p = "left_behind p [i] None"
      have "call_candidates C E procedure realm payload deadline_ms cs (Some e) (?p, k) = (r, q, n')"
        using Cons.prems(1) Some x e mark_disconnected_failed [OF i(2)] by simp
      then obtain pre post errs m where c: "?concl cs (Some e) ?p k pre post errs m"
        using Cons.IH [of "Some e" ?p k] Cons.prems by auto
      have keep: "pl_store ?p ! j = pl_store p ! j" if "j \<in> set cs" for j
        using that i(1) Cons.prems(3) by (auto simp: left_behind_nth)
      have cs: "set pre \<subseteq> set cs" "set post \<subseteq> set cs" using c by auto
      have "failed_calls C E procedure realm payload deadline_ms ?p pre k = failed_calls C E procedure realm payload deadline_ms p pre k"
        by (rule failed_calls_cong) (use keep cs in auto)
      then have f: "failed_calls C E procedure realm payload deadline_ms p pre k = Some (errs, m)" using c by simp
      then have all: "failed_calls C E procedure realm payload deadline_ms p (i # pre) n = Some ((i, e) # errs, m)" using Some x e by simp
      have b: "i \<notin> set (map fst errs)" "\<forall>j \<in> set (map fst errs). j < length (pl_store p)"
        using failed_calls_links [OF f] cs i(1) Cons.prems(3) by auto
      have twice: "left_behind ?p (map fst errs) used = left_behind p (map fst ((i, e) # errs)) used"
        if "\<forall>k s. used = Some (k, s) \<longrightarrow> k \<in> set cs" for used
        using left_behind_twice [OF b _ i(2), of used] that i(1) by auto
      have "?concl (i # cs) last_err p n (i # pre) post ((i, e) # errs) m"
      proof (cases r)
        case (Inr response)
        then show ?thesis using c all twice keep cs by auto
      next
        case (Inl z)
        then show ?thesis using c all twice keep cs by (cases z) auto
      qed
      then show ?thesis by blast
    qed
  qed
qed

end
