(* ===== verification/PoolDiscovery.thy ===== *)
theory PoolDiscovery
  imports PoolInv
begin

section \<open>PoolDiscovery: where discovered links come from\<close>

text \<open>
  A discovered link keeps its seed and its trust, and both come from one row of a list of stations
  that discovery went through. Then a run in which discovery adds a link for such a row.
\<close>

subsection \<open>What of a link never changes\<close>

definition idents :: "Pool \<Rightarrow> (Seed \<times> LinkOrigin \<times> Trust) set" where
  "idents p = (\<lambda>l. (ln_seed l, ln_origin l, ln_trust l)) ` set (pl_store p)"

definition adds :: "Pool \<Rightarrow> (Seed \<times> LinkOrigin \<times> Trust) set" where
  "adds p = {(seed, Discovered, trust) | seed trust rows. Disc (DAdd seed trust rows) \<in># pl_tasks p}"

lemma idents_set_link [intro]:
  assumes "\<And>l. (ln_seed (f l), ln_origin (f l), ln_trust (f l)) = (ln_seed l, ln_origin l, ln_trust l)"
  shows "idents (set_link i f p) = idents p"
proof -
  let ?k = "\<lambda>l. (ln_seed l, ln_origin l, ln_trust l)"
  have "map ?k (pl_store (set_link i f p)) = map ?k (pl_store p)"
  proof (rule nth_equalityI)
    fix j assume "j < length (map ?k (pl_store (set_link i f p)))"
    then show "map ?k (pl_store (set_link i f p)) ! j = map ?k (pl_store p) ! j" using assms by simp
  qed simp
  then show ?thesis unfolding idents_def set_map [symmetric] by simp
qed

lemma idents_simps [simp]:
  "idents (with_tasks p ts) = idents p" "idents (p\<lparr>pl_links := is\<rparr>) = idents p" "idents (p\<lparr>pl_stop := b\<rparr>) = idents p"
  "idents (spawn_task t p) = idents p" "idents (set_link i drop_session p) = idents p"
  "idents (set_link i (ln_session_update f) p) = idents p" "idents (set_link i (ln_connected_update g) p) = idents p"
  "idents (set_link i (ln_redialing_update g) p) = idents p" "idents (set_link i (ln_gave_up_update g) p) = idents p"
  "idents (set_link i (ln_consecutive_failures_update h) p) = idents p"
  "idents (set_link i (\<lambda>l. l\<lparr>ln_session := ses, ln_peer_node_id := peer\<rparr>) p) = idents p"
  by (simp_all add: idents_set_link drop_session_def) (simp_all add: idents_def spawn_task_def)

lemma idents_push:
  "push_link_if_absent seed trust p = (r, q) \<Longrightarrow> idents q \<subseteq> insert (seed, Discovered, trust) (idents p)"
  by (cases r) (auto simp: push_link_if_absent_cases idents_def PooledLink_new_def)

lemma idents_claim: "try_claim_redial i p = (r, q) \<Longrightarrow> idents q = idents p"
  by (cases r) (auto simp: try_claim_redial_cases)

lemma idents_add:
  assumes "pl_tasks p = add_mset (Disc (DAdd seed trust rows)) ts" "push_link_if_absent seed trust p = (r, p')"
  shows "idents (with_tasks p' M) \<subseteq> idents p \<union> adds p"
proof -
  have "(seed, Discovered, trust) \<in> adds p" using assms(1) by (auto simp: adds_def)
  then show ?thesis using idents_push [OF assms(2)] by auto
qed

lemma pool_step_idents:
  assumes "pool_step C shuffle W p q"
  shows "idents q \<subseteq> idents p \<union> adds p"
  using assms
proof (cases rule: pool_step.cases)
  case pool_life
  then show ?thesis by (cases rule: life_step.cases) simp_all
next
  case pool_caller
  then show ?thesis by (cases rule: caller_step.cases) (simp_all add: idents_claim)
next
  case pool_disc
  then show ?thesis
  proof (cases rule: disc_step.cases)
    case (disc_present seed trust rows ts p')
    then show ?thesis using idents_add by simp
  next
    case (disc_push seed trust rows ts i p')
    then show ?thesis using idents_add by simp
  qed (simp_all add: idents_claim)
next
  case pool_close
  then show ?thesis by (cases rule: close_step.cases) simp_all
next
  case pool_cancel
  then show ?thesis by (cases rule: cancel_step.cases) simp_all
qed

subsection \<open>The row behind a link\<close>

text \<open>
  How the row names what is dialed: host and port are the row's, and the trust is the pool's own,
  or under WebPki and for a bare address a pin to the row's node id.
\<close>

definition row_names :: "Trust \<Rightarrow> Value \<Rightarrow> Seed \<Rightarrow> Trust \<Rightarrow> bool" where
  "row_names pool_trust row seed trust \<longleftrightarrow>
     (\<exists>node. dial_target_from_station_row row = Some (seed_host seed, seed_port seed, node) \<and>
        (if pool_trust = WebPki \<and> is_ip_addr (seed_host seed) then \<exists>k. node = Some k \<and> trust = Pinned k else trust = pool_trust))"

lemma station_row_names: "station_row p row = Add seed trust \<Longrightarrow> row_names (pl_trust p) row seed trust"
  by (auto simp: station_row_def row_names_def discovered_trust_def split: if_splits option.splits prod.splits)

lemma pool_step_adds:
  assumes "pool_step C shuffle W p q" "Disc (DAdd seed trust rows) \<in># pl_tasks q"
  shows "Disc (DAdd seed trust rows) \<in># pl_tasks p \<or>
    (\<exists>row rows. Disc (DRows (row # rows)) \<in># pl_tasks p \<and> row_names (pl_trust p) row seed trust)"
  using assms(1)
proof (cases rule: pool_step.cases)
  case pool_life
  then show ?thesis using assms(2) by (cases rule: life_step.cases) auto
next
  case pool_caller
  then show ?thesis using assms(2) by (cases rule: caller_step.cases) (auto simp: try_claim_redial_cases spawn_task_def)
next
  case pool_disc
  then show ?thesis
  proof (cases rule: disc_step.cases)
    case (disc_row row rows ts seed trust)
    then show ?thesis using assms(2) station_row_names by (cases "Disc (DAdd seed trust rows) \<in># ts") auto
  qed (use assms(2) in \<open>auto simp: try_claim_redial_cases push_link_if_absent_cases\<close>)
next
  case pool_close
  then show ?thesis using assms(2) by (cases rule: close_step.cases) (auto simp: spawn_task_def)
next
  case pool_cancel
  then show ?thesis using assms(2) by (cases rule: cancel_step.cases) auto
qed

definition went_through ::
  "crypto \<Rightarrow> (nat list \<Rightarrow> nat list) \<Rightarrow> watch \<Rightarrow> Trust \<Rightarrow> Pool \<Rightarrow> Pool \<Rightarrow> Seed \<Rightarrow> Trust \<Rightarrow> bool" where
  "went_through C shuffle W pool_trust start p seed trust \<longleftrightarrow>
     (\<exists>p' row rows. pool_steps C shuffle W start p' \<and> pool_steps C shuffle W p' p \<and>
        Disc (DRows (row # rows)) \<in># pl_tasks p' \<and> row_names pool_trust row seed trust)"

lemma went_through_step:
  "went_through C shuffle W pool_trust start p seed trust \<Longrightarrow> pool_step C shuffle W p q \<Longrightarrow>
    went_through C shuffle W pool_trust start q seed trust"
  unfolding went_through_def by (blast intro: rtranclp.rtrancl_into_rtrancl)

lemma reachable_rows:
  assumes "shuffle_ok shuffle" "pool_connect seeds trust kp options = (Inr start :: (Pool, 'e fail) result)" "pool_steps C shuffle W start p"
  shows "\<forall>x \<in> idents p \<union> adds p. \<forall>s t. x = (s, Discovered, t) \<longrightarrow> went_through C shuffle W trust start p s t"
  using assms(3)
proof (induction rule: rtranclp_induct)
  case base
  have keep: "idents (fold claim_and_spawn js r) = idents r \<and> adds (fold claim_and_spawn js r) = adds r" for js r
  proof (induction js arbitrary: r)
    case (Cons j js)
    have "idents (claim_and_spawn j r) = idents r" "adds (claim_and_spawn j r) = adds r"
      by (simp_all add: claim_and_spawn_def try_claim_redial_def spawn_lifecycle_def adds_def) (simp_all add: spawn_task_def)
    with Cons show ?case by simp
  qed simp
  let ?p = "\<lparr>pl_identity = kp, pl_trust = trust, pl_options = options, pl_store = map (\<lambda>seed. PooledLink_new seed Bootstrap trust) seeds,
      pl_links = [0..<length seeds], pl_stop = False, pl_tasks = {#}\<rparr>"
  let ?q = "fold claim_and_spawn [0..<length seeds] ?p"
  have start: "start = (if sd_enabled (po_station_discovery options) then spawn_task (Disc DSpawned) ?q else ?q)"
    using assms(2) by (simp add: pool_connect_def Let_def split: if_splits)
  have "adds (spawn_task (Disc DSpawned) ?q) = adds ?q" by (simp add: adds_def spawn_task_def)
  then have "idents start = idents ?p" "adds start = adds ?p" using keep [of "[0..<length seeds]" ?p] by (simp_all add: start)
  moreover have "idents ?p = (\<lambda>seed. (seed, Bootstrap, trust)) ` set seeds" "adds ?p = {}"
    by (simp_all add: idents_def adds_def image_image PooledLink_new_def)
  ultimately show ?case by auto
next
  case (step p q)
  have trust: "pl_trust p = trust" using reachable_discovery [OF assms(1,2) step.hyps(1)] by blast
  show ?case
  proof (intro ballI allI impI)
    fix x s t
    assume x: "x \<in> idents q \<union> adds q" "x = (s, Discovered, t)"
    show "went_through C shuffle W trust start q s t"
    proof (cases "x \<in> idents p \<union> adds p")
      case True
      then show ?thesis using step.IH x(2) went_through_step [OF _ step.hyps(2)] by blast
    next
      case False
      then have "x \<in> adds q" using x(1) pool_step_idents [OF step.hyps(2)] by blast
      then obtain rows where "Disc (DAdd s t rows) \<in># pl_tasks q" using x(2) by (auto simp: adds_def)
      moreover have "Disc (DAdd s t rows) \<notin># pl_tasks p" for rows using False x(2) by (auto simp: adds_def)
      ultimately obtain row rows where "Disc (DRows (row # rows)) \<in># pl_tasks p" "row_names trust row s t"
        using pool_step_adds [OF step.hyps(2)] trust by blast
      then show ?thesis using step.hyps unfolding went_through_def by (meson r_into_rtranclp)
    qed
  qed
qed

lemma discovered_link_row:
  assumes "shuffle_ok shuffle" "pool_connect seeds trust kp options = (Inr start :: (Pool, 'e fail) result)" "pool_steps C shuffle W start p"
    "l \<in> set (pl_store p)" "ln_origin l = Discovered"
  shows "went_through C shuffle W trust start p (ln_seed l) (ln_trust l)"
proof -
  have "(ln_seed l, Discovered, ln_trust l) \<in> idents p" using assms(4,5) by (force simp: idents_def)
  then show ?thesis using reachable_rows [OF assms(1-3)] by blast
qed

subsection \<open>A run that discovers a station\<close>

lemma connect_one_link_discovering:
  assumes "sd_enabled (po_station_discovery options)"
  shows "(pool_connect [seed] trust kp options :: (Pool, 'e fail) result) =
    Inr (one_link kp trust options ((PooledLink_new seed Bootstrap trust)\<lparr>ln_redialing := True\<rparr>) [Life 0 LSpawned, Disc DSpawned])"
  using assms by (simp add: pool_connect_def one_link_def claim_and_spawn_def try_claim_redial_def spawn_lifecycle_def spawn_task_def
      set_link_def PooledLink_new_def add_mset_commute)

lemma discovery_run:
  assumes "sd_enabled (po_station_discovery options)" "connect C E n kp d = Inr s"
    "station_rows response = Some [row]" "dial_target_from_station_row row = Some (host, port, Some node)" "is_ip_addr host"
    "he_node_id (station s) \<noteq> node" "\<lparr>seed_host = host, seed_port = port\<rparr> \<noteq> seed" "0 < sd_max_links (po_station_discovery options)"
  obtains start p where "pool_connect [seed] WebPki kp options = (Inr start :: (Pool, 'e fail) result)"
    "pool_steps C shuffle W start p" "pl_links p = [0, 1]"
    "pl_store p ! 1 = PooledLink_new \<lparr>seed_host = host, seed_port = port\<rparr> Discovered (Pinned node)" "length (pl_store p) = 2"
proof -
  let ?P = "one_link kp WebPki options"
  let ?new = "(PooledLink_new seed Bootstrap WebPki)\<lparr>ln_redialing := True\<rparr>"
  let ?l = "?new\<lparr>ln_session := Some s, ln_peer_node_id := Some (he_node_id (station s)), ln_connected := True\<rparr>"
  let ?Q = "\<lambda>pc. ?P ?l [Disc pc, Life 0 LReset]" and ?ts = "{#Life 0 LReset#}"
  let ?seed = "\<lparr>seed_host = host, seed_port = port\<rparr>"
  have "?P ?l [Life 0 LReset, Disc DSpawned] = ?Q DSpawned" by (simp add: one_link_def add_mset_commute)
  then have up: "pool_steps C shuffle W (?P ?new [Life 0 LSpawned, Disc DSpawned]) (?Q DSpawned)"
    using open_steps_pool [OF one_link_dials [OF assms(2), of shuffle WebPki options ?new "[Disc DSpawned]"]] by simp
  have 1: "pool_step C shuffle W (?Q DSpawned) (?Q DWait)"
    using disc_start [of "?Q DSpawned" ?ts C] by (simp add: pool_disc one_link_def)
  have 2: "pool_step C shuffle W (?Q DWait) (?Q DTop)"
    using disc_healthy [of "?Q DWait" ?ts C] by (simp add: pool_disc is_healthy_def pool_status_def is_connected_def)
  have 3: "pool_step C shuffle W (?Q DTop) (?Q DQuery)"
    using disc_enter [of "?Q DTop" ?ts C] by (simp add: pool_disc)
  have 4: "pool_step C shuffle W (?Q DQuery) (?Q (DRows [row]))"
    using disc_found [of "?Q DQuery" ?ts response "[row]" C] assms(3) by (simp add: pool_disc)
  have "station_row (?Q (DRows [row])) row = Add ?seed (Pinned node)"
    using assms(4-6,8) by (simp add: station_row_def count_occupied_discovery_slots_def discovered_trust_def one_link_def
        has_link_for_node_id_def PooledLink_new_def)
  then have 5: "pool_step C shuffle W (?Q (DRows [row])) (?Q (DAdd ?seed (Pinned node) []))"
    using disc_row [of "?Q (DRows [row])" row "[]" ?ts ?seed "Pinned node" C] by (simp add: pool_disc)
  let ?q = "(?Q (DAdd ?seed (Pinned node) []))\<lparr>pl_store := [?l, PooledLink_new ?seed Discovered (Pinned node)], pl_links := [0, 1]\<rparr>"
  have "push_link_if_absent ?seed (Pinned node) (?Q (DAdd ?seed (Pinned node) [])) = (Some 1, ?q)"
    using assms(7) by (auto simp: push_link_if_absent_cases one_link_def PooledLink_new_def)
  then have 6: "pool_step C shuffle W (?Q (DAdd ?seed (Pinned node) [])) (with_tasks ?q (add_mset (Disc (DClaim 1 [])) ?ts))"
    by (intro pool_disc disc_push) simp_all
  have "pool_steps C shuffle W (?Q DSpawned) (with_tasks ?q (add_mset (Disc (DClaim 1 [])) ?ts))"
    by (rule pool_then [OF 1], rule pool_then [OF 2], rule pool_then [OF 3], rule pool_then [OF 4], rule pool_then [OF 5],
        rule pool_then [OF 6], simp)
  with up have "pool_steps C shuffle W (?P ?new [Life 0 LSpawned, Disc DSpawned]) (with_tasks ?q (add_mset (Disc (DClaim 1 [])) ?ts))"
    by (rule rtranclp_trans)
  then show ?thesis by (rule that [OF connect_one_link_discovering [OF assms(1)]]) simp_all
qed

end
