(* ===== verification/DhtProps.thy ===== *)
theory DhtProps
  imports Dht ContentProps
begin

section \<open>DhtProps: what a signed record promises\<close>

text \<open>
  A signed record survives the \<open>_dht\<close> procedures with its fields and its signature, verification of
  a received record returns one of its three verdicts and reports nothing but a wrong signature
  for a forged record, and the strings that name and sign records do not collide.
\<close>

subsection \<open>The signed bytes\<close>

definition unsigned_fields :: "Record \<Rightarrow> (Value \<times> Value) list" where
  "unsigned_fields r =
    [(Text ''t'', IntV (uint (rc_record_type r))), (Text ''k'', Bytes (rc_key r)), (Text ''v'', Bytes (rc_version r)),
     (Text ''c'', IntV (rc_created_at r)), (Text ''x'', IntV (rc_expires_at r)), (Text ''p'', rc_payload r)]"

definition wf_record :: "Record \<Rightarrow> bool" where
  "wf_record r \<longleftrightarrow> in_range (rc_created_at r) \<and> in_range (rc_expires_at r) \<and> wfv (rc_payload r) \<and>
     length (rc_key r) = 32 \<and> length (rc_version r) = 16"

lemma uint_u8_bounds [simp]: "- 18446744073709551616 \<le> uint (w :: u8)" "uint (w :: u8) < 18446744073709551616"
proof -
  have "0 \<le> uint w" "uint w < 2 ^ 8" using unsigned_greater_eq [of w] uint_lt2p [of w] by simp_all
  then show "- 18446744073709551616 \<le> uint w" "uint w < 18446744073709551616" by (linarith, simp)
qed

lemma frame_ok_unsigned: "wf_record r \<Longrightarrow> frame_ok (Map (unsigned_fields r))"
  by (simp add: wf_record_def unsigned_fields_def frame_ok_Map field_key_def ascii_valid_str ascii_def in_range_def)

lemma canonical_unsigned_ok:
  "wf_record r \<Longrightarrow> canonical_unsigned r = (Inr (enc (Map (unsigned_fields r))) :: (bytes, 'e fail) result)"
  using encode_eq_enc [OF frame_ok_wfv [OF frame_ok_unsigned]]
  by (simp add: canonical_unsigned_def unsigned_fields_def)

text \<open>The record as the peer has it once it has crossed the wire: map entries of the payload sorted.\<close>

definition record_normal :: "Record \<Rightarrow> Record" where
  "record_normal r = r\<lparr>rc_payload := normal (rc_payload r)\<rparr>"

lemma wf_record_normal: "wf_record r \<Longrightarrow> wf_record (record_normal r)"
  using normal_wfv_enc by (simp add: wf_record_def record_normal_def)

lemma enc_record_normal:
  assumes "wf_record r"
  shows "enc (Map (unsigned_fields (record_normal r))) = enc (Map (unsigned_fields r))"
proof -
  have "enc (normal (rc_payload r)) = enc (rc_payload r)"
    using assms normal_wfv_enc by (simp add: wf_record_def)
  then have "map enc_pair (unsigned_fields (record_normal r)) = map enc_pair (unsigned_fields r)"
    by (simp add: unsigned_fields_def record_normal_def enc_pair_def)
  then show ?thesis
    using enc_Map [OF frame_ok_wfv [OF frame_ok_unsigned]] assms wf_record_normal by metis
qed

text \<open>What a record's signature covers, and the three verdicts of \<open>verify\<close>.\<close>

definition record_authentic :: "crypto \<Rightarrow> Record \<Rightarrow> bool" where
  "record_authentic C r \<longleftrightarrow> length (rc_signature r) = 64 \<and>
     verify_bytes C (RECORD_SIG_DOMAIN @ enc (Map (unsigned_fields r))) (rc_signature r) (rc_key r)"

lemma verify_record_verdict:
  assumes "wf_record r"
  shows "verify_record C now r =
    (if \<not> record_authentic C r then Inl (Err InvalidRecordSignature)
     else if 0 < rc_expires_at r \<and> rc_expires_at r \<le> now then Inl (Err RecordExpired) else Inr ())"
  by (simp add: verify_record_def canonical_unsigned_ok [OF assms] record_authentic_def to_array_def)

lemma record_authentic_normal: "wf_record r \<Longrightarrow> record_authentic C (record_normal r) = record_authentic C r"
  by (simp add: record_authentic_def enc_record_normal) (simp add: record_normal_def)

lemma sign_record_ok:
  assumes "crypto_ok C" "wf_keypair kp" "wf_record r" "rc_key r = node_id C kp"
  obtains s where "sign_record C r kp = (Inr s :: (Record, 'e fail) result)" "wf_record s" "record_authentic C s"
    "s = r\<lparr>rc_signature := rc_signature s\<rparr>"
proof -
  let ?msg = "RECORD_SIG_DOMAIN @ enc (Map (unsigned_fields r))"
  let ?s = "r\<lparr>rc_signature := sign_bytes C kp ?msg\<rparr>"
  have u: "unsigned_fields ?s = unsigned_fields r" by (simp add: unsigned_fields_def)
  have "record_authentic C ?s"
    using verify_sign_bytes [OF assms(1,2)] by (simp add: record_authentic_def u length_sign_bytes [OF assms(1,2)] assms(4) node_id_def)
  then show ?thesis using assms(3) that [of ?s] by (simp add: sign_record_def canonical_unsigned_ok wf_record_def)
qed

subsection \<open>The map a record travels as\<close>

lemma frame_ok_to_rpc_value:
  assumes "wf_record r"
  shows "frame_ok (to_rpc_value r)"
  using assms by (simp add: wf_record_def to_rpc_value_def frame_ok_Map field_key_def ascii_valid_str ascii_def in_range_def)

lemma record_rpc_roundtrip:
  assumes "wf_record r" "length (rc_signature r) = 64"
  shows "record_from_rpc_value (normal (to_rpc_value r)) = Inr (record_normal r)"
proof -
  note get = get_frame_normal [OF frame_ok_to_rpc_value [OF assms(1)]]
  have fields: "get (to_rpc_value r) ''type'' = Some (IntV (uint (rc_record_type r)))" "get (to_rpc_value r) ''key'' = Some (Bytes (rc_key r))"
    "get (to_rpc_value r) ''version'' = Some (Bytes (rc_version r))" "get (to_rpc_value r) ''created_at'' = Some (IntV (rc_created_at r))"
    "get (to_rpc_value r) ''expires_at'' = Some (IntV (rc_expires_at r))" "get (to_rpc_value r) ''payload'' = Some (rc_payload r)"
    "get (to_rpc_value r) ''signature'' = Some (Bytes (rc_signature r))"
    using assms(2) by (simp_all add: to_rpc_value_def get_def)
  have "uint (rc_record_type r) \<le> 255" "0 \<le> uint (rc_record_type r)"
    using uint_lt2p [of "rc_record_type r"] unsigned_greater_eq [of "rc_record_type r"] by simp_all
  then show ?thesis using assms
    by (simp add: record_from_rpc_value_def read_field_def get fields as_byte_def as_array_def as_int_def record_normal_def wf_record_def)
qed

lemma as_int_in_range: "as_int v = Some n \<Longrightarrow> wfv v \<Longrightarrow> in_range n"
  by (cases v) (simp_all add: as_int_def in_range_def)

lemma received_record_wf:
  assumes "record_from_rpc_value v = Inr r" "wfv v"
  shows "wf_record r"
  using assms(1) get_wfv [OF assms(2)]
  by (auto simp: record_from_rpc_value_def bindR_eq_Inr read_field_eq_Inr wf_record_def Let_def
      intro: as_int_in_range as_array_length)

subsection \<open>A session call that is answered\<close>

text \<open>The station's answer arrives between the two facts a session call announces.\<close>

lemma session_call_served:
  assumes "crypto_ok C" "wf_keypair kp" "env_ok E" "call_fits procedure realm payload deadline_ms []"
    "serves_at E ((n + 3, p) # ps) (control s)"
  obtains s' responder where "session_call C E n s procedure realm payload deadline_ms kp = (Inr (CallResult p responder), s', n + 6)"
    "serves_at E ps (control s')"
proof -
  have id: "length (env_id E n) = 16" and realm: "length realm = 32" using assms(3,4) by (simp_all add: env_ok_def call_fits_def)
  note fact = fact_payload_ok [OF id, where detail = None, simplified option.case, OF TrueI]
  have writes: "fs_writes (control s) = []" using assms(5) by (simp add: serves_at_def)
  have room: "esize (request_id_payload (env_id E n)) + length ''rpc.sent_v1'' + length realm + 32 \<le> wire_room"
    using fact(3) realm by (simp add: wire_room_def MAX_FRAME_BYTES_def)
  obtain w where "announce_fact C E (n + 1) s realm kp ''rpc.sent_v1'' (request_id_payload (env_id E n)) =
      ((Inr () :: (unit, CallError fail) result), wrote s w, n + 1 + 2)"
    by (rule announce_fact_ok [OF assms(1-3) writes fact(1,2) room])
  then have w: "announce_fact C E (n + 1) s realm kp ''rpc.sent_v1'' (request_id_payload (env_id E n)) =
      ((Inr () :: (unit, CallError fail) result), wrote s w, n + 3)"
    by (simp add: numeral_3_eq_3)
  have served: "serves_at E ((n + 3, p) # ps) (control (wrote s w))"
    using assms(5) by (simp add: serves_at_def quiet_def incoming_def)
  obtain st responder where st: "fs_call C E (n + 3) (control (wrote s w)) procedure realm payload deadline_ms kp =
      (Inr (CallResult p responder), st, n + 3 + 1)" "serves_at E ps st"
    by (rule fs_call_served [OF assms(1-4) served])
  let ?s = "(wrote s w)\<lparr>control := st\<rparr>" and ?done = "with_field (request_id_payload (env_id E n)) ''outcome'' (Text ''completed'')"
  have "frame_ok ?done" "vdepth ?done < 128" "esize ?done + length ''rpc.completed_v1'' + length realm + 32 \<le> wire_room"
    using id realm by (simp_all add: request_id_payload_def frame_ok_Map ascii_def ascii_valid_str wire_room_def MAX_FRAME_BYTES_def)
  moreover have "fs_writes (control ?s) = []" using st(2) by (simp add: serves_at_def)
  ultimately obtain u where u: "announce_fact C E (n + 4) ?s realm kp ''rpc.completed_v1'' ?done =
      ((Inr () :: (unit, CallError fail) result), wrote ?s u, n + 4 + 2)"
    using announce_fact_ok [OF assms(1-3)] frame_ok_wfv by metis
  have "serves_at E ps (control (wrote ?s u))" using st(2) by (simp add: wrote_def)
  moreover have "session_call C E n s procedure realm payload deadline_ms kp = (Inr (CallResult p responder), wrote ?s u, n + 6)"
    using w st(1) u
    by (simp add: session_call_def session_call_with_ucan_def announce_rpc_sent_def announce_rpc_completed_def completed_payload_def
        fs_call_def add.commute Let_def)
  ultimately show ?thesis using that by blast
qed

definition dht_times_ok :: "env \<Rightarrow> nat \<Rightarrow> bool" where
  "dht_times_ok E n \<longleftrightarrow> uint (env_now_ms E n) + DHT_TIMEOUT < 2 ^ 64"

lemma dht_call_served:
  assumes "crypto_ok C" "wf_keypair kp" "env_ok E" "dht_times_ok E n" "ascii procedure"
    "length procedure \<le> 64" "frame_ok payload" "vdepth payload < 128" "esize payload \<le> wire_room - 1024"
    "serves_at E ((n + 4, p) # ps) (control s)"
  obtains s' responder where "dht_call C E n s kp procedure payload = (Inr (CallResult p responder), s', n + 7)"
    "serves_at E ps (control s')"
proof -
  have "0 \<le> uint (env_now_ms E n)" by (rule unsigned_greater_eq)
  then have fits: "call_fits procedure DHT_REALM payload (uint (env_now_ms E n) + DHT_TIMEOUT) []"
    using assms(4-9) frame_ok_wfv
    by (simp add: call_fits_def DHT_REALM_def ascii_valid_str in_range_def wire_room_def MAX_FRAME_BYTES_def DHT_TIMEOUT_def dht_times_ok_def)
  have "serves_at E ((n + 1 + 3, p) # ps) (control s)" using assms(10) by (simp add: add.commute)
  then obtain s' responder where "session_call C E (n + 1) s procedure DHT_REALM payload (uint (env_now_ms E n) + DHT_TIMEOUT) kp =
      (Inr (CallResult p responder), s', n + 1 + 6)" "serves_at E ps (control s')"
    by (rule session_call_served [OF assms(1-3) fits])
  then show ?thesis using that by (simp add: dht_call_def)
qed

lemma dht_key_args:
  assumes "length key = 32"
  shows "frame_ok (Map [(Text ''key'', Bytes key)])" "vdepth (Map [(Text ''key'', Bytes key)]) < 128"
    "esize (Map [(Text ''key'', Bytes key)]) \<le> wire_room - 1024"
  using assms by (simp_all add: frame_ok_Map ascii_def wire_room_def MAX_FRAME_BYTES_def)

lemma find_record_served:
  assumes "crypto_ok C" "wf_keypair kp" "env_ok E" "dht_times_ok E n" "length key = 32"
    "serves_at E ((n + 4, p) # ps) (control s)"
  obtains s' responder where "find_record C E n s kp key = (record_from_response (CallResult p responder), s', n + 7)" "serves_at E ps (control s')"
proof -
  have name: "ascii ''_dht.find_record''" "length ''_dht.find_record'' \<le> 64" by (simp_all add: ascii_def)
  obtain s' responder where "dht_call C E n s kp ''_dht.find_record'' (Map [(Text ''key'', Bytes key)]) =
      (Inr (CallResult p responder), s', n + 7)" "serves_at E ps (control s')"
    by (rule dht_call_served [OF assms(1-4) name dht_key_args [OF assms(5)] assms(6)])
  then show ?thesis using that by (simp add: find_record_def)
qed

lemma find_records_served:
  assumes "crypto_ok C" "wf_keypair kp" "env_ok E" "dht_times_ok E n" "length key = 32"
    "serves_at E ((n + 4, p) # ps) (control s)"
  obtains s' responder where "find_records C E n s kp key = (records_list_from_response (CallResult p responder), s', n + 7)"
    "serves_at E ps (control s')"
proof -
  have name: "ascii ''_dht.find_records''" "length ''_dht.find_records'' \<le> 64" by (simp_all add: ascii_def)
  obtain s' responder where "dht_call C E n s kp ''_dht.find_records'' (Map [(Text ''key'', Bytes key)]) =
      (Inr (CallResult p responder), s', n + 7)" "serves_at E ps (control s')"
    by (rule dht_call_served [OF assms(1-4) name dht_key_args [OF assms(5)] assms(6)])
  then show ?thesis using that by (simp add: find_records_def)
qed

lemma record_of_answer:
  assumes "wf_record r" "length (rc_signature r) = 64"
  shows "record_from_response (CallResult (normal (to_rpc_value r)) responder) = Inr (record_normal r)"
    "records_list_from_response (CallResult (normal (List [to_rpc_value r])) responder) = Inr [record_normal r]"
  using record_rpc_roundtrip [OF assms]
  by (simp_all add: record_from_response_def records_list_from_response_def List.map_filter_simps okR_def)
    (simp add: to_rpc_value_def)

lemma find_record_answered:
  assumes "crypto_ok C" "wf_keypair kp" "env_ok E" "uint (env_now_ms E n) + DHT_TIMEOUT < 2 ^ 64" "length key = 32"
    "serves E (n + 4) (normal (to_rpc_value r) # ps) (control s)" "wf_record r" "length (rc_signature r) = 64"
  obtains s' n' where "find_record C E n s kp key = (Inr (record_normal r), s', n')"
proof (rule find_record_served [OF assms(1-3) _ assms(5) assms(6) [unfolded serves_Cons]])
  show "dht_times_ok E n" using assms(4) by (simp add: dht_times_ok_def)
qed (use that record_of_answer(1) [OF assms(7,8)] in simp)

subsection \<open>Advertisements, names and signed strings\<close>

definition advertised_ttl :: "nat \<Rightarrow> nat" where
  "advertised_ttl ttl = (if ttl = 0 then DEFAULT_TTL else ttl)"

lemma wf_advertisement:
  assumes "length advertiser = 32" "length uuid = 16" "valid_str uri" "in_range created" "in_range (created + int (advertised_ttl ttl))"
  shows "wf_record (new_procedure_advertisement created uuid advertiser uri server ttl)"
proof -
  have "wfv (Map [(Text ''procedure_uri'', Text uri), (Text ''advertiser_node'', Bytes advertiser), (Text ''serving_station'', Bytes server)])"
    using assms(3) by (intro frame_ok_wfv) (simp add: frame_ok_Map ascii_def)
  then show ?thesis using assms
    by (simp add: wf_record_def new_procedure_advertisement_def new_envelope_def advertised_ttl_def Let_def)
qed

lemma read_advertisement_normal:
  assumes "rc_payload r = rc_payload (new_procedure_advertisement created uuid advertiser uri server ttl)"
    "rc_record_type r = TYPE_PROCEDURE_ADVERTISEMENT" "length advertiser = 32" "length server = 32" "valid_str uri"
  shows "read_procedure_advertisement (record_normal r) =
    Inr \<lparr>pa_procedure_uri = uri, pa_advertiser_node = advertiser, pa_serving_station = server, pa_cert_chain = None\<rparr>"
proof -
  let ?v = "Map [(Text ''procedure_uri'', Text uri), (Text ''advertiser_node'', Bytes advertiser), (Text ''serving_station'', Bytes server)]"
  have "frame_ok ?v" using assms(5) by (simp add: frame_ok_Map ascii_def)
  note get = get_frame_normal [OF this]
  have p: "rc_payload (record_normal r) = normal ?v"
    using assms(1) by (simp add: record_normal_def new_procedure_advertisement_def new_envelope_def Let_def)
  have "rc_record_type (record_normal r) = TYPE_PROCEDURE_ADVERTISEMENT" using assms(2) by (simp add: record_normal_def)
  then show ?thesis using assms(3,4)
    by (simp add: read_procedure_advertisement_def record_field_def read_field_def p get del: normal.simps)
      (simp add: get_def as_text_def as_array_def)
qed

lemma hex_digit_inj: "m < 16 \<Longrightarrow> n < 16 \<Longrightarrow> hex_digit m = hex_digit n \<Longrightarrow> m = n"
  unfolding hex_digit_def by (rule nth_eq_iff_index_eq [THEN iffD1, of "''0123456789ABCDEF''"]) simp_all

lemma hex_byte_inj: "hex_byte a = hex_byte b \<Longrightarrow> a = b"
proof -
  assume "hex_byte a = hex_byte b"
  then have "hex_digit (unat a div 16) = hex_digit (unat b div 16)" "hex_digit (unat a mod 16) = hex_digit (unat b mod 16)"
    by (simp_all add: hex_byte_def)
  then have "unat a div 16 = unat b div 16" "unat a mod 16 = unat b mod 16"
    using hex_digit_inj unat_u8_less [of a] unat_u8_less [of b] by (simp_all add: less_mult_imp_div_less)
  then show "a = b" by (metis div_mult_mod_eq word_unat_eq_iff)
qed

lemma hex_bytes_inj: "length r = length r' \<Longrightarrow> concat (map hex_byte r) @ p = concat (map hex_byte r') @ p' \<Longrightarrow> r = r' \<and> p = p'"
proof (induction r r' rule: list_induct2)
  case (Cons x xs y ys)
  then have "hex_byte x = hex_byte y \<and> concat (map hex_byte xs) @ p = concat (map hex_byte ys) @ p'"
    by (simp add: hex_byte_def)
  then show ?case using Cons.IH hex_byte_inj by simp
qed simp

subsection \<open>Properties\<close>

text \<open>End to end. A consumer that asks the DHT for an advertisement and is answered with one the
  advertiser signed gets a record whose fields are the advertised ones, and that verifies exactly
  until it expires.\<close>

theorem found_advertisement_verifies:
  assumes "crypto_ok C" "wf_keypair kp" "wf_keypair kc" "env_ok E" "length uuid = 16" "length server = 32" "valid_str uri"
    "in_range created" "in_range (created + int (advertised_ttl ttl))"
    "sign_record C (new_procedure_advertisement created uuid (node_id C kp) uri server ttl) kp = (Inr signed_record :: (Record, 'e fail) result)"
    "uint (env_now_ms E n) + DHT_TIMEOUT < 2 ^ 64" "length key = 32" "serves E (n + 4) [normal (to_rpc_value signed_record)] (control s)"
  shows "\<exists>r s' n'. find_record C E n s kc key = (Inr r, s', n') \<and>
    read_procedure_advertisement r = Inr \<lparr>pa_procedure_uri = uri, pa_advertiser_node = node_id C kp,
      pa_serving_station = server, pa_cert_chain = None\<rparr> \<and>
    (\<forall>now. verify_record C now r =
      (let expires = created + int (advertised_ttl ttl) in
       if 0 < expires \<and> expires \<le> now then Inl (Err RecordExpired) else Inr ()))"
proof -
  let ?r = "new_procedure_advertisement created uuid (node_id C kp) uri server ttl"
  have node: "length (node_id C kp) = 32" by (simp add: node_id_def length_public_bytes [OF assms(1,2)])
  have wf: "wf_record ?r" by (rule wf_advertisement [OF node assms(5,7-9)])
  have key: "rc_key ?r = node_id C kp" by (simp add: new_procedure_advertisement_def new_envelope_def Let_def)
  have s: "wf_record signed_record" "record_authentic C signed_record" "signed_record = ?r\<lparr>rc_signature := rc_signature signed_record\<rparr>"
    using sign_record_ok [OF assms(1,2) wf key, where 'e = 'e] assms(10) by auto
  have sig: "length (rc_signature signed_record) = 64" using s(2) by (simp add: record_authentic_def)
  obtain s' n' where found: "find_record C E n s kc key = (Inr (record_normal signed_record), s', n')"
    by (rule find_record_answered [OF assms(1,3,4,11-13) s(1) sig])
  have fields: "rc_payload signed_record = rc_payload ?r" "rc_record_type signed_record = TYPE_PROCEDURE_ADVERTISEMENT"
    "rc_expires_at (record_normal signed_record) = created + int (advertised_ttl ttl)"
    by (subst s(3), simp add: new_procedure_advertisement_def new_envelope_def record_normal_def advertised_ttl_def Let_def)+
  have "verify_record C now (record_normal signed_record) = (let expires = created + int (advertised_ttl ttl) in
      if 0 < expires \<and> expires \<le> now then Inl (Err RecordExpired) else Inr ())" for now
    using s(1,2) by (simp add: verify_record_verdict wf_record_normal record_authentic_normal fields(3) Let_def)
  with found read_advertisement_normal [OF fields(1,2) node assms(6,7)] show ?thesis by blast
qed

definition demo_record :: Record where
  "demo_record = new_procedure_advertisement 1000 (replicate 16 0) (node_id toy_crypto demo_key) ''p'' (replicate 32 1) 500"

lemma demo_record_wf: "wf_record demo_record"
  unfolding demo_record_def by (rule wf_advertisement)
    (simp_all add: node_id_def length_public_bytes [OF toy_crypto_ok wf_demo_key] ascii_valid_str ascii_def in_range_def advertised_ttl_def)

lemma demo_signed:
  obtains s where "sign_record toy_crypto demo_record demo_key = (Inr s :: (Record, unit fail) result)" "wf_record s"
    "record_authentic toy_crypto s" "s = demo_record\<lparr>rc_signature := rc_signature s\<rparr>"
proof (rule sign_record_ok [OF toy_crypto_ok wf_demo_key demo_record_wf])
  show "rc_key demo_record = node_id toy_crypto demo_key"
    by (simp add: demo_record_def new_procedure_advertisement_def new_envelope_def Let_def)
qed

lemma demo_answer:
  assumes "wf_record s" "length (rc_signature s) = 64" "s = demo_record\<lparr>rc_signature := rc_signature s\<rparr>"
  obtains st where "serves demo_env n [normal (to_rpc_value s)] st"
proof -
  have "vdepth (to_rpc_value s) < 128" "esize (to_rpc_value s) \<le> wire_room - 512"
    using assms(2) by (subst assms(3), simp add: to_rpc_value_def demo_record_def new_procedure_advertisement_def new_envelope_def
      Let_def node_id_def length_public_bytes [OF toy_crypto_ok wf_demo_key] wire_room_def MAX_FRAME_BYTES_def)+
  then have "outcome_fits (HandlerOk (to_rpc_value s))"
    using frame_ok_wfv [OF frame_ok_to_rpc_value [OF assms(1)]] by (simp add: outcome_fits_def)
  then obtain b where "frames_answer demo_env n [normal (to_rpc_value s)] b"
    using answers_exist [OF toy_crypto_ok wf_demo_key demo_env_ok, of "[to_rpc_value s]" n] by auto
  then show ?thesis using that serves_fresh by blast
qed

theorem found_advertisement_verifies_witness:
  "\<exists>s r s' n'. find_record toy_crypto demo_env 0 s demo_key (replicate 32 2) = (Inr r, s', n') \<and>
    verify_record toy_crypto 1499 r = Inr () \<and> verify_record toy_crypto 1500 r = Inl (Err RecordExpired)"
proof -
  obtain sr where sr: "sign_record toy_crypto demo_record demo_key = (Inr sr :: (Record, unit fail) result)" "wf_record sr"
    "record_authentic toy_crypto sr" "sr = demo_record\<lparr>rc_signature := rc_signature sr\<rparr>"
    by (rule demo_signed)
  have "length (rc_signature sr) = 64" using sr(3) by (simp add: record_authentic_def)
  then obtain st where st: "serves demo_env (0 + 4) [normal (to_rpc_value sr)] st" by (rule demo_answer [OF sr(2) _ sr(4)])
  let ?s = "\<lparr>control = st, session_open_bi = (\<lambda>_. None), station = demo_hello\<rparr>"
  have "\<exists>r s' n'. find_record toy_crypto demo_env 0 ?s demo_key (replicate 32 2) = (Inr r, s', n') \<and>
    read_procedure_advertisement r = Inr \<lparr>pa_procedure_uri = ''p'', pa_advertiser_node = node_id toy_crypto demo_key,
      pa_serving_station = replicate 32 1, pa_cert_chain = None\<rparr> \<and>
    (\<forall>now. verify_record toy_crypto now r =
      (let expires = 1000 + int (advertised_ttl 500) in
       if 0 < expires \<and> expires \<le> now then Inl (Err RecordExpired) else Inr ()))"
    by (rule found_advertisement_verifies [OF toy_crypto_ok wf_demo_key wf_demo_key demo_env_ok _ _ _ _ _ sr(1) [unfolded demo_record_def]])
      (use st in \<open>simp_all add: ascii_valid_str ascii_def in_range_def advertised_ttl_def demo_env_def DHT_TIMEOUT_def\<close>)
  then show ?thesis by (force simp: advertised_ttl_def)
qed

text \<open>Received records. Verifying a record that came in over the wire never panics: the record is
  reported expired only if its signature is its key's signature of all its fields, and accepted
  only if, besides, it has not expired.\<close>

theorem received_record_verdict:
  assumes "record_from_rpc_value v = Inr r" "decode b = Inr v" "length b < 2 ^ 64"
  shows "verify_record C now r =
    (if \<not> record_authentic C r then Inl (Err InvalidRecordSignature)
     else if 0 < rc_expires_at r \<and> rc_expires_at r \<le> now then Inl (Err RecordExpired) else Inr ())"
proof -
  have "wfv v" by (rule decode_cases [OF assms(3)]) (use assms(2) in simp_all)
  then show ?thesis by (rule verify_record_verdict [OF received_record_wf [OF assms(1)]])
qed

theorem received_record_verdict_witness:
  "\<exists>r v b. record_from_rpc_value v = Inr r \<and> decode b = Inr v \<and> verify_record toy_crypto 1499 r = Inr ()"
proof -
  obtain sr where sr: "wf_record sr" "record_authentic toy_crypto sr" "sr = demo_record\<lparr>rc_signature := rc_signature sr\<rparr>"
    by (rule demo_signed)
  let ?v = "to_rpc_value sr"
  have len: "length (rc_signature sr) = 64" using sr(2) by (simp add: record_authentic_def)
  note v = record_rpc_roundtrip [OF sr(1) len]
  have wf: "wfv ?v" by (rule frame_ok_wfv [OF frame_ok_to_rpc_value [OF sr(1)]])
  have size: "vdepth ?v \<le> MAX_NESTING_DEPTH" "esize ?v \<le> 2000"
    using len by (subst sr(3), simp add: to_rpc_value_def demo_record_def new_procedure_advertisement_def new_envelope_def Let_def
      node_id_def length_public_bytes [OF toy_crypto_ok wf_demo_key] MAX_NESTING_DEPTH_def)+
  have short: "length (enc ?v) < 2 ^ 64" using length_enc_le [OF wf] size(2) by simp
  have d: "decode (enc ?v) = Inr (normal ?v)" by (rule decode_enc [OF wf size(1) short])
  have "rc_expires_at (record_normal sr) = 1500"
    by (subst sr(3)) (simp add: record_normal_def demo_record_def new_procedure_advertisement_def new_envelope_def)
  then have "verify_record toy_crypto 1499 (record_normal sr) = Inr ()"
    using received_record_verdict [OF v d short] record_authentic_normal [OF sr(1)] sr(2) by simp
  with v d show ?thesis by blast
qed

text \<open>What a signature covers. Two records with the same signed bytes are the same record, up to
  the signature itself and the order of map entries in the payload.\<close>

theorem record_signature_covers_fields:
  assumes "wf_record r" "wf_record r'" "vdepth (rc_payload r) < 128" "vdepth (rc_payload r') < 128"
    "canonical_unsigned r = (Inr b :: (bytes, 'e fail) result)" "canonical_unsigned r' = (Inr b :: (bytes, 'e fail) result)" "length b < 2 ^ 64"
  shows "record_normal (r\<lparr>rc_signature := []\<rparr>) = record_normal (r'\<lparr>rc_signature := []\<rparr>)"
proof -
  have b: "enc (Map (unsigned_fields r)) = b" "enc (Map (unsigned_fields r')) = b"
    using assms(5,6) canonical_unsigned_ok [OF assms(1), where 'e = 'e] canonical_unsigned_ok [OF assms(2), where 'e = 'e] by simp_all
  have "vdepth (Map (unsigned_fields r)) \<le> MAX_NESTING_DEPTH" "vdepth (Map (unsigned_fields r')) \<le> MAX_NESTING_DEPTH"
    using assms(3,4) by (simp_all add: unsigned_fields_def MAX_NESTING_DEPTH_def)
  then have eq: "normal (Map (unsigned_fields r)) = normal (Map (unsigned_fields r'))"
    using decode_enc [OF frame_ok_wfv [OF frame_ok_unsigned [OF assms(1)]]] decode_enc [OF frame_ok_wfv [OF frame_ok_unsigned [OF assms(2)]]]
      b assms(7) by auto
  have get: "map_option normal (get (Map (unsigned_fields r)) f) = map_option normal (get (Map (unsigned_fields r')) f)" for f
    using eq get_normal [OF frame_ok_wfv [OF frame_ok_unsigned [OF assms(1)]]] get_normal [OF frame_ok_wfv [OF frame_ok_unsigned [OF assms(2)]]]
    by metis
  show ?thesis
    using get [of "''t''"] get [of "''k''"] get [of "''v''"] get [of "''c''"] get [of "''x''"] get [of "''p''"]
    by (cases r, cases r') (simp add: unsigned_fields_def get_def record_normal_def word_uint_eqI)
qed

theorem record_signature_covers_fields_witness:
  "\<exists>r b. canonical_unsigned r = (Inr b :: (bytes, unit fail) result) \<and>
    record_normal (r\<lparr>rc_signature := []\<rparr>) = record_normal (demo_record\<lparr>rc_signature := []\<rparr>)"
proof -
  have size: "vdepth (Map (unsigned_fields demo_record)) \<le> MAX_NESTING_DEPTH" "esize (Map (unsigned_fields demo_record)) \<le> 2000"
    "vdepth (rc_payload demo_record) < 128"
    by (simp_all add: unsigned_fields_def demo_record_def new_procedure_advertisement_def new_envelope_def Let_def
      node_id_def length_public_bytes [OF toy_crypto_ok wf_demo_key] MAX_NESTING_DEPTH_def)
  have short: "length (enc (Map (unsigned_fields demo_record))) < 2 ^ 64"
    using length_enc_le [OF frame_ok_wfv [OF frame_ok_unsigned [OF demo_record_wf]]] size(2) by simp
  note c = canonical_unsigned_ok [OF demo_record_wf, where 'e = unit]
  show ?thesis using record_signature_covers_fields [OF demo_record_wf demo_record_wf size(3) size(3) c c short] c by blast
qed

text \<open>Realms. The name a procedure is advertised under determines its realm and the procedure.\<close>

theorem discovery_uri_injective:
  assumes "length realm = 32" "length realm' = 32" "discovery_uri realm procedure = discovery_uri realm' procedure'"
  shows "realm = realm' \<and> procedure = procedure'"
  using hex_bytes_inj [of realm realm' "''/'' @ procedure" "''/'' @ procedure'"] assms by (simp add: discovery_uri_def)

theorem discovery_uri_injective_witness:
  "{realm. length realm = 32 \<and> discovery_uri realm ''p'' = concat (replicate 32 ''AB'') @ ''/p''} = {replicate 32 0xAB}"
proof -
  have "discovery_uri (replicate 32 0xAB) ''p'' = concat (replicate 32 ''AB'') @ ''/p''"
    by (simp add: discovery_uri_def hex_byte_def hex_digit_def)
  then show ?thesis using discovery_uri_injective [of _ "replicate 32 0xAB" "''p''" "''p''"] by force
qed

text \<open>Separate domains. No string is signed both as a frame and as an event's publisher, nor as one of
  these and as a DHT record.\<close>

theorem signing_domains_separate:
  shows "\<not> (\<exists>b. signable_bytes v = (Inr b :: (bytes, 'e fail) result) \<and> publisher_signing_bytes w = (Inr b :: (bytes, 'f fail) result)) \<and>
    signable_bytes v \<noteq> (Inr (RECORD_SIG_DOMAIN @ c) :: (bytes, 'e fail) result) \<and>
    publisher_signing_bytes w \<noteq> (Inr (RECORD_SIG_DOMAIN @ c) :: (bytes, 'f fail) result)"
proof -
  have f: "\<exists>x. b = SIG_DOMAIN @ x" if "signable_bytes v = (Inr b :: (bytes, 'e fail) result)" for b
    using that by (auto simp: signable_bytes_def split: sum.splits)
  have p: "\<exists>x. b = EVENT_PUBLISHER_DOMAIN @ x" if "publisher_signing_bytes w = (Inr b :: (bytes, 'f fail) result)" for b
    using that by (auto simp: publisher_signing_bytes_def split: sum.splits)
  show ?thesis
    using f p by (auto simp: SIG_DOMAIN_def EVENT_PUBLISHER_DOMAIN_def RECORD_SIG_DOMAIN_def as_bytes_def dest!: f p)
qed

end
