(* ===== verification/PoolProps.thy ===== *)
theory PoolProps
  imports PoolCalls PoolDiscovery DhtProps
begin

section \<open>PoolProps: what a pool promises, and what it does not\<close>

text \<open>
  The invariants of \<open>PoolInv\<close> as properties of the reachable states, what a call through the pool
  returns and leaves behind, the name under which stations are discovered, and the runs in which a
  link is lost for good, a closed pool dials on and the discovery task panics.
\<close>

subsection \<open>A session whose peer has closed\<close>

lemma connect_then_closed:
  assumes "crypto_ok C" "wf_keypair kp" "wf_keypair ks" "env_ok E"
    "frame_ok h" "sign_frame C h ks = Inr g" "frame_sent_as g w"
    "parse_hello (normal g) = Inr hello" "he_accepted hello" "he_node_id hello = public_bytes C ks"
  obtains s where "connect C E n kp (Opened (fresh_stream (ReadChunk w # rs)) later) = Inr s" "fs_buf (control s) = []"
    "fs_reads (control s) = rs" "fs_writes (control s) = []"
proof -
  have writes: "fs_writes (fresh_stream (ReadChunk w # rs)) = []" by simp
  obtain g' w' where sent: "send_signed C kp (connect_value (ConnectSpec_new (node_id C kp) (puzzle_evidence C (public_bytes C kp)))
      (env_frame_id E n) (env_now_ms E n)) (fresh_stream (ReadChunk w # rs)) =
        (Inr (), (fresh_stream (ReadChunk w # rs))\<lparr>fs_sent := fs_sent (fresh_stream (ReadChunk w # rs)) @ w'\<rparr>)"
    by (rule send_signed_ok [OF assms(1,2) connect_bounded [OF assms(1,2,4)] writes])
  have "recv_loop decode_frame w rs = (Inr (normal g), [], rs)"
    using frame_codec.loop_at_whole [OF assms(7), of "[]" rs] by simp
  moreover obtain k where "decode_frame [] = Inr (More k)" by (simp add: decode_frame_def)
  ultimately have recv: "recv_loop decode_frame [] (ReadChunk w # rs) = (Inr (normal g), [], rs)"
    by (subst recv_loop.simps) simp
  have okg: "frame_ok g" "wfv g" using sign_frame_Inr [OF assms(5,6)] frame_ok_wfv by blast+
  then obtain ps where ps: "g = Map ps" using frame_ok_is_Map by blast
  have "verify_frame C (normal g) (he_node_id hello) = Inr ()"
    using verify_signed [OF assms(1,3,5,6)] okg(2) assms(10) unfolding ps by (simp only: verify_normal)
  then show ?thesis using sent recv assms(8,9) that
    by (simp add: connect_def Let_def read_one_frame_def)
qed

lemma session_call_closed:
  assumes "crypto_ok C" "wf_keypair kp" "env_ok E" "call_fits procedure realm payload deadline_ms []"
    "fs_buf (control s) = []" "fs_reads (control s) = ReadClosed # rs" "fs_writes (control s) = []"
  obtains s' n' where "session_call C E n s procedure realm payload deadline_ms kp = (Inl (Err (CallRecv RecvStreamClosed)), s', n')"
proof -
  have id: "length (env_id E n) = 16" and realm: "length realm = 32" using assms(3,4) by (simp_all add: env_ok_def call_fits_def)
  note fact = fact_payload_ok [OF id, where detail = None, simplified option.case, OF TrueI]
  have room: "esize (request_id_payload (env_id E n)) + length ''rpc.sent_v1'' + length realm + 32 \<le> wire_room"
    using fact(3) realm by (simp add: wire_room_def MAX_FRAME_BYTES_def)
  obtain w where "announce_fact C E (n + 1) s realm kp ''rpc.sent_v1'' (request_id_payload (env_id E n)) =
      ((Inr () :: (unit, CallError fail) result), wrote s w, n + 1 + 2)"
    by (rule announce_fact_ok [OF assms(1-3,7) fact(1,2) room])
  then have w: "announce_fact C E (n + 1) s realm kp ''rpc.sent_v1'' (request_id_payload (env_id E n)) =
      ((Inr () :: (unit, CallError fail) result), wrote s w, n + 3)"
    by (simp add: numeral_3_eq_3)
  obtain u where call: "\<And>st. fs_writes st = [] \<Longrightarrow> fs_call_with_ucan C E (n + 3) st procedure realm payload deadline_ms kp [] =
      (case await_call_response (env_id E (n + 3)) (st\<lparr>fs_sent := fs_sent st @ u\<rparr>) of (r, st'') \<Rightarrow> (r, st'', n + 3 + 1))"
    using call_sent_ok [OF assms(1-4), of "n + 3"] by blast
  let ?st = "(control (wrote s w))\<lparr>fs_sent := fs_sent (control (wrote s w)) @ u\<rparr>"
  let ?st' = "?st\<lparr>fs_reads := rs\<rparr>"
  obtain k where "decode_frame [] = Inr (More k)" by (simp add: decode_frame_def)
  then have "recv_frame ?st = (Inl (Err RecvStreamClosed), ?st')"
    using assms(5,6) by (simp add: recv_frame_def recv_loop.simps [of _ "[]"])
  then have "await_call_response (env_id E (n + 3)) ?st = (Inl (Err (CallRecv RecvStreamClosed)), ?st')"
    by (simp add: await_call_response.simps)
  then have st: "fs_call_with_ucan C E (n + 3) (control (wrote s w)) procedure realm payload deadline_ms kp [] =
      (Inl (Err (CallRecv RecvStreamClosed)), ?st', n + 4)"
    using call [of "control (wrote s w)"] assms(7) by simp
  let ?s = "(wrote s w)\<lparr>control := ?st'\<rparr>"
  let ?failed = "completed_payload (env_texts E) (env_id E n) (Inl (CallRecv RecvStreamClosed))"
  have "frame_ok ?failed" "vdepth ?failed < 128" "esize ?failed + length ''rpc.completed_v1'' + length realm + 32 \<le> wire_room"
    using id realm
    by (simp_all add: completed_payload_def request_id_payload_def frame_ok_Map ascii_def ascii_valid_str wire_room_def MAX_FRAME_BYTES_def)
  moreover have "fs_writes (control ?s) = []" by (simp add: assms(7))
  ultimately obtain v where "announce_fact C E (n + 4) ?s realm kp ''rpc.completed_v1'' ?failed =
      ((Inr () :: (unit, CallError fail) result), wrote ?s v, n + 4 + 2)"
    using announce_fact_ok [OF assms(1-3)] frame_ok_wfv by metis
  with w st show ?thesis using that
    by (simp add: session_call_def session_call_with_ucan_def announce_rpc_sent_def announce_rpc_completed_def add.commute)
qed

definition demo_options :: PoolOptions where
  "demo_options = PoolOptions_default 5000"

definition demo_seed :: Seed where
  "demo_seed = \<lparr>seed_host = ''station.example'', seed_port = 4433\<rparr>"

lemma connect_demo:
  "pool_connect [demo_seed] WebPki demo_key demo_options = (Inr (one_link demo_key WebPki demo_options
     ((PooledLink_new demo_seed Bootstrap WebPki)\<lparr>ln_redialing := True\<rparr>) [Life 0 LSpawned]) :: (Pool, 'e fail) result)"
  by (rule connect_one_link) (simp add: demo_options_def PoolOptions_default_def StationDiscoveryOptions_default_def)

text \<open>A station that accepts and then closes the stream.\<close>

lemma demo_dead_session:
  obtains d s s' m' e where "connect toy_crypto demo_env 0 demo_key d = Inr s"
    "session_call toy_crypto demo_env 0 s ''p'' (replicate 32 7) Null 9 demo_key = (Inl (Err e), s', m')"
proof (rule demo_handshake)
  fix g w hello
  assume h: "(sign_frame toy_crypto hello_frame demo_key :: (Value, unit fail) result) = Inr g" "frame_sent_as g w"
    "parse_hello (normal g) = Inr hello" "he_accepted hello" "he_node_id hello = public_bytes toy_crypto demo_key"
  have ok: "frame_ok hello_frame" using hello_bounded by (simp add: bounded_def)
  obtain s where s: "connect toy_crypto demo_env 0 demo_key (Opened (fresh_stream (ReadChunk w # [ReadClosed])) (\<lambda>_. None)) = Inr s"
    "fs_buf (control s) = []" "fs_reads (control s) = [ReadClosed]" "fs_writes (control s) = []"
    by (rule connect_then_closed [OF toy_crypto_ok wf_demo_key wf_demo_key demo_env_ok ok h])
  have "call_fits ''p'' (replicate 32 7) Null 9 []"
    by (simp add: call_fits_def ascii_valid_str ascii_def in_range_def wire_room_def MAX_FRAME_BYTES_def)
  then obtain s' n' where "session_call toy_crypto demo_env 0 s ''p'' (replicate 32 7) Null 9 demo_key =
      (Inl (Err (CallRecv RecvStreamClosed)), s', n')"
    by (rule session_call_closed [OF toy_crypto_ok wf_demo_key demo_env_ok _ s(2-4)])
  with s(1) show ?thesis by (rule that)
qed

subsection \<open>Names under which stations are listed\<close>

lemma hex_digit_facts:
  assumes "n < 16"
  shows "to_digit 16 (hex_digit n) = Some n" "hex_digit n \<noteq> CHR ''+''" "\<not> cont_byte (of_char (hex_digit n))"
proof -
  have "list_all (\<lambda>n. to_digit 16 (hex_digit n) = Some n \<and> hex_digit n \<noteq> CHR ''+'' \<and> \<not> cont_byte (of_char (hex_digit n))) [0..<16]"
    by code_simp
  then show "to_digit 16 (hex_digit n) = Some n" "hex_digit n \<noteq> CHR ''+''" "\<not> cont_byte (of_char (hex_digit n))"
    using assms by (simp_all add: list_all_iff)
qed

lemma hex_pair_byte: "hex_pair (hex_digit (unat (b :: u8) div 16)) (hex_digit (unat b mod 16)) = Some b"
proof -
  have "unat b div 16 < 16" using unat_u8_less [of b] by (simp add: less_mult_imp_div_less)
  then show ?thesis by (simp add: hex_pair_def hex_digit_facts del: of_nat_add of_nat_mult)
qed

lemma hex_bytes_nth:
  assumes "k < length bs"
  shows "concat (map hex_byte bs) ! (2 * k) = hex_digit (unat (bs ! k) div 16)"
    "concat (map hex_byte bs) ! (2 * k + 1) = hex_digit (unat (bs ! k) mod 16)"
  using assms
proof (induction bs arbitrary: k)
  case (Cons b bs)
  {
    case 1
    then show ?case using Cons.IH(1) by (cases k) (simp_all add: hex_byte_def)
  next
    case 2
    then show ?case using Cons.IH(2) by (cases k) (simp_all add: hex_byte_def)
  }
qed simp_all

lemma length_hex_bytes [simp]: "length (concat (map hex_byte bs)) = 2 * length bs"
  by (induction bs) (simp_all add: hex_byte_def)

lemma hex_bytes_boundary: "is_char_boundary (concat (map hex_byte bs)) (2 * k) \<longleftrightarrow> k \<le> length bs"
proof (cases "k < length bs")
  case True
  have "unat (bs ! k) div 16 < 16" using unat_u8_less [of "bs ! k"] by (simp add: less_mult_imp_div_less)
  then show ?thesis using True by (simp add: is_char_boundary_def hex_bytes_nth(1) hex_digit_facts)
qed (auto simp: is_char_boundary_def)

lemma hex_decode_bytes: "hex_decode (concat (map hex_byte bs)) = Inr (Some bs)"
proof -
  let ?s = "concat (map hex_byte bs)"
  have "hex_decode_at ?s (map (\<lambda>k. 2 * k) [k..<length bs]) = (Inr (Some (drop k bs)) :: (_, 'e fail) result)"
    if "k \<le> length bs" for k
    using that
  proof (induction "length bs - k" arbitrary: k)
    case (Suc j)
    then have k: "k < length bs" by simp
    then have upt: "[k..<length bs] = k # [Suc k..<length bs]" by (simp add: upt_conv_Cons)
    have "is_char_boundary ?s (2 * k)" "is_char_boundary ?s (2 * k + 2)"
      using hex_bytes_boundary [of bs k] hex_bytes_boundary [of bs "Suc k"] k by simp_all
    moreover have "hex_pair (?s ! (2 * k)) (?s ! (2 * k + 1)) = Some (bs ! k)"
      unfolding hex_bytes_nth(1) [OF k] hex_bytes_nth(2) [OF k] by (rule hex_pair_byte)
    moreover have "hex_decode_at ?s (map (\<lambda>k. 2 * k) [Suc k..<length bs]) = (Inr (Some (drop (Suc k) bs)) :: (_, 'e fail) result)"
      by (rule Suc.hyps(1)) (use Suc.hyps(2) k in simp_all)
    ultimately show ?case using k by (simp add: upt Cons_nth_drop_Suc del: upt_Suc)
  qed simp
  from this [of 0] show ?thesis by (simp add: hex_decode_def)
qed

lemma strip_suffix_append [simp]: "strip_suffix (s @ suffix) suffix = Some s"
  by (simp add: strip_suffix_def)

lemma candidates_facts:
  assumes "shuffle_ok shuffle" "in_bounds p"
  shows "mset (select_connected_links shuffle p) = mset (filter (is_connected p) (pl_links p))"
    "distinct (select_connected_links shuffle p)" "\<forall>i \<in> set (select_connected_links shuffle p). i < length (pl_store p)"
proof -
  let ?c = "filter (is_connected p) (pl_links p)"
  have d: "distinct ?c" using assms(2) by (simp add: in_bounds_def)
  show m: "mset (select_connected_links shuffle p) = mset ?c"
    using assms(1) by (simp add: shuffle_ok_def select_connected_links_def select_links_def Let_def)
  then show "distinct (select_connected_links shuffle p)" using d mset_eq_imp_distinct_iff by blast
  show "\<forall>i \<in> set (select_connected_links shuffle p). i < length (pl_store p)"
    using assms(2) mset_eq_setD [OF m] by (auto simp: in_bounds_def)
qed

text \<open>Without a discovery task there is never one again.\<close>

lemma pool_step_no_disc:
  assumes "pool_step C shuffle W p q" "\<forall>pc. Disc pc \<notin># pl_tasks p"
  shows "\<forall>pc. Disc pc \<notin># pl_tasks q"
  using assms(1)
proof (cases rule: pool_step.cases)
  case pool_life
  then show ?thesis using assms(2) by (cases rule: life_step.cases) auto
next
  case pool_caller
  then show ?thesis using assms(2) by (cases rule: caller_step.cases) (auto simp: try_claim_redial_cases)
next
  case pool_disc
  then show ?thesis using assms(2) by (cases rule: disc_step.cases) auto
next
  case pool_close
  then show ?thesis using assms(2) by (cases rule: close_step.cases) auto
next
  case pool_cancel
  then show ?thesis using assms(2) by (cases rule: cancel_step.cases) auto
qed

lemma pool_steps_no_disc:
  "pool_steps C shuffle W p q \<Longrightarrow> \<forall>pc. Disc pc \<notin># pl_tasks p \<Longrightarrow> \<forall>pc. Disc pc \<notin># pl_tasks q"
  by (induction rule: rtranclp_induct) (use pool_step_no_disc in blast)+

definition odd_uri :: string where
  "odd_uri = ''a'' @ [CHR 0xC3, CHR 0xA9] @ replicate 61 (CHR ''a'') @ ''/'' @ LIST_STATIONS_PROCEDURE"

lemma odd_uri_facts: "valid_str odd_uri" "try_match_list_stations_realm odd_uri = (Inl Panic :: (_, 'e fail) result)"
proof -
  let ?hex = "''a'' @ [CHR 0xC3, CHR 0xA9] @ replicate 61 (CHR ''a'')" and ?suffix = "''/'' @ LIST_STATIONS_PROCEDURE"
  have uri: "odd_uri = ?hex @ ?suffix" by (simp add: odd_uri_def)
  have bytes: "of_char (CHR ''a'') = (0x61 :: u8)" "of_char (CHR 0xC3) = (0xC3 :: u8)" "of_char (CHR 0xA9) = (0xA9 :: u8)"
    by (simp_all add: of_char_def)
  have "valid_str (replicate 61 (CHR ''a'') @ ?suffix)"
    by (rule ascii_valid_str) (simp add: ascii_def LIST_STATIONS_PROCEDURE_def)
  then have tail: "utf8_valid (as_bytes (replicate 61 (CHR ''a'') @ ?suffix))" by (simp add: valid_str_def)
  have "as_bytes odd_uri = 0x61 # 0xC3 # 0xA9 # as_bytes (replicate 61 (CHR ''a'') @ ?suffix)"
    unfolding odd_uri_def by (simp add: as_bytes_def bytes)
  then show "valid_str odd_uri" using tail by (simp add: valid_str_def cont_byte_def)
  have "\<not> is_char_boundary ?hex (Suc (Suc 0))" by (simp add: is_char_boundary_def bytes cont_byte_def)
  moreover have "map (\<lambda>k. 2 * k) [0..<length ?hex div 2] = 0 # map (\<lambda>k. 2 * k) [1..<32]" by (simp add: upt_conv_Cons)
  ultimately have "hex_decode ?hex = (Inl Panic :: (_, 'e fail) result)" by (simp add: hex_decode_def)
  then show "try_match_list_stations_realm odd_uri = (Inl Panic :: (_, 'e fail) result)"
    unfolding uri by (simp only: try_match_list_stations_realm_def strip_suffix_append option.case) simp
qed

subsection \<open>Properties\<close>

text \<open>C8: One life cycle per link. However the tasks of a pool interleave, a link never has two life
  cycles, and a running one holds the link's claim. As long as nobody closes the pool and no caller
  is dropped in the middle of its call, a claim is held only while a life cycle runs or is about to
  be spawned.\<close>

theorem one_life_cycle_per_link:
  assumes "shuffle_ok shuffle" "pool_connect seeds trust kp options = (Inr start :: (Pool, 'e fail) result)"
    "pool_steps C shuffle W start p" "i < length (pl_store p)"
  shows "size (filter_mset (\<lambda>t. \<exists>pc. t = Life i pc) (pl_tasks p)) \<le> 1 \<and>
    ((\<exists>pc. Life i pc \<in># pl_tasks p) \<longrightarrow> ln_redialing (pl_store p ! i)) \<and>
    ((open_step C shuffle)\<^sup>*\<^sup>* start p \<longrightarrow> ln_redialing (pl_store p ! i) \<longrightarrow> (\<exists>t \<in># pl_tasks p. redials i t))"
proof (intro conjI impI)
  have c: "redial_count p i \<le> (if ln_redialing (pl_store p ! i) then 1 else 0)"
    using reachable_claims [OF assms(1-3)] assms(4) by (auto simp: claims_def)
  have sub: "filter_mset (\<lambda>t. \<exists>pc. t = Life i pc) (pl_tasks p) =
      filter_mset (\<lambda>t. \<exists>pc. t = Life i pc) (filter_mset (redials i) (pl_tasks p))"
    unfolding filter_filter_mset by (rule filter_mset_cong) auto
  have "size (filter_mset (\<lambda>t. \<exists>pc. t = Life i pc) (pl_tasks p)) \<le> redial_count p i"
    unfolding redial_count_def by (subst sub) (rule size_mset_mono [OF multiset_filter_subset])
  also have "redial_count p i \<le> 1" using c by (auto split: if_splits)
  finally show "size (filter_mset (\<lambda>t. \<exists>pc. t = Life i pc) (pl_tasks p)) \<le> 1" .
  assume "\<exists>pc. Life i pc \<in># pl_tasks p"
  then have "filter_mset (redials i) (pl_tasks p) \<noteq> {#}" by (auto simp: filter_mset_eq_conv dest: multi_member_split)
  then show "ln_redialing (pl_store p ! i)" using c by (auto simp: redial_count_def split: if_splits)
next
  assume "(open_step C shuffle)\<^sup>*\<^sup>* start p" "ln_redialing (pl_store p ! i)"
  then have "redial_count p i = 1" using open_reachable_claims [OF assms(1,2)] assms(4) by (auto simp: claims_def)
  then have "filter_mset (redials i) (pl_tasks p) \<noteq> {#}" by (metis One_nat_def redial_count_def size_empty zero_neq_one)
  then show "\<exists>t \<in># pl_tasks p. redials i t" by (elim multiset_nonemptyE) auto
qed

theorem one_life_cycle_per_link_witness:
  "\<exists>start p. pool_connect [demo_seed] WebPki demo_key demo_options = (Inr start :: (Pool, unit fail) result) \<and>
    pool_steps toy_crypto (\<lambda>xs. xs) (\<lambda>_ _ new. new) start p \<and> is_connected p 0 \<and>
    size (filter_mset (\<lambda>t. \<exists>pc. t = Life 0 pc) (pl_tasks p)) \<le> 1 \<and> ln_redialing (pl_store p ! 0)"
proof (rule demo_dead_session)
  fix d s s' m' e
  assume d: "connect toy_crypto demo_env 0 demo_key d = Inr s"
  let ?l = "(PooledLink_new demo_seed Bootstrap WebPki)\<lparr>ln_redialing := True\<rparr>"
  let ?p = "one_link demo_key WebPki demo_options
    (?l\<lparr>ln_session := Some s, ln_peer_node_id := Some (he_node_id (station s)), ln_connected := True\<rparr>) [Life 0 LReset]"
  note dials = one_link_dials [OF d, of "\<lambda>xs. xs" WebPki demo_options ?l "[]"]
  have o: "shuffle_ok (\<lambda>xs. xs)" by (simp add: shuffle_ok_def)
  have "0 < length (pl_store ?p)" by simp
  from one_life_cycle_per_link [OF o connect_demo [where 'e = unit] open_steps_pool [OF dials] this] show ?thesis
    using connect_demo open_steps_pool [OF dials]
    by (intro exI [of _ "one_link demo_key WebPki demo_options ?l [Life 0 LSpawned]"] exI [of _ ?p]) (simp add: is_connected_def)
qed

text \<open>C20: Discovery. However the tasks interleave, discovery keeps at most \<open>max_links\<close> links that it
  has not given up, adds no seed the pool has a link for, gives up none of the bootstrap links, and
  dials nothing but what a station listed: a discovered link has the host and port of a row that
  discovery went through and is dialed under the pool's own trust, except that under WebPki a bare
  address is dialed only pinned to the node id of that row.\<close>

theorem discovery_within_budget:
  assumes "shuffle_ok shuffle" "pool_connect seeds trust kp options = (Inr start :: (Pool, 'e fail) result)"
    "pool_steps C shuffle W start p"
  shows "count_occupied_discovery_slots (map ((!) (pl_store p)) (pl_links p)) \<le> sd_max_links (po_station_discovery options) \<and>
    (\<forall>i \<in> set (pl_links p). \<forall>j \<in> set (pl_links p). i \<noteq> j \<longrightarrow> ln_origin (pl_store p ! j) = Discovered \<longrightarrow>
       ln_seed (pl_store p ! i) \<noteq> ln_seed (pl_store p ! j)) \<and>
    (\<forall>l \<in> set (pl_store p). case ln_origin l of
       Bootstrap \<Rightarrow> ln_trust l = trust \<and> \<not> ln_gave_up l
     | Discovered \<Rightarrow> (\<exists>p' row rows node. pool_steps C shuffle W start p' \<and> pool_steps C shuffle W p' p \<and>
         Disc (DRows (row # rows)) \<in># pl_tasks p' \<and>
         dial_target_from_station_row row = Some (seed_host (ln_seed l), seed_port (ln_seed l), node) \<and>
         (if trust = WebPki \<and> is_ip_addr (seed_host (ln_seed l)) then \<exists>k. node = Some k \<and> ln_trust l = Pinned k
          else ln_trust l = trust)))"
proof -
  note r = reachable_discovery [OF assms]
  then have v: "view_ok trust (sd_max_links (po_station_discovery options)) (map key_of (pl_store p)) (pl_links p)
      (filter_mset is_disc (pl_tasks p))" and b: "in_bounds p" by (auto simp: discovery_ok_def)
  have keys: "i < length (pl_store p) \<Longrightarrow> lk_origin (map key_of (pl_store p) ! i) = ln_origin (pl_store p ! i)"
    "i < length (pl_store p) \<Longrightarrow> lk_seed (map key_of (pl_store p) ! i) = ln_seed (pl_store p ! i)" for i
    by (simp_all add: key_of_def)
  have links: "\<forall>i \<in> set (pl_links p). i < length (pl_store p)" using b by (simp add: in_bounds_def)
  have boot: "ln_trust l = trust \<and> \<not> ln_gave_up l" if "l \<in> set (pl_store p)" "ln_origin l = Bootstrap" for l
    using v that by (auto simp: view_ok_def key_ok_def key_of_def)
  note disc = discovered_link_row [OF assms, unfolded went_through_def row_names_def]
  show ?thesis
  proof (intro conjI ballI)
    fix l assume l: "l \<in> set (pl_store p)"
    show "case ln_origin l of Bootstrap \<Rightarrow> ln_trust l = trust \<and> \<not> ln_gave_up l
      | Discovered \<Rightarrow> (\<exists>p' row rows node. pool_steps C shuffle W start p' \<and> pool_steps C shuffle W p' p \<and>
         Disc (DRows (row # rows)) \<in># pl_tasks p' \<and>
         dial_target_from_station_row row = Some (seed_host (ln_seed l), seed_port (ln_seed l), node) \<and>
         (if trust = WebPki \<and> is_ip_addr (seed_host (ln_seed l)) then \<exists>k. node = Some k \<and> ln_trust l = Pinned k
          else ln_trust l = trust))"
    proof (cases "ln_origin l")
      case Bootstrap
      then show ?thesis using boot [OF l] by simp
    next
      case Discovered
      show ?thesis unfolding Discovered LinkOrigin.case using disc [OF l Discovered] by blast
    qed
  qed (use v keys links in \<open>auto simp: view_ok_def occupied_station_row [OF b]\<close>)
qed

definition discovering_options :: PoolOptions where
  "discovering_options = demo_options\<lparr>po_station_discovery := StationDiscoveryOptions_default\<lparr>sd_enabled := True\<rparr>\<rparr>"

theorem discovery_within_budget_witness:
  "\<exists>start p l k p' row rows. pool_connect [demo_seed] WebPki demo_key discovering_options = (Inr start :: (Pool, unit fail) result) \<and>
    pool_steps toy_crypto (\<lambda>xs. xs) (\<lambda>_ _ new. new) start p \<and> l \<in> set (pl_store p) \<and> ln_origin l = Discovered \<and>
    ln_seed l = \<lparr>seed_host = ''10.0.0.1'', seed_port = 4433\<rparr> \<and> ln_trust l = Pinned k \<and>
    count_occupied_discovery_slots (map ((!) (pl_store p)) (pl_links p)) \<le> 5 \<and>
    pool_steps toy_crypto (\<lambda>xs. xs) (\<lambda>_ _ new. new) start p' \<and> Disc (DRows (row # rows)) \<in># pl_tasks p' \<and>
    dial_target_from_station_row row = Some (''10.0.0.1'', 4433, Some k)"
proof (rule demo_dead_session)
  fix d s s' m' e
  assume d: "connect toy_crypto demo_env 0 demo_key d = Inr s"
  obtain node :: bytes where node: "length node = 32" "he_node_id (station s) \<noteq> node"
    by (cases "he_node_id (station s) = replicate 32 5") (auto intro: that [of "replicate 32 5"] that [of "replicate 32 6"])
  let ?row = "Map [(Text ''hostname'', Text ''10.0.0.1''), (Text ''quic_port'', IntV 4433), (Text ''node_id'', Bytes node)]"
  let ?seed = "\<lparr>seed_host = ''10.0.0.1'', seed_port = 4433\<rparr>"
  have on: "sd_enabled (po_station_discovery discovering_options)" "sd_max_links (po_station_discovery discovering_options) = 5"
    by (simp_all add: discovering_options_def StationDiscoveryOptions_default_def)
  have rows: "station_rows (CallResult (Map [(Text ''stations'', List [?row])]) []) = Some [?row]"
    by (simp add: station_rows_def)
  have target: "dial_target_from_station_row ?row = Some (''10.0.0.1'', 4433, Some node)"
    using node(1) by (simp add: dial_target_from_station_row_def as_port_def to_array_def)
  have ip: "is_ip_addr ''10.0.0.1''" by code_simp
  have "?seed \<noteq> demo_seed" "0 < sd_max_links (po_station_discovery discovering_options)" using on by (simp_all add: demo_seed_def)
  note run = discovery_run [OF on(1) d rows target ip node(2) this, of "\<lambda>xs. xs" "\<lambda>_ _ new. new", where 'e = unit]
  obtain start p where p: "pool_connect [demo_seed] WebPki demo_key discovering_options = (Inr start :: (Pool, unit fail) result)"
    "pool_steps toy_crypto (\<lambda>xs. xs) (\<lambda>_ _ new. new) start p"
    "pl_store p ! 1 = PooledLink_new ?seed Discovered (Pinned node)" "length (pl_store p) = 2"
    by (rule run) blast
  let ?l = "pl_store p ! 1"
  have "?l \<in> set (pl_store p)" by (rule nth_mem) (simp add: p(4))
  then have l: "?l \<in> set (pl_store p)" "ln_origin ?l = Discovered" "ln_seed ?l = ?seed" "ln_trust ?l = Pinned node"
    using p(3) by (simp_all add: PooledLink_new_def)
  have o: "shuffle_ok (\<lambda>xs. xs)" by (simp add: shuffle_ok_def)
  note t = discovery_within_budget [OF o p(1,2)]
  have "case ln_origin ?l of Bootstrap \<Rightarrow> ln_trust ?l = WebPki \<and> \<not> ln_gave_up ?l
    | Discovered \<Rightarrow> (\<exists>p' row rows node. pool_steps toy_crypto (\<lambda>xs. xs) (\<lambda>_ _ new. new) start p' \<and>
         pool_steps toy_crypto (\<lambda>xs. xs) (\<lambda>_ _ new. new) p' p \<and> Disc (DRows (row # rows)) \<in># pl_tasks p' \<and>
         dial_target_from_station_row row = Some (seed_host (ln_seed ?l), seed_port (ln_seed ?l), node) \<and>
         (if WebPki = WebPki \<and> is_ip_addr (seed_host (ln_seed ?l)) then \<exists>k. node = Some k \<and> ln_trust ?l = Pinned k
          else ln_trust ?l = WebPki))"
    using t l(1) by blast
  then obtain p' row rows where "pool_steps toy_crypto (\<lambda>xs. xs) (\<lambda>_ _ new. new) start p'" "Disc (DRows (row # rows)) \<in># pl_tasks p'"
    "dial_target_from_station_row row = Some (''10.0.0.1'', 4433, Some node)"
    using l(2-4) ip by auto
  moreover have "count_occupied_discovery_slots (map ((!) (pl_store p)) (pl_links p)) \<le> 5" using t on(2) by simp
  ultimately show ?thesis using p(1,2) l by blast
qed

text \<open>C17: A dropped call. A caller may drop the future of a call through the pool at any \<open>await\<close>. When it
  does so after the call has failed and won the link's claim, and before the life cycle is spawned
  that the claim stands for, then nothing ever releases the claim: the link is down with no task
  working on it, and whatever happens to the pool afterwards it is never dialed nor connected
  again, although the pool was not closed and the link is a bootstrap link.\<close>

theorem cancelled_call_loses_link:
  assumes "shuffle_ok shuffle" "\<not> sd_enabled (po_station_discovery options)" "connect C E n kp d = Inr s"
    "session_call C E' m s procedure realm payload deadline_ms kp = (Inl (Err e), s', m')"
  shows "\<exists>start p1 p. pool_connect [seed] trust kp options = (Inr start :: (Pool, 'e fail) result) \<and>
    (open_step C shuffle)\<^sup>*\<^sup>* start p1 \<and> pl_tasks p1 = {#Caller CallJob [0] CSpawn#} \<and> cancel_step p1 p \<and>
    pl_links p = [0] \<and> ln_origin (pl_store p ! 0) = Bootstrap \<and> \<not> pl_stop p \<and> pl_tasks p = {#} \<and> ln_redialing (pl_store p ! 0) \<and>
    (\<forall>W q. pool_steps C shuffle W p q \<longrightarrow>
       ln_session (pl_store q ! 0) = None \<and> \<not> is_connected q 0 \<and> (\<forall>pc. Life 0 pc \<notin># pl_tasks q))"
proof -
  obtain start l where l: "pool_connect [seed] trust kp options = (Inr start :: (Pool, 'e fail) result)"
    "(open_step C shuffle)\<^sup>*\<^sup>* start (one_link kp trust options l [Caller CallJob [0] CSpawn])"
    "cancel_step (one_link kp trust options l [Caller CallJob [0] CSpawn]) (one_link kp trust options l [])"
    "lost 0 (one_link kp trust options l [])" "ln_origin l = Bootstrap" "ln_redialing l"
    by (rule cancelled_run [OF assms(2-4)])
  let ?p = "one_link kp trust options l []"
  have b: "in_bounds ?p" by (simp add: in_bounds_def)
  have "ln_session (pl_store q ! 0) = None \<and> \<not> is_connected q 0 \<and> (\<forall>pc. Life 0 pc \<notin># pl_tasks q)"
    if "pool_steps C shuffle W ?p q" for W q
    using pool_steps_lost [OF assms(1) b l(4) that] by (auto simp: lost_def is_connected_def)
  with l show ?thesis
    by (intro exI [of _ start] exI [of _ "one_link kp trust options l [Caller CallJob [0] CSpawn]"] exI [of _ ?p]) simp
qed

theorem cancelled_call_loses_link_witness:
  "\<exists>start p1 p. pool_connect [demo_seed] WebPki demo_key demo_options = (Inr start :: (Pool, unit fail) result) \<and>
    (open_step toy_crypto (\<lambda>xs. xs))\<^sup>*\<^sup>* start p1 \<and> pl_tasks p1 = {#Caller CallJob [0] CSpawn#} \<and> cancel_step p1 p \<and>
    pl_tasks p = {#} \<and> ln_redialing (pl_store p ! 0) \<and>
    (\<forall>W q. pool_steps toy_crypto (\<lambda>xs. xs) W p q \<longrightarrow> \<not> is_connected q 0)"
proof (rule demo_dead_session)
  fix d s s' m' e
  assume d: "connect toy_crypto demo_env 0 demo_key d = Inr s"
    "session_call toy_crypto demo_env 0 s ''p'' (replicate 32 7) Null 9 demo_key = (Inl (Err e), s', m')"
  have o: "shuffle_ok (\<lambda>xs. xs)" "\<not> sd_enabled (po_station_discovery demo_options)"
    by (simp_all add: shuffle_ok_def demo_options_def PoolOptions_default_def StationDiscoveryOptions_default_def)
  from cancelled_call_loses_link [OF o d, of demo_seed WebPki, where 'e = unit] show ?thesis by blast
qed

text \<open>C30: A lost link. The guard against a second life cycle can lose a link for good: when a call fails
  after the link's session was stored and before its life cycle has released the claim, the link
  ends up down with no task working on it, and whatever happens to the pool afterwards it is never
  dialed nor connected again, although the pool was not closed and the link is a bootstrap link.\<close>

theorem lost_link_never_redialed:
  assumes "shuffle_ok shuffle" "\<not> sd_enabled (po_station_discovery options)" "connect C E n kp d = Inr s"
    "session_call C E' m s procedure realm payload deadline_ms kp = (Inl (Err e), s', m')"
  shows "\<exists>start p. pool_connect [seed] trust kp options = (Inr start :: (Pool, 'e fail) result) \<and>
    (open_step C shuffle)\<^sup>*\<^sup>* start p \<and> pl_links p = [0] \<and> ln_origin (pl_store p ! 0) = Bootstrap \<and> \<not> pl_stop p \<and> pl_tasks p = {#} \<and>
    (\<forall>W q. pool_steps C shuffle W p q \<longrightarrow>
       ln_session (pl_store q ! 0) = None \<and> \<not> is_connected q 0 \<and> (\<forall>pc. Life 0 pc \<notin># pl_tasks q))"
proof -
  obtain start l where l: "pool_connect [seed] trust kp options = (Inr start :: (Pool, 'e fail) result)"
    "(open_step C shuffle)\<^sup>*\<^sup>* start (one_link kp trust options l [])" "lost 0 (one_link kp trust options l [])" "ln_origin l = Bootstrap"
    by (rule lost_link_run [OF assms])
  let ?p = "one_link kp trust options l []"
  have b: "in_bounds ?p" by (simp add: in_bounds_def)
  have "ln_session (pl_store q ! 0) = None \<and> \<not> is_connected q 0 \<and> (\<forall>pc. Life 0 pc \<notin># pl_tasks q)"
    if "pool_steps C shuffle W ?p q" for W q
    using pool_steps_lost [OF assms(1) b l(3) that] by (auto simp: lost_def is_connected_def)
  with l show ?thesis by (intro exI [of _ start] exI [of _ ?p]) simp
qed

theorem lost_link_never_redialed_witness:
  "\<exists>start p. pool_connect [demo_seed] WebPki demo_key demo_options = (Inr start :: (Pool, unit fail) result) \<and>
    pool_steps toy_crypto (\<lambda>xs. xs) (\<lambda>_ _ new. new) start p \<and> pl_links p = [0] \<and> \<not> is_connected p 0 \<and> pl_tasks p = {#}"
proof (rule demo_dead_session)
  fix d s s' m' e
  assume d: "connect toy_crypto demo_env 0 demo_key d = Inr s"
    "session_call toy_crypto demo_env 0 s ''p'' (replicate 32 7) Null 9 demo_key = (Inl (Err e), s', m')"
  have o: "shuffle_ok (\<lambda>xs. xs)" "\<not> sd_enabled (po_station_discovery demo_options)"
    by (simp_all add: shuffle_ok_def demo_options_def PoolOptions_default_def StationDiscoveryOptions_default_def)
  from lost_link_never_redialed [OF o d, of demo_seed WebPki, where 'e = unit] show ?thesis
    by (blast intro: open_steps_pool rtranclp.rtrancl_refl)
qed

text \<open>C31: Close and the stop signal. \<open>close\<close> sends its stop signal on a channel whose receivers are the
  running background tasks. When all links are connected there is none, the signal is lost, and a
  caller whose call fails while \<open>close\<close> drains the links then dials again: after \<open>close\<close> has
  returned, the link is being dialed with the stop flag unset, and if the dial succeeds the closed
  pool's link holds a session that nothing will close.\<close>

theorem closed_pool_dials_again:
  assumes "watch_ok W" "\<not> sd_enabled (po_station_discovery options)" "connect C E n kp d = Inr s"
    "session_call C E' m s procedure realm payload deadline_ms kp = (Inl (Err e), s', m')"
  shows "\<exists>start p q. pool_connect [seed] trust kp options = (Inr start :: (Pool, 'e fail) result) \<and>
    pool_steps C shuffle W start p \<and> pl_links p = [] \<and> \<not> pl_stop p \<and> pl_tasks p = {#Life 0 LDial#} \<and>
    pool_steps C shuffle W p q \<and> ln_session (pl_store q ! 0) = Some s \<and> pl_tasks q = {#Life 0 LStored#}"
proof -
  obtain start l where l: "pool_connect [seed] trust kp options = (Inr start :: (Pool, 'e fail) result)"
    "pool_steps C shuffle W start (drained kp trust options l [Life 0 LDial])"
    by (rule close_run [OF assms])
  let ?D = "drained kp trust options"
  let ?i = "l\<lparr>ln_session := Some s, ln_peer_node_id := Some (he_node_id (station s))\<rparr>"
  have 1: "pool_step C shuffle W (?D l [Life 0 LDial]) (?D l [Life 0 (LInstall s)])"
    using life_dialed [of "?D l [Life 0 LDial]" 0 "{#}" C] assms(3) by (simp add: pool_life)
  have 2: "pool_step C shuffle W (?D l [Life 0 (LInstall s)]) (?D ?i [Life 0 LStored])"
    using life_install [of "?D l [Life 0 (LInstall s)]" 0 s "{#}" C] by (simp add: pool_life)
  have "pool_steps C shuffle W (?D l [Life 0 LDial]) (?D ?i [Life 0 LStored])"
    by (rule pool_then [OF 1], rule pool_then [OF 2], simp)
  with l show ?thesis by (intro exI [of _ start] exI [of _ "?D l [Life 0 LDial]"] exI [of _ "?D ?i [Life 0 LStored]"]) simp
qed

theorem closed_pool_dials_again_witness:
  "\<exists>start p. pool_connect [demo_seed] WebPki demo_key demo_options = (Inr start :: (Pool, unit fail) result) \<and>
    pool_steps toy_crypto (\<lambda>xs. xs) (\<lambda>receivers old new. if receivers then new else old) start p \<and>
    pl_links p = [] \<and> pl_tasks p = {#Life 0 LDial#}"
proof (rule demo_dead_session)
  fix d s s' m' e
  assume d: "connect toy_crypto demo_env 0 demo_key d = Inr s"
    "session_call toy_crypto demo_env 0 s ''p'' (replicate 32 7) Null 9 demo_key = (Inl (Err e), s', m')"
  have o: "watch_ok (\<lambda>receivers old new. if receivers then new else old)" "\<not> sd_enabled (po_station_discovery demo_options)"
    by (simp_all add: watch_ok_def demo_options_def PoolOptions_default_def StationDiscoveryOptions_default_def)
  from closed_pool_dials_again [OF o d, of demo_seed WebPki "\<lambda>xs. xs", where 'e = unit] show ?thesis by blast
qed

text \<open>C32: A pool that heard the signal. When the stop flag is set and the background tasks have been
  aborted while every link is still in the pool's list, then no link is ever dialed again, the flag
  stays set, and a session is left only in a link that is still in the list or that \<open>close\<close> has taken
  out of it and is about to close: once \<open>close\<close> has drained the list no link has a session, and it
  stays so.\<close>

theorem stopped_pool_stays_closed:
  assumes "shuffle_ok shuffle" "watch_ok W" "pool_connect seeds trust kp options = (Inr start :: (Pool, 'e fail) result)"
    "pool_steps C shuffle W start p" "pl_stop p" "set (pl_links p) = {..<length (pl_store p)}"
    "pl_tasks p = add_mset (Closer CloShutdown) ts" "\<forall>t \<in># ts. is_background t \<longrightarrow> awaits t"
    "pool_steps C shuffle W (with_tasks p (add_mset (Closer CloDrain) (filter_mset (\<lambda>t. \<not> is_background t) ts))) q"
  shows "pl_stop q \<and> (\<forall>i. Life i LDial \<notin># pl_tasks q) \<and>
    (\<forall>i < length (pl_store q). i \<in> set (pl_links q) \<or> held q i \<or> ln_session (pl_store q ! i) = None) \<and>
    (pl_links q = [] \<and> (\<forall>cs. Closer (CloHold cs) \<notin># pl_tasks q) \<longrightarrow> (\<forall>l \<in> set (pl_store q). ln_session l = None))"
proof -
  let ?p = "with_tasks p (add_mset (Closer CloDrain) (filter_mset (\<lambda>t. \<not> is_background t) ts))"
  have "in_bounds p" using reachable_claims [OF assms(1,3,4)] by blast
  then have b: "in_bounds ?p" using assms(7) by (auto simp: in_bounds_def)
  have "winding_down ?p" using assms(5,6) by (auto simp: winding_down_def split: task.splits)
  then have w: "winding_down q" using pool_steps_winding_down [OF assms(1,2) b _ assms(9)] by blast
  then have "pl_stop q \<and> (\<forall>i. Life i LDial \<notin># pl_tasks q)" by (fastforce simp: winding_down_def)
  moreover have "\<forall>i < length (pl_store q). i \<in> set (pl_links q) \<or> held q i \<or> ln_session (pl_store q ! i) = None"
    using w by (simp add: winding_down_def)
  moreover from this have "\<forall>l \<in> set (pl_store q). ln_session l = None" if "pl_links q = []" "\<forall>cs. Closer (CloHold cs) \<notin># pl_tasks q"
    using that by (simp add: held_def all_set_conv_all_nth)
  ultimately show ?thesis by blast
qed

theorem stopped_pool_stays_closed_witness:
  "\<exists>start p q. pool_connect [demo_seed] WebPki demo_key demo_options = (Inr start :: (Pool, unit fail) result) \<and>
    pool_steps toy_crypto (\<lambda>xs. xs) (\<lambda>receivers old new. if receivers then new else old) start p \<and>
    pl_tasks p = {#Closer CloShutdown, Life 0 LDial#} \<and>
    pool_steps toy_crypto (\<lambda>xs. xs) (\<lambda>receivers old new. if receivers then new else old) p q \<and>
    pl_links q = [] \<and> pl_tasks q = {#} \<and> pl_stop q \<and> (\<forall>l \<in> set (pl_store q). ln_session l = None)"
proof -
  let ?W = "\<lambda>receivers old new :: bool. if receivers then new else old"
  let ?P = "one_link demo_key WebPki demo_options ((PooledLink_new demo_seed Bootstrap WebPki)\<lparr>ln_redialing := True\<rparr>)"
  let ?p = "(?P [Closer CloShutdown, Life 0 LDial])\<lparr>pl_stop := True\<rparr>"
  let ?r = "with_tasks ?p (add_mset (Closer CloDrain) (filter_mset (\<lambda>t. \<not> is_background t) {#Life 0 LDial#}))"
  let ?h = "with_tasks (?r\<lparr>pl_links := []\<rparr>) {#Closer (CloHold [0])#}"
  let ?d = "with_tasks (set_link 0 drop_session ?h) {#Closer (CloHold [])#}"
  let ?q = "with_tasks ?d {#}"
  let ?run = "pool_steps toy_crypto (\<lambda>xs. xs) ?W"
  have o: "shuffle_ok (\<lambda>xs. xs)" "watch_ok ?W" by (simp_all add: shuffle_ok_def watch_ok_def)
  have 1: "pool_step toy_crypto (\<lambda>xs. xs) ?W (?P [Life 0 LSpawned]) (?P [Life 0 LTop])"
    using life_start [of "?P [Life 0 LSpawned]" 0 "{#}" toy_crypto] by (simp add: pool_life)
  have 2: "pool_step toy_crypto (\<lambda>xs. xs) ?W (?P [Life 0 LTop]) (?P [Life 0 LDial])"
    using life_dial [of "?P [Life 0 LTop]" 0 "{#}" toy_crypto] by (simp add: pool_life)
  have 3: "pool_step toy_crypto (\<lambda>xs. xs) ?W (?P [Life 0 LDial]) ?p"
    using close_start [of ?W "?P [Life 0 LDial]"] by (simp add: pool_close spawn_task_def one_link_def)
  have reach: "?run (?P [Life 0 LSpawned]) ?p" by (rule pool_then [OF 1], rule pool_then [OF 2], rule pool_then [OF 3], simp)
  have 4: "pool_step toy_crypto (\<lambda>xs. xs) ?W ?p ?r"
    by (rule pool_close, rule close_shutdown) (simp_all add: one_link_def)
  have 5: "pool_step toy_crypto (\<lambda>xs. xs) ?W ?r ?h"
    using close_lock [of ?r "{#}" ?W] by (simp add: pool_close one_link_def)
  have 6: "pool_step toy_crypto (\<lambda>xs. xs) ?W ?h ?d"
    using close_drain [of ?h 0 "[]" "{#}" ?W] by (simp add: pool_close)
  have 7: "pool_step toy_crypto (\<lambda>xs. xs) ?W ?d ?q"
    using close_done [of ?d "{#}" ?W] by (simp add: pool_close)
  have drain: "?run ?r ?q" by (rule pool_then [OF 5], rule pool_then [OF 6], rule pool_then [OF 7], simp)
  have p: "pl_stop ?p" "set (pl_links ?p) = {..<length (pl_store ?p)}" "pl_tasks ?p = add_mset (Closer CloShutdown) {#Life 0 LDial#}"
    "\<forall>t \<in># {#Life 0 LDial#}. is_background t \<longrightarrow> awaits t" "pl_links ?q = []" "pl_tasks ?q = {#}" by (auto simp: one_link_def)
  note t = stopped_pool_stays_closed [OF o connect_demo [where 'e = unit] reach p(1-4) drain]
  have "\<forall>l \<in> set (pl_store ?q). ln_session l = None" "pl_stop ?q" using t p(5,6) by auto
  then show ?thesis using connect_demo reach pool_then [OF 4 drain] p by (metis (no_types, lifting))
qed

text \<open>C21: A call through the pool. The connected links are asked in turn, each on the session it has,
  and those without a session are passed over. The first that does not fail decides: the call
  returns its response, the failures before it are exactly those of the links asked before it, and
  the links after it are not asked. When all of them fail, the call fails with the error of the last
  one asked, or with no healthy station when none had a session. The pool changes in nothing but
  this: a link whose call failed loses its session, counts as disconnected and is claimed for
  redialing, with one life cycle spawned for it unless it was claimed already; the link that
  answered keeps its session as the call left it.\<close>

theorem pool_call_outcome:
  assumes "shuffle_ok shuffle" "pool_connect seeds trust kp options = (Inr start :: (Pool, 'e fail) result)"
    "pool_steps C' shuffle W start p" "pool_call shuffle C E n procedure realm payload deadline_ms p = (r, q, n')"
  shows "\<exists>pre post errs m. select_connected_links shuffle p = pre @ post \<and>
    mset (pre @ post) = mset (filter (is_connected p) (pl_links p)) \<and>
    failed_calls C E procedure realm payload deadline_ms p pre n = Some (errs, m) \<and>
    (case r of
       Inl (Err e) \<Rightarrow> post = [] \<and> n' = m \<and> q = left_behind p (map fst errs) None \<and>
         e = (if errs = [] then CallNoHealthyStation else CallAllFailed (snd (last errs)))
     | Inl Panic \<Rightarrow> \<exists>i rest s s'. post = i # rest \<and> ln_session (pl_store p ! i) = Some s \<and>
         session_call C E m s procedure realm payload deadline_ms (pl_identity p) = (Inl Panic, s', n') \<and>
         q = left_behind p (map fst errs) (Some (i, s'))
     | Inr response \<Rightarrow> \<exists>i rest s s'. post = i # rest \<and> ln_session (pl_store p ! i) = Some s \<and>
         session_call C E m s procedure realm payload deadline_ms (pl_identity p) = (Inr response, s', n') \<and>
         q = left_behind p (map fst errs) (Some (i, s')))"
proof -
  have b: "in_bounds p" using reachable_claims [OF assms(1-3)] by blast
  note c = candidates_facts [OF assms(1) b]
  have "call_candidates C E procedure realm payload deadline_ms (select_connected_links shuffle p) None (p, n) = (r, q, n')"
    using assms(4) by (auto simp: pool_call_def Let_def split: if_splits)
  from call_candidates_outcome [OF this c(2,3)] show ?thesis unfolding option.case using c(1) by (elim exE conjE) (intro exI conjI; simp)
qed

theorem pool_call_outcome_witness:
  "\<exists>start p c q n'. pool_connect [demo_seed] WebPki demo_key demo_options = (Inr start :: (Pool, unit fail) result) \<and>
    pool_steps toy_crypto (\<lambda>xs. xs) (\<lambda>_ _ new. new) start p \<and> is_connected p 0 \<and>
    pool_call (\<lambda>xs. xs) toy_crypto demo_env 0 ''p'' (replicate 32 7) Null 9 p = (Inl (Err (CallAllFailed c)), q, n') \<and>
    failed_calls toy_crypto demo_env ''p'' (replicate 32 7) Null 9 p [0] 0 = Some ([(0, c)], n') \<and>
    q = left_behind p [0] None \<and> ln_session (pl_store q ! 0) = None"
proof (rule demo_dead_session)
  fix d s s' m' e
  assume d: "connect toy_crypto demo_env 0 demo_key d = Inr s"
    "session_call toy_crypto demo_env 0 s ''p'' (replicate 32 7) Null 9 demo_key = (Inl (Err e), s', m')"
  let ?l = "(PooledLink_new demo_seed Bootstrap WebPki)\<lparr>ln_redialing := True\<rparr>"
  let ?p = "one_link demo_key WebPki demo_options
    (?l\<lparr>ln_session := Some s, ln_peer_node_id := Some (he_node_id (station s)), ln_connected := True\<rparr>) [Life 0 LReset]"
  note dials = open_steps_pool [OF one_link_dials [OF d(1), of "\<lambda>xs. xs" WebPki demo_options ?l "[]"]]
  let ?q = "mark_disconnected 0 (install 0 s' ?p)"
  have call: "pool_call (\<lambda>xs. xs) toy_crypto demo_env 0 ''p'' (replicate 32 7) Null 9 ?p = (Inl (Err (CallAllFailed e)), ?q, m')"
    using d(2) by (simp add: pool_call_def select_one_link)
  have sel: "select_connected_links (\<lambda>xs. xs) ?p = [0]" by (simp add: select_one_link)
  have failed: "failed_calls toy_crypto demo_env ''p'' (replicate 32 7) Null 9 ?p [0] 0 = Some ([(0, e)], m')" using d(2) by simp
  have o: "shuffle_ok (\<lambda>xs. xs)" by (simp add: shuffle_ok_def)
  obtain pre post errs m where "[0] = pre @ post" "post = []" "?q = left_behind ?p (map fst errs) None"
    "failed_calls toy_crypto demo_env ''p'' (replicate 32 7) Null 9 ?p pre 0 = Some (errs, m)"
    using pool_call_outcome [OF o connect_demo [where 'e = unit] dials call] unfolding sel sum.case fail.case by blast
  then have "?q = left_behind ?p [0] None" using failed by simp
  moreover from this have "ln_session (pl_store ?q ! 0) = None" by (simp add: left_behind_nth)
  ultimately show ?thesis using connect_demo [where 'e = unit] dials call failed
    by (intro exI [of _ "one_link demo_key WebPki demo_options ?l [Life 0 LSpawned]"] exI [of _ ?p] exI [of _ e] exI [of _ ?q] exI [of _ m'])
      (simp add: is_connected_def)
qed

text \<open>C22: The operations and the interleaving. A call and a publish through the pool and a round of discovery, each as one
  sequential operation, are runs of the interleaving model: what holds of every interleaving holds of them. A round
  of discovery that panics leaves no discovery task, any other leaves it asleep.\<close>

theorem pool_operations_are_runs:
  "pool_steps C shuffle W p (fst (snd (pool_call shuffle C E n procedure realm payload deadline_ms p))) \<and>
   pool_steps C shuffle W p (fst (snd (pool_publish shuffle C E n spec p))) \<and>
   (case discover_once shuffle C E n p of (r, q, _) \<Rightarrow>
      pool_steps C shuffle W (spawn_task (Disc DQuery) p) (if r = Inl Panic then q else spawn_task (Disc DSleep) q))"
  using pool_call_run [of shuffle C E n procedure realm payload deadline_ms p] pool_publish_run [of shuffle C E n spec p]
    discover_once_run [of shuffle C E n p]
  by (metis (no_types, lifting) case_prodI2 prod.collapse)

text \<open>Finding the stations' realm. The name under which the station list of a realm is advertised
  gives back exactly that realm.\<close>

theorem list_stations_realm_roundtrip:
  assumes "length realm = 32"
  shows "try_match_list_stations_realm (discovery_uri realm LIST_STATIONS_PROCEDURE) = (Inr (Some realm) :: (_, 'e fail) result)"
proof -
  have "discovery_uri realm LIST_STATIONS_PROCEDURE = concat (map hex_byte realm) @ (''/'' @ LIST_STATIONS_PROCEDURE)"
    by (simp add: discovery_uri_def)
  then show ?thesis using assms
    by (simp only: try_match_list_stations_realm_def strip_suffix_append option.case) (simp add: hex_decode_bytes to_array_def)
qed

theorem list_stations_realm_roundtrip_witness:
  "try_match_list_stations_realm (discovery_uri (replicate 32 7) LIST_STATIONS_PROCEDURE) =
    (Inr (Some (replicate 32 7)) :: (_, unit fail) result)"
  by (rule list_stations_realm_roundtrip) simp

text \<open>C39: The end of discovery. A record that any key holder can publish, signed and verifying, with a
  procedure name of 64 bytes before the suffix in which a two-byte character straddles a pair, makes
  the discovery task panic when the DHT answers with it, and the pool never has a discovery task
  again.\<close>

theorem discovery_panics_on_uri:
  assumes "crypto_ok C" "wf_keypair kp" "wf_keypair (pl_identity p)" "env_ok E" "length uuid = 16" "length server = 32"
    "in_range created" "in_range (created + int (advertised_ttl ttl))" "now < created + int (advertised_ttl ttl)"
    "sign_record C (new_procedure_advertisement created uuid (node_id C kp) odd_uri server ttl) kp = (Inr signed_record :: (Record, 'e fail) result)"
    "uint (env_now_ms E n) + DHT_TIMEOUT < 2 ^ 64" "serves E (n + 4) [normal (List [to_rpc_value signed_record])] (control s)"
    "pl_tasks p = add_mset (Disc DQuery) ts" "\<forall>pc. Disc pc \<notin># ts" "find (is_connected p) (pl_links p) = Some i" "ln_session (pl_store p ! i) = Some s"
  shows "first_list_stations_realm C now [record_normal signed_record] = (Inl Panic :: (_, unit fail) result) \<and>
    (\<exists>q. disc_step C p q \<and> (\<forall>shuffle W r. pool_steps C shuffle W q r \<longrightarrow> (\<forall>pc. Disc pc \<notin># pl_tasks r)))"
proof -
  let ?r = "new_procedure_advertisement created uuid (node_id C kp) odd_uri server ttl"
  have node: "length (node_id C kp) = 32" by (simp add: node_id_def length_public_bytes [OF assms(1,2)])
  have wf: "wf_record ?r" by (rule wf_advertisement [OF node assms(5) odd_uri_facts(1) assms(7,8)])
  have key: "rc_key ?r = node_id C kp" by (simp add: new_procedure_advertisement_def new_envelope_def Let_def)
  have s: "wf_record signed_record" "record_authentic C signed_record" "signed_record = ?r\<lparr>rc_signature := rc_signature signed_record\<rparr>"
    using sign_record_ok [OF assms(1,2) wf key, where 'e = 'e] assms(10) by auto
  have fields: "rc_payload signed_record = rc_payload ?r" "rc_record_type signed_record = TYPE_PROCEDURE_ADVERTISEMENT"
    "rc_expires_at (record_normal signed_record) = created + int (advertised_ttl ttl)"
    by (subst s(3), simp add: new_procedure_advertisement_def new_envelope_def Let_def record_normal_def advertised_ttl_def)+
  have "verify_record C now (record_normal signed_record) = Inr ()"
    using s(1,2) assms(9) by (simp add: verify_record_verdict wf_record_normal record_authentic_normal fields(3))
  with read_advertisement_normal [OF fields(1,2) node assms(6) odd_uri_facts(1)]
  have panic: "first_list_stations_realm C now [record_normal signed_record] = (Inl Panic :: (_, unit fail) result)"
    by (simp add: odd_uri_facts(2))
  have args: "frame_ok (Map [(Text ''type'', IntV 6)])" "vdepth (Map [(Text ''type'', IntV 6)]) < 128"
    "esize (Map [(Text ''type'', IntV 6)]) \<le> wire_room - 1024" "ascii ''_dht.find_records_by_type''"
    by (simp_all add: frame_ok_Map ascii_def in_range_def wire_room_def MAX_FRAME_BYTES_def)
  have "dht_times_ok E n" using assms(11) by (simp add: dht_times_ok_def)
  then obtain s' responder where "dht_call C E n s (pl_identity p) ''_dht.find_records_by_type'' (Map [(Text ''type'', IntV 6)]) =
      (Inr (CallResult (normal (List [to_rpc_value signed_record])) responder), s', n + 7)"
    by (rule dht_call_served [OF assms(1,3,4) _ args(4) _ args(1-3) assms(12) [unfolded serves_Cons]]) simp
  moreover have "length (rc_signature signed_record) = 64" using s(2) by (simp add: record_authentic_def)
  ultimately have found: "find_records_by_type C E n s (pl_identity p) TYPE_PROCEDURE_ADVERTISEMENT = (Inr [record_normal signed_record], s', n + 7)"
    using record_of_answer(2) [OF s(1)] by (simp add: find_records_by_type_def TYPE_PROCEDURE_ADVERTISEMENT_def)
  have "disc_step C p (with_tasks (install i s' p) ts)"
    by (rule disc_panicked [OF assms(13,15,16) found panic])
  moreover have "\<forall>pc. Disc pc \<notin># pl_tasks r" if "pool_steps C shuffle W (with_tasks (install i s' p) ts) r" for shuffle W r
    using pool_steps_no_disc [OF that] assms(14) by simp
  ultimately show ?thesis using panic by blast
qed

theorem discovery_panics_on_uri_witness:
  "\<exists>r p q. verify_record toy_crypto 1499 r = Inr () \<and>
    first_list_stations_realm toy_crypto 1499 [r] = (Inl Panic :: (_, unit fail) result) \<and>
    Disc DQuery \<in># pl_tasks p \<and> disc_step toy_crypto p q \<and>
    (\<forall>shuffle W r. pool_steps toy_crypto shuffle W q r \<longrightarrow> (\<forall>pc. Disc pc \<notin># pl_tasks r))"
proof -
  let ?r = "new_procedure_advertisement 1000 (replicate 16 0) (node_id toy_crypto demo_key) odd_uri (replicate 32 1) 500"
  have node: "length (node_id toy_crypto demo_key) = 32" by (simp add: node_id_def length_public_bytes [OF toy_crypto_ok wf_demo_key])
  have wf: "wf_record ?r" by (rule wf_advertisement [OF node _ odd_uri_facts(1)]) (simp_all add: in_range_def advertised_ttl_def)
  have key: "rc_key ?r = node_id toy_crypto demo_key" by (simp add: new_procedure_advertisement_def new_envelope_def Let_def)
  obtain sr where sr: "sign_record toy_crypto ?r demo_key = (Inr sr :: (Record, unit fail) result)" "wf_record sr"
    "record_authentic toy_crypto sr" "sr = ?r\<lparr>rc_signature := rc_signature sr\<rparr>"
    by (rule sign_record_ok [OF toy_crypto_ok wf_demo_key wf key])
  have sig: "length (rc_signature sr) = 64" using sr(3) by (simp add: record_authentic_def)
  have "vdepth (List [to_rpc_value sr]) < 128" "esize (List [to_rpc_value sr]) \<le> wire_room - 512"
    using sig by (subst sr(4), simp add: to_rpc_value_def new_procedure_advertisement_def new_envelope_def
      Let_def node wire_room_def MAX_FRAME_BYTES_def odd_uri_def LIST_STATIONS_PROCEDURE_def)+
  then have "outcome_fits (HandlerOk (List [to_rpc_value sr]))"
    using frame_ok_wfv [OF frame_ok_to_rpc_value [OF sr(2)]] by (simp add: outcome_fits_def)
  then obtain b where "frames_answer demo_env (0 + 4) [normal (List [to_rpc_value sr])] b"
    using answers_exist [OF toy_crypto_ok wf_demo_key demo_env_ok, of "[List [to_rpc_value sr]]" "0 + 4"] by auto
  then have st: "serves demo_env (0 + 4) [normal (List [to_rpc_value sr])] (control \<lparr>control = fresh_stream [ReadChunk b], session_open_bi = (\<lambda>_. None), station = demo_hello\<rparr>)"
    by (simp add: serves_fresh)
  let ?l = "(PooledLink_new demo_seed Bootstrap WebPki)\<lparr>ln_connected := True,
    ln_session := Some \<lparr>control = fresh_stream [ReadChunk b], session_open_bi = (\<lambda>_. None), station = demo_hello\<rparr>\<rparr>"
  let ?p = "one_link demo_key WebPki demo_options ?l [Disc DQuery]"
  have p: "pl_tasks ?p = add_mset (Disc DQuery) {#}" "\<forall>pc. Disc pc \<notin># ({#} :: task multiset)" "find (is_connected ?p) (pl_links ?p) = Some 0"
    "ln_session (pl_store ?p ! 0) = Some \<lparr>control = fresh_stream [ReadChunk b], session_open_bi = (\<lambda>_. None), station = demo_hello\<rparr>" "wf_keypair (pl_identity ?p)"
    by (simp_all add: is_connected_def wf_demo_key)
  have "first_list_stations_realm toy_crypto 1499 [record_normal sr] = (Inl Panic :: (_, unit fail) result) \<and>
    (\<exists>q. disc_step toy_crypto ?p q \<and> (\<forall>shuffle W r. pool_steps toy_crypto shuffle W q r \<longrightarrow> (\<forall>pc. Disc pc \<notin># pl_tasks r)))"
    by (rule discovery_panics_on_uri [OF toy_crypto_ok wf_demo_key p(5) demo_env_ok _ _ _ _ _ sr(1) _ st p(1-4)])
      (simp_all add: in_range_def advertised_ttl_def demo_env_def DHT_TIMEOUT_def)
  moreover have "rc_expires_at (record_normal sr) = 1500"
    by (subst sr(4)) (simp add: record_normal_def new_procedure_advertisement_def new_envelope_def Let_def)
  then have "verify_record toy_crypto 1499 (record_normal sr) = Inr ()"
    using sr(2,3) by (simp add: verify_record_verdict wf_record_normal record_authentic_normal)
  moreover have "Disc DQuery \<in># pl_tasks ?p" by simp
  ultimately show ?thesis by blast
qed

end
