(* ===== verification/Stream.thy ===== *)
theory Stream
  imports Connection
begin

section \<open>Stream: streaming RPC over a dedicated stream (\<open>src/stream.rs\<close>)\<close>

text \<open>
  \<open>StreamHandle\<close> in both roles. What opening or accepting the QUIC stream returns is an argument, which
  a caller with a session fills with what the session's connection opens;
  the timer around \<open>recv\<close> and \<open>await_reply\<close> is the read event \<open>ReadTimeout\<close> of the stream, and
  the timer of \<open>accept\<close> is one of the outcomes of accepting, since it covers nothing else.
\<close>

record StreamHandle =
  sh_stream :: FrameStream
  sh_stream_id :: bytes
  sh_mode :: StreamMode
  sh_seq_out :: u64

datatype OpenError = OpenStreamFailed | OpenSend SendFrameError

datatype AcceptError = AcceptStreamFailed | AcceptTimeout | AcceptRecv RecvFrameError | AcceptParse ParseStreamOpenError

datatype StreamItem = ItemData u64 StreamEncoding Value | ItemEof

datatype RecvStreamError =
    StreamRecv RecvFrameError
  | StreamParse ParseStreamEventError
  | PeerAborted string string
  | StreamIdMismatch
  | UnexpectedFrame

datatype accepting = AcceptTimesOut | AcceptFails | Accepted FrameStream

subsection \<open>Opening and accepting\<close>

definition open_handle ::
  "crypto \<Rightarrow> env \<Rightarrow> nat \<Rightarrow> FrameStream option \<Rightarrow> string \<Rightarrow> bytes \<Rightarrow> StreamMode \<Rightarrow> Value \<Rightarrow> int \<Rightarrow> KeyPair
    \<Rightarrow> (StreamHandle, OpenError fail) result" where
  "open_handle C E n opened procedure realm md args deadline_ms kp =
    (case opened of
       None \<Rightarrow> Inl (Err OpenStreamFailed)
     | Some stream \<Rightarrow>
         (let stream_id = env_id E n;
              spec = StreamOpenSpec_new stream_id procedure realm md args deadline_ms (node_id C kp) in
          case send_signed C kp (stream_open_value spec (env_frame_id E n) (env_now_ms E n)) stream of
            (Inl e, _) \<Rightarrow> Inl (lift_fail OpenSend e)
          | (Inr _, stream') \<Rightarrow>
              Inr \<lparr>sh_stream = stream', sh_stream_id = stream_id, sh_mode = md, sh_seq_out = 0\<rparr>))"

definition accept_handle :: "accepting \<Rightarrow> (StreamHandle \<times> StreamOpenInfo, AcceptError fail) result" where
  "accept_handle accepting =
    (case accepting of
       AcceptTimesOut \<Rightarrow> Inl (Err AcceptTimeout)
     | AcceptFails \<Rightarrow> Inl (Err AcceptStreamFailed)
     | Accepted stream \<Rightarrow>
         (case recv_frame stream of
            (r, stream') \<Rightarrow>
              bindR (map_err (lift_fail AcceptRecv) r) (\<lambda>first.
              bindR (map_err (\<lambda>e. Err (AcceptParse e)) (parse_stream_open first)) (\<lambda>info.
                Inr (\<lparr>sh_stream = stream', sh_stream_id = si_stream_id info, sh_mode = si_mode info, sh_seq_out = 0\<rparr>, info)))))"

subsection \<open>Sending\<close>

definition handle_send ::
  "crypto \<Rightarrow> KeyPair \<Rightarrow> Value \<Rightarrow> StreamHandle \<Rightarrow> (unit, SendFrameError fail) result \<times> StreamHandle" where
  "handle_send C kp frame h =
    (case send_signed C kp frame (sh_stream h) of (r, stream) \<Rightarrow> (r, h\<lparr>sh_stream := stream\<rparr>))"

definition send_reply ::
  "crypto \<Rightarrow> env \<Rightarrow> nat \<Rightarrow> Value \<Rightarrow> KeyPair \<Rightarrow> StreamHandle \<Rightarrow> (unit, SendFrameError fail) result \<times> StreamHandle" where
  "send_reply C E n payload kp h =
    (let spec = StreamReplySpec_new (sh_stream_id h) payload (node_id C kp) in
     handle_send C kp (stream_reply_value spec (env_frame_id E n) (env_now_ms E n)) h)"

text \<open>\<open>self.seq_out += 1\<close> where additions are checked; it wraps around where they are not.\<close>

definition seq_overflows :: "env \<Rightarrow> StreamHandle \<Rightarrow> bool" where
  "seq_overflows E h \<longleftrightarrow> env_overflow_checks E \<and> 2 ^ 64 \<le> uint (sh_seq_out h) + 1"

definition send_data ::
  "crypto \<Rightarrow> env \<Rightarrow> nat \<Rightarrow> StreamEncoding \<Rightarrow> Value \<Rightarrow> KeyPair \<Rightarrow> StreamHandle
    \<Rightarrow> (unit, SendFrameError fail) result \<times> StreamHandle" where
  "send_data C E n encoding body kp h =
    (let spec = StreamDataSpec_new (sh_stream_id h) (sh_seq_out h) encoding body (Some (public_bytes C kp));
         h' = h\<lparr>sh_seq_out := sh_seq_out h + 1\<rparr> in
     if seq_overflows E h then (Inl Panic, h)
     else handle_send C kp (stream_data_value spec (env_frame_id E n) (env_now_ms E n)) h')"

definition close_send ::
  "crypto \<Rightarrow> env \<Rightarrow> nat \<Rightarrow> KeyPair \<Rightarrow> StreamHandle \<Rightarrow> (unit, SendFrameError fail) result \<times> StreamHandle" where
  "close_send C E n kp h =
    (let spec = StreamEndSpec_new (sh_stream_id h) RoleSend (Some (public_bytes C kp)) in
     handle_send C kp (stream_end_value spec (env_frame_id E n) (env_now_ms E n)) h)"

text \<open>\<open>abort\<close> consumes the handle; what it leaves is what was written.\<close>

definition abort ::
  "crypto \<Rightarrow> env \<Rightarrow> nat \<Rightarrow> string \<Rightarrow> string \<Rightarrow> KeyPair \<Rightarrow> StreamHandle \<Rightarrow> (bytes, unit fail) result" where
  "abort C E n code message kp h =
    (let spec = StreamErrorSpec_new (sh_stream_id h) code message (Some (public_bytes C kp)) in
     case handle_send C kp (stream_error_value spec (env_frame_id E n) (env_now_ms E n)) h of
       (Inl Panic, _) \<Rightarrow> Inl Panic
     | (_, h') \<Rightarrow> Inr (fs_sent (sh_stream h')))"

subsection \<open>Receiving\<close>

definition check_stream_id :: "StreamHandle \<Rightarrow> bytes \<Rightarrow> (unit, RecvStreamError fail) result" where
  "check_stream_id h stream_id = (if stream_id = sh_stream_id h then Inr () else Inl (Err StreamIdMismatch))"

definition recv_event_on ::
  "(StreamEvent \<Rightarrow> ('a, RecvStreamError fail) result) \<Rightarrow> StreamHandle \<Rightarrow> ('a, RecvStreamError fail) result \<times> StreamHandle" where
  "recv_event_on react h =
    (case recv_frame (sh_stream h) of
       (r, stream) \<Rightarrow>
         (bindR (map_err (lift_fail StreamRecv) r) (\<lambda>frame.
          bindR (map_err (\<lambda>e. Err (StreamParse e)) (parse_stream_event frame)) react), h\<lparr>sh_stream := stream\<rparr>))"

definition recv_item :: "StreamHandle \<Rightarrow> (StreamItem, RecvStreamError fail) result \<times> StreamHandle" where
  "recv_item h =
    recv_event_on (\<lambda>event.
      case event of
        StreamData stream_id seq encoding body \<Rightarrow>
          bindR (check_stream_id h stream_id) (\<lambda>_. Inr (ItemData seq encoding body))
      | StreamEnd stream_id role \<Rightarrow> bindR (check_stream_id h stream_id) (\<lambda>_. Inr ItemEof)
      | StreamError stream_id code message \<Rightarrow>
          bindR (check_stream_id h stream_id) (\<lambda>_. Inl (Err (PeerAborted code message)))
      | StreamReply stream_id payload responded_by \<Rightarrow> Inl (Err UnexpectedFrame)) h"

definition await_reply :: "StreamHandle \<Rightarrow> (Value \<times> bytes, RecvStreamError fail) result \<times> StreamHandle" where
  "await_reply h =
    recv_event_on (\<lambda>event.
      case event of
        StreamReply stream_id payload responded_by \<Rightarrow>
          bindR (check_stream_id h stream_id) (\<lambda>_. Inr (payload, responded_by))
      | StreamError stream_id code message \<Rightarrow>
          bindR (check_stream_id h stream_id) (\<lambda>_. Inl (Err (PeerAborted code message)))
      | _ \<Rightarrow> Inl (Err UnexpectedFrame)) h"

end
