(* ===== verification/StreamProps.thy ===== *)
theory StreamProps
  imports Stream ConnProps
begin

section \<open>StreamProps: what a stream delivers\<close>

text \<open>
  A stream that is opened is accepted with what it was opened with; the chunks sent on one end come
  out of the other in order, then the end; the reply reaches its waiter; and nothing that names
  another stream is delivered.
\<close>

subsection \<open>The frames of a stream\<close>

lemmas bounded_frame = bounded_with_fields [OF bounded_base [of _ _ MAX_NESTING_DEPTH]]

lemma bounded_signer:
  assumes "bounded n d v" "1 \<le> d" "case s of Some k \<Rightarrow> length k \<le> 32 | None \<Rightarrow> True"
  shows "bounded (n + 114) d (with_optional_signer v s)"
proof (cases s)
  case None
  then show ?thesis using assms(1) bounded_mono by (fastforce simp: with_optional_signer_def)
next
  case (Some k)
  have "bounded (n + 73 + 41) d (with_field v ''signer'' (Bytes k))"
    by (rule bounded_with_field [OF assms(1)]) (use assms Some in \<open>simp_all add: ascii_valid_str ascii_def\<close>)
  then show ?thesis by (simp add: Some with_optional_signer_def add.commute)
qed

lemma bounded_stream_open:
  assumes "wfv (so_args spec)" "in_range (so_deadline_ms spec)" "vdepth (so_args spec) < 128"
    "esize (so_args spec) + length (so_procedure spec) + length (so_stream_id spec) + length (so_realm spec) +
      length (so_caller spec) + length (so_source_route spec) \<le> wire_room" "length frame_id \<le> 64"
  shows "bounded (MAX_FRAME_BYTES - 512) MAX_NESTING_DEPTH (stream_open_value spec frame_id ms)"
  unfolding stream_open_value_def
  by (rule bounded_frame; cases "so_mode spec")
    (use assms in \<open>simp_all add: ascii_def ascii_valid_str in_range_def MAX_NESTING_DEPTH_def wire_room_def MAX_FRAME_BYTES_def\<close>)

lemma bounded_stream_data:
  assumes "wfv (sd_body spec)" "vdepth (sd_body spec) < 128" "esize (sd_body spec) + length (sd_stream_id spec) \<le> wire_room"
    "length frame_id \<le> 64" "case sd_signer spec of Some k \<Rightarrow> length k \<le> 32 | None \<Rightarrow> True"
  shows "bounded (MAX_FRAME_BYTES - 512) MAX_NESTING_DEPTH (stream_data_value spec frame_id ms)"
proof -
  have "bounded (MAX_FRAME_BYTES - 700) MAX_NESTING_DEPTH (with_fields (Map (base ''stream_data'' 0 frame_id ms))
      [(''stream_id'', Bytes (sd_stream_id spec)), (''seq'', IntV (uint (sd_seq spec))),
       (''encoding'', Text (encoding_name (sd_encoding spec))), (''body'', sd_body spec)])"
    by (rule bounded_frame; cases "sd_encoding spec")
      (use assms in \<open>simp_all add: ascii_def ascii_valid_str MAX_NESTING_DEPTH_def wire_room_def MAX_FRAME_BYTES_def\<close>)
  from bounded_signer [OF this _ assms(5)] show ?thesis unfolding stream_data_value_def
    by (rule bounded_mono) (simp_all add: MAX_NESTING_DEPTH_def MAX_FRAME_BYTES_def)
qed

lemma bounded_stream_end:
  assumes "length (se_stream_id spec) \<le> 64" "length frame_id \<le> 64" "case se_signer spec of Some k \<Rightarrow> length k \<le> 32 | None \<Rightarrow> True"
  shows "bounded (MAX_FRAME_BYTES - 512) MAX_NESTING_DEPTH (stream_end_value spec frame_id ms)"
proof -
  have "bounded (MAX_FRAME_BYTES - 700) MAX_NESTING_DEPTH (with_fields (Map (base ''stream_end'' 0 frame_id ms))
      [(''stream_id'', Bytes (se_stream_id spec)), (''role'', Text (role_name (se_role spec)))])"
    by (rule bounded_frame; cases "se_role spec")
      (use assms in \<open>simp_all add: ascii_def ascii_valid_str MAX_NESTING_DEPTH_def MAX_FRAME_BYTES_def\<close>)
  from bounded_signer [OF this _ assms(3)] show ?thesis unfolding stream_end_value_def
    by (rule bounded_mono) (simp_all add: MAX_NESTING_DEPTH_def MAX_FRAME_BYTES_def)
qed

lemma bounded_stream_reply:
  assumes "wfv (sr_payload spec)" "vdepth (sr_payload spec) < 128"
    "esize (sr_payload spec) + length (sr_stream_id spec) + length (sr_responded_by spec) \<le> wire_room" "length frame_id \<le> 64"
  shows "bounded (MAX_FRAME_BYTES - 512) MAX_NESTING_DEPTH (stream_reply_value spec frame_id ms)"
  unfolding stream_reply_value_def
  by (rule bounded_frame)
    (use assms in \<open>simp_all add: ascii_def ascii_valid_str MAX_NESTING_DEPTH_def wire_room_def MAX_FRAME_BYTES_def\<close>)

lemma get_signed_signer:
  assumes "frame_ok v" "sign_frame C (with_optional_signer v s) kp = Inr g" "f \<noteq> ''signature''" "f \<noteq> ''signer''"
  shows "get (normal g) f = map_option normal (get v f)"
proof -
  have "get (with_optional_signer v s) f = get v f"
    using assms(1,4) by (auto simp: with_optional_signer_def get_with_field_ok split: option.split)
  then show ?thesis using get_signed_normal [OF frame_ok_signer [OF assms(1)] assms(2,3)] by simp
qed

lemma parse_stream_open_signed:
  assumes "length (so_stream_id spec) = 16" "length (so_realm spec) = 32" "length (so_caller spec) = 32"
    "valid_str (so_procedure spec)" "wfv (so_args spec)" "in_range (so_deadline_ms spec)"
    "sign_frame C (stream_open_value spec frame_id ms) kp = Inr g"
  shows "parse_stream_open (normal g) =
    Inr \<lparr>si_stream_id = so_stream_id spec, si_procedure = so_procedure spec, si_realm = so_realm spec, si_mode = so_mode spec,
         si_args = normal (so_args spec), si_deadline_ms = so_deadline_ms spec, si_caller = so_caller spec\<rparr>"
proof -
  have ok: "frame_ok (stream_open_value spec frame_id ms)" using assms by (intro frame_ok_stream_open)
  show ?thesis using assms(1-4)
    by (simp add: parse_stream_open_def is_frame_type_def read_field_def get_signed_normal [OF ok assms(7)]
        stream_open_value_def get_with_fields base_def as_array_def as_utf8_def as_int_def from_utf8_as_bytes
        as_named_def from_name_name)
qed

lemma frame_ok_data_fields:
  "wfv (sd_body spec) \<Longrightarrow> frame_ok (with_fields (Map (base ''stream_data'' 0 frame_id ms))
     [(''stream_id'', Bytes (sd_stream_id spec)), (''seq'', IntV (uint (sd_seq spec))),
      (''encoding'', Text (encoding_name (sd_encoding spec))), (''body'', sd_body spec)])"
  by (rule frame_ok_with_fields [OF frame_ok_base]; cases "sd_encoding spec") (simp_all add: ascii_valid_str ascii_def)

lemma parse_data_signed:
  assumes "length (sd_stream_id spec) = 16" "wfv (sd_body spec)" "sign_frame C (stream_data_value spec frame_id ms) kp = Inr g"
  shows "parse_stream_event (normal g) =
    Inr (StreamData (sd_stream_id spec) (sd_seq spec) (sd_encoding spec) (normal (sd_body spec)))"
proof -
  note get = get_signed_signer [OF frame_ok_data_fields [OF assms(2)] assms(3) [unfolded stream_data_value_def]]
  show ?thesis using assms(1)
    by (simp add: parse_stream_event_def is_frame_type_def read_field_def get get_with_fields base_def as_array_def as_named_def from_name_name as_uint_def)
qed

lemma frame_ok_end_fields:
  "frame_ok (with_fields (Map (base ''stream_end'' 0 frame_id ms))
     [(''stream_id'', Bytes (se_stream_id spec)), (''role'', Text (role_name (se_role spec)))])"
  by (rule frame_ok_with_fields [OF frame_ok_base]; cases "se_role spec") (simp_all add: ascii_valid_str ascii_def)

lemma parse_end_signed:
  assumes "length (se_stream_id spec) = 16" "sign_frame C (stream_end_value spec frame_id ms) kp = Inr g"
  shows "parse_stream_event (normal g) = Inr (StreamEnd (se_stream_id spec) (se_role spec))"
proof -
  note get = get_signed_signer [OF frame_ok_end_fields assms(2) [unfolded stream_end_value_def]]
  show ?thesis using assms(1)
    by (simp add: parse_stream_event_def is_frame_type_def read_field_def get get_with_fields base_def as_array_def as_named_def from_name_name)
qed

lemma parse_reply_signed:
  assumes "length (sr_stream_id spec) = 16" "length (sr_responded_by spec) = 32" "wfv (sr_payload spec)"
    "sign_frame C (stream_reply_value spec frame_id ms) kp = Inr g"
  shows "parse_stream_event (normal g) = Inr (StreamReply (sr_stream_id spec) (normal (sr_payload spec)) (sr_responded_by spec))"
  using assms(1,2)
  by (simp add: parse_stream_event_def is_frame_type_def read_field_def get_signed_normal [OF frame_ok_stream_reply [OF assms(3)] assms(4)]
      stream_reply_value_def get_with_fields base_def as_array_def)

lemma bounded_stream_error:
  assumes "valid_str (sx_code spec)" "valid_str (sx_message spec)" "length (sx_stream_id spec) \<le> 64" "length frame_id \<le> 64"
    "length (sx_code spec) + length (sx_message spec) \<le> wire_room" "case sx_signer spec of Some k \<Rightarrow> length k \<le> 32 | None \<Rightarrow> True"
  shows "bounded (MAX_FRAME_BYTES - 512) MAX_NESTING_DEPTH (stream_error_value spec frame_id ms)"
proof -
  have "bounded (MAX_FRAME_BYTES - 700) MAX_NESTING_DEPTH (with_fields (Map (base ''stream_error'' 0 frame_id ms))
      [(''stream_id'', Bytes (sx_stream_id spec)), (''code'', Bytes (as_bytes (sx_code spec))), (''message'', Bytes (as_bytes (sx_message spec)))])"
    by (rule bounded_frame)
      (use assms in \<open>simp_all add: ascii_def ascii_valid_str MAX_NESTING_DEPTH_def wire_room_def MAX_FRAME_BYTES_def\<close>)
  from bounded_signer [OF this _ assms(6)] show ?thesis unfolding stream_error_value_def
    by (rule bounded_mono) (simp_all add: MAX_NESTING_DEPTH_def MAX_FRAME_BYTES_def)
qed

lemma parse_error_signed:
  assumes "length (sx_stream_id spec) = 16" "valid_str (sx_code spec)" "valid_str (sx_message spec)"
    "sign_frame C (stream_error_value spec frame_id ms) kp = Inr g"
  shows "parse_stream_event (normal g) = Inr (StreamError (sx_stream_id spec) (sx_code spec) (sx_message spec))"
proof -
  have "frame_ok (with_fields (Map (base ''stream_error'' 0 frame_id ms))
      [(''stream_id'', Bytes (sx_stream_id spec)), (''code'', Bytes (as_bytes (sx_code spec))), (''message'', Bytes (as_bytes (sx_message spec)))])"
    by (rule frame_ok_with_fields [OF frame_ok_base]) (simp_all add: ascii_valid_str ascii_def)
  note get = get_signed_signer [OF this assms(4) [unfolded stream_error_value_def]]
  show ?thesis using assms(1-3)
    by (simp add: parse_stream_event_def is_frame_type_def read_field_def get get_with_fields base_def as_array_def as_utf8_def
        from_utf8_as_bytes)
qed

subsection \<open>Handles that send and receive\<close>

text \<open>A handle after its stream has written \<open>w\<close>.\<close>

definition sent_on :: "StreamHandle \<Rightarrow> bytes \<Rightarrow> StreamHandle" where
  "sent_on h w = h\<lparr>sh_stream := (sh_stream h)\<lparr>fs_sent := fs_sent (sh_stream h) @ w\<rparr>\<rparr>"

lemma sent_on_simps [simp]:
  "fs_sent (sh_stream (sent_on h w)) = fs_sent (sh_stream h) @ w" "fs_writes (sh_stream (sent_on h w)) = fs_writes (sh_stream h)"
  "fs_buf (sh_stream (sent_on h w)) = fs_buf (sh_stream h)" "fs_reads (sh_stream (sent_on h w)) = fs_reads (sh_stream h)"
  "sh_stream_id (sent_on h w) = sh_stream_id h" "sh_seq_out (sent_on h w) = sh_seq_out h" "sh_mode (sent_on h w) = sh_mode h"
  "sent_on (sent_on h u) w = sent_on h (u @ w)" "sent_on h [] = h"
  by (simp_all add: sent_on_def)

lemma handle_send_ok:
  assumes "crypto_ok C" "wf_keypair kp" "bounded (MAX_FRAME_BYTES - 512) MAX_NESTING_DEPTH v" "fs_writes (sh_stream h) = []"
  obtains g w where "(sign_frame C v kp :: (Value, unit fail) result) = Inr g" "frame_sent_as g w"
    "handle_send C kp v h = (Inr (), sent_on h w)"
proof -
  have "bounded (MAX_FRAME_BYTES - 146) MAX_NESTING_DEPTH v"
    by (rule bounded_mono [OF assms(3)]) (simp_all add: MAX_FRAME_BYTES_def)
  then obtain g w where g: "(sign_frame C v kp :: (Value, unit fail) result) = Inr g" "frame_sent_as g w"
    "send_signed C kp v (sh_stream h) = (Inr (), (sh_stream h)\<lparr>fs_sent := fs_sent (sh_stream h) @ w\<rparr>)"
    by (rule send_signed_ok [OF assms(1,2) _ assms(4)])
  show ?thesis by (rule that [OF g(1,2)]) (simp add: handle_send_def g(3) sent_on_def)
qed

text \<open>A handle that will receive exactly \<open>incoming\<close>, and what receiving does not change.\<close>

definition ready :: "StreamHandle \<Rightarrow> bytes \<Rightarrow> bool" where
  "ready h bs \<longleftrightarrow> quiet (sh_stream h) \<and> incoming (sh_stream h) = bs"

definition same_end :: "StreamHandle \<Rightarrow> StreamHandle \<Rightarrow> bool" where
  "same_end h h' \<longleftrightarrow> sh_stream_id h' = sh_stream_id h \<and> sh_mode h' = sh_mode h \<and> sh_seq_out h' = sh_seq_out h \<and>
     fs_sent (sh_stream h') = fs_sent (sh_stream h) \<and> fs_writes (sh_stream h') = fs_writes (sh_stream h)"

lemma same_end_refl [simp]: "same_end h h"
  by (simp add: same_end_def)

lemma same_end_trans: "same_end h h' \<Longrightarrow> same_end h' h'' \<Longrightarrow> same_end h h''"
  by (simp add: same_end_def)

lemma recv_event_whole:
  assumes "frame_sent_as v w" "ready h (w @ rest)" "parse_stream_event (normal v) = Inr event"
  shows "\<exists>h'. recv_event_on react h = (react event, h') \<and> ready h' rest \<and> same_end h h'"
proof -
  have h: "quiet (sh_stream h)" "incoming (sh_stream h) = w @ rest" using assms(2) by (simp_all add: ready_def)
  obtain st' where "recv_frame (sh_stream h) = (Inr (normal v), st')" "quiet st'" "incoming st' = rest"
    "fs_sent st' = fs_sent (sh_stream h)" "fs_writes st' = fs_writes (sh_stream h)"
    by (rule recv_frame_whole [OF assms(1) h])
  then show ?thesis using assms(3)
    by (intro exI [of _ "h\<lparr>sh_stream := st'\<rparr>"]) (simp add: recv_event_on_def ready_def same_end_def)
qed

lemma recv_item_whole:
  assumes "frame_sent_as v w" "ready h (w @ rest)" "parse_stream_event (normal v) = Inr event"
  shows "\<exists>h'. recv_item h =
      (case event of
         StreamData stream_id seq encoding body \<Rightarrow> bindR (check_stream_id h stream_id) (\<lambda>_. Inr (ItemData seq encoding body))
       | StreamEnd stream_id role \<Rightarrow> bindR (check_stream_id h stream_id) (\<lambda>_. Inr ItemEof)
       | StreamError stream_id code message \<Rightarrow> bindR (check_stream_id h stream_id) (\<lambda>_. Inl (Err (PeerAborted code message)))
       | StreamReply stream_id payload responded_by \<Rightarrow> Inl (Err UnexpectedFrame), h') \<and> ready h' rest \<and> same_end h h'"
  unfolding recv_item_def by (rule recv_event_whole [OF assms])

lemma await_reply_whole:
  assumes "frame_sent_as v w" "ready h (w @ rest)" "parse_stream_event (normal v) = Inr event"
  shows "\<exists>h'. await_reply h =
      (case event of
         StreamReply stream_id payload responded_by \<Rightarrow> bindR (check_stream_id h stream_id) (\<lambda>_. Inr (payload, responded_by))
       | StreamError stream_id code message \<Rightarrow> bindR (check_stream_id h stream_id) (\<lambda>_. Inl (Err (PeerAborted code message)))
       | _ \<Rightarrow> Inl (Err UnexpectedFrame), h') \<and> ready h' rest \<and> same_end h h'"
  unfolding await_reply_def by (rule recv_event_whole [OF assms])

text \<open>What a receive of any bytes found.\<close>

lemma recv_event_found:
  assumes "recv_event_on react h = (r, h')"
  shows "(\<exists>e. r = Inl e \<and> (\<forall>code message. e \<noteq> Err (PeerAborted code message))) \<or>
    (\<exists>v w event. incoming (sh_stream h) = w @ incoming (sh_stream h') \<and>
       decode_frame (w @ fs_buf (sh_stream h')) = Inr (DecodedFrame v (length w)) \<and> parse_stream_event v = Inr event \<and> r = react event)"
proof -
  obtain x st where x: "recv_frame (sh_stream h) = (x, st)" by (cases "recv_frame (sh_stream h)")
  then have h': "h' = h\<lparr>sh_stream := st\<rparr>" using assms by (simp add: recv_event_on_def)
  show ?thesis
  proof (cases x)
    case (Inl e)
    then show ?thesis using assms x by (cases e) (auto simp: recv_event_on_def)
  next
    case (Inr v)
    obtain w where w: "incoming (sh_stream h) = w @ incoming st" "decode_frame (w @ fs_buf st) = Inr (DecodedFrame v (length w))"
      using x Inr recv_loop_conserves [of "fs_buf (sh_stream h)" "fs_reads (sh_stream h)" v]
      by (auto simp: recv_frame_def incoming_def split: prod.splits)
    show ?thesis
    proof (cases "parse_stream_event v")
      case (Inl e)
      then show ?thesis using assms x Inr by (auto simp: recv_event_on_def)
    next
      case event: (Inr event)
      then have "r = react event" using assms x Inr by (simp add: recv_event_on_def)
      then show ?thesis using w event h' by auto
    qed
  qed
qed

lemma parsed_stream_id:
  assumes "parse_stream_event v = Inr event"
  shows "frame_stream_id v = Some (case event of StreamData i _ _ _ \<Rightarrow> i | StreamEnd i _ \<Rightarrow> i | StreamError i _ _ \<Rightarrow> i | StreamReply i _ _ \<Rightarrow> i)"
  using assms by (auto simp: parse_stream_event_def bindR_eq_Inr read_field_def frame_stream_id_def as_array_def
      split: if_splits option.splits Value.splits)

subsection \<open>Sequences of chunks\<close>

text \<open>What the callers of a handle do: send chunk after chunk, receive item after item.\<close>

type_synonym chunk = "StreamEncoding \<times> Value"

fun send_all :: "crypto \<Rightarrow> env \<Rightarrow> nat \<Rightarrow> KeyPair \<Rightarrow> chunk list \<Rightarrow> StreamHandle \<Rightarrow> (unit, SendFrameError fail) result \<times> StreamHandle" where
  "send_all C E n kp [] h = (Inr (), h)"
| "send_all C E n kp ((encoding, body) # chunks) h =
    (case send_data C E n encoding body kp h of
       (Inl e, h') \<Rightarrow> (Inl e, h')
     | (Inr _, h') \<Rightarrow> send_all C E (n + 1) kp chunks h')"

primrec recv_items :: "nat \<Rightarrow> StreamHandle \<Rightarrow> (StreamItem, RecvStreamError fail) result list \<times> StreamHandle" where
  "recv_items 0 h = ([], h)"
| "recv_items (Suc k) h =
    (case recv_item h of (r, h') \<Rightarrow> (case recv_items k h' of (rs, h'') \<Rightarrow> (r # rs, h'')))"

fun items_of :: "u64 \<Rightarrow> chunk list \<Rightarrow> StreamItem list" where
  "items_of seq [] = []"
| "items_of seq ((encoding, body) # chunks) = ItemData seq encoding (normal body) # items_of (seq + 1) chunks"

definition chunk_fits :: "chunk \<Rightarrow> bool" where
  "chunk_fits c \<longleftrightarrow> wfv (snd c) \<and> vdepth (snd c) < 128 \<and> esize (snd c) + 16 \<le> wire_room"

text \<open>The sequence numbers of so many more chunks: only where additions are checked do they have to fit.\<close>

definition seq_fits :: "env \<Rightarrow> StreamHandle \<Rightarrow> nat \<Rightarrow> bool" where
  "seq_fits E h k \<longleftrightarrow> (env_overflow_checks E \<longrightarrow> uint (sh_seq_out h) + int k < 2 ^ 64)"

lemma seq_fits_next:
  assumes "seq_fits E h (Suc k)" "sh_seq_out h' = sh_seq_out h + 1"
  shows "seq_fits E h 1" "seq_fits E h' k"
proof -
  show "seq_fits E h 1" using assms(1) by (auto simp: seq_fits_def)
  show "seq_fits E h' k"
  proof (cases "env_overflow_checks E")
    case True
    then have "uint (sh_seq_out h) + 1 < 2 ^ LENGTH(64)" using assms(1) by (auto simp: seq_fits_def)
    then have "uint (sh_seq_out h') = uint (sh_seq_out h) + 1" unfolding assms(2) by (simp add: uint_plus_if')
    then show ?thesis using assms(1) by (simp add: seq_fits_def)
  qed (simp add: seq_fits_def)
qed

lemma send_data_ok:
  assumes "crypto_ok C" "wf_keypair kp" "env_ok E" "fs_writes (sh_stream h) = []" "length (sh_stream_id h) = 16" "chunk_fits (encoding, body)"
    "seq_fits E h 1"
  obtains g w where "frame_sent_as g w" "parse_stream_event (normal g) = Inr (StreamData (sh_stream_id h) (sh_seq_out h) encoding (normal body))"
    "send_data C E n encoding body kp h = (Inr (), sent_on (h\<lparr>sh_seq_out := sh_seq_out h + 1\<rparr>) w)"
proof -
  let ?spec = "\<lparr>sd_stream_id = sh_stream_id h, sd_seq = sh_seq_out h, sd_encoding = encoding, sd_body = body, sd_signer = Some (public_bytes C kp)\<rparr>"
  have b: "bounded (MAX_FRAME_BYTES - 512) MAX_NESTING_DEPTH (stream_data_value ?spec (env_frame_id E n) (env_now_ms E n))"
    by (rule bounded_stream_data) (use assms in \<open>simp_all add: chunk_fits_def env_ok_def length_public_bytes\<close>)
  obtain g w where g: "(sign_frame C (stream_data_value ?spec (env_frame_id E n) (env_now_ms E n)) kp :: (Value, unit fail) result) = Inr g"
    "frame_sent_as g w" "handle_send C kp (stream_data_value ?spec (env_frame_id E n) (env_now_ms E n)) (h\<lparr>sh_seq_out := sh_seq_out h + 1\<rparr>) =
      (Inr (), sent_on (h\<lparr>sh_seq_out := sh_seq_out h + 1\<rparr>) w)"
    by (rule handle_send_ok [OF assms(1,2) b, of "h\<lparr>sh_seq_out := sh_seq_out h + 1\<rparr>"]) (use assms(4) in simp_all)
  have "parse_stream_event (normal g) = Inr (StreamData (sh_stream_id h) (sh_seq_out h) encoding (normal body))"
    using parse_data_signed [OF _ _ g(1)] assms(5,6) by (simp add: chunk_fits_def)
  moreover have "\<not> seq_overflows E h" using assms(7) by (auto simp: seq_fits_def seq_overflows_def)
  ultimately show ?thesis using that g(2,3) by (simp only: send_data_def Let_def StreamDataSpec_new_def if_False)
qed

lemma send_all_ok:
  assumes "crypto_ok C" "wf_keypair kp" "env_ok E" "fs_writes (sh_stream a) = []" "length (sh_stream_id a) = 16" "\<forall>c \<in> set chunks. chunk_fits c"
    "seq_fits E a (length chunks)"
  shows "\<exists>w. send_all C E n kp chunks a = (Inr (), sent_on (a\<lparr>sh_seq_out := sh_seq_out a + word_of_nat (length chunks)\<rparr>) w) \<and>
    (\<forall>b rest. ready b (w @ rest) \<longrightarrow> sh_stream_id b = sh_stream_id a \<longrightarrow>
      (\<exists>b'. recv_items (length chunks) b = (map Inr (items_of (sh_seq_out a) chunks), b') \<and> ready b' rest \<and> same_end b b'))"
  using assms(4-7)
proof (induction chunks arbitrary: a n)
  case Nil
  then show ?case by (intro exI [of _ "[]"]) auto
next
  case (Cons c chunks)
  obtain encoding body where c: "c = (encoding, body)" by (cases c)
  then have fits: "chunk_fits (encoding, body)" using Cons.prems(3) by simp
  let ?a = "a\<lparr>sh_seq_out := sh_seq_out a + 1\<rparr>"
  obtain g w where g: "frame_sent_as g w" "parse_stream_event (normal g) = Inr (StreamData (sh_stream_id a) (sh_seq_out a) encoding (normal body))"
    "send_data C E n encoding body kp a = (Inr (), sent_on ?a w)"
    by (rule send_data_ok [OF assms(1-3) Cons.prems(1,2) fits seq_fits_next(1) [of E a "length chunks" ?a]])
      (use Cons.prems(4) in simp_all)
  have "seq_fits E (sent_on ?a w) (length chunks)" by (rule seq_fits_next(2) [of E a]) (use Cons.prems(4) in simp_all)
  then have ih: "fs_writes (sh_stream (sent_on ?a w)) = []" "length (sh_stream_id (sent_on ?a w)) = 16" "\<forall>c \<in> set chunks. chunk_fits c"
    "seq_fits E (sent_on ?a w) (length chunks)"
    using Cons.prems by simp_all
  obtain u where u: "send_all C E (n + 1) kp chunks (sent_on ?a w) =
      (Inr (), sent_on ((sent_on ?a w)\<lparr>sh_seq_out := sh_seq_out a + 1 + word_of_nat (length chunks)\<rparr>) u)"
    "\<And>b rest. ready b (u @ rest) \<Longrightarrow> sh_stream_id b = sh_stream_id a \<Longrightarrow>
      \<exists>b'. recv_items (length chunks) b = (map Inr (items_of (sh_seq_out a + 1) chunks), b') \<and> ready b' rest \<and> same_end b b'"
    using Cons.IH [OF ih, of "n + 1"] by auto
  have "send_all C E n kp (c # chunks) a = (Inr (), sent_on (a\<lparr>sh_seq_out := sh_seq_out a + word_of_nat (length (c # chunks))\<rparr>) (w @ u))"
    using g(3) u(1) by (simp add: c sent_on_def ac_simps)
  moreover have "\<exists>b'. recv_items (length (c # chunks)) b = (map Inr (items_of (sh_seq_out a) (c # chunks)), b') \<and> ready b' rest \<and> same_end b b'"
    if b: "ready b ((w @ u) @ rest)" "sh_stream_id b = sh_stream_id a" for b rest
  proof -
    have "ready b (w @ (u @ rest))" using b(1) by simp
    from recv_item_whole [OF g(1) this g(2)] obtain b1 where
      b1: "recv_item b = (Inr (ItemData (sh_seq_out a) encoding (normal body)), b1)" "ready b1 (u @ rest)" "same_end b b1"
      using b(2) by (auto simp: check_stream_id_def)
    then have "sh_stream_id b1 = sh_stream_id a" using b(2) by (simp add: same_end_def)
    from u(2) [OF b1(2) this] b1 show ?thesis using same_end_trans by (fastforce simp: c)
  qed
  ultimately show ?case by blast
qed

lemma close_send_ok:
  assumes "crypto_ok C" "wf_keypair kp" "env_ok E" "fs_writes (sh_stream h) = []" "length (sh_stream_id h) = 16"
  obtains g w where "frame_sent_as g w" "parse_stream_event (normal g) = Inr (StreamEnd (sh_stream_id h) RoleSend)"
    "close_send C E n kp h = (Inr (), sent_on h w)"
proof -
  let ?spec = "\<lparr>se_stream_id = sh_stream_id h, se_role = RoleSend, se_signer = Some (public_bytes C kp)\<rparr>"
  have b: "bounded (MAX_FRAME_BYTES - 512) MAX_NESTING_DEPTH (stream_end_value ?spec (env_frame_id E n) (env_now_ms E n))"
    by (rule bounded_stream_end) (use assms in \<open>simp_all add: env_ok_def length_public_bytes\<close>)
  obtain g w where g: "(sign_frame C (stream_end_value ?spec (env_frame_id E n) (env_now_ms E n)) kp :: (Value, unit fail) result) = Inr g"
    "frame_sent_as g w" "handle_send C kp (stream_end_value ?spec (env_frame_id E n) (env_now_ms E n)) h = (Inr (), sent_on h w)"
    by (rule handle_send_ok [OF assms(1,2) b assms(4)])
  then show ?thesis using that parse_end_signed [OF _ g(1)] assms(5) by (simp add: close_send_def Let_def)
qed

lemma send_reply_ok:
  assumes "crypto_ok C" "wf_keypair kp" "env_ok E" "fs_writes (sh_stream h) = []" "length (sh_stream_id h) = 16"
    "wfv payload" "vdepth payload < 128" "esize payload + 64 \<le> wire_room"
  obtains g w where "frame_sent_as g w" "parse_stream_event (normal g) = Inr (StreamReply (sh_stream_id h) (normal payload) (node_id C kp))"
    "send_reply C E n payload kp h = (Inr (), sent_on h w)"
proof -
  let ?spec = "\<lparr>sr_stream_id = sh_stream_id h, sr_payload = payload, sr_responded_by = node_id C kp\<rparr>"
  have node: "length (node_id C kp) = 32" by (simp add: node_id_def length_public_bytes [OF assms(1,2)])
  have b: "bounded (MAX_FRAME_BYTES - 512) MAX_NESTING_DEPTH (stream_reply_value ?spec (env_frame_id E n) (env_now_ms E n))"
    by (rule bounded_stream_reply) (use assms node in \<open>simp_all add: env_ok_def\<close>)
  obtain g w where g: "(sign_frame C (stream_reply_value ?spec (env_frame_id E n) (env_now_ms E n)) kp :: (Value, unit fail) result) = Inr g"
    "frame_sent_as g w" "handle_send C kp (stream_reply_value ?spec (env_frame_id E n) (env_now_ms E n)) h = (Inr (), sent_on h w)"
    by (rule handle_send_ok [OF assms(1,2) b assms(4)])
  then show ?thesis using that parse_reply_signed [OF _ _ _ g(1)] node assms(5,6) by (simp add: send_reply_def Let_def)
qed

lemma recv_items_append:
  "recv_items k h = (rs, h') \<Longrightarrow> recv_item h' = (r, h'') \<Longrightarrow> recv_items (Suc k) h = (rs @ [r], h'')"
proof (induction k arbitrary: h rs)
  case (Suc k)
  obtain x h1 where x: "recv_item h = (x, h1)" by (cases "recv_item h")
  then obtain ys where ys: "recv_items k h1 = (ys, h')" "rs = x # ys" using Suc.prems(1) by (auto split: prod.splits)
  have "recv_items (Suc k) h1 = (ys @ [r], h'')" by (rule Suc.IH [OF ys(1) Suc.prems(2)])
  then show ?case using x ys(2) recv_items.simps(2) [of "Suc k" h] by simp
qed auto

text \<open>Between \<open>h\<close> and \<open>h'\<close>, exactly one frame was consumed, and it names the handle's stream.\<close>

definition own_frame_consumed :: "StreamHandle \<Rightarrow> StreamHandle \<Rightarrow> bool" where
  "own_frame_consumed h h' \<longleftrightarrow>
     (\<exists>v w event. incoming (sh_stream h) = w @ incoming (sh_stream h') \<and>
        decode_frame (w @ fs_buf (sh_stream h')) = Inr (DecodedFrame v (length w)) \<and>
        parse_stream_event v = Inr event \<and> frame_stream_id v = Some (sh_stream_id h))"

subsection \<open>Properties\<close>

text \<open>
  Opening: a stream opened within the frame limits sends one STREAM_OPEN, and the end that
  accepts it, in whatever chunks it arrives, has the stream's id and mode, reads what the caller
  asked for, and goes on exactly behind that frame.
\<close>

lemma opened_stream_is_accepted:
  assumes "crypto_ok C" "wf_keypair kp" "env_ok E" "call_fits procedure realm args deadline_ms []"
  shows "\<exists>a. open_handle C E n (Some (fresh_stream rs)) procedure realm md args deadline_ms kp = Inr a \<and>
    sh_stream_id a = env_id E n \<and> sh_mode a = md \<and> sh_seq_out a = 0 \<and>
    (\<forall>st rest. quiet st \<longrightarrow> incoming st = fs_sent (sh_stream a) @ rest \<longrightarrow>
      (\<exists>b. accept_handle (Accepted st) = Inr (b, \<lparr>si_stream_id = env_id E n, si_procedure = procedure, si_realm = realm,
          si_mode = md, si_args = normal args, si_deadline_ms = deadline_ms, si_caller = node_id C kp\<rparr>) \<and>
        sh_stream_id b = sh_stream_id a \<and> sh_mode b = md \<and> sh_seq_out b = 0 \<and> ready b rest))"
proof -
  let ?spec = "StreamOpenSpec_new (env_id E n) procedure realm md args deadline_ms (node_id C kp)"
  let ?v = "stream_open_value ?spec (env_frame_id E n) (env_now_ms E n)"
  have id: "length (env_id E n) = 16" "length (env_frame_id E n) \<le> 64" "length (node_id C kp) = 32"
    using assms(3) length_public_bytes [OF assms(1,2)] by (simp_all add: env_ok_def node_id_def)
  have "bounded (MAX_FRAME_BYTES - 512) MAX_NESTING_DEPTH ?v"
    by (rule bounded_stream_open) (use assms(4) id in \<open>simp_all add: StreamOpenSpec_new_def call_fits_def wire_room_def MAX_FRAME_BYTES_def\<close>)
  then have "bounded (MAX_FRAME_BYTES - 146) MAX_NESTING_DEPTH ?v" by (rule bounded_mono) (simp_all add: MAX_FRAME_BYTES_def)
  then obtain g w where g: "(sign_frame C ?v kp :: (Value, unit fail) result) = Inr g" "frame_sent_as g w"
    "send_signed C kp ?v (fresh_stream rs) = (Inr (), (fresh_stream rs)\<lparr>fs_sent := fs_sent (fresh_stream rs) @ w\<rparr>)"
    by (rule send_signed_ok [OF assms(1,2), of _ "fresh_stream rs"]) simp
  let ?info = "\<lparr>si_stream_id = env_id E n, si_procedure = procedure, si_realm = realm,
          si_mode = md, si_args = normal args, si_deadline_ms = deadline_ms, si_caller = node_id C kp\<rparr>"
  have parsed: "parse_stream_open (normal g) = Inr ?info"
    using parse_stream_open_signed [OF _ _ _ _ _ _ g(1)] id assms(4) by (simp add: StreamOpenSpec_new_def call_fits_def)
  have "\<exists>b. accept_handle (Accepted st) = Inr (b, ?info) \<and> sh_stream_id b = env_id E n \<and> sh_mode b = md \<and> sh_seq_out b = 0 \<and> ready b rest"
    if st: "quiet st" "incoming st = w @ rest" for st rest
  proof -
    obtain st' where "recv_frame st = (Inr (normal g), st')" "quiet st'" "incoming st' = rest"
      by (rule recv_frame_whole [OF g(2) st])
    then show ?thesis using parsed by (simp add: accept_handle_def ready_def)
  qed
  then show ?thesis using g(3) by (simp add: open_handle_def Let_def)
qed

definition demo_handle :: "read list \<Rightarrow> StreamHandle" where
  "demo_handle rs = \<lparr>sh_stream = fresh_stream rs, sh_stream_id = replicate 16 2, sh_mode = Bidi, sh_seq_out = 0\<rparr>"

lemma demo_handle_simps [simp]:
  "fs_sent (sh_stream (demo_handle rs)) = []" "fs_writes (sh_stream (demo_handle rs)) = []" "sh_seq_out (demo_handle rs) = 0"
  "length (sh_stream_id (demo_handle rs)) = 16" "sh_stream_id (demo_handle rs) = sh_stream_id (demo_handle rs')"
  by (simp_all add: demo_handle_def)

lemma demo_handle_ready: "ready (demo_handle [ReadChunk w]) (w @ [])"
  by (simp add: ready_def demo_handle_def)

text \<open>C9: Chunks in order. What one end sends chunk by chunk and then closes, the other end receives, in
  whatever pieces the transport delivers it, as exactly these chunks in this order under
  consecutive sequence numbers, and then the end of the stream. Where additions are checked, the 64-bit
  sequence number must not overflow.\<close>

theorem stream_delivers_chunks:
  assumes "crypto_ok C" "wf_keypair kp" "env_ok E" "fs_writes (sh_stream a) = []" "length (sh_stream_id a) = 16"
    "\<forall>c \<in> set chunks. chunk_fits c" "seq_fits E a (length chunks)"
    "send_all C E n kp chunks a = (r, a')" "close_send C E m kp a' = (r', a'')" "fs_sent (sh_stream a'') = fs_sent (sh_stream a) @ bytes_sent"
    "ready b (bytes_sent @ rest)" "sh_stream_id b = sh_stream_id a"
  shows "r = Inr () \<and> r' = Inr () \<and> sh_seq_out a'' = sh_seq_out a + word_of_nat (length chunks) \<and>
    (\<exists>b'. recv_items (Suc (length chunks)) b = (map Inr (items_of (sh_seq_out a) chunks @ [ItemEof]), b') \<and> ready b' rest \<and> same_end b b')"
proof -
  let ?a = "a\<lparr>sh_seq_out := sh_seq_out a + word_of_nat (length chunks)\<rparr>"
  obtain w where w: "send_all C E n kp chunks a = (Inr (), sent_on ?a w)"
    "\<And>b rest. ready b (w @ rest) \<Longrightarrow> sh_stream_id b = sh_stream_id a \<Longrightarrow>
      \<exists>b'. recv_items (length chunks) b = (map Inr (items_of (sh_seq_out a) chunks), b') \<and> ready b' rest \<and> same_end b b'"
    using send_all_ok [OF assms(1-7)] by blast
  obtain g u where g: "frame_sent_as g u" "parse_stream_event (normal g) = Inr (StreamEnd (sh_stream_id a) RoleSend)"
    "close_send C E m kp (sent_on ?a w) = (Inr (), sent_on (sent_on ?a w) u)"
    by (rule close_send_ok [OF assms(1-3), of "sent_on ?a w"]) (use assms(4,5) in simp_all)
  have a: "r = Inr ()" "a' = sent_on ?a w" "r' = Inr ()" "a'' = sent_on ?a (w @ u)" using assms(8,9) w(1) g(3) by auto
  then have "bytes_sent = w @ u" using assms(10) by simp
  then have "ready b (w @ (u @ rest))" using assms(11) by simp
  from w(2) [OF this assms(12)] obtain b1 where
    b1: "recv_items (length chunks) b = (map Inr (items_of (sh_seq_out a) chunks), b1)" "ready b1 (u @ rest)" "same_end b b1" by blast
  from recv_item_whole [OF g(1) b1(2) g(2)] obtain b2 where
    b2: "recv_item b1 = (Inr ItemEof, b2)" "ready b2 rest" "same_end b1 b2"
    using b1(3) assms(12) by (auto simp: check_stream_id_def same_end_def)
  from recv_items_append [OF b1(1) b2(1)] b1(3) b2(2,3) show ?thesis
    using a same_end_trans by (intro conjI exI [of _ b2]) auto
qed

theorem stream_delivers_chunks_witness:
  "\<exists>w b'. recv_items 3 (demo_handle [ReadChunk w]) =
    ([Inr (ItemData 0 Raw (Bytes [1, 2])), Inr (ItemData 1 Msgpack (IntV 7)), Inr ItemEof], b')"
proof -
  let ?chunks = "[(Raw, Bytes [1, 2]), (Msgpack, IntV 7)]"
  have fits: "\<forall>c \<in> set ?chunks. chunk_fits c" by (simp add: chunk_fits_def wire_room_def MAX_FRAME_BYTES_def)
  have seq: "seq_fits demo_env (demo_handle []) (length ?chunks)" by (simp add: seq_fits_def)
  obtain r a' where a': "send_all toy_crypto demo_env 0 demo_key ?chunks (demo_handle []) = (r, a')"
    by (cases "send_all toy_crypto demo_env 0 demo_key ?chunks (demo_handle [])")
  obtain r' a'' where a'': "close_send toy_crypto demo_env 2 demo_key a' = (r', a'')"
    by (cases "close_send toy_crypto demo_env 2 demo_key a'")
  have "fs_sent (sh_stream a'') = fs_sent (sh_stream (demo_handle [])) @ fs_sent (sh_stream a'')" by simp
  from stream_delivers_chunks [OF toy_crypto_ok wf_demo_key demo_env_ok _ _ fits seq a' a'' this demo_handle_ready]
  show ?thesis by (force simp: numeral_3_eq_3 demo_handle_def)
qed

text \<open>The reply. The reply the provider sends is what its caller's \<open>await_reply\<close> returns, with the
  provider's node id.\<close>

theorem reply_reaches_waiter:
  assumes "crypto_ok C" "wf_keypair kp" "env_ok E" "fs_writes (sh_stream a) = []" "length (sh_stream_id a) = 16"
    "wfv payload" "vdepth payload < 128" "esize payload + 64 \<le> wire_room"
    "send_reply C E n payload kp a = (r, a')" "fs_sent (sh_stream a') = fs_sent (sh_stream a) @ bytes_sent"
    "ready b (bytes_sent @ rest)" "sh_stream_id b = sh_stream_id a"
  shows "r = Inr () \<and> (\<exists>b'. await_reply b = (Inr (normal payload, node_id C kp), b') \<and> ready b' rest \<and> same_end b b')"
proof -
  obtain g w where g: "frame_sent_as g w" "parse_stream_event (normal g) = Inr (StreamReply (sh_stream_id a) (normal payload) (node_id C kp))"
    "send_reply C E n payload kp a = (Inr (), sent_on a w)"
    by (rule send_reply_ok [OF assms(1-8)])
  then have a: "r = Inr ()" "bytes_sent = w" using assms(9,10) by auto
  have "\<exists>b'. await_reply b = (bindR (check_stream_id b (sh_stream_id a)) (\<lambda>_. Inr (normal payload, node_id C kp)), b') \<and> ready b' rest \<and> same_end b b'"
    using await_reply_whole [OF g(1) assms(11) [unfolded a(2)] g(2)] by simp
  then show ?thesis using a(1) assms(12) by (simp add: check_stream_id_def)
qed

theorem reply_reaches_waiter_witness:
  "\<exists>w b'. await_reply (demo_handle [ReadChunk w]) = (Inr (IntV 7, node_id toy_crypto demo_key), b')"
proof -
  obtain r a' where a': "send_reply toy_crypto demo_env 0 (IntV 7) demo_key (demo_handle []) = (r, a')"
    by (cases "send_reply toy_crypto demo_env 0 (IntV 7) demo_key (demo_handle [])")
  have "fs_sent (sh_stream a') = fs_sent (sh_stream (demo_handle [])) @ fs_sent (sh_stream a')" by simp
  from reply_reaches_waiter [OF toy_crypto_ok wf_demo_key demo_env_ok _ _ _ _ _ a' this demo_handle_ready]
  show ?thesis by (force simp: demo_handle_def wire_room_def MAX_FRAME_BYTES_def)
qed

text \<open>Isolation. Whatever bytes arrive, an item, a reply or an abort is reported only for a received
  frame that names this handle's stream, and the bytes behind that frame are kept.\<close>

theorem stream_isolation:
  assumes "recv_item h = (r, h1)" "await_reply h = (q, h2)"
  shows "(r = Inr item \<or> r = Inl (Err (PeerAborted code message)) \<longrightarrow> own_frame_consumed h h1) \<and>
    (q = Inr reply \<or> q = Inl (Err (PeerAborted code message)) \<longrightarrow> own_frame_consumed h h2)"
proof (intro conjI impI)
  have own: "own_frame_consumed h h'" if "incoming (sh_stream h) = w @ incoming (sh_stream h')"
    "decode_frame (w @ fs_buf (sh_stream h')) = Inr (DecodedFrame v (length w))" "parse_stream_event v = Inr event"
    "frame_stream_id v = Some (sh_stream_id h)" for h' v w event
    using that by (auto simp: own_frame_consumed_def)
  note found = recv_event_found [OF assms(1) [unfolded recv_item_def]] recv_event_found [OF assms(2) [unfolded await_reply_def]]
  show "own_frame_consumed h h1" if "r = Inr item \<or> r = Inl (Err (PeerAborted code message))"
    using found(1) that by (fastforce simp: check_stream_id_def parsed_stream_id own split: StreamEvent.splits if_splits dest: own)
  show "own_frame_consumed h h2" if "q = Inr reply \<or> q = Inl (Err (PeerAborted code message))"
    using found(2) that by (fastforce simp: check_stream_id_def parsed_stream_id own split: StreamEvent.splits if_splits dest: own)
qed

theorem stream_isolation_witness:
  "\<exists>h h'. recv_item h = (Inr ItemEof, h') \<and> own_frame_consumed h h'"
proof -
  obtain g w where g: "frame_sent_as g w" "parse_stream_event (normal g) = Inr (StreamEnd (sh_stream_id (demo_handle [])) RoleSend)"
    "close_send toy_crypto demo_env 0 demo_key (demo_handle []) = (Inr (), sent_on (demo_handle []) w)"
    by (rule close_send_ok [OF toy_crypto_ok wf_demo_key demo_env_ok, of "demo_handle []" 0]) simp_all
  let ?h = "demo_handle [ReadChunk w]"
  obtain h' where h': "recv_item ?h = (Inr ItemEof, h')"
    using recv_item_whole [OF g(1) demo_handle_ready g(2)] by (auto simp: check_stream_id_def demo_handle_def)
  obtain q h2 where "await_reply ?h = (q, h2)" by (cases "await_reply ?h")
  from stream_isolation [OF h' this, of ItemEof] h' show ?thesis by blast
qed

end
