(* ===== verification/CertChain.thy ===== *)
theory CertChain
  imports Certs Dht
begin

section \<open>CertChain: authorization of an advertisement by its certificate chain (\<open>src/cert_chain.rs\<close>)\<close>

text \<open>
  The decision whether the certificate chain embedded in an advertisement authorizes it for an
  organization under a realm's CA. PEM decoding, X.509 parsing and path validation are the
  parameter \<open>x509\<close> of \<open>Certs\<close>.
\<close>

datatype CertChainError = BadSignature | Absent | Undecodable | KeyMismatch | Untrusted | OrgMismatch

definition decode_cert_chain :: "'a x509 \<Rightarrow> bytes \<Rightarrow> (bytes list, CertChainError) result" where
  "decode_cert_chain X cert_chain_pem =
    (let ders = map snd (filter (\<lambda>pem. fst pem = ''CERTIFICATE'') (List.map_filter id (x_pems X cert_chain_pem))) in
     if ders = [] then Inl Undecodable else Inr ders)"

definition leaf_organization :: "'a x509 \<Rightarrow> bytes \<Rightarrow> string option" where
  "leaf_organization X der =
    Option.bind (x_parse X der) (\<lambda>cert. case subject_organizations cert of [] \<Rightarrow> None | org # _ \<Rightarrow> org)"

text \<open>\<open>decode_cert_chain\<close> returns no empty list; taking the head of one would be a panic.\<close>

definition validate_cert_path :: "'a x509 \<Rightarrow> int \<Rightarrow> bytes \<Rightarrow> bytes list \<Rightarrow> (unit, CertChainError fail) result" where
  "validate_cert_path X now realm_ca_pem chain =
    (case decode_cert_chain X realm_ca_pem of
       Inl _ \<Rightarrow> Inl (Err Untrusted)
     | Inr [] \<Rightarrow> Inl Panic
     | Inr (anchor_der # _) \<Rightarrow>
         (case x_anchor X anchor_der of
            None \<Rightarrow> Inl (Err Untrusted)
          | Some anchor \<Rightarrow>
              (case chain of
                 [] \<Rightarrow> Inl Panic
               | leaf_der # intermediates \<Rightarrow>
                   if \<not> x_end_entity X leaf_der then Inl (Err Untrusted)
                   else if x_verify X now anchor leaf_der intermediates then Inr ()
                   else Inl (Err Untrusted))))"

text \<open>What \<open>verify_advertisement_cert_chain\<close> does with the decoded chain.\<close>

fun check_cert_chain :: "'a x509 \<Rightarrow> int \<Rightarrow> bytes \<Rightarrow> bytes \<Rightarrow> string \<Rightarrow> bytes list \<Rightarrow> (unit, CertChainError fail) result" where
  "check_cert_chain X now realm_ca_pem signer expected_org [] = Inl Panic"
| "check_cert_chain X now realm_ca_pem signer expected_org (leaf_der # intermediates) =
    bindR (map_err (\<lambda>_. Err KeyMismatch) (ed25519_pubkey_from_cert X leaf_der)) (\<lambda>leaf_key.
      if leaf_key \<noteq> signer then Inl (Err KeyMismatch)
      else
        bindR (validate_cert_path X now realm_ca_pem (leaf_der # intermediates)) (\<lambda>_.
        bindR (ok_or (Err OrgMismatch) (leaf_organization X leaf_der)) (\<lambda>leaf_org.
          if leaf_org \<noteq> expected_org then Inl (Err OrgMismatch) else Inr ())))"

definition verify_advertisement_cert_chain ::
  "crypto \<Rightarrow> 'a x509 \<Rightarrow> int \<Rightarrow> bytes \<Rightarrow> Record \<Rightarrow> string \<Rightarrow> (unit, CertChainError fail) result" where
  "verify_advertisement_cert_chain C X now realm_ca_pem r expected_org =
    bindR (map_err (lift_fail (\<lambda>_. BadSignature)) (verify_record C now r)) (\<lambda>_.
    bindR (map_err (\<lambda>_. Err BadSignature) (read_procedure_advertisement r)) (\<lambda>adv.
    bindR (ok_or (Err Absent) (pa_cert_chain adv)) (\<lambda>chain_pem.
    bindR (map_err Err (decode_cert_chain X chain_pem)) (\<lambda>chain_der.
      check_cert_chain X now realm_ca_pem (rc_key r) expected_org chain_der))))"

end
