(* ===== verification/CertProps.thy ===== *)
theory CertProps
  imports CertChain DhtProps
begin

section \<open>CertProps: whom a certificate chain authorizes\<close>

text \<open>
  Exactly when an advertisement is authorized for an organization, which error is reported
  otherwise, and what a pinned dial accepts.
\<close>

lemma decode_cert_chain_cases:
  "decode_cert_chain X pem = Inl e \<longleftrightarrow> e = Undecodable \<and> (\<forall>der. Some (''CERTIFICATE'', der) \<notin> set (x_pems X pem))"
  "decode_cert_chain X pem = Inr ders \<Longrightarrow> ders \<noteq> []"
proof -
  have "set (List.map_filter id (x_pems X pem)) = {p. Some p \<in> set (x_pems X pem)}"
    by (force simp: List.map_filter_def image_iff)
  then show "decode_cert_chain X pem = Inl e \<longleftrightarrow> e = Undecodable \<and> (\<forall>der. Some (''CERTIFICATE'', der) \<notin> set (x_pems X pem))"
    by (auto simp: decode_cert_chain_def Let_def filter_empty_conv)
qed (auto simp: decode_cert_chain_def Let_def split: if_splits)

lemma validate_cert_path_iff:
  "validate_cert_path X now ca chain = Inr () \<longleftrightarrow>
    (\<exists>anchor_der anchors anchor leaf intermediates. decode_cert_chain X ca = Inr (anchor_der # anchors) \<and>
       x_anchor X anchor_der = Some anchor \<and> chain = leaf # intermediates \<and> x_end_entity X leaf \<and>
       x_verify X now anchor leaf intermediates)"
  by (auto simp: validate_cert_path_def split: sum.splits list.splits option.splits)

lemma validate_cert_path_cases:
  "chain \<noteq> [] \<Longrightarrow> validate_cert_path X now ca chain = Inr () \<or> validate_cert_path X now ca chain = Inl (Err Untrusted)"
  using decode_cert_chain_cases(2) [of X ca]
  by (fastforce simp: validate_cert_path_def split: sum.splits list.splits option.splits)

lemma ed25519_pubkey_iff:
  "ed25519_pubkey_from_cert X der = Inr key \<longleftrightarrow>
    (\<exists>cert. x_parse X der = Some cert \<and> spki_algorithm cert = ''1.3.101.112'' \<and> spki_key cert = key \<and> length key = 32)"
  by (auto simp: ed25519_pubkey_from_cert_def ok_or_def to_array_def bindR_eq_Inr split: option.splits if_splits)

lemma leaf_organization_iff:
  "leaf_organization X d = Some org \<longleftrightarrow> (\<exists>leaf others. x_parse X d = Some leaf \<and> subject_organizations leaf = Some org # others)"
  by (cases "x_parse X d"; cases "subject_organizations (the (x_parse X d))") (auto simp: leaf_organization_def)

lemma check_cert_chain_iff:
  "check_cert_chain X now ca signer expected_org chain = Inr () \<longleftrightarrow>
    (\<exists>leaf_der intermediates. chain = leaf_der # intermediates \<and> ed25519_pubkey_from_cert X leaf_der = Inr signer \<and>
       validate_cert_path X now ca chain = Inr () \<and> leaf_organization X leaf_der = Some expected_org)"
  by (cases chain) (auto simp: bindR_eq_Inr split: if_splits)

lemma check_cert_chain_no_panic: "chain \<noteq> [] \<Longrightarrow> check_cert_chain X now ca signer expected_org chain \<noteq> Inl Panic"
  using validate_cert_path_cases [of chain X now ca]
  by (cases chain) (auto simp: bindR_eq_Inl map_err_def ok_or_def split: sum.splits option.splits if_splits)

lemma never_panic [simp]: "map_err (\<lambda>e. Err (g e)) r \<noteq> Inl Panic" "ok_or (Err e) x \<noteq> Inl Panic"
  by (simp_all add: map_err_def ok_or_def split: sum.split option.split)

lemma authorized_no_panic:
  assumes "verify_record C now r \<noteq> Inl Panic"
  shows "verify_advertisement_cert_chain C X now realm_ca_pem r expected_org \<noteq> Inl Panic"
proof
  assume "verify_advertisement_cert_chain C X now realm_ca_pem r expected_org = Inl Panic"
  then consider "map_err (lift_fail (\<lambda>_. BadSignature)) (verify_record C now r) = Inl Panic"
    | chain_pem chain where "decode_cert_chain X chain_pem = Inr chain" "check_cert_chain X now realm_ca_pem (rc_key r) expected_org chain = Inl Panic"
    by (auto simp: verify_advertisement_cert_chain_def bindR_eq_Inl)
  then show False
  proof cases
    case 1
    then show False using assms by (cases "verify_record C now r"; cases "projl (verify_record C now r)") (auto simp: map_err_def)
  qed (use decode_cert_chain_cases(2) check_cert_chain_no_panic in blast)
qed

subsection \<open>Properties\<close>

text \<open>Pinning. A pinned dial accepts exactly a certificate whose subject key is an Ed25519 key equal
  to the pinned one.\<close>

theorem pinned_accepts_iff:
  "pinned_verify_server_cert X pinned end_entity = Inr () \<longleftrightarrow>
    (\<exists>cert. x_parse X end_entity = Some cert \<and> spki_algorithm cert = ''1.3.101.112'' \<and> spki_key cert = pinned \<and> length pinned = 32)"
  by (auto simp: pinned_verify_server_cert_def bindR_eq_Inr map_err_def ed25519_pubkey_iff [symmetric] split: sum.splits if_splits)

text \<open>C24: Authorization. An advertisement is authorized for an organization exactly when its signature
  verifies and it has not expired, and it carries a chain whose leaf holds the signing key, names the
  organization first, and validates through the rest of the chain to the first certificate of the
  realm's CA; verification never panics.\<close>

theorem cert_chain_authorizes_iff:
  assumes "wf_record r"
  shows "verify_advertisement_cert_chain C X now realm_ca_pem r expected_org \<noteq> Inl Panic \<and>
    (verify_advertisement_cert_chain C X now realm_ca_pem r expected_org = Inr () \<longleftrightarrow>
     record_authentic C r \<and> (0 < rc_expires_at r \<longrightarrow> now < rc_expires_at r) \<and>
     (\<exists>adv chain_pem leaf_der intermediates leaf anchor_der anchors anchor.
        read_procedure_advertisement r = Inr adv \<and> pa_cert_chain adv = Some chain_pem \<and>
        decode_cert_chain X chain_pem = Inr (leaf_der # intermediates) \<and> x_parse X leaf_der = Some leaf \<and>
        spki_algorithm leaf = ''1.3.101.112'' \<and> spki_key leaf = rc_key r \<and>
        decode_cert_chain X realm_ca_pem = Inr (anchor_der # anchors) \<and> x_anchor X anchor_der = Some anchor \<and>
        x_end_entity X leaf_der \<and> x_verify X now anchor leaf_der intermediates \<and>
        (\<exists>others. subject_organizations leaf = Some expected_org # others)))"
proof -
  have key: "length (rc_key r) = 32" using assms by (simp add: wf_record_def)
  have "verify_record C now r = Inr () \<longleftrightarrow> record_authentic C r \<and> (0 < rc_expires_at r \<longrightarrow> now < rc_expires_at r)"
    by (auto simp: verify_record_verdict [OF assms])
  moreover have "verify_record C now r \<noteq> Inl Panic" by (simp add: verify_record_verdict [OF assms])
  moreover have "verify_advertisement_cert_chain C X now realm_ca_pem r expected_org = Inr () \<longleftrightarrow> verify_record C now r = Inr () \<and>
      (\<exists>adv chain_pem chain. read_procedure_advertisement r = Inr adv \<and> pa_cert_chain adv = Some chain_pem \<and>
         decode_cert_chain X chain_pem = Inr chain \<and> check_cert_chain X now realm_ca_pem (rc_key r) expected_org chain = Inr ())"
    by (simp add: verify_advertisement_cert_chain_def bindR_eq_Inr)
  ultimately show ?thesis using authorized_no_panic [of C now r X realm_ca_pem expected_org] key
    unfolding check_cert_chain_iff leaf_organization_iff validate_cert_path_iff ed25519_pubkey_iff by fastforce
qed

definition toy_x509 :: "bytes x509" where
  "toy_x509 =
    \<lparr>x_parse = (\<lambda>der. Some \<lparr>spki_algorithm = ''1.3.101.112'', spki_key = take 32 der, subject_organizations = [Some ''acme'']\<rparr>),
     x_pems = (\<lambda>pem. [Some (''CERTIFICATE'', pem)]), x_anchor = Some, x_end_entity = (\<lambda>_. True), x_verify = (\<lambda>_ _ _ _. True)\<rparr>"

definition demo_chain_record :: Record where
  "demo_chain_record = demo_record\<lparr>rc_payload := Map
    [(Text ''procedure_uri'', Text ''p''), (Text ''advertiser_node'', Bytes (node_id toy_crypto demo_key)),
     (Text ''serving_station'', Bytes (replicate 32 1)), (Text ''cert_chain'', Bytes (node_id toy_crypto demo_key))]\<rparr>"

lemma demo_chain_facts:
  "wf_record demo_chain_record" "rc_key demo_chain_record = node_id toy_crypto demo_key" "length (node_id toy_crypto demo_key) = 32"
proof -
  show node: "length (node_id toy_crypto demo_key) = 32" by (simp add: node_id_def length_public_bytes [OF toy_crypto_ok wf_demo_key])
  show "rc_key demo_chain_record = node_id toy_crypto demo_key"
    by (simp add: demo_chain_record_def demo_record_def new_procedure_advertisement_def new_envelope_def Let_def)
  have "wfv (Map [(Text ''procedure_uri'', Text ''p''), (Text ''advertiser_node'', Bytes (node_id toy_crypto demo_key)),
      (Text ''serving_station'', Bytes (replicate 32 1)), (Text ''cert_chain'', Bytes (node_id toy_crypto demo_key))])"
    by (rule frame_ok_wfv) (simp add: frame_ok_Map ascii_def ascii_valid_str)
  then have "wfv (rc_payload demo_chain_record)" by (simp only: demo_chain_record_def) simp
  then show "wf_record demo_chain_record" using demo_record_wf by (simp add: wf_record_def demo_chain_record_def)
qed

theorem cert_chain_authorizes_iff_witness:
  "\<exists>r. verify_advertisement_cert_chain toy_crypto toy_x509 1499 [] r ''acme'' = Inr () \<and>
    verify_advertisement_cert_chain toy_crypto toy_x509 1499 [] r ''other'' \<noteq> Inr () \<and>
    verify_advertisement_cert_chain toy_crypto toy_x509 1500 [] r ''acme'' \<noteq> Inr ()"
proof -
  obtain s where s: "sign_record toy_crypto demo_chain_record demo_key = (Inr s :: (Record, unit fail) result)" "wf_record s"
    "record_authentic toy_crypto s" "s = demo_chain_record\<lparr>rc_signature := rc_signature s\<rparr>"
    by (rule sign_record_ok [OF toy_crypto_ok wf_demo_key demo_chain_facts(1,2)])
  have fields: "rc_expires_at s = 1500" "rc_key s = node_id toy_crypto demo_key"
    by (subst s(4), simp add: demo_chain_record_def demo_record_def new_procedure_advertisement_def new_envelope_def Let_def)+
  have adv: "read_procedure_advertisement s = Inr \<lparr>pa_procedure_uri = ''p'', pa_advertiser_node = node_id toy_crypto demo_key,
      pa_serving_station = replicate 32 1, pa_cert_chain = Some (node_id toy_crypto demo_key)\<rparr>"
    using demo_chain_facts(3)
    by (subst s(4)) (simp add: demo_chain_record_def demo_record_def new_procedure_advertisement_def new_envelope_def Let_def
        read_procedure_advertisement_def record_field_def read_field_def get_def as_text_def as_array_def)
  have dec: "decode_cert_chain toy_x509 pem = Inr [pem]" for pem
    by (simp add: decode_cert_chain_def toy_x509_def List.map_filter_simps)
  note iff = cert_chain_authorizes_iff [OF s(2), of toy_crypto toy_x509 _ "[]", THEN conjunct2]
  show ?thesis using s(3) demo_chain_facts(3)
    by (intro exI [of _ s]) (simp add: iff fields adv dec, simp add: toy_x509_def)
qed

end
