(* ===== verification/DirectDial.thy ===== *)
theory DirectDial
  imports CertChain Content Stream IpAddr
begin

section \<open>DirectDial: resolving a procedure's station and dialing it (\<open>src/direct_dial.rs\<close>)\<close>

text \<open>
  Resolution over the DHT, the dial whose HELLO must prove the resolved identity, and the calls,
  streams and content transfers over it. What dialing a host and a port returns is the argument
  \<open>dials\<close>, \<open>None\<close> when the timer around the dial fires first. Every verification of a record reads
  the clock, a draw of the environment; the waits between attempts have no state. What opening a
  dedicated stream on the dialed connection returns is the argument \<open>opened\<close>.
\<close>

definition RESOLVE_RETRIES :: nat where
  "RESOLVE_RETRIES = 50"

datatype ResolveError =
    ProcedureNotAdvertised
  | NoTrustedAdvertisement
  | StationEndpointNotFound
  | StationEndpointSignerMismatch
  | ResolveDht DhtError
  | NoAuthorizedAdvertisement CertChainError

record Resolved =
  rs_station :: bytes
  rs_host :: string
  rs_port :: u16

subsection \<open>Advertisements\<close>

text \<open>The loop that stands in both resolvers: ask until the DHT has some record, or give up.\<close>

fun poll_records ::
  "nat \<Rightarrow> crypto \<Rightarrow> env \<Rightarrow> nat \<Rightarrow> Session \<Rightarrow> KeyPair \<Rightarrow> bytes \<Rightarrow> (Record list, ResolveError fail) result \<times> Session \<times> nat" where
  "poll_records 0 C E n s kp key = (Inl (Err ProcedureNotAdvertised), s, n)"
| "poll_records (Suc retries) C E n s kp key =
    (case find_records C E n s kp key of
       (Inl e, s', n') \<Rightarrow> (Inl (lift_fail ResolveDht e), s', n')
     | (Inr found, s', n') \<Rightarrow>
         if found \<noteq> [] then (Inr found, s', n') else poll_records retries C E n' s' kp key)"

fun first_trusted_advertisement ::
  "crypto \<Rightarrow> env \<Rightarrow> nat \<Rightarrow> Record list \<Rightarrow> (ProcedureAdvertisement option, 'e fail) result \<times> nat" where
  "first_trusted_advertisement C E n [] = (Inr None, n)"
| "first_trusted_advertisement C E n (r # rs) =
    (case verify_record C (uint (env_now_ms E n)) r of
       Inl Panic \<Rightarrow> (Inl Panic, n + 1)
     | Inl (Err _) \<Rightarrow> first_trusted_advertisement C E (n + 1) rs
     | Inr _ \<Rightarrow>
         (case read_procedure_advertisement r of
            Inr adv \<Rightarrow> (Inr (Some adv), n + 1)
          | Inl _ \<Rightarrow> first_trusted_advertisement C E (n + 1) rs))"

fun first_authorized_advertisement ::
  "crypto \<Rightarrow> 'a x509 \<Rightarrow> env \<Rightarrow> nat \<Rightarrow> Record list \<Rightarrow> bytes \<Rightarrow> string \<Rightarrow> CertChainError option
    \<Rightarrow> (ProcedureAdvertisement, ResolveError fail) result \<times> nat" where
  "first_authorized_advertisement C X E n [] realm_ca_pem expected_org last_cert_err =
    (Inl (Err (case last_cert_err of Some e \<Rightarrow> NoAuthorizedAdvertisement e | None \<Rightarrow> NoTrustedAdvertisement)), n)"
| "first_authorized_advertisement C X E n (r # rs) realm_ca_pem expected_org last_cert_err =
    (case verify_record C (uint (env_now_ms E n)) r of
       Inl Panic \<Rightarrow> (Inl Panic, n + 1)
     | Inl (Err _) \<Rightarrow> first_authorized_advertisement C X E (n + 1) rs realm_ca_pem expected_org last_cert_err
     | Inr _ \<Rightarrow>
         (case verify_advertisement_cert_chain C X (uint (env_now_ms E (n + 1))) realm_ca_pem r expected_org of
            Inl Panic \<Rightarrow> (Inl Panic, n + 2)
          | Inl (Err e) \<Rightarrow> first_authorized_advertisement C X E (n + 2) rs realm_ca_pem expected_org (Some e)
          | Inr _ \<Rightarrow>
              (case read_procedure_advertisement r of
                 Inr adv \<Rightarrow> (Inr adv, n + 2)
               | Inl _ \<Rightarrow> first_authorized_advertisement C X E (n + 2) rs realm_ca_pem expected_org last_cert_err)))"

subsection \<open>Station endpoints\<close>

fun endpoint_attempts ::
  "nat \<Rightarrow> crypto \<Rightarrow> env \<Rightarrow> nat \<Rightarrow> Session \<Rightarrow> KeyPair \<Rightarrow> bytes \<Rightarrow> (Resolved, ResolveError fail) result \<times> Session \<times> nat" where
  "endpoint_attempts 0 C E n s kp target = (Inl (Err StationEndpointNotFound), s, n)"
| "endpoint_attempts (Suc retries) C E n s kp target =
    (case find_record C E n s kp (station_endpoint_key C target) of
       (Inl Panic, s', n') \<Rightarrow> (Inl Panic, s', n')
     | (Inl (Err e), s', n') \<Rightarrow>
         if e = DhtNotFound then endpoint_attempts retries C E n' s' kp target
         else (Inl (Err (ResolveDht e)), s', n')
     | (Inr r, s', n') \<Rightarrow>
         if rc_key r \<noteq> target then (Inl (Err StationEndpointSignerMismatch), s', n')
         else
           (case verify_record C (uint (env_now_ms E n')) r of
              Inl Panic \<Rightarrow> (Inl Panic, s', n' + 1)
            | Inl (Err RecordExpired) \<Rightarrow> endpoint_attempts retries C E (n' + 1) s' kp target
            | Inl (Err _) \<Rightarrow> (Inl (Err NoTrustedAdvertisement), s', n' + 1)
            | Inr _ \<Rightarrow>
                (case read_station_endpoint r of
                   Inl _ \<Rightarrow> (Inl (Err StationEndpointNotFound), s', n' + 1)
                 | Inr ep \<Rightarrow>
                     (case ep_host_advertised ep of
                        [] \<Rightarrow> (Inl (Err StationEndpointNotFound), s', n' + 1)
                      | host # _ \<Rightarrow>
                          (Inr \<lparr>rs_station = target, rs_host = host, rs_port = ep_quic_port ep\<rparr>, s', n' + 1)))))"

definition resolve_station_endpoint ::
  "crypto \<Rightarrow> env \<Rightarrow> nat \<Rightarrow> Session \<Rightarrow> KeyPair \<Rightarrow> bytes \<Rightarrow> (Resolved, ResolveError fail) result \<times> Session \<times> nat" where
  "resolve_station_endpoint = endpoint_attempts RESOLVE_RETRIES"

definition resolve ::
  "crypto \<Rightarrow> env \<Rightarrow> nat \<Rightarrow> Session \<Rightarrow> KeyPair \<Rightarrow> bytes \<Rightarrow> string \<Rightarrow> (Resolved, ResolveError fail) result \<times> Session \<times> nat" where
  "resolve C E n s kp realm procedure =
    (let key = procedure_key C (discovery_uri realm procedure) in
     case poll_records RESOLVE_RETRIES C E n s kp key of
       (Inl e, s', n') \<Rightarrow> (Inl e, s', n')
     | (Inr recs, s', n') \<Rightarrow>
         (case first_trusted_advertisement C E n' recs of
            (Inl e, n2) \<Rightarrow> (Inl e, s', n2)
          | (Inr None, n2) \<Rightarrow> (Inl (Err NoTrustedAdvertisement), s', n2)
          | (Inr (Some adv), n2) \<Rightarrow> resolve_station_endpoint C E n2 s' kp (pa_serving_station adv)))"

definition resolve_with_cert_chain ::
  "crypto \<Rightarrow> 'a x509 \<Rightarrow> env \<Rightarrow> nat \<Rightarrow> Session \<Rightarrow> KeyPair \<Rightarrow> bytes \<Rightarrow> string \<Rightarrow> bytes \<Rightarrow> string
    \<Rightarrow> (Resolved, ResolveError fail) result \<times> Session \<times> nat" where
  "resolve_with_cert_chain C X E n s kp realm procedure realm_ca_pem expected_org =
    (let key = procedure_key C (discovery_uri realm procedure) in
     case poll_records RESOLVE_RETRIES C E n s kp key of
       (Inl e, s', n') \<Rightarrow> (Inl e, s', n')
     | (Inr recs, s', n') \<Rightarrow>
         (case first_authorized_advertisement C X E n' recs realm_ca_pem expected_org None of
            (Inl e, n2) \<Rightarrow> (Inl e, s', n2)
          | (Inr adv, n2) \<Rightarrow> resolve_station_endpoint C E n2 s' kp (pa_serving_station adv)))"

subsection \<open>Dialing\<close>

type_synonym dials = "string \<Rightarrow> u16 \<Rightarrow> dial option"

definition timed_connect :: "crypto \<Rightarrow> env \<Rightarrow> nat \<Rightarrow> KeyPair \<Rightarrow> dial option \<Rightarrow> (Session, HandshakeError fail) result" where
  "timed_connect C E n kp d = (case d of None \<Rightarrow> Inl (Err HsTimeout) | Some dial \<Rightarrow> connect C E n kp dial)"

text \<open>Closing a session before returning: its writes are ignored, a panic in signing is not, and what
  the GOODBYE draws from the environment does not matter to the result.\<close>

definition close_then :: "crypto \<Rightarrow> env \<Rightarrow> nat \<Rightarrow> string \<Rightarrow> KeyPair \<Rightarrow> Session \<Rightarrow> ('a, 'e fail) result \<Rightarrow> ('a, 'e fail) result" where
  "close_then C E n reason kp s r = (case close C E n reason None kp s of Inl _ \<Rightarrow> Inl Panic | Inr _ \<Rightarrow> r)"

datatype DialAndVerifyError = DialFailed HandshakeError | TrustViolation bytes bytes

definition dial_and_verify ::
  "crypto \<Rightarrow> env \<Rightarrow> nat \<Rightarrow> KeyPair \<Rightarrow> dials \<Rightarrow> string \<Rightarrow> u16 \<Rightarrow> bytes \<Rightarrow> (Session, DialAndVerifyError fail) result" where
  "dial_and_verify C E n kp dials host port expected =
    bindR (map_err (lift_fail DialFailed) (timed_connect C E n kp (dials host port))) (\<lambda>target.
      let dialed = he_node_id (station target) in
      if dialed \<noteq> expected
      then close_then C E (n + 1) ''trust_violation'' kp target (Inl (Err (TrustViolation expected dialed)))
      else Inr target)"

subsection \<open>Calls\<close>

datatype DirectCallError =
    DirectResolve ResolveError
  | DirectDialFailed HandshakeError
  | DirectTrustViolation bytes bytes
  | DirectCall CallError

text \<open>The part behind the resolution, which stands in each of the three call functions.\<close>

definition call_resolved ::
  "crypto \<Rightarrow> env \<Rightarrow> nat \<Rightarrow> KeyPair \<Rightarrow> dials \<Rightarrow> Resolved \<Rightarrow> bytes \<Rightarrow> string \<Rightarrow> Value \<Rightarrow> nat \<Rightarrow> bytes
    \<Rightarrow> (CallResponse, DirectCallError fail) result" where
  "call_resolved C E n kp dials resolved realm procedure payload timeout ucan_token =
    bindR (map_err (lift_fail DirectDialFailed) (timed_connect C E n kp (dials (rs_host resolved) (rs_port resolved)))) (\<lambda>target.
      let dialed = he_node_id (station target) in
      if dialed \<noteq> rs_station resolved
      then close_then C E (n + 1) ''trust_violation'' kp target (Inl (Err (DirectTrustViolation (rs_station resolved) dialed)))
      else
        let deadline_ms = uint (env_now_ms E (n + 1)) + int timeout in
        case session_call_with_ucan C E (n + 2) target procedure realm payload deadline_ms kp ucan_token of
          (Inl Panic, _, _) \<Rightarrow> Inl Panic
        | (r, target', n') \<Rightarrow> close_then C E n' ''normal'' kp target' (map_err (lift_fail DirectCall) r))"

definition direct_call_with_ucan ::
  "crypto \<Rightarrow> env \<Rightarrow> nat \<Rightarrow> Session \<Rightarrow> KeyPair \<Rightarrow> dials \<Rightarrow> bytes \<Rightarrow> string \<Rightarrow> Value \<Rightarrow> nat \<Rightarrow> bytes
    \<Rightarrow> (CallResponse, DirectCallError fail) result \<times> Session" where
  "direct_call_with_ucan C E n resolve_via kp dials realm procedure payload timeout ucan_token =
    (case resolve C E n resolve_via kp realm procedure of
       (r, s', n') \<Rightarrow>
         (bindR (map_err (lift_fail DirectResolve) r) (\<lambda>resolved.
            call_resolved C E n' kp dials resolved realm procedure payload timeout ucan_token), s'))"

definition direct_call ::
  "crypto \<Rightarrow> env \<Rightarrow> nat \<Rightarrow> Session \<Rightarrow> KeyPair \<Rightarrow> dials \<Rightarrow> bytes \<Rightarrow> string \<Rightarrow> Value \<Rightarrow> nat
    \<Rightarrow> (CallResponse, DirectCallError fail) result \<times> Session" where
  "direct_call C E n resolve_via kp dials realm procedure payload timeout =
    (case resolve C E n resolve_via kp realm procedure of
       (r, s', n') \<Rightarrow>
         (bindR (map_err (lift_fail DirectResolve) r) (\<lambda>resolved.
            call_resolved C E n' kp dials resolved realm procedure payload timeout []), s'))"

definition direct_call_with_cert_chain ::
  "crypto \<Rightarrow> 'a x509 \<Rightarrow> env \<Rightarrow> nat \<Rightarrow> Session \<Rightarrow> KeyPair \<Rightarrow> dials \<Rightarrow> bytes \<Rightarrow> string \<Rightarrow> bytes \<Rightarrow> string \<Rightarrow> Value \<Rightarrow> nat
    \<Rightarrow> (CallResponse, DirectCallError fail) result \<times> Session" where
  "direct_call_with_cert_chain C X E n resolve_via kp dials realm procedure realm_ca_pem expected_org payload timeout =
    (case resolve_with_cert_chain C X E n resolve_via kp realm procedure realm_ca_pem expected_org of
       (r, s', n') \<Rightarrow>
         (bindR (map_err (lift_fail DirectResolve) r) (\<lambda>resolved.
            call_resolved C E n' kp dials resolved realm procedure payload timeout []), s'))"

subsection \<open>Advertising\<close>

datatype AdvertiseDirectError = AdvertiseFailed SendFrameError | AdvertiseDht DhtError

definition publish_advertisement ::
  "crypto \<Rightarrow> env \<Rightarrow> nat \<Rightarrow> Session \<Rightarrow> KeyPair \<Rightarrow> (Record, AdvertiseDirectError fail) result
    \<Rightarrow> (unit, AdvertiseDirectError fail) result \<times> Session \<times> nat" where
  "publish_advertisement C E n s kp made =
    (case bindR made (\<lambda>r. sign_record C r kp) of
       Inl e \<Rightarrow> (Inl e, s, n)
     | Inr r \<Rightarrow> (case put_record C E n s kp r of (x, s', n') \<Rightarrow> (map_err (lift_fail AdvertiseDht) x, s', n')))"

definition advertise_direct ::
  "crypto \<Rightarrow> env \<Rightarrow> nat \<Rightarrow> Session \<Rightarrow> KeyPair \<Rightarrow> bytes \<Rightarrow> string \<Rightarrow> nat
    \<Rightarrow> (unit, AdvertiseDirectError fail) result \<times> Session \<times> nat" where
  "advertise_direct C E n s kp realm procedure ttl =
    (case advertise C E n (AdvertiseSpec_new realm procedure (node_id C kp)) kp s of
       (Inl e, s') \<Rightarrow> (Inl (lift_fail AdvertiseFailed e), s', n + 1)
     | (Inr _, s') \<Rightarrow>
         publish_advertisement C E (n + 2) s' kp
           (Inr (new_procedure_advertisement (uint (env_now_ms E (n + 1))) (env_id E (n + 1)) (node_id C kp)
              (discovery_uri realm procedure) (he_node_id (station s')) ttl)))"

definition advertise_direct_with_cert_chain ::
  "crypto \<Rightarrow> env \<Rightarrow> nat \<Rightarrow> Session \<Rightarrow> KeyPair \<Rightarrow> bytes \<Rightarrow> string \<Rightarrow> nat \<Rightarrow> bytes
    \<Rightarrow> (unit, AdvertiseDirectError fail) result \<times> Session \<times> nat" where
  "advertise_direct_with_cert_chain C E n s kp realm procedure ttl cert_chain_pem =
    (case advertise C E n (AdvertiseSpec_new realm procedure (node_id C kp)) kp s of
       (Inl e, s') \<Rightarrow> (Inl (lift_fail AdvertiseFailed e), s', n + 1)
     | (Inr _, s') \<Rightarrow>
         publish_advertisement C E (n + 2) s' kp
           (new_procedure_advertisement_with_cert_chain (uint (env_now_ms E (n + 1))) (env_id E (n + 1)) (node_id C kp)
              (discovery_uri realm procedure) (he_node_id (station s')) ttl cert_chain_pem))"

text \<open>\<open>stop\<close> resolves after some number of ticks; the errors reported to \<open>on_error\<close> are the result.\<close>

primrec keep_advertised_direct ::
  "nat \<Rightarrow> crypto \<Rightarrow> env \<Rightarrow> nat \<Rightarrow> Session \<Rightarrow> KeyPair \<Rightarrow> bytes \<Rightarrow> string \<Rightarrow> nat
    \<Rightarrow> (AdvertiseDirectError list, AdvertiseDirectError fail) result \<times> Session" where
  "keep_advertised_direct 0 C E n s kp realm procedure ttl = (Inr [], s)"
| "keep_advertised_direct (Suc ticks) C E n s kp realm procedure ttl =
    (case advertise_direct C E n s kp realm procedure ttl of
       (Inl Panic, s', n') \<Rightarrow> (Inl Panic, s')
     | (Inl (Err e), s', n') \<Rightarrow>
         (case keep_advertised_direct ticks C E n' s' kp realm procedure ttl of
            (r, s'') \<Rightarrow> (bindR r (\<lambda>es. Inr (e # es)), s''))
     | (Inr _, s', n') \<Rightarrow> keep_advertised_direct ticks C E n' s' kp realm procedure ttl)"

subsection \<open>Streams and content\<close>

datatype OpenStreamDirectError =
    OpenStreamResolve ResolveError
  | OpenStreamDial DialAndVerifyError
  | OpenStreamOpen OpenError

definition open_resolved ::
  "crypto \<Rightarrow> env \<Rightarrow> nat \<Rightarrow> KeyPair \<Rightarrow> dials \<Rightarrow> Resolved \<Rightarrow> bytes \<Rightarrow> string \<Rightarrow> StreamMode \<Rightarrow> Value \<Rightarrow> int
    \<Rightarrow> (Session \<times> StreamHandle, OpenStreamDirectError fail) result" where
  "open_resolved C E n kp dials resolved realm procedure md args deadline_ms =
    bindR (map_err (lift_fail OpenStreamDial)
             (dial_and_verify C E n kp dials (rs_host resolved) (rs_port resolved) (rs_station resolved))) (\<lambda>target.
      case open_handle C E (n + 1) (session_open_bi target (n + 1)) procedure realm md args deadline_ms kp of
        Inr handle \<Rightarrow> Inr (target, handle)
      | Inl Panic \<Rightarrow> Inl Panic
      | Inl (Err e) \<Rightarrow> close_then C E (n + 2) ''normal'' kp target (Inl (Err (OpenStreamOpen e))))"

definition open_stream_direct ::
  "crypto \<Rightarrow> env \<Rightarrow> nat \<Rightarrow> Session \<Rightarrow> KeyPair \<Rightarrow> dials \<Rightarrow> bytes \<Rightarrow> string \<Rightarrow> StreamMode \<Rightarrow> Value \<Rightarrow> int
    \<Rightarrow> (Session \<times> StreamHandle, OpenStreamDirectError fail) result \<times> Session" where
  "open_stream_direct C E n resolve_via kp dials realm procedure md args deadline_ms =
    (case resolve C E n resolve_via kp realm procedure of
       (r, s', n') \<Rightarrow>
         (bindR (map_err (lift_fail OpenStreamResolve) r) (\<lambda>resolved.
            open_resolved C E n' kp dials resolved realm procedure md args deadline_ms), s'))"

definition open_stream_direct_with_cert_chain ::
  "crypto \<Rightarrow> 'a x509 \<Rightarrow> env \<Rightarrow> nat \<Rightarrow> Session \<Rightarrow> KeyPair \<Rightarrow> dials \<Rightarrow> bytes \<Rightarrow> string \<Rightarrow> bytes \<Rightarrow> string
    \<Rightarrow> StreamMode \<Rightarrow> Value \<Rightarrow> int \<Rightarrow> (Session \<times> StreamHandle, OpenStreamDirectError fail) result \<times> Session" where
  "open_stream_direct_with_cert_chain C X E n resolve_via kp dials realm procedure realm_ca_pem expected_org md args deadline_ms =
    (case resolve_with_cert_chain C X E n resolve_via kp realm procedure realm_ca_pem expected_org of
       (r, s', n') \<Rightarrow>
         (bindR (map_err (lift_fail OpenStreamResolve) r) (\<lambda>resolved.
            open_resolved C E n' kp dials resolved realm procedure md args deadline_ms), s'))"

datatype PutDirectError = PutDirectResolve ResolveError | PutDirectDial DialAndVerifyError | PutDirectPut PutError

text \<open>The transfer has a stream of its own, opened on the connection of the dialed session, whose control stream
  it does not use.\<close>

definition put_direct ::
  "crypto \<Rightarrow> env \<Rightarrow> nat \<Rightarrow> Session \<Rightarrow> KeyPair \<Rightarrow> dials \<Rightarrow> u64 \<Rightarrow> bytes \<Rightarrow> bytes \<Rightarrow> string
    \<Rightarrow> (Mcid, PutDirectError fail) result \<times> Session" where
  "put_direct C E n resolve_via kp dials created target_station b name =
    (case resolve_station_endpoint C E n resolve_via kp target_station of
       (r, s', n') \<Rightarrow>
         (bindR (map_err (lift_fail PutDirectResolve) r) (\<lambda>resolved.
          bindR (map_err (lift_fail PutDirectDial)
                   (dial_and_verify C E n' kp dials (rs_host resolved) (rs_port resolved) (rs_station resolved))) (\<lambda>target.
            case content_put C E (n' + 1) kp (session_open_bi target (n' + 1)) created b name of
              (Inl Panic, _) \<Rightarrow> Inl Panic
            | (x, st) \<Rightarrow>
                close_then C E (case st of Some (_, m) \<Rightarrow> m | None \<Rightarrow> n' + 1) ''normal'' kp target (map_err (lift_fail PutDirectPut) x))), s'))"

datatype GetDirectError =
    GetDirectDht DhtError
  | NotAnnounced
  | EndpointParse string
  | GetDirectDial DialAndVerifyError
  | GetDirectGet GetError

fun first_trusted_content_provider ::
  "crypto \<Rightarrow> env \<Rightarrow> nat \<Rightarrow> Record list \<Rightarrow> (ContentAnnouncement option, 'e fail) result \<times> nat" where
  "first_trusted_content_provider C E n [] = (Inr None, n)"
| "first_trusted_content_provider C E n (r # rs) =
    (case verify_record C (uint (env_now_ms E n)) r of
       Inl Panic \<Rightarrow> (Inl Panic, n + 1)
     | Inl (Err _) \<Rightarrow> first_trusted_content_provider C E (n + 1) rs
     | Inr _ \<Rightarrow>
         (case read_content_announcement r of
            Inr adv \<Rightarrow>
              if an_announcer_node adv = rc_key r then (Inr (Some adv), n + 1)
              else first_trusted_content_provider C E (n + 1) rs
          | Inl _ \<Rightarrow> first_trusted_content_provider C E (n + 1) rs))"

subsection \<open>Endpoint URLs\<close>

text \<open>\<open>str::rsplit_once\<close> at a one-byte separator, and \<open>u16::from_str\<close>.\<close>

definition rsplit_once :: "char \<Rightarrow> string \<Rightarrow> (string \<times> string) option" where
  "rsplit_once c s =
    (if c \<in> set s then
       let tail = takeWhile (\<lambda>x. x \<noteq> c) (rev s) in
       Some (take (length s - length tail - 1) s, rev tail)
     else None)"

definition parse_u16 :: "string \<Rightarrow> u16 option" where
  "parse_u16 s =
    (let digits = (case s of c # r \<Rightarrow> if c = CHR ''+'' then r else s | [] \<Rightarrow> []) in
     case read_digits 10 digits of
       (ds, rest) \<Rightarrow>
         if ds = [] \<or> rest \<noteq> [] then None
         else let v = foldl (\<lambda>n d. n * 10 + d) 0 ds in if v \<le> 65535 then Some (word_of_nat v) else None)"

definition strip_prefix :: "string \<Rightarrow> string \<Rightarrow> string option" where
  "strip_prefix s prefix = (if take (length prefix) s = prefix then Some (drop (length prefix) s) else None)"

definition host_port :: "string \<Rightarrow> (string \<times> u16) option" where
  "host_port hostport =
    Option.bind (rsplit_once (CHR '':'') hostport) (\<lambda>(host, port_str). map_option (Pair host) (parse_u16 port_str))"

definition parse_seed_url :: "string \<Rightarrow> (string \<times> u16) option" where
  "parse_seed_url seed =
    (case (case strip_prefix seed ''https://'' of Some rest \<Rightarrow> Some rest | None \<Rightarrow> strip_prefix seed ''http://'') of
       Some rest \<Rightarrow> host_port (takeWhile (\<lambda>c. c \<noteq> CHR ''/'') rest)
     | None \<Rightarrow> host_port seed)"

definition get_direct ::
  "crypto \<Rightarrow> env \<Rightarrow> nat \<Rightarrow> Session \<Rightarrow> KeyPair \<Rightarrow> dials \<Rightarrow> Mcid
    \<Rightarrow> (bytes, GetDirectError fail) result \<times> Session" where
  "get_direct C E n resolve_via kp dials mcid =
    (case find_records C E n resolve_via kp (content_key C mcid) of
       (r, s', n') \<Rightarrow>
         (bindR (map_err (lift_fail GetDirectDht) r) (\<lambda>recs.
            case first_trusted_content_provider C E n' recs of
              (provider, n2) \<Rightarrow>
                bindR provider (\<lambda>provider.
                bindR (ok_or (Err NotAnnounced) provider) (\<lambda>adv.
                bindR (ok_or (Err (EndpointParse (an_endpoint adv))) (parse_seed_url (an_endpoint adv))) (\<lambda>(host, port).
                bindR (map_err (lift_fail GetDirectDial) (dial_and_verify C E n2 kp dials host port (an_announcer_node adv))) (\<lambda>target.
                  case content_get C E (n2 + 1) kp (session_open_bi target (n2 + 1)) mcid of
                    Inl Panic \<Rightarrow> Inl Panic
                  | x \<Rightarrow> close_then C E n2 ''normal'' kp target (map_err (lift_fail GetDirectGet) x)))))), s'))"

end
