(* ===== verification/DirectProps.thy ===== *)
theory DirectProps
  imports DirectDial CertProps StreamProps PoolProps
begin

section \<open>DirectProps: what direct dial promises\<close>

text \<open>
  A procedure that was advertised is resolved to the station that serves it, past misses and to the
  endpoint the station signed; whatever is called, streamed or fetched goes to a session whose
  station proved the identity the signed records name; and what resolution does not check.
\<close>

subsection \<open>Endpoints and advertisements as they are received\<close>

lemma read_station_endpoint_normal:
  assumes "wfv (rc_payload r)"
  shows "read_station_endpoint (record_normal r) = read_station_endpoint r"
proof -
  have port: "as_port (normal v) = as_port v" for v by (cases v) (simp_all add: as_port_def)
  have item: "host_item (normal v) = host_item v" for v by (cases v) (simp_all add: host_item_def)
  have hosts: "List.map_filter host_item (map normal items) = List.map_filter host_item items" for items
    by (induction items) (simp_all add: List.map_filter_simps item split: option.split)
  have get: "get (normal (rc_payload r)) f = map_option normal (get (rc_payload r) f)" for f
  proof (cases "rc_payload r")
    case (Map ps)
    then show ?thesis using get_normal [of ps] assms by simp
  qed (simp_all add: get_def)
  have field: "record_field as_port (normal (rc_payload r)) f = record_field as_port (rc_payload r) f" for f
    by (simp add: record_field_def read_field_def get port split: option.split)
  show ?thesis
  proof (cases "get (rc_payload r) ''host_advertised''")
    case None
    then show ?thesis by (simp add: read_station_endpoint_def record_normal_def field get Let_def)
  next
    case (Some x)
    then show ?thesis by (cases x) (simp_all add: read_station_endpoint_def record_normal_def field get hosts Let_def)
  qed
qed

text \<open>A station's own endpoint record: well formed, signed by the station, read as this host and port.\<close>

definition endpoint_of :: "crypto \<Rightarrow> bytes \<Rightarrow> string \<Rightarrow> u16 \<Rightarrow> Record \<Rightarrow> bool" where
  "endpoint_of C target host port r \<longleftrightarrow> wf_record r \<and> record_authentic C r \<and> rc_key r = target \<and>
     (\<exists>hosts. read_station_endpoint r = Inr \<lparr>ep_quic_port = port, ep_host_advertised = host # hosts\<rparr>)"

definition live_at :: "env \<Rightarrow> Record \<Rightarrow> bool" where
  "live_at E r \<longleftrightarrow> (\<forall>m. 0 < rc_expires_at r \<longrightarrow> uint (env_now_ms E m) < rc_expires_at r)"

lemma verify_live:
  assumes "wf_record r" "record_authentic C r" "live_at E r"
  shows "verify_record C (uint (env_now_ms E m)) (record_normal r) = Inr ()"
proof -
  have "rc_expires_at (record_normal r) = rc_expires_at r" by (simp add: record_normal_def)
  then show ?thesis using assms
    by (auto simp: verify_record_verdict wf_record_normal record_authentic_normal live_at_def not_le)
qed

subsection \<open>Polling past misses\<close>

text \<open>The answers to \<open>k\<close> calls in a row that find nothing.\<close>

fun missed :: "nat \<Rightarrow> nat \<Rightarrow> Value \<Rightarrow> (nat \<times> Value) list" where
  "missed n 0 v = []"
| "missed n (Suc k) v = (n, v) # missed (n + 7) k v"

definition dht_client_ok :: "crypto \<Rightarrow> env \<Rightarrow> KeyPair \<Rightarrow> bool" where
  "dht_client_ok C E kp \<longleftrightarrow> crypto_ok C \<and> wf_keypair kp \<and> env_ok E \<and> (\<forall>n. dht_times_ok E n)"

lemma dht_client_okD:
  assumes "dht_client_ok C E kp"
  shows "crypto_ok C" "wf_keypair kp" "env_ok E" "dht_times_ok E n"
  using assms by (simp_all add: dht_client_ok_def)

lemma poll_records_served:
  assumes "dht_client_ok C E kp" "length key = 32" "wf_record r" "length (rc_signature r) = 64" "k < retries"
    "serves_at E (missed (n + 4) k (List []) @ (n + 4 + 7 * k, normal (List [to_rpc_value r])) # ps) (control s)"
  shows "\<exists>s'. poll_records retries C E n s kp key = (Inr [record_normal r], s', n + 7 * Suc k) \<and> serves_at E ps (control s')"
  using assms(5,6)
proof (induction k arbitrary: n s retries)
  case 0
  then obtain m where m: "retries = Suc m" by (cases retries) simp_all
  have served: "serves_at E ((n + 4, normal (List [to_rpc_value r])) # ps) (control s)" using 0(2) by simp
  obtain s' responder where found: "find_records C E n s kp key =
      (records_list_from_response (CallResult (normal (List [to_rpc_value r])) responder), s', n + 7)" "serves_at E ps (control s')"
    by (rule find_records_served [OF dht_client_okD [OF assms(1)] assms(2) served])
  then show ?case using record_of_answer(2) [OF assms(3,4)] by (simp add: m)
next
  case (Suc k)
  then obtain m where m: "retries = Suc m" "k < m" by (cases retries) simp_all
  let ?rest = "missed (n + 7 + 4) k (List []) @ (n + 7 + 4 + 7 * k, normal (List [to_rpc_value r])) # ps"
  have served: "serves_at E ((n + 4, List []) # ?rest) (control s)" using Suc.prems(2) by (simp add: ac_simps)
  obtain s' responder where found: "find_records C E n s kp key =
      (records_list_from_response (CallResult (List []) responder), s', n + 7)" "serves_at E ?rest (control s')"
    by (rule find_records_served [OF dht_client_okD [OF assms(1)] assms(2) served])
  then show ?case using Suc.IH [OF m(2) found(2)] by (simp add: m(1) records_list_from_response_def ac_simps List.map_filter_simps)
qed

lemma endpoint_attempts_served:
  assumes "dht_client_ok C E kp" "endpoint_of C target host port r" "live_at E r" "j < retries"
    "serves_at E (missed (n + 4) j (Text ''not_found'') @ [(n + 4 + 7 * j, normal (to_rpc_value r))]) (control s)"
  shows "\<exists>s'. endpoint_attempts retries C E n s kp target =
    (Inr \<lparr>rs_station = target, rs_host = host, rs_port = port\<rparr>, s', n + 7 * Suc j + 1)"
  using assms(4,5)
proof (induction j arbitrary: n s retries)
  case 0
  then obtain m where m: "retries = Suc m" by (cases retries) simp_all
  have r: "wf_record r" "record_authentic C r" "rc_key r = target" using assms(2) by (simp_all add: endpoint_of_def)
  then have sig: "length (rc_signature r) = 64" by (simp add: record_authentic_def)
  obtain hosts where hosts: "read_station_endpoint r = Inr \<lparr>ep_quic_port = port, ep_host_advertised = host # hosts\<rparr>"
    using assms(2) by (auto simp: endpoint_of_def)
  note ok = dht_client_okD [OF assms(1)]
  have key: "length (station_endpoint_key C target) = 32" using crypto_okD(5) [OF ok(1)] by (simp add: station_endpoint_key_def)
  have served: "serves_at E ((n + 4, normal (to_rpc_value r)) # []) (control s)" using 0(2) by simp
  obtain s' responder where found: "find_record C E n s kp (station_endpoint_key C target) =
      (record_from_response (CallResult (normal (to_rpc_value r)) responder), s', n + 7)"
    by (rule find_record_served [OF ok key served])
  have "rc_key (record_normal r) = target" using r(3) by (simp add: record_normal_def)
  then show ?case using found record_of_answer(1) [OF r(1) sig] verify_live [OF r(1,2) assms(3)] hosts
      read_station_endpoint_normal [of r] r(1) by (simp add: m wf_record_def)
next
  case (Suc j)
  then obtain m where m: "retries = Suc m" "j < m" by (cases retries) simp_all
  note ok = dht_client_okD [OF assms(1)]
  have key: "length (station_endpoint_key C target) = 32" using crypto_okD(5) [OF ok(1)] by (simp add: station_endpoint_key_def)
  have served: "serves_at E ((n + 4, Text ''not_found'') # missed (n + 7 + 4) j (Text ''not_found'') @ [(n + 7 + 4 + 7 * j, normal (to_rpc_value r))]) (control s)"
    using Suc.prems(2) by (simp add: ac_simps)
  obtain s' responder where found: "find_record C E n s kp (station_endpoint_key C target) =
      (record_from_response (CallResult (Text ''not_found'') responder), s', n + 7)"
    "serves_at E (missed (n + 7 + 4) j (Text ''not_found'') @ [(n + 7 + 4 + 7 * j, normal (to_rpc_value r))]) (control s')"
    by (rule find_record_served [OF ok key served])
  from Suc.IH [OF m(2) found(2)] found(1) show ?case by (simp add: m(1) record_from_response_def)
qed

subsection \<open>Resolution\<close>

lemma resolve_served:
  assumes "dht_client_ok C E kp" "wf_record r" "record_authentic C r" "live_at E r" "read_procedure_advertisement (record_normal r) = Inr adv"
    "endpoint_of C (pa_serving_station adv) host port ep" "live_at E ep" "k < RESOLVE_RETRIES" "j < RESOLVE_RETRIES"
    "serves_at E (missed (n + 4) k (List []) @ (n + 4 + 7 * k, normal (List [to_rpc_value r])) #
       missed (n + 7 * Suc k + 1 + 4) j (Text ''not_found'') @ [(n + 7 * Suc k + 1 + 4 + 7 * j, normal (to_rpc_value ep))]) (control s)"
  shows "\<exists>s'. resolve C E n s kp realm procedure =
    (Inr \<lparr>rs_station = pa_serving_station adv, rs_host = host, rs_port = port\<rparr>, s', n + 7 * (Suc k + Suc j) + 2)"
proof -
  have key: "length (procedure_key C (discovery_uri realm procedure)) = 32"
    using crypto_okD(5) [OF dht_client_okD(1) [OF assms(1)]] by (simp add: procedure_key_def)
  have sig: "length (rc_signature r) = 64" using assms(3) by (simp add: record_authentic_def)
  from poll_records_served [OF assms(1) key assms(2) sig assms(8,10)] obtain s1 where
    s1: "poll_records RESOLVE_RETRIES C E n s kp (procedure_key C (discovery_uri realm procedure)) = (Inr [record_normal r], s1, n + 7 * Suc k)"
    "serves_at E (missed (n + 7 * Suc k + 1 + 4) j (Text ''not_found'') @ [(n + 7 * Suc k + 1 + 4 + 7 * j, normal (to_rpc_value ep))]) (control s1)"
    by blast
  have "first_trusted_advertisement C E (n + 7 * Suc k) [record_normal r] = (Inr (Some adv) :: (_, ResolveError fail) result, n + 7 * Suc k + 1)"
    using verify_live [OF assms(2-4)] assms(5) by simp
  with s1 endpoint_attempts_served [OF assms(1,6,7,9) s1(2)] show ?thesis
    by (simp add: resolve_def resolve_station_endpoint_def Let_def)
qed

lemma utf8_valid_append_ascii: "\<forall>b \<in> set a. b < 0x80 \<Longrightarrow> utf8_valid b \<Longrightarrow> utf8_valid (a @ b)"
  by (induction a) simp_all

lemma valid_str_append_ascii: "ascii s \<Longrightarrow> valid_str r \<Longrightarrow> valid_str (s @ r)"
  unfolding valid_str_def as_bytes_def map_append
  by (rule utf8_valid_append_ascii) (auto simp: ascii_def word_less_nat_alt unat_of_char_u8)

lemma ascii_hex_digit: "d < 16 \<Longrightarrow> ascii [hex_digit d]"
proof -
  have "list_all (\<lambda>d. of_char (hex_digit d) < (128 :: nat)) [0..<16]" by code_simp
  then show "d < 16 \<Longrightarrow> ascii [hex_digit d]" by (simp add: list_all_iff ascii_def)
qed

lemma valid_discovery_uri:
  assumes "valid_str procedure"
  shows "valid_str (discovery_uri realm procedure)"
proof -
  have "unat b div 16 < 16" "unat b mod 16 < 16" for b :: u8 using unat_u8_less [of b] by (simp_all add: less_mult_imp_div_less)
  then have "ascii (hex_byte b)" for b using ascii_hex_digit by (simp add: hex_byte_def ascii_def)
  then have "ascii (concat (map hex_byte realm) @ ''/'')" by (auto simp: ascii_def)
  then show ?thesis using valid_str_append_ascii [of "concat (map hex_byte realm) @ ''/''"] assms by (simp add: discovery_uri_def)
qed

text \<open>What a resolution that succeeds has found.\<close>

definition trusted_route :: "crypto \<Rightarrow> env \<Rightarrow> Record list \<Rightarrow> Resolved \<Rightarrow> bool" where
  "trusted_route C E recs res \<longleftrightarrow>
     (\<exists>r m adv. r \<in> set recs \<and> verify_record C (uint (env_now_ms E m)) r = Inr () \<and>
        read_procedure_advertisement r = Inr adv \<and> pa_serving_station adv = rs_station res)"

definition signed_endpoint :: "crypto \<Rightarrow> env \<Rightarrow> Resolved \<Rightarrow> bool" where
  "signed_endpoint C E res \<longleftrightarrow>
     (\<exists>ep m hosts. rc_key ep = rs_station res \<and> verify_record C (uint (env_now_ms E m)) ep = Inr () \<and>
        read_station_endpoint ep = Inr \<lparr>ep_quic_port = rs_port res, ep_host_advertised = rs_host res # hosts\<rparr>)"

lemma endpoint_attempts_Inr:
  "endpoint_attempts retries C E n s kp target = (Inr res, s', n') \<Longrightarrow> rs_station res = target \<and> signed_endpoint C E res"
proof (induction retries arbitrary: n s)
  case (Suc retries)
  obtain x s1 n1 where x: "find_record C E n s kp (station_endpoint_key C target) = (x, s1, n1)"
    by (cases "find_record C E n s kp (station_endpoint_key C target)")
  show ?case
  proof (cases x)
    case (Inl e)
    then show ?thesis using Suc x by (cases e) (auto split: if_splits)
  next
    case (Inr r)
    obtain v where v: "verify_record C (uint (env_now_ms E n1)) r = v" by blast
    have key: "rc_key r = target" using Suc.prems x Inr by (simp split: if_splits)
    show ?thesis
    proof (cases v)
      case (Inl e)
      then show ?thesis using Suc x Inr v key by (auto split: fail.splits RecordVerifyError.splits)
    next
      case ok: (Inr u)
      obtain ep host hosts where ep: "read_station_endpoint r = Inr ep" "ep_host_advertised ep = host # hosts"
        "res = \<lparr>rs_station = target, rs_host = host, rs_port = ep_quic_port ep\<rparr>"
        using Suc.prems x Inr v key ok by (auto split: sum.splits list.splits)
      then have "read_station_endpoint r = Inr \<lparr>ep_quic_port = rs_port res, ep_host_advertised = rs_host res # hosts\<rparr>" by (cases ep) simp
      then show ?thesis using ep(3) v ok key by (auto simp: signed_endpoint_def)
    qed
  qed
qed simp

lemma first_trusted_Inr:
  "first_trusted_advertisement C E n recs = (Inr (Some adv) :: (_, 'e fail) result, n') \<Longrightarrow>
    \<exists>r m. r \<in> set recs \<and> verify_record C (uint (env_now_ms E m)) r = Inr () \<and> read_procedure_advertisement r = Inr adv"
proof (induction recs arbitrary: n)
  case (Cons r rs)
  show ?case
  proof (cases "verify_record C (uint (env_now_ms E n)) r")
    case (Inl e)
    then have "first_trusted_advertisement C E (n + 1) rs = (Inr (Some adv) :: (_, 'e fail) result, n')"
      using Cons.prems by (cases e) simp_all
    then show ?thesis using Cons.IH by fastforce
  next
    case (Inr u)
    show ?thesis
    proof (cases "read_procedure_advertisement r")
      case (Inl e)
      then have "first_trusted_advertisement C E (n + 1) rs = (Inr (Some adv) :: (_, 'e fail) result, n')"
        using Cons.prems Inr by simp
      then show ?thesis using Cons.IH by fastforce
    next
      case read: (Inr adv')
      then have "adv' = adv" using Cons.prems Inr by simp
      then show ?thesis using read Inr by auto
    qed
  qed
qed simp

lemma advertise_station: "advertise C E n spec kp s = (r, s') \<Longrightarrow> station s' = station s"
  by (auto simp: advertise_def session_send_def split: prod.splits)

text \<open>The answers to a resolution: \<open>k\<close> times no advertisement, then this one, then \<open>j\<close> times no endpoint,
  then this one.\<close>

definition resolution_answers :: "nat \<Rightarrow> nat \<Rightarrow> Record \<Rightarrow> nat \<Rightarrow> Record \<Rightarrow> (nat \<times> Value) list" where
  "resolution_answers n k r j ep =
    missed (n + 4) k (List []) @ (n + 4 + 7 * k, normal (List [to_rpc_value r])) #
    missed (n + 7 * Suc k + 1 + 4) j (Text ''not_found'') @ [(n + 7 * Suc k + 1 + 4 + 7 * j, normal (to_rpc_value ep))]"

text \<open>C6: Advertise, then resolve. When advertising a procedure succeeds, what was stored in the DHT is a
  record with which any client that is answered with it, after fewer misses than the retries and
  before it expires, and then with the station's own endpoint record, resolves the procedure to the
  advertiser's station at the endpoint the station signed.\<close>

theorem advertised_procedure_resolves:
  assumes "crypto_ok C" "wf_keypair kp" "env_ok E" "valid_str procedure" "length (he_node_id (station s)) = 32"
    "in_range (uint (env_now_ms E (n + 1)) + int (advertised_ttl ttl))"
    "advertise_direct C E n s kp realm procedure ttl = (Inr (), s', n')"
  shows "\<exists>r s1. put_record C E (n + 2) s1 kp r = (Inr (), s', n') \<and>
    sign_record C (new_procedure_advertisement (uint (env_now_ms E (n + 1))) (env_id E (n + 1)) (node_id C kp)
      (discovery_uri realm procedure) (he_node_id (station s)) ttl) kp = (Inr r :: (Record, AdvertiseDirectError fail) result) \<and>
    (\<forall>Ec kc m c host port ep k j. dht_client_ok C Ec kc \<longrightarrow> live_at Ec r \<longrightarrow>
       endpoint_of C (he_node_id (station s)) host port ep \<longrightarrow> live_at Ec ep \<longrightarrow> k < RESOLVE_RETRIES \<longrightarrow> j < RESOLVE_RETRIES \<longrightarrow>
       serves_at Ec (resolution_answers m k r j ep) (control c) \<longrightarrow>
       (\<exists>c' m'. resolve C Ec m c kc realm procedure =
          (Inr \<lparr>rs_station = he_node_id (station s), rs_host = host, rs_port = port\<rparr>, c', m')))"
proof -
  let ?now = "uint (env_now_ms E (n + 1))" and ?server = "he_node_id (station s)" and ?uri = "discovery_uri realm procedure"
  let ?r = "new_procedure_advertisement ?now (env_id E (n + 1)) (node_id C kp) ?uri ?server ttl"
  obtain s1 where s1: "advertise C E n \<lparr>ad_realm = realm, ad_procedure = procedure, ad_advertiser = node_id C kp\<rparr> kp s = (Inr (), s1)"
    "publish_advertisement C E (n + 2) s1 kp (Inr (new_procedure_advertisement ?now (env_id E (n + 1)) (node_id C kp) ?uri
       (he_node_id (station s1)) ttl)) = (Inr (), s', n')"
    using assms(7) by (auto simp: advertise_direct_def split: prod.splits sum.splits)
  have st: "station s1 = station s" by (rule advertise_station [OF s1(1)])
  have node: "length (node_id C kp) = 32" by (simp add: node_id_def length_public_bytes [OF assms(1,2)])
  have uri: "valid_str ?uri" by (rule valid_discovery_uri [OF assms(4)])
  have id: "length (env_id E (n + 1)) = 16" using assms(3) by (simp add: env_ok_def)
  have created: "in_range ?now" using unsigned_less [of "env_now_ms E (n + 1)", where 'a = int] by (simp add: in_range_def)
  have wf: "wf_record ?r" by (rule wf_advertisement [OF node id uri created assms(6)])
  have key: "rc_key ?r = node_id C kp" by (simp add: new_procedure_advertisement_def new_envelope_def Let_def)
  obtain r where r: "sign_record C ?r kp = (Inr r :: (Record, AdvertiseDirectError fail) result)" "wf_record r" "record_authentic C r"
    "r = ?r\<lparr>rc_signature := rc_signature r\<rparr>"
    by (rule sign_record_ok [OF assms(1,2) wf key])
  have fields: "rc_payload r = rc_payload ?r" "rc_record_type r = TYPE_PROCEDURE_ADVERTISEMENT"
    by (subst r(4), simp add: new_procedure_advertisement_def new_envelope_def Let_def)+
  note read = read_advertisement_normal [OF fields(1,2) node assms(5) uri]
  have "put_record C E (n + 2) s1 kp r = (Inr (), s', n')"
    using s1(2) r(1) by (auto simp: publish_advertisement_def st map_err_def split: prod.splits sum.splits)
  moreover have "\<exists>c' m'. resolve C Ec m c kc realm procedure = (Inr \<lparr>rs_station = ?server, rs_host = host, rs_port = port\<rparr>, c', m')"
    if "dht_client_ok C Ec kc" "live_at Ec r" "endpoint_of C ?server host port ep" "live_at Ec ep" "k < RESOLVE_RETRIES" "j < RESOLVE_RETRIES"
      "serves_at Ec (resolution_answers m k r j ep) (control c)" for Ec kc m c host port ep k j
    using resolve_served [OF that(1) r(2,3) that(2) read, unfolded ProcedureAdvertisement.simps, OF that(3-6) that(7) [unfolded resolution_answers_def]] by blast
  ultimately show ?thesis using r(1) by blast
qed


subsection \<open>A route that is advertised and resolved\<close>

lemma put_record_served:
  assumes "crypto_ok C" "wf_keypair kp" "env_ok E" "dht_times_ok E n" "wf_record r" "vdepth (to_rpc_value r) < 128"
    "esize (to_rpc_value r) \<le> wire_room - 1024" "serves_at E ((n + 4, p) # ps) (control s)"
  obtains s' where "put_record C E n s kp r = (Inr (), s', n + 7)" "serves_at E ps (control s')"
proof -
  have name: "ascii ''_dht.put_record''" "length ''_dht.put_record'' \<le> 64" by (simp_all add: ascii_def)
  obtain s' responder where "dht_call C E n s kp ''_dht.put_record'' (to_rpc_value r) = (Inr (CallResult p responder), s', n + 7)"
    "serves_at E ps (control s')"
    by (rule dht_call_served [OF assms(1-4) name frame_ok_to_rpc_value [OF assms(5)] assms(6-8)])
  then show ?thesis using that by (simp add: put_record_def)
qed

definition demo_advertisement :: Record where
  "demo_advertisement = new_procedure_advertisement 5 (replicate 16 1) (node_id toy_crypto demo_key)
     (discovery_uri (replicate 32 1) ''p'') (he_node_id demo_hello) 500"

definition demo_endpoint :: Record where
  "demo_endpoint = new_envelope 5 (replicate 16 0) TYPE_STATION_ENDPOINT (he_node_id demo_hello)
     (Map [(Text ''quic_port'', IntV 4433), (Text ''host_advertised'', List [Text ''h''])]) 500"

lemma demo_node: "length (node_id toy_crypto demo_key) = 32" "he_node_id demo_hello = node_id toy_crypto demo_key"
  by (simp_all add: node_id_def length_public_bytes [OF toy_crypto_ok wf_demo_key] demo_hello_def)

lemma demo_client: "dht_client_ok toy_crypto demo_env demo_key"
  unfolding dht_client_ok_def
  by (simp add: toy_crypto_ok wf_demo_key demo_env_ok) (simp add: dht_times_ok_def [abs_def] demo_env_def DHT_TIMEOUT_def)

lemma demo_env_simps: "env_now_ms demo_env m = 5" "env_id demo_env m = replicate 16 (word_of_nat m)" "env_frame_id demo_env m = replicate 16 1"
  by (simp_all add: demo_env_def)

lemma demo_advertisement_signed:
  obtains r where "sign_record toy_crypto demo_advertisement demo_key = (Inr r :: (Record, 'e fail) result)" "wf_record r"
    "record_authentic toy_crypto r" "live_at demo_env r" "vdepth (to_rpc_value r) < 100" "esize (to_rpc_value r) \<le> 2000"
    "r = demo_advertisement\<lparr>rc_signature := rc_signature r\<rparr>"
proof -
  have uri: "valid_str (discovery_uri (replicate 32 1) ''p'')" by (rule valid_discovery_uri) (simp add: ascii_valid_str ascii_def)
  have wf: "wf_record demo_advertisement" unfolding demo_advertisement_def
    by (rule wf_advertisement) (use uri in \<open>simp_all add: demo_node in_range_def advertised_ttl_def\<close>)
  have key: "rc_key demo_advertisement = node_id toy_crypto demo_key"
    by (simp add: demo_advertisement_def new_procedure_advertisement_def new_envelope_def Let_def)
  obtain r where r: "sign_record toy_crypto demo_advertisement demo_key = (Inr r :: (Record, 'e fail) result)" "wf_record r"
    "record_authentic toy_crypto r" "r = demo_advertisement\<lparr>rc_signature := rc_signature r\<rparr>"
    by (rule sign_record_ok [OF toy_crypto_ok wf_demo_key wf key])
  have "length (discovery_uri (replicate 32 1) ''p'') = 66" by (simp add: discovery_uri_def length_concat sum_list_replicate hex_byte_def)
  then have "vdepth (to_rpc_value r) < 100" "esize (to_rpc_value r) \<le> 2000" "live_at demo_env r" using r(3)
    by (subst r(4), simp add: record_authentic_def to_rpc_value_def demo_advertisement_def new_procedure_advertisement_def new_envelope_def
      Let_def demo_node live_at_def demo_env_def)+
  then show ?thesis using r that by blast
qed

lemma demo_advertisement_read:
  assumes "r = demo_advertisement\<lparr>rc_signature := rc_signature r\<rparr>"
  shows "read_procedure_advertisement (record_normal r) = Inr \<lparr>pa_procedure_uri = discovery_uri (replicate 32 1) ''p'',
    pa_advertiser_node = node_id toy_crypto demo_key, pa_serving_station = he_node_id demo_hello, pa_cert_chain = None\<rparr>"
proof -
  have uri: "valid_str (discovery_uri (replicate 32 1) ''p'')" by (rule valid_discovery_uri) (simp add: ascii_valid_str ascii_def)
  have fields: "rc_payload r = rc_payload demo_advertisement" "rc_record_type r = TYPE_PROCEDURE_ADVERTISEMENT"
    by (subst assms, simp add: demo_advertisement_def new_procedure_advertisement_def new_envelope_def Let_def)+
  have node: "length (he_node_id demo_hello) = 32" by (simp add: demo_node)
  show ?thesis by (rule read_advertisement_normal [OF fields(1) [unfolded demo_advertisement_def] fields(2) demo_node(1) node uri])
qed

lemma demo_endpoint_signed:
  obtains ep where "endpoint_of toy_crypto (he_node_id demo_hello) ''h'' 4433 ep" "live_at demo_env ep"
    "vdepth (to_rpc_value ep) < 100" "esize (to_rpc_value ep) \<le> 2000"
proof -
  have "wfv (rc_payload demo_endpoint)" unfolding demo_endpoint_def new_envelope_def
    by (intro frame_ok_wfv) (simp add: frame_ok_Map ascii_valid_str ascii_def in_range_def)
  then have wf: "wf_record demo_endpoint" by (simp add: demo_endpoint_def new_envelope_def wf_record_def demo_node in_range_def)
  have key: "rc_key demo_endpoint = node_id toy_crypto demo_key" by (simp add: demo_endpoint_def new_envelope_def demo_node)
  obtain ep where ep: "sign_record toy_crypto demo_endpoint demo_key = (Inr ep :: (Record, unit fail) result)" "wf_record ep"
    "record_authentic toy_crypto ep" "ep = demo_endpoint\<lparr>rc_signature := rc_signature ep\<rparr>"
    by (rule sign_record_ok [OF toy_crypto_ok wf_demo_key wf key])
  have "vdepth (to_rpc_value ep) < 100" "esize (to_rpc_value ep) \<le> 2000" "live_at demo_env ep" "rc_key ep = he_node_id demo_hello"
    "read_station_endpoint ep = Inr \<lparr>ep_quic_port = 4433, ep_host_advertised = [''h'']\<rparr>" using ep(3)
    by (subst ep(4), simp add: record_authentic_def to_rpc_value_def demo_endpoint_def new_envelope_def Let_def demo_node live_at_def demo_env_def
      read_station_endpoint_def record_field_def read_field_def get_def as_port_def host_item_def List.map_filter_simps)+
  moreover from this ep(2,3) have "endpoint_of toy_crypto (he_node_id demo_hello) ''h'' 4433 ep" unfolding endpoint_of_def by blast
  ultimately show ?thesis by (intro that)
qed


lemma serves_at_chunk: "answers_at E ps b \<Longrightarrow> serves_at E ps (fresh_stream [ReadChunk b])"
  by (simp add: serves_at_def quiet_def incoming_def)

lemma demo_resolution:
  assumes "wf_record r" "vdepth (to_rpc_value r) < 100" "esize (to_rpc_value r) \<le> 2000"
    "wf_record ep" "vdepth (to_rpc_value ep) < 100" "esize (to_rpc_value ep) \<le> 2000"
  obtains c :: Session where "serves_at demo_env (resolution_answers 0 1 r 1 ep) (control c)"
proof -
  let ?answers = "[(4, List []), (11, List [to_rpc_value r]), (19, Text ''not_found''), (26, to_rpc_value ep)]"
  have "wfv (to_rpc_value r)" "wfv (to_rpc_value ep)" using assms(1,4) frame_ok_to_rpc_value frame_ok_wfv by blast+
  then have "\<forall>(n, p) \<in> set ?answers. outcome_fits (HandlerOk p)" using assms
    by (simp add: outcome_fits_def wire_room_def MAX_FRAME_BYTES_def ascii_valid_str ascii_def)
  from answers_at_exist [OF toy_crypto_ok wf_demo_key demo_env_ok this] obtain b where
    b: "answers_at demo_env (map (\<lambda>(n, p). (n, normal p)) ?answers) b" by blast
  have "map (\<lambda>(n, p). (n, normal p)) ?answers = resolution_answers 0 1 r 1 ep" by (simp add: resolution_answers_def)
  with serves_at_chunk [OF b] have "serves_at demo_env (resolution_answers 0 1 r 1 ep) (fresh_stream [ReadChunk b])" by argo
  then show ?thesis using that [of "\<lparr>control = fresh_stream [ReadChunk b], session_open_bi = (\<lambda>_. None), station = demo_hello\<rparr>"] by simp
qed

lemma demo_two_answers:
  assumes "wf_record r" "vdepth (to_rpc_value r) < 100" "esize (to_rpc_value r) \<le> 2000"
    "wf_record ep" "vdepth (to_rpc_value ep) < 100" "esize (to_rpc_value ep) \<le> 2000"
  shows "\<exists>c :: Session. serves_at demo_env [(4, normal (List [to_rpc_value r])), (m, normal (to_rpc_value ep))] (control c)"
proof -
  have "wfv (to_rpc_value r)" "wfv (to_rpc_value ep)" using assms(1,4) frame_ok_to_rpc_value frame_ok_wfv by blast+
  then have "\<forall>(n, p) \<in> set [(4, List [to_rpc_value r]), (m, to_rpc_value ep)]. outcome_fits (HandlerOk p)" using assms
    by (simp add: outcome_fits_def wire_room_def MAX_FRAME_BYTES_def)
  from answers_at_exist [OF toy_crypto_ok wf_demo_key demo_env_ok this] obtain b where
    "answers_at demo_env [(4, normal (List [to_rpc_value r])), (m, normal (to_rpc_value ep))] b"
    unfolding list.map prod.case by blast
  from serves_at_chunk [OF this] show ?thesis by (metis Session.select_convs(1))
qed

lemma demo_advertised:
  obtains s s' n' where "station s = demo_hello"
    "advertise_direct toy_crypto demo_env 0 s demo_key (replicate 32 1) ''p'' 500 = (Inr (), s', n')"
proof -
  obtain r where r: "sign_record toy_crypto demo_advertisement demo_key = (Inr r :: (Record, AdvertiseDirectError fail) result)" "wf_record r"
    "record_authentic toy_crypto r" "live_at demo_env r" "vdepth (to_rpc_value r) < 100" "esize (to_rpc_value r) \<le> 2000"
    by (rule demo_advertisement_signed)
  have "\<forall>(n, p) \<in> set [(6, Null)]. outcome_fits (HandlerOk p)" by (simp add: outcome_fits_def wire_room_def MAX_FRAME_BYTES_def)
  from answers_at_exist [OF toy_crypto_ok wf_demo_key demo_env_ok this] obtain b where
    "answers_at demo_env (map (\<lambda>(n, p). (n, normal p)) [(6, Null)]) b" by blast
  then have "answers_at demo_env [(6, Null)] b" by simp
  then have served: "serves_at demo_env [(6, Null)] (fresh_stream [ReadChunk b])" by (rule serves_at_chunk)
  let ?s = "\<lparr>control = fresh_stream [ReadChunk b], session_open_bi = (\<lambda>_. None), station = demo_hello\<rparr>"
  let ?spec = "\<lparr>ad_realm = replicate 32 1, ad_procedure = ''p'', ad_advertiser = node_id toy_crypto demo_key\<rparr>"
  have "bounded (MAX_FRAME_BYTES - 146) MAX_NESTING_DEPTH (advertise_value ?spec (env_frame_id demo_env 0) (env_now_ms demo_env 0))"
    unfolding advertise_value_def
    by (rule bounded_frame) (simp_all add: ascii_def ascii_valid_str MAX_NESTING_DEPTH_def MAX_FRAME_BYTES_def demo_node demo_env_simps)
  then obtain w where w: "send_signed toy_crypto demo_key (advertise_value ?spec (env_frame_id demo_env 0) (env_now_ms demo_env 0))
      (fresh_stream [ReadChunk b]) = (Inr (), (fresh_stream [ReadChunk b])\<lparr>fs_sent := fs_sent (fresh_stream [ReadChunk b]) @ w\<rparr>)"
    by (rule send_signed_ok [OF toy_crypto_ok wf_demo_key, of _ "fresh_stream [ReadChunk b]"]) simp
  let ?s1 = "?s\<lparr>control := (fresh_stream [ReadChunk b])\<lparr>fs_sent := fs_sent (fresh_stream [ReadChunk b]) @ w\<rparr>\<rparr>"
  have sent: "advertise toy_crypto demo_env 0 ?spec demo_key ?s = (Inr (), ?s1)" by (simp add: advertise_def session_send_def w)
  have "serves_at demo_env ((0 + 2 + 4, Null) # []) (control ?s1)" using served by simp
  moreover have "esize (to_rpc_value r) \<le> wire_room - 1024" using r(6) by (simp add: wire_room_def MAX_FRAME_BYTES_def)
  moreover have "vdepth (to_rpc_value r) < 128" using r(5) by simp
  ultimately obtain s' where "put_record toy_crypto demo_env (0 + 2) ?s1 demo_key r = (Inr (), s', 0 + 2 + 7)"
    using put_record_served [OF dht_client_okD [OF demo_client] r(2)] by metis
  then have "advertise_direct toy_crypto demo_env 0 ?s demo_key (replicate 32 1) ''p'' 500 = (Inr (), s', 0 + 2 + 7)"
    using r(1) by (simp add: advertise_direct_def sent [simplified] publish_advertisement_def demo_advertisement_def demo_env_simps)
  then show ?thesis using that [of ?s] by simp
qed

theorem advertised_procedure_resolves_witness:
  "\<exists>s s' n' c c' m'. advertise_direct toy_crypto demo_env 0 s demo_key (replicate 32 1) ''p'' 500 = (Inr (), s', n') \<and>
    resolve toy_crypto demo_env 0 c demo_key (replicate 32 1) ''p'' =
      (Inr \<lparr>rs_station = node_id toy_crypto demo_key, rs_host = ''h'', rs_port = 4433\<rparr>, c', m')"
proof -
  obtain s s' n' where s: "station s = demo_hello"
    "advertise_direct toy_crypto demo_env 0 s demo_key (replicate 32 1) ''p'' 500 = (Inr (), s', n')" by (rule demo_advertised)
  obtain r where r: "sign_record toy_crypto demo_advertisement demo_key = (Inr r :: (Record, AdvertiseDirectError fail) result)" "wf_record r"
    "record_authentic toy_crypto r" "live_at demo_env r" "vdepth (to_rpc_value r) < 100" "esize (to_rpc_value r) \<le> 2000"
    by (rule demo_advertisement_signed)
  obtain ep where ep: "endpoint_of toy_crypto (he_node_id demo_hello) ''h'' 4433 ep" "live_at demo_env ep"
    "vdepth (to_rpc_value ep) < 100" "esize (to_rpc_value ep) \<le> 2000" by (rule demo_endpoint_signed)
  have "wf_record ep" using ep(1) by (simp add: endpoint_of_def)
  then obtain c :: Session where c: "serves_at demo_env (resolution_answers 0 1 r 1 ep) (control c)"
    by (rule demo_resolution [OF r(2,5,6) _ ep(3,4)])
  have p: "valid_str ''p''" by (simp add: ascii_valid_str ascii_def)
  have node: "length (he_node_id (station s)) = 32" by (simp add: s(1) demo_node)
  have range: "in_range (uint (env_now_ms demo_env (0 + 1)) + int (advertised_ttl 500))" by (simp add: demo_env_simps in_range_def advertised_ttl_def)
  from advertised_procedure_resolves [OF toy_crypto_ok wf_demo_key demo_env_ok p node range s(2)]
  obtain r' where r': "sign_record toy_crypto demo_advertisement demo_key = (Inr r' :: (Record, AdvertiseDirectError fail) result)"
    and all: "\<forall>Ec kc m (c :: Session) host port ep k j. dht_client_ok toy_crypto Ec kc \<longrightarrow> live_at Ec r' \<longrightarrow>
       endpoint_of toy_crypto (he_node_id demo_hello) host port ep \<longrightarrow> live_at Ec ep \<longrightarrow> k < RESOLVE_RETRIES \<longrightarrow> j < RESOLVE_RETRIES \<longrightarrow>
       serves_at Ec (resolution_answers m k r' j ep) (control c) \<longrightarrow>
       (\<exists>c' m'. resolve toy_crypto Ec m c kc (replicate 32 1) ''p'' =
          (Inr \<lparr>rs_station = he_node_id demo_hello, rs_host = host, rs_port = port\<rparr>, c', m'))"
    by (auto simp: s(1) demo_advertisement_def demo_env_simps)
  have "r' = r" using r(1) r'(1) by simp
  then have "\<exists>c' m'. resolve toy_crypto demo_env 0 c demo_key (replicate 32 1) ''p'' =
      (Inr \<lparr>rs_station = he_node_id demo_hello, rs_host = ''h'', rs_port = 4433\<rparr>, c', m')"
    using all [rule_format, OF demo_client _ ep(1,2), of 1 1 0 c] r(4) c by (simp add: RESOLVE_RETRIES_def)
  then show ?thesis using s(2) by (auto simp: demo_node)
qed


text \<open>C36: Resolution trusts the DHT's lookup. The advertisement a resolution goes by is the one it was
  answered with, whichever realm and procedure it asked for: the name the record signs is not compared
  with the name that is resolved.\<close>

theorem resolve_ignores_advertised_name:
  assumes "dht_client_ok C E kp" "wf_record r" "record_authentic C r" "live_at E r"
    "read_procedure_advertisement (record_normal r) = Inr adv" "endpoint_of C (pa_serving_station adv) host port ep" "live_at E ep"
    "k < RESOLVE_RETRIES" "j < RESOLVE_RETRIES" "serves_at E (resolution_answers n k r j ep) (control s)"
  shows "\<forall>realm procedure. \<exists>s' n'. resolve C E n s kp realm procedure =
    (Inr \<lparr>rs_station = pa_serving_station adv, rs_host = host, rs_port = port\<rparr>, s', n')"
  using resolve_served [OF assms(1-9) assms(10) [unfolded resolution_answers_def]] by blast

theorem resolve_ignores_advertised_name_witness:
  "\<exists>c adv s' n'. read_procedure_advertisement adv = Inr \<lparr>pa_procedure_uri = discovery_uri (replicate 32 1) ''p'',
       pa_advertiser_node = node_id toy_crypto demo_key, pa_serving_station = node_id toy_crypto demo_key, pa_cert_chain = None\<rparr> \<and>
    resolve toy_crypto demo_env 0 c demo_key (replicate 32 9) ''other'' =
      (Inr \<lparr>rs_station = node_id toy_crypto demo_key, rs_host = ''h'', rs_port = 4433\<rparr>, s', n')"
proof -
  obtain r where r: "sign_record toy_crypto demo_advertisement demo_key = (Inr r :: (Record, unit fail) result)" "wf_record r"
    "record_authentic toy_crypto r" "live_at demo_env r" "vdepth (to_rpc_value r) < 100" "esize (to_rpc_value r) \<le> 2000"
    "r = demo_advertisement\<lparr>rc_signature := rc_signature r\<rparr>"
    by (rule demo_advertisement_signed)
  obtain ep where ep: "endpoint_of toy_crypto (he_node_id demo_hello) ''h'' 4433 ep" "live_at demo_env ep"
    "vdepth (to_rpc_value ep) < 100" "esize (to_rpc_value ep) \<le> 2000" by (rule demo_endpoint_signed)
  have "wf_record ep" using ep(1) by (simp add: endpoint_of_def)
  then obtain c :: Session where c: "serves_at demo_env (resolution_answers 0 1 r 1 ep) (control c)"
    by (rule demo_resolution [OF r(2,5,6) _ ep(3,4)])
  note read = demo_advertisement_read [OF r(7)]
  have few: "1 < RESOLVE_RETRIES" by (simp add: RESOLVE_RETRIES_def)
  show ?thesis
    using resolve_ignores_advertised_name [OF demo_client r(2-4) read, unfolded ProcedureAdvertisement.simps, OF ep(1,2) few few c] read
    unfolding demo_node by metis
qed

subsection \<open>What was resolved is what is dialed\<close>

lemma resolve_Inr:
  assumes "resolve C E n s kp realm procedure = (Inr res, s', n')"
  shows "\<exists>recs s1 n1. poll_records RESOLVE_RETRIES C E n s kp (procedure_key C (discovery_uri realm procedure)) = (Inr recs, s1, n1) \<and>
    trusted_route C E recs res \<and> signed_endpoint C E res"
proof -
  obtain recs s1 n1 adv n2 where found:
    "poll_records RESOLVE_RETRIES C E n s kp (procedure_key C (discovery_uri realm procedure)) = (Inr recs, s1, n1)"
    "first_trusted_advertisement C E n1 recs = (Inr (Some adv) :: (_, ResolveError fail) result, n2)"
    "endpoint_attempts RESOLVE_RETRIES C E n2 s1 kp (pa_serving_station adv) = (Inr res, s', n')"
    using assms by (auto simp: resolve_def resolve_station_endpoint_def Let_def split: prod.splits sum.splits option.splits)
  from endpoint_attempts_Inr [OF found(3)] first_trusted_Inr [OF found(2)] have "trusted_route C E recs res" "signed_endpoint C E res"
    by (auto simp: trusted_route_def)
  with found(1) show ?thesis by blast
qed

text \<open>The dialed session: it is to the node whose key the HELLO's signature verifies under, and its streams are
  opened on the connection that was dialed.\<close>

definition pinned_session :: "crypto \<Rightarrow> env \<Rightarrow> nat \<Rightarrow> KeyPair \<Rightarrow> dial option \<Rightarrow> bytes \<Rightarrow> Session \<Rightarrow> bool" where
  "pinned_session C E n kp d node target \<longleftrightarrow> timed_connect C E n kp d = Inr target \<and> he_node_id (station target) = node \<and>
     (\<exists>v. parse_hello v = Inr (station target) \<and> verify_frame C v node = Inr () \<and> he_accepted (station target)) \<and>
     (\<exists>st. d = Some (Opened st (session_open_bi target)))"

lemma pinned_sessionI:
  assumes "timed_connect C E n kp d = Inr target" "he_node_id (station target) = node"
  shows "pinned_session C E n kp d node target"
proof -
  obtain dial where "d = Some dial" "connect C E n kp dial = Inr target" using assms(1) by (auto simp: timed_connect_def split: option.splits)
  with connect_Inr show ?thesis using assms unfolding pinned_session_def by metis
qed

lemma close_then_cases: "close_then C E n reason kp s r = Inl Panic \<or> close_then C E n reason kp s r = r"
  by (simp add: close_then_def split: sum.splits)

lemma dial_and_verify_Inr:
  assumes "dial_and_verify C E n kp dials host port expected = Inr target"
  shows "pinned_session C E n kp (dials host port) expected target"
proof -
  obtain t where t: "timed_connect C E n kp (dials host port) = Inr t"
    "(if he_node_id (station t) \<noteq> expected then close_then C E (n + 1) ''trust_violation'' kp t
        (Inl (Err (TrustViolation expected (he_node_id (station t))))) else Inr t) = Inr target"
    using assms by (auto simp: dial_and_verify_def bindR_eq_Inr map_err_def Let_def split: sum.splits)
  then have "he_node_id (station t) = expected \<and> t = target" using close_then_cases by (metis Inl_Inr_False sum.inject(2))
  then show ?thesis using pinned_sessionI t(1) by blast
qed

text \<open>A call came back from a session if it was answered or failed there.\<close>

definition reached :: "(CallResponse, DirectCallError fail) result \<Rightarrow> bool" where
  "reached r \<longleftrightarrow> (case r of Inr _ \<Rightarrow> True | Inl (Err (DirectCall _)) \<Rightarrow> True | _ \<Rightarrow> False)"

lemma call_resolved_reached:
  assumes "call_resolved C E n kp dials res realm procedure payload timeout tok = r" "reached r"
  shows "\<exists>target. pinned_session C E n kp (dials (rs_host res) (rs_port res)) (rs_station res) target \<and>
    r = map_err (lift_fail DirectCall) (fst (session_call_with_ucan C E (n + 2) target procedure realm payload
      (uint (env_now_ms E (n + 1)) + int timeout) kp tok))"
proof -
  obtain d where d: "timed_connect C E n kp (dials (rs_host res) (rs_port res)) = d" by blast
  show ?thesis
  proof (cases d)
    case (Inl e)
    then show ?thesis using assms d by (cases e) (auto simp: call_resolved_def map_err_def reached_def)
  next
    case (Inr t)
    obtain x t' n' where x: "session_call_with_ucan C E (n + 2) t procedure realm payload (uint (env_now_ms E (n + 1)) + int timeout) kp tok = (x, t', n')"
      by (cases "session_call_with_ucan C E (n + 2) t procedure realm payload (uint (env_now_ms E (n + 1)) + int timeout) kp tok")
    show ?thesis
    proof (cases "he_node_id (station t) = rs_station res")
      case False
      then have "r = close_then C E (n + 1) ''trust_violation'' kp t (Inl (Err (DirectTrustViolation (rs_station res) (he_node_id (station t)))))"
        using assms(1) d Inr by (simp add: call_resolved_def map_err_def Let_def)
      then have "r = Inl Panic \<or> r = Inl (Err (DirectTrustViolation (rs_station res) (he_node_id (station t))))"
        by (simp only: close_then_cases)
      then show ?thesis using assms(2) by (auto simp: reached_def)
    next
      case True
      then have "r = (if x = Inl Panic then Inl Panic else close_then C E n' ''normal'' kp t' (map_err (lift_fail DirectCall) x))"
        using assms(1) d Inr x by (auto simp: call_resolved_def map_err_def Let_def split: sum.splits fail.splits)
      then have "r = Inl Panic \<or> r = map_err (lift_fail DirectCall) x" by (cases "x = Inl Panic") (simp_all add: close_then_cases)
      then have "r = map_err (lift_fail DirectCall) x" using assms(2) by (auto simp: reached_def)
      then show ?thesis using pinned_sessionI [OF d [unfolded Inr] True] x by auto
    qed
  qed
qed


lemma close_then_id:
  assumes "ascii reason"
  shows "close_then C E n reason kp s r = r"
proof -
  let ?v = "goodbye_value reason None (env_frame_id E n) (env_now_ms E n)"
  have "frame_ok ?v" by (rule frame_ok_goodbye [OF ascii_valid_str [OF assms]])
  then have "\<exists>g. (sign_frame C ?v kp :: (Value, unit fail) result) = Inr g" using sign_frame_ok(1) by blast
  then show ?thesis
    by (auto simp: close_then_def close_def session_send_def send_signed_def send_frame_def split: sum.splits list.splits bool.splits)
qed

text \<open>A dialed station: it signs an accepting HELLO as its first frame and then sends these bytes; and the streams that are opened
  on its connection later.\<close>

definition station_answers :: "crypto \<Rightarrow> KeyPair \<Rightarrow> bytes \<Rightarrow> (nat \<Rightarrow> FrameStream option) \<Rightarrow> dial option \<Rightarrow> bool" where
  "station_answers C ks b later d \<longleftrightarrow>
     (\<exists>h g w hello. frame_ok h \<and> (sign_frame C h ks :: (Value, unit fail) result) = Inr g \<and> frame_sent_as g w \<and>
        parse_hello (normal g) = Inr hello \<and> he_accepted hello \<and> he_node_id hello = public_bytes C ks \<and>
        d = Some (Opened (fresh_stream [ReadChunk w, ReadChunk b]) later))"

lemma station_answers_connect:
  assumes "crypto_ok C" "wf_keypair kp" "wf_keypair ks" "env_ok E" "station_answers C ks b later d"
  obtains target where "timed_connect C E n kp d = Inr target" "he_node_id (station target) = public_bytes C ks"
    "\<And>ps. answers_at E ps b \<Longrightarrow> serves_at E ps (control target)" "session_open_bi target = later"
proof -
  obtain h g w hello where h: "frame_ok h" "(sign_frame C h ks :: (Value, unit fail) result) = Inr g" "frame_sent_as g w"
    "parse_hello (normal g) = Inr hello" "he_accepted hello" "he_node_id hello = public_bytes C ks"
    and d: "d = Some (Opened (fresh_stream [ReadChunk w, ReadChunk b]) later)"
    using assms(5) by (auto simp: station_answers_def)
  obtain t where t: "connect C E n kp (Opened (fresh_stream (ReadChunk w # [ReadChunk b])) later) = Inr t"
    "fs_buf (control t) = []" "fs_reads (control t) = [ReadChunk b]" "fs_writes (control t) = []"
    by (rule connect_then_closed [OF assms(1-4) h])
  have "fs_writes (fresh_stream [ReadChunk w, ReadChunk b]) = []" "quiet (fresh_stream [ReadChunk w, ReadChunk b])"
    "fs_buf (fresh_stream [ReadChunk w, ReadChunk b]) = []" "incoming (fresh_stream [ReadChunk w, ReadChunk b]) = w @ b"
    by (simp_all add: quiet_def incoming_def)
  from connect_completes [OF assms(1-4) this(1-3) h(1-3) this(4) h(4-6), of n later] t(1) have "station t = hello" "session_open_bi t = later" by simp_all
  then show ?thesis using that [of t] t h(6) by (simp add: d timed_connect_def serves_at_def quiet_def incoming_def)
qed

lemma call_resolved_served:
  assumes "crypto_ok C" "wf_keypair kp" "wf_keypair ks" "env_ok E" "call_fits procedure realm payload (uint (env_now_ms E (n + 1)) + int timeout) []"
    "station_answers C ks b later (dials (rs_host res) (rs_port res))" "rs_station res = public_bytes C ks" "answers_at E [(n + 5, p)] b"
  shows "\<exists>responder. call_resolved C E n kp dials res realm procedure payload timeout [] = Inr (CallResult p responder)"
proof -
  obtain t where t: "timed_connect C E n kp (dials (rs_host res) (rs_port res)) = Inr t" "he_node_id (station t) = public_bytes C ks"
    "serves_at E [(n + 5, p)] (control t)"
    by (rule station_answers_connect [OF assms(1-4,6)]) (use assms(8) in blast)
  have served: "serves_at E ((n + 2 + 3, p) # []) (control t)" using t(3) by (simp add: add.commute)
  obtain t' responder where "session_call C E (n + 2) t procedure realm payload (uint (env_now_ms E (n + 1)) + int timeout) kp =
      (Inr (CallResult p responder), t', n + 2 + 6)"
    by (rule session_call_served [OF assms(1,2,4,5) served])
  then show ?thesis using t(1,2) assms(7)
    by (simp add: call_resolved_def session_call_def map_err_def Let_def close_then_id ascii_def)
qed


text \<open>C5: Pinned calls. When a direct call was answered or failed on a session, an advertisement whose
  signature verified named the station, the endpoint dialed is from a record the station itself
  signed, the session's HELLO was signed by exactly that station, and the call's result is the one of
  a call on that session.\<close>

theorem direct_call_pinned:
  assumes "direct_call_with_ucan C E n s kp dials realm procedure payload timeout tok = (r, s')" "reached r"
  shows "\<exists>recs s1 n1 res n2 target.
    poll_records RESOLVE_RETRIES C E n s kp (procedure_key C (discovery_uri realm procedure)) = (Inr recs, s1, n1) \<and>
    trusted_route C E recs res \<and> signed_endpoint C E res \<and>
    pinned_session C E n2 kp (dials (rs_host res) (rs_port res)) (rs_station res) target \<and>
    r = map_err (lift_fail DirectCall) (fst (session_call_with_ucan C E (n2 + 2) target procedure realm payload
      (uint (env_now_ms E (n2 + 1)) + int timeout) kp tok))"
proof -
  obtain x s2 n2 where x: "resolve C E n s kp realm procedure = (x, s2, n2)" by (cases "resolve C E n s kp realm procedure")
  show ?thesis
  proof (cases x)
    case (Inl e)
    then show ?thesis using assms x by (cases e) (auto simp: direct_call_with_ucan_def map_err_def reached_def)
  next
    case (Inr res)
    then have "call_resolved C E n2 kp dials res realm procedure payload timeout tok = r"
      using assms(1) x by (simp add: direct_call_with_ucan_def map_err_def)
    from call_resolved_reached [OF this assms(2)] resolve_Inr [OF x [unfolded Inr]] show ?thesis by blast
  qed
qed

lemma demo_station_answers:
  assumes "outcome_fits (HandlerOk p)"
  obtains b d where "station_answers toy_crypto demo_key b later d" "answers_at demo_env [(m, normal p)] b"
proof (rule demo_handshake)
  fix g w hello
  assume h: "(sign_frame toy_crypto hello_frame demo_key :: (Value, unit fail) result) = Inr g" "frame_sent_as g w"
    "parse_hello (normal g) = Inr hello" "he_accepted hello" "he_node_id hello = public_bytes toy_crypto demo_key"
  have ok: "frame_ok hello_frame" using hello_bounded by (simp add: bounded_def)
  obtain b where "answers_at demo_env (map (\<lambda>(n, p). (n, normal p)) [(m, p)]) b"
    using answers_at_exist [OF toy_crypto_ok wf_demo_key demo_env_ok, of "[(m, p)]"] assms by auto
  then have "answers_at demo_env [(m, normal p)] b" by simp
  moreover have "station_answers toy_crypto demo_key b later (Some (Opened (fresh_stream [ReadChunk w, ReadChunk b]) later))"
    unfolding station_answers_def using h ok by blast
  ultimately show ?thesis using that by blast
qed

lemma demo_resolved:
  obtains s s' where "resolve toy_crypto demo_env 0 s demo_key (replicate 32 1) ''p'' =
    (Inr \<lparr>rs_station = public_bytes toy_crypto demo_key, rs_host = ''h'', rs_port = 4433\<rparr>, s', 30)"
proof -
  obtain r where r: "sign_record toy_crypto demo_advertisement demo_key = (Inr r :: (Record, unit fail) result)" "wf_record r"
    "record_authentic toy_crypto r" "live_at demo_env r" "vdepth (to_rpc_value r) < 100" "esize (to_rpc_value r) \<le> 2000"
    "r = demo_advertisement\<lparr>rc_signature := rc_signature r\<rparr>"
    by (rule demo_advertisement_signed)
  obtain ep where ep: "endpoint_of toy_crypto (he_node_id demo_hello) ''h'' 4433 ep" "live_at demo_env ep"
    "vdepth (to_rpc_value ep) < 100" "esize (to_rpc_value ep) \<le> 2000" by (rule demo_endpoint_signed)
  have "wf_record ep" using ep(1) by (simp add: endpoint_of_def)
  then obtain c :: Session where c: "serves_at demo_env (resolution_answers 0 1 r 1 ep) (control c)"
    by (rule demo_resolution [OF r(2,5,6) _ ep(3,4)])
  note read = demo_advertisement_read [OF r(7)]
  have few: "1 < RESOLVE_RETRIES" by (simp add: RESOLVE_RETRIES_def)
  from resolve_served [OF demo_client r(2-4) read, unfolded ProcedureAdvertisement.simps, OF ep(1,2) few few c [unfolded resolution_answers_def],
      of "replicate 32 1" "''p''"]
  show ?thesis using that [of c] by (auto simp: demo_hello_def)
qed

theorem direct_call_pinned_witness:
  "\<exists>dials s s' responder res. direct_call_with_ucan toy_crypto demo_env 0 s demo_key dials (replicate 32 1) ''p'' (IntV 7) 60 [] =
      (Inr (CallResult (IntV 8) responder), s') \<and> signed_endpoint toy_crypto demo_env res \<and> rs_host res = ''h''"
proof -
  have "outcome_fits (HandlerOk (IntV 8))" by (simp add: outcome_fits_def wire_room_def MAX_FRAME_BYTES_def in_range_def)
  then obtain b d where b: "station_answers toy_crypto demo_key b (\<lambda>_. None) d" "answers_at demo_env [(35, normal (IntV 8))] b" by (rule demo_station_answers)
  let ?dials = "\<lambda>host port. if host = ''h'' \<and> port = 4433 then d else None"
  let ?res = "\<lparr>rs_station = public_bytes toy_crypto demo_key, rs_host = ''h'', rs_port = 4433\<rparr>"
  obtain s s' where s: "resolve toy_crypto demo_env 0 s demo_key (replicate 32 1) ''p'' = (Inr ?res, s', 30)" by (rule demo_resolved)
  have fits: "call_fits ''p'' (replicate 32 1) (IntV 7) (uint (env_now_ms demo_env (30 + 1)) + int 60) []"
    by (simp add: call_fits_def ascii_valid_str ascii_def in_range_def wire_room_def MAX_FRAME_BYTES_def demo_env_simps)
  obtain responder where "call_resolved toy_crypto demo_env 30 demo_key ?dials ?res (replicate 32 1) ''p'' (IntV 7) 60 [] =
      Inr (CallResult (normal (IntV 8)) responder)"
    using call_resolved_served [OF toy_crypto_ok wf_demo_key wf_demo_key demo_env_ok fits, of b "\<lambda>_. None" ?dials ?res "normal (IntV 8)"] b by auto
  then have call: "direct_call_with_ucan toy_crypto demo_env 0 s demo_key ?dials (replicate 32 1) ''p'' (IntV 7) 60 [] =
      (Inr (CallResult (IntV 8) responder), s')"
    using s by (simp add: direct_call_with_ucan_def map_err_def)
  obtain res target n2 where "signed_endpoint toy_crypto demo_env res"
    "pinned_session toy_crypto demo_env n2 demo_key (?dials (rs_host res) (rs_port res)) (rs_station res) target"
    using direct_call_pinned [OF call] by (auto simp: reached_def)
  moreover from this(2) have "rs_host res = ''h''" by (auto simp: pinned_session_def timed_connect_def split: if_splits)
  ultimately show ?thesis using call by blast
qed


subsection \<open>Authorized calls\<close>

definition authorized_route :: "crypto \<Rightarrow> 'a x509 \<Rightarrow> env \<Rightarrow> bytes \<Rightarrow> string \<Rightarrow> Record list \<Rightarrow> Resolved \<Rightarrow> bool" where
  "authorized_route C X E realm_ca_pem expected_org recs res \<longleftrightarrow>
     (\<exists>r m adv. r \<in> set recs \<and>
        verify_advertisement_cert_chain C X (uint (env_now_ms E m)) realm_ca_pem r expected_org = Inr () \<and>
        read_procedure_advertisement r = Inr adv \<and> pa_serving_station adv = rs_station res)"

lemma first_authorized_Inr:
  "first_authorized_advertisement C X E n recs realm_ca_pem expected_org last_err = (Inr adv, n') \<Longrightarrow>
    \<exists>r m. r \<in> set recs \<and> verify_advertisement_cert_chain C X (uint (env_now_ms E m)) realm_ca_pem r expected_org = Inr () \<and>
      read_procedure_advertisement r = Inr adv"
proof (induction recs arbitrary: n last_err)
  case (Cons r rs)
  let ?rest = "\<exists>n err. first_authorized_advertisement C X E n rs realm_ca_pem expected_org err = (Inr adv, n')"
  let ?chain = "verify_advertisement_cert_chain C X (uint (env_now_ms E (n + 1))) realm_ca_pem r expected_org"
  have "?rest \<or> ?chain = Inr () \<and> read_procedure_advertisement r = Inr adv"
  proof (cases "verify_record C (uint (env_now_ms E n)) r")
    case (Inl e)
    then show ?thesis using Cons.prems by (cases e) auto
  next
    case verified: (Inr u)
    show ?thesis
    proof (cases ?chain)
      case (Inl e)
      then show ?thesis using Cons.prems verified by (cases e) auto
    next
      case (Inr v)
      then show ?thesis using Cons.prems verified by (cases "read_procedure_advertisement r") auto
    qed
  qed
  then show ?case using Cons.IH by fastforce
qed simp

lemma resolve_with_cert_chain_Inr:
  assumes "resolve_with_cert_chain C X E n s kp realm procedure realm_ca_pem expected_org = (Inr res, s', n')"
  shows "\<exists>recs s1 n1. poll_records RESOLVE_RETRIES C E n s kp (procedure_key C (discovery_uri realm procedure)) = (Inr recs, s1, n1) \<and>
    authorized_route C X E realm_ca_pem expected_org recs res \<and> signed_endpoint C E res"
proof -
  obtain recs s1 n1 adv n2 where found:
    "poll_records RESOLVE_RETRIES C E n s kp (procedure_key C (discovery_uri realm procedure)) = (Inr recs, s1, n1)"
    "first_authorized_advertisement C X E n1 recs realm_ca_pem expected_org None = (Inr adv, n2)"
    "endpoint_attempts RESOLVE_RETRIES C E n2 s1 kp (pa_serving_station adv) = (Inr res, s', n')"
    using assms by (auto simp: resolve_with_cert_chain_def resolve_station_endpoint_def Let_def split: prod.splits sum.splits option.splits)
  from endpoint_attempts_Inr [OF found(3)] first_authorized_Inr [OF found(2)]
  have "authorized_route C X E realm_ca_pem expected_org recs res" "signed_endpoint C E res"
    by (auto simp: authorized_route_def)
  with found(1) show ?thesis by blast
qed

text \<open>C23: Authorized calls. When a direct call that requires an organization was answered or failed on a
  session, the station it went to is named by an advertisement that is authorized for that
  organization under the realm's CA, and the dialed session is pinned to it.\<close>

theorem direct_call_authorized:
  assumes "direct_call_with_cert_chain C X E n s kp dials realm procedure realm_ca_pem expected_org payload timeout = (r, s')" "reached r"
  shows "\<exists>recs s1 n1 res n2 target.
    poll_records RESOLVE_RETRIES C E n s kp (procedure_key C (discovery_uri realm procedure)) = (Inr recs, s1, n1) \<and>
    authorized_route C X E realm_ca_pem expected_org recs res \<and> signed_endpoint C E res \<and>
    pinned_session C E n2 kp (dials (rs_host res) (rs_port res)) (rs_station res) target \<and>
    r = map_err (lift_fail DirectCall) (fst (session_call_with_ucan C E (n2 + 2) target procedure realm payload
      (uint (env_now_ms E (n2 + 1)) + int timeout) kp []))"
proof -
  obtain x s2 n2 where x: "resolve_with_cert_chain C X E n s kp realm procedure realm_ca_pem expected_org = (x, s2, n2)"
    by (cases "resolve_with_cert_chain C X E n s kp realm procedure realm_ca_pem expected_org")
  show ?thesis
  proof (cases x)
    case (Inl e)
    then show ?thesis using assms x by (cases e) (auto simp: direct_call_with_cert_chain_def map_err_def reached_def)
  next
    case (Inr res)
    then have "call_resolved C E n2 kp dials res realm procedure payload timeout [] = r"
      using assms(1) x by (simp add: direct_call_with_cert_chain_def map_err_def)
    from call_resolved_reached [OF this assms(2)] resolve_with_cert_chain_Inr [OF x [unfolded Inr]] show ?thesis by blast
  qed
qed

lemma resolve_with_cert_chain_served:
  assumes "dht_client_ok C E kp" "wf_record r" "record_authentic C r" "live_at E r" "read_procedure_advertisement (record_normal r) = Inr adv"
    "\<forall>m. verify_advertisement_cert_chain C X (uint (env_now_ms E m)) realm_ca_pem (record_normal r) expected_org = Inr ()"
    "endpoint_of C (pa_serving_station adv) host port ep" "live_at E ep" "k < RESOLVE_RETRIES" "j < RESOLVE_RETRIES"
    "serves_at E (missed (n + 4) k (List []) @ (n + 4 + 7 * k, normal (List [to_rpc_value r])) #
       missed (n + 7 * Suc k + 2 + 4) j (Text ''not_found'') @ [(n + 7 * Suc k + 2 + 4 + 7 * j, normal (to_rpc_value ep))]) (control s)"
  shows "\<exists>s'. resolve_with_cert_chain C X E n s kp realm procedure realm_ca_pem expected_org =
    (Inr \<lparr>rs_station = pa_serving_station adv, rs_host = host, rs_port = port\<rparr>, s', n + 7 * (Suc k + Suc j) + 3)"
proof -
  have key: "length (procedure_key C (discovery_uri realm procedure)) = 32"
    using crypto_okD(5) [OF dht_client_okD(1) [OF assms(1)]] by (simp add: procedure_key_def)
  have sig: "length (rc_signature r) = 64" using assms(3) by (simp add: record_authentic_def)
  from poll_records_served [OF assms(1) key assms(2) sig assms(9,11)] obtain s1 where
    s1: "poll_records RESOLVE_RETRIES C E n s kp (procedure_key C (discovery_uri realm procedure)) = (Inr [record_normal r], s1, n + 7 * Suc k)"
    "serves_at E (missed (n + 7 * Suc k + 2 + 4) j (Text ''not_found'') @ [(n + 7 * Suc k + 2 + 4 + 7 * j, normal (to_rpc_value ep))]) (control s1)"
    by blast
  have "first_authorized_advertisement C X E (n + 7 * Suc k) [record_normal r] realm_ca_pem expected_org None = (Inr adv, n + 7 * Suc k + 2)"
    using verify_live [OF assms(2-4)] assms(5,6) by simp
  with s1 endpoint_attempts_served [OF assms(1,7,8,10) s1(2)] show ?thesis
    by (simp add: resolve_with_cert_chain_def resolve_station_endpoint_def Let_def)
qed

definition demo_chain_advertisement :: Record where
  "demo_chain_advertisement = demo_advertisement\<lparr>rc_payload := Map
    [(Text ''procedure_uri'', Text ''p''), (Text ''advertiser_node'', Bytes (node_id toy_crypto demo_key)),
     (Text ''serving_station'', Bytes (he_node_id demo_hello)), (Text ''cert_chain'', Bytes (node_id toy_crypto demo_key))]\<rparr>"

lemma demo_chain_signed:
  obtains r where "wf_record r" "record_authentic toy_crypto r" "live_at demo_env r" "vdepth (to_rpc_value r) < 100" "esize (to_rpc_value r) \<le> 2000"
    "read_procedure_advertisement (record_normal r) = Inr \<lparr>pa_procedure_uri = ''p'', pa_advertiser_node = node_id toy_crypto demo_key,
      pa_serving_station = he_node_id demo_hello, pa_cert_chain = Some (node_id toy_crypto demo_key)\<rparr>"
    "rc_key (record_normal r) = node_id toy_crypto demo_key"
proof -
  let ?v = "Map [(Text ''procedure_uri'', Text ''p''), (Text ''advertiser_node'', Bytes (node_id toy_crypto demo_key)),
     (Text ''serving_station'', Bytes (he_node_id demo_hello)), (Text ''cert_chain'', Bytes (node_id toy_crypto demo_key))]"
  have ok: "frame_ok ?v" by (simp add: frame_ok_Map ascii_def ascii_valid_str)
  then have wf: "wf_record demo_chain_advertisement" using frame_ok_wfv [OF ok]
    by (simp add: wf_record_def demo_chain_advertisement_def demo_advertisement_def new_procedure_advertisement_def new_envelope_def
        Let_def demo_node in_range_def)
  have key: "rc_key demo_chain_advertisement = node_id toy_crypto demo_key"
    by (simp add: demo_chain_advertisement_def demo_advertisement_def new_procedure_advertisement_def new_envelope_def Let_def)
  obtain r where r: "sign_record toy_crypto demo_chain_advertisement demo_key = (Inr r :: (Record, unit fail) result)" "wf_record r"
    "record_authentic toy_crypto r" "r = demo_chain_advertisement\<lparr>rc_signature := rc_signature r\<rparr>"
    by (rule sign_record_ok [OF toy_crypto_ok wf_demo_key wf key])
  have "vdepth (to_rpc_value r) < 100" "esize (to_rpc_value r) \<le> 2000" "live_at demo_env r" using r(3)
    by (subst r(4), simp add: record_authentic_def to_rpc_value_def demo_chain_advertisement_def demo_advertisement_def
      new_procedure_advertisement_def new_envelope_def Let_def demo_node live_at_def demo_env_def)+
  moreover have p: "rc_payload (record_normal r) = normal ?v" "rc_record_type (record_normal r) = TYPE_PROCEDURE_ADVERTISEMENT"
    "rc_key (record_normal r) = node_id toy_crypto demo_key"
    by (subst r(4), simp add: record_normal_def demo_chain_advertisement_def demo_advertisement_def
      new_procedure_advertisement_def new_envelope_def Let_def)+
  moreover have "read_procedure_advertisement (record_normal r) = Inr \<lparr>pa_procedure_uri = ''p'', pa_advertiser_node = node_id toy_crypto demo_key,
      pa_serving_station = he_node_id demo_hello, pa_cert_chain = Some (node_id toy_crypto demo_key)\<rparr>"
    unfolding read_procedure_advertisement_def record_field_def read_field_def p get_frame_normal [OF ok]
    by (simp add: get_def as_text_def as_array_def demo_node)
  ultimately show ?thesis using r(2,3) that by blast
qed

lemma demo_chain_authorized:
  assumes "wf_record r" "record_authentic toy_crypto r" "live_at demo_env r" "read_procedure_advertisement r = Inr adv"
    "pa_cert_chain adv = Some (node_id toy_crypto demo_key)" "rc_key r = node_id toy_crypto demo_key"
  shows "verify_advertisement_cert_chain toy_crypto toy_x509 (uint (env_now_ms demo_env m)) [] r ''acme'' = Inr ()"
proof -
  have "verify_record toy_crypto (uint (env_now_ms demo_env m)) r = Inr ()"
    using assms(1-3) by (auto simp: verify_record_verdict live_at_def not_le)
  moreover have "decode_cert_chain toy_x509 pem = Inr [pem]" for pem
    by (simp add: decode_cert_chain_def toy_x509_def List.map_filter_simps)
  moreover from this have "check_cert_chain toy_x509 now [] (node_id toy_crypto demo_key) ''acme'' [node_id toy_crypto demo_key] = Inr ()" for now
    unfolding check_cert_chain_iff leaf_organization_iff validate_cert_path_iff ed25519_pubkey_iff
    by (simp add: demo_node) (simp add: toy_x509_def demo_node)
  ultimately show ?thesis using assms(4-6) by (simp add: verify_advertisement_cert_chain_def)
qed

theorem direct_call_authorized_witness:
  "\<exists>dials s s' responder recs res. direct_call_with_cert_chain toy_crypto toy_x509 demo_env 0 s demo_key dials (replicate 32 1) ''p'' [] ''acme'' (IntV 7) 60 =
      (Inr (CallResult (IntV 8) responder), s') \<and> authorized_route toy_crypto toy_x509 demo_env [] ''acme'' recs res"
proof -
  obtain r where r: "wf_record r" "record_authentic toy_crypto r" "live_at demo_env r" "vdepth (to_rpc_value r) < 100" "esize (to_rpc_value r) \<le> 2000"
    "read_procedure_advertisement (record_normal r) = Inr \<lparr>pa_procedure_uri = ''p'', pa_advertiser_node = node_id toy_crypto demo_key,
      pa_serving_station = he_node_id demo_hello, pa_cert_chain = Some (node_id toy_crypto demo_key)\<rparr>"
    "rc_key (record_normal r) = node_id toy_crypto demo_key" by (rule demo_chain_signed)
  have "live_at demo_env (record_normal r)" using r(3) by (simp add: live_at_def record_normal_def)
  then have chain: "\<forall>m. verify_advertisement_cert_chain toy_crypto toy_x509 (uint (env_now_ms demo_env m)) [] (record_normal r) ''acme'' = Inr ()"
    using demo_chain_authorized [OF wf_record_normal [OF r(1)] _ _ r(6) _ r(7)] r(1,2) by (simp add: record_authentic_normal)
  obtain ep where ep: "endpoint_of toy_crypto (he_node_id demo_hello) ''h'' 4433 ep" "live_at demo_env ep"
    "vdepth (to_rpc_value ep) < 100" "esize (to_rpc_value ep) \<le> 2000" by (rule demo_endpoint_signed)
  then have "wf_record ep" by (simp add: endpoint_of_def)
  then obtain c :: Session where c: "serves_at demo_env [(4, normal (List [to_rpc_value r])), (13, normal (to_rpc_value ep))] (control c)"
    using demo_two_answers [OF r(1,4,5) _ ep(3,4)] by blast
  have few: "0 < RESOLVE_RETRIES" by (simp add: RESOLVE_RETRIES_def)
  let ?res = "\<lparr>rs_station = public_bytes toy_crypto demo_key, rs_host = ''h'', rs_port = 4433\<rparr>"
  obtain s' where s': "resolve_with_cert_chain toy_crypto toy_x509 demo_env 0 c demo_key (replicate 32 1) ''p'' [] ''acme'' = (Inr ?res, s', 17)"
    using resolve_with_cert_chain_served [OF demo_client r(1-3,6) chain, unfolded ProcedureAdvertisement.simps, OF ep(1,2) few few,
      of 0 c "replicate 32 1" "''p''"] c by (auto simp: demo_hello_def)
  have "outcome_fits (HandlerOk (IntV 8))" by (simp add: outcome_fits_def wire_room_def MAX_FRAME_BYTES_def in_range_def)
  then obtain b d where b: "station_answers toy_crypto demo_key b (\<lambda>_. None) d" "answers_at demo_env [(22, normal (IntV 8))] b" by (rule demo_station_answers)
  have fits: "call_fits ''p'' (replicate 32 1) (IntV 7) (uint (env_now_ms demo_env (17 + 1)) + int 60) []"
    by (simp add: call_fits_def ascii_valid_str ascii_def in_range_def wire_room_def MAX_FRAME_BYTES_def demo_env_simps)
  obtain responder where "call_resolved toy_crypto demo_env 17 demo_key (\<lambda>_ _. d) ?res (replicate 32 1) ''p'' (IntV 7) 60 [] =
      Inr (CallResult (normal (IntV 8)) responder)"
    using call_resolved_served [OF toy_crypto_ok wf_demo_key wf_demo_key demo_env_ok fits, of b "\<lambda>_. None" "\<lambda>_ _. d" ?res "normal (IntV 8)"] b by auto
  then have call: "direct_call_with_cert_chain toy_crypto toy_x509 demo_env 0 c demo_key (\<lambda>_ _. d) (replicate 32 1) ''p'' [] ''acme'' (IntV 7) 60 =
      (Inr (CallResult (IntV 8) responder), s')"
    using s' by (simp add: direct_call_with_cert_chain_def map_err_def)
  with direct_call_authorized [OF call] show ?thesis by (fastforce simp: reached_def)
qed

subsection \<open>Seed URLs\<close>

lemma read_digits_append:
  "list_all (\<lambda>c. to_digit 10 c \<noteq> None) a \<Longrightarrow> read_digits 10 (a @ b) = (map (\<lambda>c. the (to_digit 10 c)) a @ fst (read_digits 10 b), snd (read_digits 10 b))"
  by (induction a) (auto split: prod.splits)

lemma digit_char: "k < 10 \<Longrightarrow> to_digit 10 (char_of (48 + k)) = Some k"
  by (simp add: to_digit_def)

lemma read_dec_nat:
  "list_all (\<lambda>c. to_digit 10 c \<noteq> None) (dec_nat n) \<and> dec_nat n \<noteq> [] \<and>
     foldl (\<lambda>n d. n * 10 + d) 0 (map (\<lambda>c. the (to_digit 10 c)) (dec_nat n)) = n"
proof (induction n rule: dec_nat.induct)
  case (1 n)
  show ?case
  proof (cases "n < 10")
    case True
    then show ?thesis by (simp add: dec_nat.simps [of n] digit_char)
  next
    case False
    have "n mod 10 < 10" by simp
    then show ?thesis using 1 [OF False] False digit_char [of "n mod 10"] by (subst (1 2 3) dec_nat.simps) simp
  qed
qed

lemma parse_u16_dec: "parse_u16 (dec_nat (unat (p :: u16))) = Some p"
proof -
  note digits = read_dec_nat [of "unat p"]
  obtain c r where c: "dec_nat (unat p) = c # r" using digits by (cases "dec_nat (unat p)") auto
  then have "c \<noteq> CHR ''+''" using digits by (auto simp: to_digit_def)
  moreover have "unat p \<le> 65535" using unsigned_less [of p, where 'a = nat] by simp
  moreover have "read_digits 10 (dec_nat (unat p) @ []) = (map (\<lambda>c. the (to_digit 10 c)) (dec_nat (unat p)) @ [], [])"
    by (subst read_digits_append) (use digits in simp_all)
  ultimately show ?thesis using digits by (simp add: parse_u16_def c)
qed

lemma rsplit_once_last:
  assumes "c \<notin> set t"
  shows "rsplit_once c (h @ c # t) = Some (h, t)"
proof -
  have "takeWhile (\<lambda>x. x \<noteq> c) (rev t @ c # rev h) = rev t" using assms by (subst takeWhile_append2) auto
  then show ?thesis by (simp add: rsplit_once_def)
qed

lemma host_port_dec: "host_port (host @ CHR '':'' # dec_nat (unat p)) = Some (host, p)"
proof -
  have "CHR '':'' \<notin> set (dec_nat (unat p))" using read_dec_nat [of "unat p"] by (auto simp: list_all_iff to_digit_def)
  then show ?thesis by (simp add: host_port_def rsplit_once_last parse_u16_dec)
qed

text \<open>Seed URLs. A host without a slash and a port come back from the URL they were written in, under
  either scheme and with any path behind them, and from \<open>host:port\<close> alone; the host may contain
  colons.\<close>

theorem parse_seed_url_roundtrip:
  assumes "CHR ''/'' \<notin> set host" "path = [] \<or> hd path = CHR ''/''"
  shows "parse_seed_url (''https://'' @ host @ CHR '':'' # dec_nat (unat port) @ path) = Some (host, port)"
    "parse_seed_url (''http://'' @ host @ CHR '':'' # dec_nat (unat port) @ path) = Some (host, port)"
    "parse_seed_url (host @ CHR '':'' # dec_nat (unat port)) = Some (host, port)"
proof -
  have digits: "CHR ''/'' \<notin> set (dec_nat (unat port))" using read_dec_nat [of "unat port"] by (auto simp: list_all_iff to_digit_def)
  have "takeWhile (\<lambda>c. c \<noteq> CHR ''/'') ((host @ CHR '':'' # dec_nat (unat port)) @ path) = host @ CHR '':'' # dec_nat (unat port)"
    by (subst takeWhile_append2) (use assms digits in \<open>auto; cases path; simp\<close>)+
  then show "parse_seed_url (''https://'' @ host @ CHR '':'' # dec_nat (unat port) @ path) = Some (host, port)"
    "parse_seed_url (''http://'' @ host @ CHR '':'' # dec_nat (unat port) @ path) = Some (host, port)"
    by (simp_all add: parse_seed_url_def strip_prefix_def host_port_dec)
  have none: "strip_prefix (host @ CHR '':'' # dec_nat (unat port)) scheme = None" if "CHR ''/'' \<in> set scheme" for scheme
  proof -
    have "CHR ''/'' \<notin> set (take (length scheme) (host @ CHR '':'' # dec_nat (unat port)))"
      using assms(1) digits by (auto dest!: in_set_takeD)
    then have "take (length scheme) (host @ CHR '':'' # dec_nat (unat port)) \<noteq> scheme" using that by metis
    then show ?thesis by (simp only: strip_prefix_def if_False)
  qed
  show "parse_seed_url (host @ CHR '':'' # dec_nat (unat port)) = Some (host, port)"
    using none [of "''https://''"] none [of "''http://''"] by (simp add: parse_seed_url_def host_port_dec)
qed

theorem parse_seed_url_roundtrip_witness:
  "parse_seed_url ''https://h:4433/x'' = Some (''h'', 4433) \<and> parse_seed_url ''[::1]:80'' = Some (''[::1]'', 80)"
proof -
  have "dec_nat 4433 = ''4433''" "dec_nat 80 = ''80''" by code_simp+
  then show ?thesis
    using parse_seed_url_roundtrip(1) [of "''h''" "''/x''" 4433] parse_seed_url_roundtrip(3) [of "''[::1]''" "[]" 80] by simp
qed


subsection \<open>Fetching from an announced provider\<close>

lemma first_provider_Inr:
  "first_trusted_content_provider C E n recs = (Inr (Some adv) :: (_, 'e fail) result, n') \<Longrightarrow>
    \<exists>r m. r \<in> set recs \<and> verify_record C (uint (env_now_ms E m)) r = Inr () \<and> read_content_announcement r = Inr adv \<and>
      an_announcer_node adv = rc_key r"
proof (induction recs arbitrary: n)
  case (Cons r rs)
  have "(first_trusted_content_provider C E (n + 1) rs = (Inr (Some adv) :: (_, 'e fail) result, n')) \<or>
    verify_record C (uint (env_now_ms E n)) r = Inr () \<and> read_content_announcement r = Inr adv \<and> an_announcer_node adv = rc_key r"
  proof (cases "verify_record C (uint (env_now_ms E n)) r")
    case (Inl e)
    then show ?thesis using Cons.prems by (cases e) auto
  next
    case (Inr u)
    then show ?thesis using Cons.prems by (cases "read_content_announcement r") (auto split: if_splits)
  qed
  then show ?case using Cons.IH by fastforce
qed simp

lemma get_block_checked:
  assumes "content_get C E n kp opened mcid = Inr b" "\<not> mcid_is_chunked mcid"
  shows "block_mcid C b = mcid"
proof -
  obtain st where "opened = Some st" using assms(1) by (cases opened) (simp_all add: content_get_def)
  then show ?thesis using assms
    by (cases "get_block C E kp mcid (st, n)"; cases "fst (get_block C E kp mcid (st, n))") (auto simp: content_get_def split: if_splits)
qed

text \<open>C27: Fetching content. Content that \<open>get_direct\<close> returns was fetched over a stream opened on the connection that
  was dialed at the endpoint of a stored announcement, whose signature verified and whose announcer is its
  own signer; the session of that connection is with that very node, and not the one the announcement was
  looked up through. A block besides has the address it was asked for.\<close>

theorem get_direct_checks_provider:
  assumes "get_direct C E n s kp dials mcid = (Inr b, s')"
  shows "\<exists>recs n1 r m adv host port n2 target ctl bi.
    find_records C E n s kp (content_key C mcid) = (Inr recs, s', n1) \<and> r \<in> set recs \<and>
    verify_record C (uint (env_now_ms E m)) r = Inr () \<and> read_content_announcement r = Inr adv \<and> an_announcer_node adv = rc_key r \<and>
    parse_seed_url (an_endpoint adv) = Some (host, port) \<and> dials host port = Some (Opened ctl bi) \<and>
    pinned_session C E n2 kp (dials host port) (rc_key r) target \<and> session_open_bi target = bi \<and>
    content_get C E (n2 + 1) kp (bi (n2 + 1)) mcid = Inr b \<and> (\<not> mcid_is_chunked mcid \<longrightarrow> block_mcid C b = mcid)"
proof -
  obtain x s1 n1 where x: "find_records C E n s kp (content_key C mcid) = (x, s1, n1)"
    by (cases "find_records C E n s kp (content_key C mcid)")
  obtain recs where "x = Inr recs" using assms x by (cases x) (simp_all add: get_direct_def map_err_def)
  with x have recs: "find_records C E n s kp (content_key C mcid) = (Inr recs, s', n1)"
    using assms by (simp add: get_direct_def)
  obtain provider n2 where provider: "first_trusted_content_provider C E n1 recs = (provider :: (_, GetDirectError fail) result, n2)"
    by (cases "first_trusted_content_provider C E n1 recs :: (_, GetDirectError fail) result \<times> nat")
  obtain adv host port target where found: "provider = Inr (Some adv)" "parse_seed_url (an_endpoint adv) = Some (host, port)"
    "dial_and_verify C E n2 kp dials host port (an_announcer_node adv) = Inr target"
    "(case content_get C E (n2 + 1) kp (session_open_bi target (n2 + 1)) mcid of Inl Panic \<Rightarrow> Inl Panic
      | x \<Rightarrow> close_then C E n2 ''normal'' kp target (map_err (lift_fail GetDirectGet) x)) = Inr b"
    using assms recs provider by (auto simp: get_direct_def bindR_eq_Inr)
  have "ascii ''normal''" by (simp add: ascii_def)
  then have got: "content_get C E (n2 + 1) kp (session_open_bi target (n2 + 1)) mcid = Inr b"
    using found(4) by (auto simp: close_then_id map_err_def split: sum.splits fail.splits)
  from first_provider_Inr [OF provider [unfolded found(1)]] obtain r m where "r \<in> set recs"
    "verify_record C (uint (env_now_ms E m)) r = Inr ()" "read_content_announcement r = Inr adv" "an_announcer_node adv = rc_key r" by blast
  moreover have p: "pinned_session C E n2 kp (dials host port) (an_announcer_node adv) target" by (rule dial_and_verify_Inr [OF found(3)])
  moreover from p obtain ctl where "dials host port = Some (Opened ctl (session_open_bi target))" by (auto simp: pinned_session_def)
  ultimately show ?thesis using recs found(2) got get_block_checked [OF got] by metis
qed


definition demo_announcement :: Record where
  "demo_announcement = new_envelope 5 (replicate 16 0) TYPE_CONTENT_ANNOUNCEMENT (he_node_id demo_hello)
     (Map [(Text ''announcer_node'', Bytes (he_node_id demo_hello)), (Text ''mcid'', Bytes (block_mcid toy_crypto [1, 2, 3])),
       (Text ''endpoint'', Text ''https://h:80/'')]) 500"

lemma demo_mcid: "length (block_mcid toy_crypto b) = 34" "\<not> mcid_is_chunked (block_mcid toy_crypto b)"
  by (simp_all add: block_mcid_def make_mcid_def mcid_is_chunked_def CODEC_RAW_def CODEC_MANIFEST_def crypto_okD [OF toy_crypto_ok])

lemma demo_announcement_found:
  obtains c r s' where "find_records toy_crypto demo_env 0 c demo_key (content_key toy_crypto (block_mcid toy_crypto [1, 2, 3])) = (Inr [r], s', 7)"
    "\<forall>m. verify_record toy_crypto (uint (env_now_ms demo_env m)) r = Inr ()" "rc_key r = he_node_id demo_hello"
    "read_content_announcement r = Inr \<lparr>an_announcer_node = he_node_id demo_hello, an_mcid = block_mcid toy_crypto [1, 2, 3],
      an_endpoint = ''https://h:80/''\<rparr>"
proof -
  let ?v = "Map [(Text ''announcer_node'', Bytes (he_node_id demo_hello)), (Text ''mcid'', Bytes (block_mcid toy_crypto [1, 2, 3])),
       (Text ''endpoint'', Text ''https://h:80/'')]"
  have ok: "frame_ok ?v" by (simp add: frame_ok_Map ascii_def ascii_valid_str)
  have wf: "wf_record demo_announcement" using frame_ok_wfv [OF ok]
    by (simp add: wf_record_def demo_announcement_def new_envelope_def demo_node in_range_def)
  have key: "rc_key demo_announcement = node_id toy_crypto demo_key" by (simp add: demo_announcement_def new_envelope_def demo_node)
  obtain r where r: "sign_record toy_crypto demo_announcement demo_key = (Inr r :: (Record, unit fail) result)" "wf_record r"
    "record_authentic toy_crypto r" "r = demo_announcement\<lparr>rc_signature := rc_signature r\<rparr>"
    by (rule sign_record_ok [OF toy_crypto_ok wf_demo_key wf key])
  have sig: "length (rc_signature r) = 64" using r(3) by (simp add: record_authentic_def)
  then have size: "vdepth (to_rpc_value r) < 100" "esize (to_rpc_value r) \<le> 2000" "live_at demo_env r"
    by (subst r(4), simp add: to_rpc_value_def demo_announcement_def new_envelope_def demo_node demo_mcid live_at_def demo_env_def)+
  then obtain c :: Session where c: "serves_at demo_env ((0 + 4, normal (List [to_rpc_value r])) # [(0, normal (to_rpc_value r))]) (control c)"
    using demo_two_answers [OF r(2) _ _ r(2), of 0] by auto
  have key: "length (content_key toy_crypto (block_mcid toy_crypto [1, 2, 3])) = 32" by (simp add: content_key_def crypto_okD [OF toy_crypto_ok])
  obtain s' responder where found: "find_records toy_crypto demo_env 0 c demo_key (content_key toy_crypto (block_mcid toy_crypto [1, 2, 3])) =
      (records_list_from_response (CallResult (normal (List [to_rpc_value r])) responder), s', 0 + 7)"
    by (rule find_records_served [OF dht_client_okD [OF demo_client] key c])
  have p: "rc_payload (record_normal r) = normal ?v" "rc_record_type (record_normal r) = TYPE_CONTENT_ANNOUNCEMENT"
    "rc_key (record_normal r) = he_node_id demo_hello"
    by (subst r(4), simp add: record_normal_def demo_announcement_def new_envelope_def)+
  have "read_content_announcement (record_normal r) = Inr \<lparr>an_announcer_node = he_node_id demo_hello,
      an_mcid = block_mcid toy_crypto [1, 2, 3], an_endpoint = ''https://h:80/''\<rparr>"
    unfolding read_content_announcement_def record_field_def read_field_def p get_frame_normal [OF ok]
    by (simp add: get_def as_text_def as_array_def demo_node demo_mcid)
  then show ?thesis using that [of c "record_normal r" s'] found record_of_answer(2) [OF r(2) sig] verify_live [OF r(2,3) size(3)] p(3) by simp
qed

theorem get_direct_checks_provider_witness:
  "\<exists>s dials s' target n ctl bi. get_direct toy_crypto demo_env 0 s demo_key dials (block_mcid toy_crypto [1, 2, 3]) = (Inr [1, 2, 3], s') \<and>
    pinned_session toy_crypto demo_env n demo_key (dials ''h'' 80) (node_id toy_crypto demo_key) target \<and>
    dials ''h'' 80 = Some (Opened ctl bi) \<and> bi (n + 1) \<noteq> None"
proof -
  let ?mcid = "block_mcid toy_crypto [1, 2, 3]"
  obtain c r s' where r: "find_records toy_crypto demo_env 0 c demo_key (content_key toy_crypto ?mcid) = (Inr [r], s', 7)"
    "\<forall>m. verify_record toy_crypto (uint (env_now_ms demo_env m)) r = Inr ()" "rc_key r = he_node_id demo_hello"
    "read_content_announcement r = Inr \<lparr>an_announcer_node = he_node_id demo_hello, an_mcid = ?mcid, an_endpoint = ''https://h:80/''\<rparr>"
    by (rule demo_announcement_found)
  have "outcome_fits (HandlerOk (Bytes [1, 2, 3]))" by (simp add: outcome_fits_def wire_room_def MAX_FRAME_BYTES_def)
  then obtain b where "frames_answer demo_env 9 (map normal [Bytes [1, 2, 3]]) b"
    using answers_exist [OF toy_crypto_ok wf_demo_key demo_env_ok, of "[Bytes [1, 2, 3]]" 9] by auto
  then have served: "serves demo_env 9 [Bytes [1, 2, 3]] (fresh_stream [ReadChunk b])" by (intro serves_fresh) simp
  have mcid: "length ?mcid \<le> 64" by (simp add: demo_mcid)
  obtain st' where block: "get_block toy_crypto demo_env demo_key ?mcid (fresh_stream [ReadChunk b], 9) = (Inr [1, 2, 3], st', 9 + 1)"
    by (rule get_block_answered [OF toy_crypto_ok wf_demo_key demo_env_ok mcid served])
  have got: "content_get toy_crypto demo_env 9 demo_key (Some (fresh_stream [ReadChunk b])) ?mcid = Inr [1, 2, 3]"
    using demo_mcid block by (simp add: content_get_def)
  let ?bi = "\<lambda>_ :: nat. Some (fresh_stream [ReadChunk b])"
  have "outcome_fits (HandlerOk (IntV 8))" by (simp add: outcome_fits_def wire_room_def MAX_FRAME_BYTES_def in_range_def)
  then obtain b' d where "station_answers toy_crypto demo_key b' ?bi d" by (rule demo_station_answers)
  then obtain target where t: "timed_connect toy_crypto demo_env 8 demo_key d = Inr target" "he_node_id (station target) = public_bytes toy_crypto demo_key"
    "session_open_bi target = ?bi"
    by (rule station_answers_connect [OF toy_crypto_ok wf_demo_key wf_demo_key demo_env_ok])
  have "first_trusted_content_provider toy_crypto demo_env 7 [r] = (Inr (Some \<lparr>an_announcer_node = he_node_id demo_hello, an_mcid = ?mcid,
      an_endpoint = ''https://h:80/''\<rparr>) :: (_, GetDirectError fail) result, 8)"
    using r(2-4) by simp
  moreover have url: "parse_seed_url ''https://h:80/'' = Some (''h'', 80)" by code_simp
  moreover have "dial_and_verify toy_crypto demo_env 8 demo_key (\<lambda>_ _. d) ''h'' 80 (he_node_id demo_hello) = Inr target"
    using t by (simp add: dial_and_verify_def demo_hello_def map_err_def)
  ultimately have get: "get_direct toy_crypto demo_env 0 c demo_key (\<lambda>_ _. d) ?mcid = (Inr [1, 2, 3], s')"
    using r(1) got t(3) by (simp add: get_direct_def map_err_def close_then_id ascii_def)
  from get_direct_checks_provider [OF get] r obtain n target' ctl bi where
    "pinned_session toy_crypto demo_env n demo_key ((\<lambda>_ _. d) ''h'' 80) (node_id toy_crypto demo_key) target'"
    "(\<lambda>_ _. d) ''h'' 80 = Some (Opened ctl bi)" "content_get toy_crypto demo_env (n + 1) demo_key (bi (n + 1)) ?mcid = Inr [1, 2, 3]"
    by (auto simp: demo_node)
  moreover from this(3) have "bi (n + 1) \<noteq> None" by (cases "bi (n + 1)") (simp_all add: content_get_def)
  ultimately show ?thesis using get by (intro exI [of _ c] exI [of _ "\<lambda>_ _. d"] exI [of _ s'] exI [of _ target'] exI [of _ n] exI [of _ ctl] exI [of _ bi]) simp
qed

end
