(* ===== verification/KeyStores.thy ===== *)
theory KeyStores
  imports Identity
begin

section \<open>KeyStores: identities in a platform's secure store (\<open>src/keystore.rs\<close>)\<close>

text \<open>
  The trait \<open>KeyStore\<close> is the locale \<open>key_store\<close>: the operations a key pair is saved and loaded
  through, and the laws of one stored seed per service and account. \<open>KeyringStore\<close> and
  \<open>LinuxKeyutilsStore\<close> provide it over a third-party credential store, the record
  \<open>credential_api\<close>, as far as that store keeps the laws \<open>credential_ok\<close>: a secret that was set
  without an error is the one that is got back, a deleted one is gone, other entries stay, and
  \<open>NoEntry\<close> is answered only where there is no secret. Every call may fail besides. These are the
  laws of calls that run one after another on one thread; they are not claimed of every backend. The
  comment above \<open>KEYRING_TEST_MUTEX\<close> in \<open>src/keystore.rs\<close> reports that the kernel keyring of a
  sandbox answered not found for a secret just written while threads ran in parallel. So the locale's
  lemmas are the contract of the stores under that proviso, and no property of the program rests on it.
\<close>

datatype 'b keyring_error = NoEntry | OtherError 'b

datatype 'b KeyStoreError = NotFound | InvalidSeedLength nat | Backend 'b

fun from_keyring_error :: "'b keyring_error \<Rightarrow> 'b KeyStoreError" where
  "from_keyring_error NoEntry = NotFound"
| "from_keyring_error (OtherError e) = Backend e"

type_synonym credential = "string \<times> string"

record ('b, 'c) credential_api =
  open_store :: "(unit, 'b keyring_error) result"
  open_entry :: "credential \<Rightarrow> (unit, 'b keyring_error) result"
  set_secret :: "credential \<Rightarrow> bytes \<Rightarrow> 'c \<Rightarrow> (unit, 'b keyring_error) result \<times> 'c"
  get_secret :: "credential \<Rightarrow> 'c \<Rightarrow> (bytes, 'b keyring_error) result \<times> 'c"
  delete_credential :: "credential \<Rightarrow> 'c \<Rightarrow> (unit, 'b keyring_error) result \<times> 'c"
  secrets :: "'c \<Rightarrow> credential \<Rightarrow> bytes option"

definition credential_ok :: "('b, 'c) credential_api \<Rightarrow> bool" where
  "credential_ok A \<longleftrightarrow>
     (\<forall>k secret c c'. set_secret A k secret c = (Inr (), c') \<longrightarrow> secrets A c' = (secrets A c)(k \<mapsto> secret)) \<and>
     (\<forall>k c c' r. get_secret A k c = (r, c') \<longrightarrow> secrets A c' = secrets A c \<and>
        (r = Inl NoEntry \<longrightarrow> secrets A c k = None) \<and> (\<forall>secret. r = Inr secret \<longrightarrow> secrets A c k = Some secret)) \<and>
     (\<forall>k c c'. delete_credential A k c = (Inr (), c') \<longrightarrow> secrets A c' = (secrets A c)(k := None)) \<and>
     (\<forall>k c c'. delete_credential A k c = (Inl NoEntry, c') \<longrightarrow> secrets A c k = None \<and> secrets A c' = secrets A c)"

subsection \<open>The two stores\<close>

record ('b, 'c) KeyringStore =
  kr_api :: "('b, 'c) credential_api"
  kr_entry :: credential

definition keyring_new :: "('b, 'c) credential_api \<Rightarrow> string \<Rightarrow> string \<Rightarrow> (('b, 'c) KeyringStore, 'b KeyStoreError) result" where
  "keyring_new A service account =
    bindR (map_err from_keyring_error (open_entry A (service, account))) (\<lambda>_.
      Inr \<lparr>kr_api = A, kr_entry = (service, account)\<rparr>)"

definition keyring_save_seed :: "('b, 'c) KeyringStore \<Rightarrow> bytes \<Rightarrow> 'c \<Rightarrow> (unit, 'b KeyStoreError) result \<times> 'c" where
  "keyring_save_seed s seed c =
    (case set_secret (kr_api s) (kr_entry s) seed c of (r, c') \<Rightarrow> (map_err from_keyring_error r, c'))"

definition keyring_load_seed :: "('b, 'c) KeyringStore \<Rightarrow> 'c \<Rightarrow> (bytes, 'b KeyStoreError) result \<times> 'c" where
  "keyring_load_seed s c =
    (case get_secret (kr_api s) (kr_entry s) c of
       (Inl NoEntry, c') \<Rightarrow> (Inl NotFound, c')
     | (Inl e, c') \<Rightarrow> (Inl (from_keyring_error e), c')
     | (Inr secret, c') \<Rightarrow> (ok_or (InvalidSeedLength (length secret)) (to_array 32 secret), c'))"

definition keyring_delete_seed :: "('b, 'c) KeyringStore \<Rightarrow> 'c \<Rightarrow> (unit, 'b KeyStoreError) result \<times> 'c" where
  "keyring_delete_seed s c =
    (case delete_credential (kr_api s) (kr_entry s) c of
       (Inr _, c') \<Rightarrow> (Inr (), c')
     | (Inl NoEntry, c') \<Rightarrow> (Inr (), c')
     | (Inl e, c') \<Rightarrow> (Inl (from_keyring_error e), c'))"

record ('b, 'c) LinuxKeyutilsStore =
  lk_api :: "('b, 'c) credential_api"
  lk_entry :: credential

definition keyutils_new :: "('b, 'c) credential_api \<Rightarrow> string \<Rightarrow> string \<Rightarrow> (('b, 'c) LinuxKeyutilsStore, 'b KeyStoreError) result" where
  "keyutils_new A service account =
    bindR (map_err from_keyring_error (open_store A)) (\<lambda>_.
    bindR (map_err from_keyring_error (open_entry A (service, account))) (\<lambda>_.
      Inr \<lparr>lk_api = A, lk_entry = (service, account)\<rparr>))"

definition keyutils_save_seed :: "('b, 'c) LinuxKeyutilsStore \<Rightarrow> bytes \<Rightarrow> 'c \<Rightarrow> (unit, 'b KeyStoreError) result \<times> 'c" where
  "keyutils_save_seed s seed c =
    (case set_secret (lk_api s) (lk_entry s) seed c of (r, c') \<Rightarrow> (map_err from_keyring_error r, c'))"

definition keyutils_load_seed :: "('b, 'c) LinuxKeyutilsStore \<Rightarrow> 'c \<Rightarrow> (bytes, 'b KeyStoreError) result \<times> 'c" where
  "keyutils_load_seed s c =
    (case get_secret (lk_api s) (lk_entry s) c of
       (Inl NoEntry, c') \<Rightarrow> (Inl NotFound, c')
     | (Inl e, c') \<Rightarrow> (Inl (from_keyring_error e), c')
     | (Inr secret, c') \<Rightarrow> (ok_or (InvalidSeedLength (length secret)) (to_array 32 secret), c'))"

definition keyutils_delete_seed :: "('b, 'c) LinuxKeyutilsStore \<Rightarrow> 'c \<Rightarrow> (unit, 'b KeyStoreError) result \<times> 'c" where
  "keyutils_delete_seed s c =
    (case delete_credential (lk_api s) (lk_entry s) c of
       (Inr _, c') \<Rightarrow> (Inr (), c')
     | (Inl NoEntry, c') \<Rightarrow> (Inr (), c')
     | (Inl e, c') \<Rightarrow> (Inl (from_keyring_error e), c'))"

subsection \<open>Key pairs in a store\<close>

text \<open>\<open>KeyPair::save_to_keystore\<close> and \<open>load_from_keystore\<close> take any \<open>KeyStore\<close>: its operation is an argument.\<close>

definition save_to_keystore ::
  "('s \<Rightarrow> bytes \<Rightarrow> 'c \<Rightarrow> (unit, 'b KeyStoreError) result \<times> 'c) \<Rightarrow> KeyPair \<Rightarrow> 's \<Rightarrow> 'c \<Rightarrow> (unit, 'b KeyStoreError) result \<times> 'c" where
  "save_to_keystore save_seed kp store c = save_seed store (private_bytes kp) c"

definition load_from_keystore ::
  "('s \<Rightarrow> 'c \<Rightarrow> (bytes, 'b KeyStoreError) result \<times> 'c) \<Rightarrow> 's \<Rightarrow> 'c \<Rightarrow> (KeyPair, 'b KeyStoreError) result \<times> 'c" where
  "load_from_keystore load_seed store c =
    (case load_seed store c of (r, c') \<Rightarrow> (bindR r (\<lambda>seed. Inr (from_seed_bytes seed)), c'))"

subsection \<open>The interface\<close>

locale key_store =
  fixes save_seed :: "'s \<Rightarrow> bytes \<Rightarrow> 'c \<Rightarrow> (unit, 'b KeyStoreError) result \<times> 'c"
    and load_seed :: "'s \<Rightarrow> 'c \<Rightarrow> (bytes, 'b KeyStoreError) result \<times> 'c"
    and delete_seed :: "'s \<Rightarrow> 'c \<Rightarrow> (unit, 'b KeyStoreError) result \<times> 'c"
    and entry :: "'s \<Rightarrow> 'k"
    and contents :: "'s \<Rightarrow> 'c \<Rightarrow> 'k \<Rightarrow> bytes option"
    and invar :: "'s \<Rightarrow> bool"
  assumes saved: "invar s \<Longrightarrow> save_seed s seed c = (Inr (), c') \<Longrightarrow> contents s c' = (contents s c)(entry s \<mapsto> seed)"
    and load_keeps: "invar s \<Longrightarrow> load_seed s c = (r, c') \<Longrightarrow> contents s c' = contents s c"
    and loaded: "invar s \<Longrightarrow> load_seed s c = (Inr seed, c') \<Longrightarrow> contents s c (entry s) = Some seed \<and> length seed = 32"
    and not_found: "invar s \<Longrightarrow> load_seed s c = (Inl NotFound, c') \<Longrightarrow> contents s c (entry s) = None"
    and bad_length: "invar s \<Longrightarrow> load_seed s c = (Inl (InvalidSeedLength n), c') \<Longrightarrow>
      \<exists>secret. contents s c (entry s) = Some secret \<and> length secret = n \<and> n \<noteq> 32"
    and deleted: "invar s \<Longrightarrow> delete_seed s c = (Inr (), c') \<Longrightarrow> contents s c' = (contents s c)(entry s := None)"
begin

lemma load_verdict:
  assumes "invar s" "load_from_keystore load_seed s c = (r, c')"
  shows "contents s c' = contents s c \<and>
    (case contents s c (entry s) of
       None \<Rightarrow> r = Inl NotFound
     | Some secret \<Rightarrow> r = (if length secret = 32 then Inr (from_seed_bytes secret) else Inl (InvalidSeedLength (length secret)))) \<or>
    (\<exists>e. r = Inl (Backend e))"
proof -
  obtain x where x: "load_seed s c = (x, c')" "r = bindR x (\<lambda>seed. Inr (from_seed_bytes seed))"
    using assms(2) by (auto simp: load_from_keystore_def split: prod.splits)
  note keeps = load_keeps [OF assms(1) x(1)]
  show ?thesis
  proof (cases x)
    case (Inl e)
    then show ?thesis using x keeps not_found [OF assms(1)] bad_length [OF assms(1)] by (cases e) fastforce+
  next
    case (Inr seed)
    then show ?thesis using x keeps loaded [OF assms(1)] by fastforce
  qed
qed

lemma load_contents:
  assumes "invar s" "load_from_keystore load_seed s c = (r, c')"
  shows "contents s c' = contents s c"
  using load_keeps [OF assms(1)] assms(2) by (auto simp: load_from_keystore_def split: prod.splits)

lemma save_then_load:
  assumes "invar s" "save_to_keystore save_seed kp s c = (Inr (), c1)" "wf_keypair kp" "load_from_keystore load_seed s c1 = (r, c2)"
  shows "r = Inr kp \<or> (\<exists>e. r = Inl (Backend e))"
proof -
  have "contents s c1 (entry s) = Some (signing_key kp)"
    using saved [OF assms(1), of "private_bytes kp" c c1] assms(2) by (simp add: save_to_keystore_def private_bytes_def)
  moreover have "from_seed_bytes (signing_key kp) = kp" by (cases kp) (simp add: from_seed_bytes_def)
  ultimately show ?thesis using load_verdict [OF assms(1,4)] assms(3) by (auto simp: wf_keypair_def)
qed

lemma save_elsewhere:
  assumes "invar s" "save_to_keystore save_seed kp s c = (Inr (), c')" "k \<noteq> entry s"
  shows "contents s c' k = contents s c k"
  using saved [OF assms(1), of "private_bytes kp" c c'] assms(2,3) by (simp add: save_to_keystore_def)

lemma delete_then_load:
  assumes "invar s" "delete_seed s c = (Inr (), c1)" "load_from_keystore load_seed s c1 = (r, c2)"
  shows "r = Inl NotFound \<or> (\<exists>e. r = Inl (Backend e))"
  using load_verdict [OF assms(1,3)] deleted [OF assms(1,2)] by auto

end

lemma credential_laws:
  assumes "credential_ok A"
  shows "set_secret A k secret c = (Inr (), c') \<Longrightarrow> secrets A c' = (secrets A c)(k \<mapsto> secret)"
    "get_secret A k c = (r, c') \<Longrightarrow> secrets A c' = secrets A c"
    "get_secret A k c = (Inl NoEntry, c') \<Longrightarrow> secrets A c k = None"
    "get_secret A k c = (Inr secret, c') \<Longrightarrow> secrets A c k = Some secret"
    "delete_credential A k c = (Inr (), c') \<Longrightarrow> secrets A c' = (secrets A c)(k := None)"
    "delete_credential A k c = (Inl NoEntry, c') \<Longrightarrow> secrets A c' = (secrets A c)(k := None)"
proof -
  show "delete_credential A k c = (Inl NoEntry, c') \<Longrightarrow> secrets A c' = (secrets A c)(k := None)"
    using assms unfolding credential_ok_def by (metis fun_upd_triv)
qed (use assms in \<open>unfold credential_ok_def, blast\<close>)+

lemma from_keyring_error_cases:
  "from_keyring_error e \<noteq> InvalidSeedLength n" "from_keyring_error e = NotFound \<longleftrightarrow> e = NoEntry"
  by (cases e; simp)+

interpretation keyring: key_store keyring_save_seed keyring_load_seed keyring_delete_seed kr_entry
  "\<lambda>s. secrets (kr_api s)" "\<lambda>s. credential_ok (kr_api s)"
proof unfold_locales
qed (auto simp: keyring_save_seed_def keyring_load_seed_def keyring_delete_seed_def credential_laws to_array_def ok_or_def
      from_keyring_error_cases split: prod.splits sum.splits keyring_error.splits if_splits)

interpretation keyutils: key_store keyutils_save_seed keyutils_load_seed keyutils_delete_seed lk_entry
  "\<lambda>s. secrets (lk_api s)" "\<lambda>s. credential_ok (lk_api s)"
proof unfold_locales
qed (auto simp: keyutils_save_seed_def keyutils_load_seed_def keyutils_delete_seed_def credential_laws to_array_def ok_or_def
      from_keyring_error_cases split: prod.splits sum.splits keyring_error.splits if_splits)

text \<open>A store of which the laws hold.\<close>

definition toy_credentials :: "(unit, credential \<Rightarrow> bytes option) credential_api" where
  "toy_credentials =
    \<lparr>open_store = Inr (), open_entry = (\<lambda>_. Inr ()),
     set_secret = (\<lambda>k secret c. (Inr (), c(k \<mapsto> secret))),
     get_secret = (\<lambda>k c. (ok_or NoEntry (c k), c)),
     delete_credential = (\<lambda>k c. (if c k = None then Inl NoEntry else Inr (), c(k := None))),
     secrets = (\<lambda>c. c)\<rparr>"

lemma toy_credentials_ok: "credential_ok toy_credentials"
  by (auto simp: credential_ok_def toy_credentials_def ok_or_def split: option.splits if_splits)

end
