(* ===== verification/TrustProps.thy ===== *)
theory TrustProps
  imports DirectProps
begin

section \<open>TrustProps: what a session says about the peer\<close>

text \<open>
  What a pinned dial establishes about the certificate of the peer and about the station of the session,
  and what the check of a dialed station's HELLO does not establish: that frame depends on nothing the
  client sent, so that one recorded HELLO completes every later handshake.
\<close>

subsection \<open>Handshakes depend on what is read only\<close>

lemma connect_reads:
  assumes "crypto_ok C" "wf_keypair kp'" "env_ok E'" "connect C E n kp (Opened st later) = Inr s"
    "fs_reads st' = fs_reads st" "fs_writes st' = []"
  obtains s' where "connect C E' n' kp' (Opened st' later') = Inr s'" "station s' = station s"
proof -
  obtain st1 v b rs where c: "send_signed C kp (connect_value (ConnectSpec_new (node_id C kp)
      (puzzle_evidence C (public_bytes C kp))) (env_frame_id E n) (env_now_ms E n)) st = (Inr (), st1)"
    "recv_loop decode_frame [] (fs_reads st1) = (Inr v, b, rs)"
    "parse_hello v = Inr (station s)" "verify_frame C v (he_node_id (station s)) = Inr ()" "he_accepted (station s)"
    "control s = st1\<lparr>fs_buf := b, fs_reads := rs\<rparr>"
    using assms(4) by (rule connect_Inr) simp
  obtain w where sent: "send_signed C kp' (connect_value (ConnectSpec_new (node_id C kp')
      (puzzle_evidence C (public_bytes C kp'))) (env_frame_id E' n') (env_now_ms E' n')) st' = (Inr (), st'\<lparr>fs_sent := fs_sent st' @ w\<rparr>)"
    by (rule send_signed_ok [OF assms(1,2) connect_bounded [OF assms(1-3)] assms(6)])
  have "fs_reads st1 = fs_reads st'" using send_signed_reads [OF c(1)] assms(5) by simp
  then show ?thesis using that sent c(2-5) by (simp add: connect_def Let_def read_one_frame_def)
qed

subsection \<open>Properties\<close>

text \<open>C11: Pinned sessions. A session that was connected under a pinned key goes over a connection whose
  peer presented a certificate with exactly that Ed25519 key: its control stream and every stream opened on
  it later are streams of that connection. Its station is the node that signed the accepting HELLO read on it.\<close>

theorem pinned_session_key:
  assumes "tls_checked X webpki presented Q"
    "connect_station C E n Q open_bi host port (Pinned pubkey) kp = Inr s"
  shows "\<exists>q st. transport_connect Q host port (Pinned pubkey) = Inr q \<and> open_bi q n = Some st \<and> session_open_bi s = open_bi q \<and>
    ed25519_pubkey_from_cert X (presented q) = Inr pubkey \<and>
    (\<exists>v b rs. recv_loop decode_frame [] (fs_reads st) = (Inr v, b, rs) \<and> parse_hello v = Inr (station s) \<and>
       verify_frame C v (he_node_id (station s)) = Inr () \<and> he_accepted (station s))"
proof -
  obtain q st where q: "transport_connect Q host port (Pinned pubkey) = Inr q" "open_bi q n = Some st"
    and s: "connect C E n kp (Opened st (open_bi q)) = Inr s"
    using assms(2) by (auto simp: connect_station_def dial_station_def connect_def split: sum.splits option.splits)
  obtain st1 v b rs where later: "session_open_bi s = open_bi q" and c: "send_signed C kp (connect_value (ConnectSpec_new (node_id C kp)
      (puzzle_evidence C (public_bytes C kp))) (env_frame_id E n) (env_now_ms E n)) st = (Inr (), st1)"
    "recv_loop decode_frame [] (fs_reads st1) = (Inr v, b, rs)"
    "parse_hello v = Inr (station s)" "verify_frame C v (he_node_id (station s)) = Inr ()" "he_accepted (station s)"
    using s by (rule connect_Inr) simp
  then show ?thesis using q later transport_connect_pinned [OF assms(1) q(1)] send_signed_reads [OF c(1)] by auto
qed

text \<open>C37: Recorded HELLOs. A HELLO names neither the client nor its CONNECT, so whoever recorded the bytes a
  station answered one client with can answer any client with them: the dial succeeds, and its check
  that the peer is the expected station passes.\<close>

theorem recorded_hello_passes_dial:
  assumes "crypto_ok C" "wf_keypair kp'" "env_ok E'"
    "connect C E n kp (Opened st later) = Inr s"
    "dials host port = Some (Opened impostor later')" "fs_reads impostor = fs_reads st" "fs_writes impostor = []"
  shows "\<exists>s'. dial_and_verify C E' n' kp' dials host port (he_node_id (station s)) = Inr s' \<and> station s' = station s"
proof -
  obtain s' where "connect C E' n' kp' (Opened impostor later') = Inr s'" "station s' = station s"
    by (rule connect_reads [OF assms(1-4,6,7)])
  then show ?thesis using assms(5) by (simp add: dial_and_verify_def timed_connect_def)
qed

definition other_key :: KeyPair where
  "other_key = \<lparr>signing_key = replicate 32 9\<rparr>"

theorem recorded_hello_passes_dial_witness:
  "\<exists>w s s'. connect toy_crypto demo_env 0 demo_key (Opened (fresh_stream [ReadChunk w]) (\<lambda>_. None)) = Inr s \<and>
    dial_and_verify toy_crypto demo_env 7 other_key (\<lambda>_ _. Some (Opened (fresh_stream [ReadChunk w]) (\<lambda>_. None))) ''h'' 1
      (public_bytes toy_crypto demo_key) = Inr s'"
proof (rule demo_handshake)
  fix g w hello
  assume h: "(sign_frame toy_crypto hello_frame demo_key :: (Value, unit fail) result) = Inr g" "frame_sent_as g w"
    "parse_hello (normal g) = Inr hello" "he_accepted hello" "he_node_id hello = public_bytes toy_crypto demo_key"
  have ok: "frame_ok hello_frame" using hello_bounded by (simp add: bounded_def)
  let ?st = "fresh_stream [ReadChunk w]"
  obtain s where s: "connect toy_crypto demo_env 0 demo_key (Opened ?st (\<lambda>_. None)) = Inr s" "station s = hello"
    using connect_completes [OF toy_crypto_ok wf_demo_key wf_demo_key demo_env_ok _ _ _ ok h(1,2) _ h(3-5), of ?st "[]" 0 "\<lambda>_. None"] by auto
  have other: "wf_keypair other_key" by (simp add: wf_keypair_def other_key_def)
  have "\<exists>s'. dial_and_verify toy_crypto demo_env 7 other_key (\<lambda>_ _. Some (Opened ?st (\<lambda>_. None))) ''h'' 1 (he_node_id (station s)) = Inr s' \<and>
      station s' = station s"
    by (rule recorded_hello_passes_dial [OF toy_crypto_ok other demo_env_ok s(1), where impostor = ?st]) (simp_all only: fresh_stream_simps)
  then show ?thesis using s h(5) by fastforce
qed

definition pin_x509 :: "unit x509" where
  "pin_x509 = \<lparr>x_parse = (\<lambda>der. Some \<lparr>spki_algorithm = ''1.3.101.112'', spki_key = der, subject_organizations = []\<rparr>),
     x_pems = (\<lambda>_. []), x_anchor = (\<lambda>_. None), x_end_entity = (\<lambda>_. False), x_verify = (\<lambda>_ _ _ _. False)\<rparr>"

text \<open>A peer that presents the certificate with this key, dialed by clients whose verifier accepts it.\<close>

definition toy_quic :: "bytes \<Rightarrow> bytes quic" where
  "toy_quic key =
    \<lparr>q_to_socket_addrs = (\<lambda>_ port. Inr [V4 [127, 0, 0, 1] port]), q_endpoint = (\<lambda>_. Inr ()),
     q_transport_default = \<lparr>tc_max_idle_timeout = None, tc_keep_alive_interval = None, tc_stream_receive_window = 0,
       tc_receive_window = 0, tc_send_window = 0\<rparr>,
     q_tls_config = (\<lambda>_ _. Inr ()), q_connect = (\<lambda>_ _ _. Inr ()),
     q_handshake = (\<lambda>config _ host. if verifier_accepts pin_x509 (\<lambda>_ _. False) (cc_verifier config) host key then Inr key else Inl ''refused'')\<rparr>"

lemma toy_quic_checked: "tls_checked pin_x509 (\<lambda>_ _. False) (\<lambda>q. q) (toy_quic key)"
  by (auto simp: tls_checked_def toy_quic_def split: if_splits)

theorem pinned_session_key_witness:
  "\<exists>w s. connect_station toy_crypto demo_env 0 (toy_quic (replicate 32 5)) (\<lambda>_ _. Some (fresh_stream [ReadChunk w])) ''h'' 1
      (Pinned (replicate 32 5)) demo_key = Inr s \<and>
    ed25519_pubkey_from_cert pin_x509 (replicate 32 5) = Inr (replicate 32 5)"
proof (rule demo_handshake)
  fix g w hello
  assume h: "(sign_frame toy_crypto hello_frame demo_key :: (Value, unit fail) result) = Inr g" "frame_sent_as g w"
    "parse_hello (normal g) = Inr hello" "he_accepted hello" "he_node_id hello = public_bytes toy_crypto demo_key"
  have ok: "frame_ok hello_frame" using hello_bounded by (simp add: bounded_def)
  let ?k = "replicate 32 (5 :: u8)" and ?open = "\<lambda>(_ :: bytes) (_ :: nat). Some (fresh_stream [ReadChunk w])"
  obtain s where "connect toy_crypto demo_env 0 demo_key (Opened (fresh_stream [ReadChunk w]) (?open ?k)) = Inr s"
    using connect_completes [OF toy_crypto_ok wf_demo_key wf_demo_key demo_env_ok _ _ _ ok h(1,2) _ h(3-5), of "fresh_stream [ReadChunk w]" "[]" 0 "?open ?k"]
    by auto
  moreover have tc: "transport_connect (toy_quic ?k) ''h'' 1 (Pinned ?k) = Inr ?k"
    by (simp add: transport_connect_def resolve_address_def client_config_def toy_quic_def server_verifier_def verifier_accepts_def
        PubkeyPinVerifier_new_def pinned_verify_iff ed25519_pubkey_from_cert_def pin_x509_def to_array_def)
  ultimately have s: "connect_station toy_crypto demo_env 0 (toy_quic ?k) ?open ''h'' 1 (Pinned ?k) demo_key = Inr s"
    by (simp add: connect_station_def dial_station_def)
  from pinned_session_key [OF toy_quic_checked s] s tc show ?thesis by auto
qed

end
