(* ===== verification/Texts.thy ===== *)
theory Texts
  imports DirectDial KeyStores Pool
begin

section \<open>Texts: what the errors display\<close>

text \<open>
  The \<open>Display\<close> implementations that \<open>ErrorText\<close> does not hold. They reach a caller of the bindings
  as the \<open>reason\<close> of an error. The texts of third-party errors and the debug form of strings and of
  values (which depends on Unicode's tables and on float printing) are the parameter \<open>texts\<close>; a field name
  in debug form is the name in double quotes.
\<close>

record texts =
  tx_quinn :: quinn_texts
  tx_connection_error :: string
  tx_io_error :: string
  tx_debug_string :: "string \<Rightarrow> string"
  tx_debug_value :: "Value \<Rightarrow> string"

definition quoted :: "string \<Rightarrow> string" where
  "quoted name = CHR ''\"'' # name @ ''\"''"

definition debug_option :: "('a \<Rightarrow> string) \<Rightarrow> 'a option \<Rightarrow> string" where
  "debug_option f x = (case x of None \<Rightarrow> ''None'' | Some v \<Rightarrow> ''Some('' @ f v @ '')'')"

definition lower_hex_byte :: "u8 \<Rightarrow> string" where
  "lower_hex_byte b = [''0123456789abcdef'' ! (unat b div 16), ''0123456789abcdef'' ! (unat b mod 16)]"

definition hex_of :: "bytes \<Rightarrow> string" where
  "hex_of b = concat (map lower_hex_byte b)"

subsection \<open>Frames (\<open>src/frame.rs\<close>, \<open>src/manifest.rs\<close>)\<close>

fun parse_call_error_text :: "ParseCallError \<Rightarrow> string" where
  "parse_call_error_text NotACallFrame = ''frame_type is not '' @ quoted ''call''"
| "parse_call_error_text (ParseCallError.MissingField name) = ''missing required field '' @ quoted name"
| "parse_call_error_text (ParseCallError.WrongFieldType name) =
    ''field '' @ quoted name @ '' has the wrong type''"

fun parse_call_response_error_text :: "ParseCallResponseError \<Rightarrow> string" where
  "parse_call_response_error_text NotAResultOrError = 
    ''frame_type is neither '' @ quoted ''result'' @ '' nor '' @ quoted ''error''"
| "parse_call_response_error_text (ParseCallResponseError.MissingField name) = ''missing required field '' @ quoted name"
| "parse_call_response_error_text (ParseCallResponseError.WrongFieldType name) =
    ''field '' @ quoted name @ '' has the wrong type''"

fun parse_event_error_text :: "ParseEventError \<Rightarrow> string" where
  "parse_event_error_text NotAnEventFrame = ''frame_type is not '' @ quoted ''event''"
| "parse_event_error_text (ParseEventError.MissingField name) = ''missing required field '' @ quoted name"
| "parse_event_error_text (ParseEventError.WrongFieldType name) =
    ''field '' @ quoted name @ '' has the wrong type''"

fun parse_hello_error_text :: "ParseHelloError \<Rightarrow> string" where
  "parse_hello_error_text NotAHelloFrame = ''frame_type is not '' @ quoted ''hello''"
| "parse_hello_error_text (ParseHelloError.MissingField name) = ''missing required field '' @ quoted name"
| "parse_hello_error_text (ParseHelloError.WrongFieldType name) =
    ''field '' @ quoted name @ '' has the wrong type''"

fun parse_stream_open_error_text :: "ParseStreamOpenError \<Rightarrow> string" where
  "parse_stream_open_error_text NotAStreamOpenFrame = ''frame_type is not '' @ quoted ''stream_open''"
| "parse_stream_open_error_text (ParseStreamOpenError.MissingField name) = ''missing required field '' @ quoted name"
| "parse_stream_open_error_text (ParseStreamOpenError.WrongFieldType name) =
    ''field '' @ quoted name @ '' has the wrong type''"

fun parse_stream_event_error_text :: "ParseStreamEventError \<Rightarrow> string" where
  "parse_stream_event_error_text NotAStreamFrame = 
    ''frame_type is none of stream_data/stream_end/stream_error/stream_reply''"
| "parse_stream_event_error_text (ParseStreamEventError.MissingField name) = ''missing required field '' @ quoted name"
| "parse_stream_event_error_text (ParseStreamEventError.WrongFieldType name) =
    ''field '' @ quoted name @ '' has the wrong type''"

fun verify_error_text :: "VerifyError \<Rightarrow> string" where
  "verify_error_text MissingSignature = ''frame has no signature field''"
| "verify_error_text VerifyError.BadSignature = ''signature field is not 64 bytes''"
| "verify_error_text SignatureInvalid = ''signature does not verify against pubkey''"

fun verify_publisher_error_text :: "VerifyPublisherError \<Rightarrow> string" where
  "verify_publisher_error_text MissingPublisherSig = ''frame has no publisher_sig field''"
| "verify_publisher_error_text BadPublisherSig = ''publisher_sig field is not 64 bytes''"
| "verify_publisher_error_text PublisherSigInvalid =
    ''publisher_sig does not verify against the frame's publisher field''"

fun manifest_verify_error_text :: "ManifestVerifyError \<Rightarrow> string" where
  "manifest_verify_error_text SizeMismatch = ''data size does not match the manifest''"
| "manifest_verify_error_text RootHashMismatch = ''re-chunked root hash does not match the manifest''"

fun from_wire_error_text :: "FromWireError \<Rightarrow> string" where
  "from_wire_error_text (FromWireError.MissingField name) = ''missing required field '' @ quoted name"
| "from_wire_error_text (FromWireError.WrongFieldType name) =
    ''field '' @ quoted name @ '' has the wrong type''"
| "from_wire_error_text ZeroChunkSize = ''chunk_size is 0''"
| "from_wire_error_text InconsistentChunkCount = ''chunk_count does not match the number of entries in chunks''"

subsection \<open>Connection and streams (\<open>src/connection.rs\<close>, \<open>src/stream.rs\<close>)\<close>

fun handshake_error_text :: "texts \<Rightarrow> HandshakeError \<Rightarrow> string" where
  "handshake_error_text T (HsTransport e) = ''transport: '' @ connect_error_text e"
| "handshake_error_text T HsOpenStream = ''opening control stream: '' @ tx_connection_error T"
| "handshake_error_text T HsWrite = ''sending CONNECT: '' @ write_error_text (tx_quinn T)"
| "handshake_error_text T HsRead = ''reading from control stream: '' @ read_error_text (tx_quinn T)"
| "handshake_error_text T HsStreamClosed = ''station closed the stream before HELLO arrived''"
| "handshake_error_text T HsTimeout = ''no HELLO within 30s (likely a protocol mismatch)''"
| "handshake_error_text T HsWaiting = []"
| "handshake_error_text T (HsEncode e) = ''encoding CONNECT: '' @ encode_frame_error_text e"
| "handshake_error_text T (HsDecode e) =
    ''decoding the station's response: '' @ decode_frame_error_text e"
| "handshake_error_text T (HsUnexpectedFrameType e) = ''expected a HELLO frame: '' @ parse_hello_error_text e"
| "handshake_error_text T (HsSignatureInvalid e) = ''HELLO signature check failed: '' @ verify_error_text e"
| "handshake_error_text T (HsRefused refusal_code) =
    ''station refused the connection (refusal_code = '' @ debug_option dec_int refusal_code @ '')''"

fun recv_event_error_text :: "texts \<Rightarrow> RecvEventError \<Rightarrow> string" where
  "recv_event_error_text T (EventRecv e) = recv_frame_error_text (tx_quinn T) e"
| "recv_event_error_text T (EventParse e) = ''expected an EVENT frame: '' @ parse_event_error_text e"

fun serve_call_error_text :: "texts \<Rightarrow> ServeCallError \<Rightarrow> string" where
  "serve_call_error_text T (ServeRecv e) = recv_frame_error_text (tx_quinn T) e"
| "serve_call_error_text T (ServeSend e) = ''sending the reply: '' @ send_frame_error_text (tx_quinn T) e"
| "serve_call_error_text T ServeTimeout = ''timed out waiting for an inbound CALL''"

fun run_subscriber_error_text :: "texts \<Rightarrow> RunSubscriberError \<Rightarrow> string" where
  "run_subscriber_error_text T (SubscriberSubscribe e) = ''subscribing: '' @ send_frame_error_text (tx_quinn T) e"
| "run_subscriber_error_text T (SubscriberRecv e) = recv_frame_error_text (tx_quinn T) e"

fun open_error_text :: "texts \<Rightarrow> OpenError \<Rightarrow> string" where
  "open_error_text T OpenStreamFailed = ''opening a dedicated stream: '' @ tx_connection_error T"
| "open_error_text T (OpenSend e) = ''sending stream_open: '' @ send_frame_error_text (tx_quinn T) e"

fun accept_error_text :: "texts \<Rightarrow> AcceptError \<Rightarrow> string" where
  "accept_error_text T AcceptStreamFailed = ''accepting a dedicated stream: '' @ tx_connection_error T"
| "accept_error_text T AcceptTimeout = ''no inbound stream within the given timeout''"
| "accept_error_text T (AcceptRecv e) =
    ''reading the stream's first frame: '' @ recv_frame_error_text (tx_quinn T) e"
| "accept_error_text T (AcceptParse e) = ''expected a stream_open frame: '' @ parse_stream_open_error_text e"

fun recv_stream_error_text :: "texts \<Rightarrow> RecvStreamError \<Rightarrow> string" where
  "recv_stream_error_text T (StreamRecv e) = recv_frame_error_text (tx_quinn T) e"
| "recv_stream_error_text T (StreamParse e) = parse_stream_event_error_text e"
| "recv_stream_error_text T (PeerAborted code message) = ''peer aborted the stream: '' @ code @ '' ('' @ message @ '')''"
| "recv_stream_error_text T StreamIdMismatch = ''received a frame for a different stream_id''"
| "recv_stream_error_text T UnexpectedFrame = ''received a frame not valid in this context''"

subsection \<open>Content and the DHT (\<open>src/content.rs\<close>, \<open>src/dht.rs\<close>, \<open>src/cert_chain.rs\<close>)\<close>

definition remote_error_text :: "texts \<Rightarrow> u8 \<Rightarrow> string \<Rightarrow> string option \<Rightarrow> string" where
  "remote_error_text T code name detail =
    ''station returned error '' @ dec_nat (unat code) @ '' ('' @ name @ ''): '' @ debug_option (tx_debug_string T) detail"

fun put_error_text :: "texts \<Rightarrow> PutError \<Rightarrow> string" where
  "put_error_text T PutOpenStream = ''opening a dedicated stream: '' @ tx_connection_error T"
| "put_error_text T (PutCall e) = call_error_text (tx_quinn T) e"
| "put_error_text T (PutRemote code name detail) = remote_error_text T code name detail"
| "put_error_text T (PutUnexpectedReply v) = ''unexpected reply shape: '' @ tx_debug_value T v"
| "put_error_text T PutHashMismatch = ''station reported hash_mismatch''"

fun get_error_text :: "texts \<Rightarrow> GetError \<Rightarrow> string" where
  "get_error_text T GetOpenStream = ''opening a dedicated stream: '' @ tx_connection_error T"
| "get_error_text T (GetCall e) = call_error_text (tx_quinn T) e"
| "get_error_text T (GetRemote code name detail) = remote_error_text T code name detail"
| "get_error_text T (GetUnexpectedReply v) = ''unexpected reply shape: '' @ tx_debug_value T v"
| "get_error_text T GetNotFound = ''station reported not_found''"
| "get_error_text T (GetManifestDecode e) = ''decoding the fetched manifest: '' @ from_wire_error_text e"
| "get_error_text T GetHashMismatch = ''fetched content does not hash to its MCID''"
| "get_error_text T (GetVerify e) = ''reassembled content failed verification: '' @ manifest_verify_error_text e"

fun read_record_error_text :: "ReadRecordError \<Rightarrow> string" where
  "read_record_error_text WrongRecordType = ''dht: unexpected record type''"
| "read_record_error_text (ReadRecordError.MissingField name) = ''dht: missing field '' @ quoted name"
| "read_record_error_text (ReadRecordError.WrongFieldType name) =
    ''dht: field '' @ quoted name @ '' has the wrong type''"

fun record_from_rpc_error_text :: "RecordFromRpcError \<Rightarrow> string" where
  "record_from_rpc_error_text (RecordFromRpcError.MissingField name) = ''dht: missing field '' @ quoted name"
| "record_from_rpc_error_text (RecordFromRpcError.WrongFieldType name) =
    ''dht: field '' @ quoted name @ '' has the wrong type''"

fun record_verify_error_text :: "RecordVerifyError \<Rightarrow> string" where
  "record_verify_error_text InvalidRecordSignature = ''dht: signature invalid''"
| "record_verify_error_text RecordExpired = ''dht: record expired''"

fun dht_error_text :: "texts \<Rightarrow> DhtError \<Rightarrow> string" where
  "dht_error_text T (DhtCall e) = ''dht: '' @ call_error_text (tx_quinn T) e"
| "dht_error_text T (DhtRemote name) = ''dht: station reported '' @ name"
| "dht_error_text T DhtNotFound = ''dht: record not found''"
| "dht_error_text T (DhtMalformed e) = ''dht: '' @ record_from_rpc_error_text e"
| "dht_error_text T ExpectedList = ''dht: expected a list reply''"

fun cert_chain_error_text :: "CertChainError \<Rightarrow> string" where
  "cert_chain_error_text CertChainError.BadSignature = ''cert_chain: advertisement signature does not verify''"
| "cert_chain_error_text Absent = ''cert_chain: advertisement carries no cert_chain''"
| "cert_chain_error_text Undecodable = ''cert_chain: cert_chain is not a decodable PEM certificate bundle''"
| "cert_chain_error_text KeyMismatch = ''cert_chain: leaf cert public key does not match the advertisement's signer''"
| "cert_chain_error_text Untrusted = ''cert_chain: cert chain does not validate to the trusted realm CA''"
| "cert_chain_error_text OrgMismatch = ''cert_chain: leaf cert organization does not match the expected org''"

subsection \<open>Direct dial (\<open>src/direct_dial.rs\<close>)\<close>

fun resolve_error_text :: "texts \<Rightarrow> ResolveError \<Rightarrow> string" where
  "resolve_error_text T ProcedureNotAdvertised = ''direct_dial: procedure has no direct-dial advertisement in the DHT''"
| "resolve_error_text T NoTrustedAdvertisement =
    ''direct_dial: every candidate advertisement failed signature verification''"
| "resolve_error_text T StationEndpointNotFound =
    ''direct_dial: resolved station published no reachable station_endpoint''"
| "resolve_error_text T StationEndpointSignerMismatch = ''direct_dial: station_endpoint signer mismatch''"
| "resolve_error_text T (ResolveDht e) = ''direct_dial: '' @ dht_error_text T e"
| "resolve_error_text T (NoAuthorizedAdvertisement e) =
    ''direct_dial: no candidate advertisement is cert-chain-authorized for the expected org: '' @ cert_chain_error_text e"

definition trust_violation_text :: "bytes \<Rightarrow> bytes \<Rightarrow> string" where
  "trust_violation_text resolved dialed =
    ''direct_dial: trust violation -- resolved station '' @ hex_of resolved @
    '' but the dialed peer proved identity '' @ hex_of dialed"

fun direct_call_error_text :: "texts \<Rightarrow> DirectCallError \<Rightarrow> string" where
  "direct_call_error_text T (DirectResolve e) = resolve_error_text T e"
| "direct_call_error_text T (DirectDialFailed e) = ''direct_dial: dialing resolved station: '' @ handshake_error_text T e"
| "direct_call_error_text T (DirectTrustViolation resolved dialed) = trust_violation_text resolved dialed"
| "direct_call_error_text T (DirectCall e) = ''direct_dial: '' @ call_error_text (tx_quinn T) e"

fun advertise_direct_error_text :: "texts \<Rightarrow> AdvertiseDirectError \<Rightarrow> string" where
  "advertise_direct_error_text T (AdvertiseFailed e) =
    ''direct_dial: sending ADVERTISE: '' @ send_frame_error_text (tx_quinn T) e"
| "advertise_direct_error_text T (AdvertiseDht e) = ''direct_dial: '' @ dht_error_text T e"

fun dial_and_verify_error_text :: "texts \<Rightarrow> DialAndVerifyError \<Rightarrow> string" where
  "dial_and_verify_error_text T (DialFailed e) = ''direct_dial: dialing resolved station: '' @ handshake_error_text T e"
| "dial_and_verify_error_text T (TrustViolation resolved dialed) = trust_violation_text resolved dialed"

fun open_stream_direct_error_text :: "texts \<Rightarrow> OpenStreamDirectError \<Rightarrow> string" where
  "open_stream_direct_error_text T (OpenStreamResolve e) = resolve_error_text T e"
| "open_stream_direct_error_text T (OpenStreamDial e) = dial_and_verify_error_text T e"
| "open_stream_direct_error_text T (OpenStreamOpen e) = ''direct_dial: open stream: '' @ open_error_text T e"

fun put_direct_error_text :: "texts \<Rightarrow> PutDirectError \<Rightarrow> string" where
  "put_direct_error_text T (PutDirectResolve e) = resolve_error_text T e"
| "put_direct_error_text T (PutDirectDial e) = dial_and_verify_error_text T e"
| "put_direct_error_text T (PutDirectPut e) = ''direct_dial: '' @ put_error_text T e"

definition content_not_announced_text :: string where
  "content_not_announced_text = ''direct_dial: content has no verifiable announcement in the DHT''"

fun get_direct_error_text :: "texts \<Rightarrow> GetDirectError \<Rightarrow> string" where
  "get_direct_error_text T (GetDirectDht e) = ''direct_dial: find content providers: '' @ dht_error_text T e"
| "get_direct_error_text T NotAnnounced = content_not_announced_text"
| "get_direct_error_text T (EndpointParse endpoint) =
    ''direct_dial: content provider endpoint '' @ tx_debug_string T endpoint @ '': not a URL or host:port''"
| "get_direct_error_text T (GetDirectDial e) = dial_and_verify_error_text T e"
| "get_direct_error_text T (GetDirectGet e) = ''direct_dial: '' @ get_error_text T e"

subsection \<open>Tokens, identities and the pool (\<open>src/ucan.rs\<close>, \<open>src/identity.rs\<close>, \<open>src/keystore.rs\<close>, \<open>src/pool.rs\<close>)\<close>

fun ucan_error_text :: "UcanError \<Rightarrow> string" where
  "ucan_error_text InvalidToken = ''ucan: invalid token''"
| "ucan_error_text InvalidSignature = ''ucan: invalid signature''"
| "ucan_error_text InvalidPublicKey = ''ucan: invalid public key''"
| "ucan_error_text Expired = ''ucan: token expired''"
| "ucan_error_text NotYetValid = ''ucan: token not yet valid''"
| "ucan_error_text NoToken = ''ucan: no token presented for a gated procedure''"

fun load_key_error_text :: "texts \<Rightarrow> LoadKeyError \<Rightarrow> string" where
  "load_key_error_text T Io = ''I/O error reading key file: '' @ tx_io_error T"
| "load_key_error_text T BadKeyFile = ''key file has the wrong magic header or length''"
| "load_key_error_text T PubkeyMismatch =
    ''stored public key does not match the one derived from the stored private key''"

fun key_store_error_text :: "('b \<Rightarrow> string) \<Rightarrow> 'b KeyStoreError \<Rightarrow> string" where
  "key_store_error_text backend_text NotFound = ''no seed stored under this identity''"
| "key_store_error_text backend_text (InvalidSeedLength actual) =
    ''stored secret is '' @ dec_nat actual @ '' bytes, expected 32''"
| "key_store_error_text backend_text (Backend e) = ''platform secure store error: '' @ backend_text e"

fun pool_call_error_text :: "texts \<Rightarrow> PoolCallError \<Rightarrow> string" where
  "pool_call_error_text T CallNoHealthyStation = ''pool: no link has completed its CONNECT/HELLO handshake''"
| "pool_call_error_text T (CallAllFailed e) = ''pool: every connected link's call failed: '' @ call_error_text (tx_quinn T) e"

fun pool_publish_error_text :: "PoolPublishError \<Rightarrow> string" where
  "pool_publish_error_text PublishNoHealthyStation = ''pool: no link has completed its CONNECT/HELLO handshake''"
| "pool_publish_error_text (PublishAllFailed n) = ''pool: publish failed on all '' @ dec_nat n @ '' targeted link(s)''"

subsection \<open>Certificate verifiers (\<open>src/cert.rs\<close>)\<close>

text \<open>The first argument is the text of the X.509 parser's error.\<close>

fun cert_key_error_text :: "string \<Rightarrow> CertKeyError \<Rightarrow> string" where
  "cert_key_error_text x CertUnparsed = ''parse cert: '' @ x"
| "cert_key_error_text x (CertAlgorithm oid) = ''expected Ed25519 SPKI, got OID '' @ oid"
| "cert_key_error_text x (CertKeySize n) = ''Ed25519 pubkey must be 32 bytes, got '' @ dec_nat n"

fun pin_error_text :: "string \<Rightarrow> PinError \<Rightarrow> string" where
  "pin_error_text x (PinExtract e) = ''pubkey extract: '' @ cert_key_error_text x e"
| "pin_error_text x (PinMismatch pinned presented) =
    ''pubkey mismatch: pinned='' @ hex_of pinned @ '' presented='' @ hex_of presented"

end
