(* ===== verification/FfiValue.thy ===== *)
theory FfiValue
  imports Texts
begin

section \<open>FfiValue: what crosses the foreign-function boundary (\<open>macula-rust-ffi/src/lib.rs\<close>)\<close>

text \<open>
  The error type of the UniFFI bindings and the mirrors of the core's data that Kotlin and Swift code
  sees, with the conversions in both directions. UniFFI has no 128-bit integer and no fixed-size byte
  array: an integer that does not fit \<open>i64\<close> and a byte vector of the wrong length are errors. An \<open>i64\<close>
  is a 64-bit word read by \<open>sint\<close>.
\<close>

type_synonym i64 = "64 word"

subsection \<open>Errors\<close>

datatype FfiError =
    FfiConnect string
  | FfiCall string
  | FfiSend string
  | FfiRecv string
  | FfiContent string
  | UnrepresentableValue string
  | WrongByteLength u32 u32
  | Closed
  | CallHandlerFailed string
  | FfiResolve string
  | DirectDialTrustViolation bytes bytes
  | FfiUcan string
  | KeystoreNotFound
  | FfiKeystore string

fun ffi_error_text :: "FfiError \<Rightarrow> string" where
  "ffi_error_text (FfiConnect reason) = ''connecting to the station: '' @ reason"
| "ffi_error_text (FfiCall reason) = ''the call failed: '' @ reason"
| "ffi_error_text (FfiSend reason) = ''sending a frame failed: '' @ reason"
| "ffi_error_text (FfiRecv reason) = ''receiving failed: '' @ reason"
| "ffi_error_text (FfiContent reason) = ''content operation failed: '' @ reason"
| "ffi_error_text (UnrepresentableValue reason) = ''a value could not cross the FFI boundary: '' @ reason"
| "ffi_error_text (WrongByteLength expected actual) =
    ''expected exactly '' @ dec_nat (unat expected) @ '' bytes, got '' @ dec_nat (unat actual)"
| "ffi_error_text Closed = ''this session is already closed''"
| "ffi_error_text (CallHandlerFailed reason) = ''the call handler failed: '' @ reason"
| "ffi_error_text (FfiResolve reason) = ''direct-dial resolution failed: '' @ reason"
| "ffi_error_text (DirectDialTrustViolation resolved dialed) =
    ''direct-dial trust violation: the dialed peer's proven identity did not match the resolved station (see resolved/dialed fields)''"
| "ffi_error_text (FfiUcan reason) = ''UCAN operation failed: '' @ reason"
| "ffi_error_text KeystoreNotFound = ''no seed is stored under this keystore identity''"
| "ffi_error_text (FfiKeystore reason) = ''platform secure store error: '' @ reason"

definition ffi_of_ucan_error :: "UcanError \<Rightarrow> FfiError" where
  "ffi_of_ucan_error e = FfiUcan (ucan_error_text e)"

definition ffi_of_keystore_error :: "('b \<Rightarrow> string) \<Rightarrow> 'b KeyStoreError \<Rightarrow> FfiError" where
  "ffi_of_keystore_error backend_text e =
    (case e of NotFound \<Rightarrow> KeystoreNotFound | other \<Rightarrow> FfiKeystore (key_store_error_text backend_text other))"

definition ffi_of_resolve_error :: "texts \<Rightarrow> ResolveError \<Rightarrow> FfiError" where
  "ffi_of_resolve_error T e = FfiResolve (resolve_error_text T e)"

definition ffi_of_direct_call_error :: "texts \<Rightarrow> DirectCallError \<Rightarrow> FfiError" where
  "ffi_of_direct_call_error T e =
    (case e of
       DirectResolve re \<Rightarrow> ffi_of_resolve_error T re
     | DirectTrustViolation resolved dialed \<Rightarrow> DirectDialTrustViolation resolved dialed
     | other \<Rightarrow> FfiCall (direct_call_error_text T other))"

definition ffi_of_advertise_direct_error :: "texts \<Rightarrow> AdvertiseDirectError \<Rightarrow> FfiError" where
  "ffi_of_advertise_direct_error T e = FfiSend (advertise_direct_error_text T e)"

subsection \<open>Byte arrays\<close>

text \<open>The lengths are reported as \<open>u32\<close>.\<close>

definition to_32 :: "bytes \<Rightarrow> (bytes, FfiError) result" where
  "to_32 b = ok_or (WrongByteLength 32 (word_of_nat (length b))) (to_array 32 b)"

definition to_mcid :: "bytes \<Rightarrow> (Mcid, FfiError) result" where
  "to_mcid b = ok_or (WrongByteLength 34 (word_of_nat (length b))) (to_array 34 b)"

subsection \<open>Values\<close>

datatype FfiValue =
    FfiNull
  | FfiInt i64
  | FfiBytes bytes
  | FfiText string
  | FfiFloat u64
  | FfiItems "FfiValue list"
  | FfiFields "FfiMapEntry list"
and FfiMapEntry = FfiMapEntry (entry_key: FfiValue) (entry_value: FfiValue)

lemma entry_size [termination_simp]:
  "e \<in> set es \<Longrightarrow> size (entry_key e) < Suc (size_list size es)"
  "e \<in> set es \<Longrightarrow> size (entry_value e) < Suc (size_list size es)"
  using size_list_estimation' [of e es "size e" size] by (cases e, simp)+

fun into_value :: "FfiValue \<Rightarrow> Value" where
  "into_value FfiNull = Null"
| "into_value (FfiInt n) = IntV (sint n)"
| "into_value (FfiBytes b) = Bytes b"
| "into_value (FfiText t) = Text t"
| "into_value (FfiFloat f) = Float f"
| "into_value (FfiItems items) = List (map into_value items)"
| "into_value (FfiFields entries) = Map (map (\<lambda>e. (into_value (entry_key e), into_value (entry_value e))) entries)"

definition i64_from_int :: "int \<Rightarrow> i64 option" where
  "i64_from_int n = (if - (2 ^ 63) \<le> n \<and> n < 2 ^ 63 then Some (word_of_int n) else None)"

lemma pair_size [termination_simp]:
  "p \<in> set ps \<Longrightarrow> size (fst p) < Suc (size_list (size_prod size size) ps)"
  "p \<in> set ps \<Longrightarrow> size (snd p) < Suc (size_list (size_prod size size) ps)"
  by (induction ps) (auto simp: size_prod_def split: prod.splits)

function try_from_value :: "Value \<Rightarrow> (FfiValue, FfiError) result" where
  "try_from_value Null = Inr FfiNull"
| "try_from_value (IntV n) =
    (case i64_from_int n of
       Some m \<Rightarrow> Inr (FfiInt m)
     | None \<Rightarrow> Inl (UnrepresentableValue (''integer '' @ dec_int n @ '' is outside i64 range'')))"
| "try_from_value (Bytes b) = Inr (FfiBytes b)"
| "try_from_value (Text t) = Inr (FfiText t)"
| "try_from_value (Float f) = Inr (FfiFloat f)"
| "try_from_value (List items) = bindR (mapR try_from_value items) (\<lambda>items. Inr (FfiItems items))"
| "try_from_value (Map ps) =
    bindR (mapR (\<lambda>p. bindR (try_from_value (fst p)) (\<lambda>key. bindR (try_from_value (snd p)) (\<lambda>val. Inr (FfiMapEntry key val)))) ps)
      (\<lambda>entries. Inr (FfiFields entries))"
  by pat_completeness auto
termination by lexicographic_order

subsection \<open>Responses, events and streams\<close>

datatype FfiCallResponse =
    FfiResult FfiValue bytes
  | FfiErrorResponse u8 string bytes "string option"

definition try_from_call_response :: "CallResponse \<Rightarrow> (FfiCallResponse, FfiError) result" where
  "try_from_call_response r =
    (case r of
       CallResult payload responded_by \<Rightarrow>
         bindR (try_from_value payload) (\<lambda>payload. Inr (FfiResult payload responded_by))
     | CallResponse.CallError code name reported_by detail \<Rightarrow> Inr (FfiErrorResponse code name reported_by detail))"

record FfiResolved =
  fr_station :: bytes
  fr_host :: string
  fr_port :: u16

definition ffi_of_resolved :: "Resolved \<Rightarrow> FfiResolved" where
  "ffi_of_resolved r = \<lparr>fr_station = rs_station r, fr_host = rs_host r, fr_port = rs_port r\<rparr>"

record FfiEvent =
  fe_topic :: string
  fe_realm :: bytes
  fe_publisher :: bytes
  fe_seq :: u64
  fe_payload :: FfiValue
  fe_delivered_via :: string

definition try_from_event :: "EventInfo \<Rightarrow> (FfiEvent, FfiError) result" where
  "try_from_event e =
    bindR (try_from_value (ev_payload e)) (\<lambda>payload.
      Inr \<lparr>fe_topic = ev_topic e, fe_realm = ev_realm e, fe_publisher = ev_publisher e, fe_seq = ev_seq e,
           fe_payload = payload, fe_delivered_via = ev_delivered_via e\<rparr>)"

datatype FfiStreamMode = FfiServerStream | FfiClientStream | FfiBidi

fun into_stream_mode :: "FfiStreamMode \<Rightarrow> StreamMode" where
  "into_stream_mode FfiServerStream = ServerStream"
| "into_stream_mode FfiClientStream = ClientStream"
| "into_stream_mode FfiBidi = Bidi"

fun from_stream_mode :: "StreamMode \<Rightarrow> FfiStreamMode" where
  "from_stream_mode ServerStream = FfiServerStream"
| "from_stream_mode ClientStream = FfiClientStream"
| "from_stream_mode Bidi = FfiBidi"

datatype FfiStreamEncoding = FfiRaw | FfiMsgpack

fun into_stream_encoding :: "FfiStreamEncoding \<Rightarrow> StreamEncoding" where
  "into_stream_encoding FfiRaw = Raw"
| "into_stream_encoding FfiMsgpack = Msgpack"

fun from_stream_encoding :: "StreamEncoding \<Rightarrow> FfiStreamEncoding" where
  "from_stream_encoding Raw = FfiRaw"
| "from_stream_encoding Msgpack = FfiMsgpack"

datatype FfiStreamItem = FfiData u64 FfiStreamEncoding FfiValue | FfiEof

record FfiStreamReply =
  fy_payload :: FfiValue
  fy_responded_by :: bytes

text \<open>\<open>deadline_ms as i64\<close> keeps the low 64 bits of the \<open>i128\<close>.\<close>

record FfiStreamOpenInfo =
  fo_stream_id :: bytes
  fo_procedure :: string
  fo_realm :: bytes
  fo_mode :: FfiStreamMode
  fo_args :: FfiValue
  fo_deadline_ms :: i64
  fo_caller :: bytes

definition try_from_open_info :: "StreamOpenInfo \<Rightarrow> (FfiStreamOpenInfo, FfiError) result" where
  "try_from_open_info i =
    bindR (try_from_value (si_args i)) (\<lambda>args.
      Inr \<lparr>fo_stream_id = si_stream_id i, fo_procedure = si_procedure i, fo_realm = si_realm i,
           fo_mode = from_stream_mode (si_mode i), fo_args = args, fo_deadline_ms = word_of_int (si_deadline_ms i),
           fo_caller = si_caller i\<rparr>)"

datatype FfiTrust = FfiPinned bytes | FfiWebPki

definition into_trust :: "FfiTrust \<Rightarrow> (Trust, FfiError) result" where
  "into_trust t =
    (case t of
       FfiPinned node \<Rightarrow> bindR (to_32 node) (\<lambda>node. Inr (Pinned node))
     | FfiWebPki \<Rightarrow> Inr WebPki)"

subsection \<open>Tokens\<close>

text \<open>The claims of a token but its facts, which have no shape on the foreign side.\<close>

record FfiCapability =
  fc_with :: string
  fc_can :: string

definition from_capability :: "Capability \<Rightarrow> FfiCapability" where
  "from_capability c = \<lparr>fc_with = cap_with c, fc_can = cap_can c\<rparr>"

definition into_capability :: "FfiCapability \<Rightarrow> Capability" where
  "into_capability c = \<lparr>cap_with = fc_with c, cap_can = fc_can c\<rparr>"

record FfiUcanPayload =
  fu_issuer :: string
  fu_audience :: string
  fu_capabilities :: "FfiCapability list"
  fu_expires_at :: "int option"
  fu_not_before :: "int option"
  fu_nonce :: string
  fu_proofs :: "string list"

definition from_payload :: "'j Payload \<Rightarrow> FfiUcanPayload" where
  "from_payload p =
    \<lparr>fu_issuer = p_issuer p, fu_audience = p_audience p, fu_capabilities = map from_capability (p_capabilities p),
     fu_expires_at = p_expires_at p, fu_not_before = p_not_before p, fu_nonce = p_nonce p, fu_proofs = p_proofs p\<rparr>"

datatype FfiPolicy = FfiOpen | FfiRequired bytes

definition into_policy :: "FfiPolicy \<Rightarrow> (Policy, FfiError) result" where
  "into_policy p =
    (case p of
       FfiOpen \<Rightarrow> Inr policy_open
     | FfiRequired issuer \<Rightarrow> bindR (to_32 issuer) (\<lambda>issuer. Inr (policy_required issuer)))"

subsection \<open>Conversions: lemmas\<close>

lemma i64_from_int_iff: "i64_from_int n = Some m \<longleftrightarrow> n = sint m"
proof
  assume "i64_from_int n = Some m"
  then have "- (2 ^ 63) \<le> n" "n < 2 ^ 63" "m = word_of_int n" by (auto simp: i64_from_int_def split: if_splits)
  then show "n = sint m" by (simp add: signed_of_int signed_take_bit_int_eq_self)
next
  assume "n = sint m"
  then show "i64_from_int n = Some m"
    using sint_ge [of m] sint_lt [of m] by (simp add: i64_from_int_def)
qed

lemma to_32_iff [simp]: "to_32 b = Inr c \<longleftrightarrow> length b = 32 \<and> c = b"
  by (simp add: to_32_def)

lemma to_32_error: "to_32 b = Inl e \<Longrightarrow> e = WrongByteLength 32 (word_of_nat (length b))"
  by (auto simp: to_32_def to_array_def split: if_splits)

lemma try_into_value: "try_from_value (into_value f) = Inr f"
proof (induction f rule: into_value.induct)
  case (7 entries)
  have "mapR (\<lambda>p. bindR (try_from_value (fst p)) (\<lambda>key. bindR (try_from_value (snd p)) (\<lambda>val. Inr (FfiMapEntry key val))))
      (map (\<lambda>e. (into_value (entry_key e), into_value (entry_value e))) entries) = Inr (map (\<lambda>e. e) entries)"
    by (rule mapR_map_Inr) (simp add: 7)
  then show ?case by simp
next
  case (2 n)
  then show ?case by (simp add: i64_from_int_iff [THEN iffD2, OF refl])
qed (simp_all add: mapR_map_Inr [where h = "\<lambda>x. x", simplified])

lemma into_try_value: "try_from_value v = Inr f \<Longrightarrow> v = into_value f"
proof (induction v arbitrary: f rule: try_from_value.induct)
  case (2 n)
  then show ?case by (auto simp: i64_from_int_iff split: option.splits)
next
  case (6 items)
  then obtain fs where fs: "list_all2 (\<lambda>x y. try_from_value x = Inr y) items fs" "f = FfiItems fs"
    by (auto simp: bindR_eq_Inr mapR_eq_Inr)
  have "list_all2 (\<lambda>x y. x = into_value y) items fs"
    using fs(1) by (rule list.rel_mono_strong) (use 6 in blast)
  then show ?case using fs(2) by (simp add: list_all2_conv_all_nth list_eq_iff_nth_eq)
next
  case (7 ps)
  then obtain es where es: "f = FfiFields es" "list_all2 (\<lambda>p e. \<exists>key val. try_from_value (fst p) = Inr key \<and>
      try_from_value (snd p) = Inr val \<and> FfiMapEntry key val = e) ps es"
    by (auto simp: bindR_eq_Inr mapR_eq_Inr)
  have "list_all2 (\<lambda>p e. p = (into_value (entry_key e), into_value (entry_value e))) ps es"
    using es(2) by (rule list.rel_mono_strong) (use 7 in \<open>fastforce simp: prod_eq_iff\<close>)
  then show ?case using es(1) by (simp add: list_all2_conv_all_nth list_eq_iff_nth_eq)
qed simp_all

lemma from_into_stream_mode [simp]: "from_stream_mode (into_stream_mode m) = m" "into_stream_mode (from_stream_mode n) = n"
  by (cases m; simp) (cases n; simp)

lemma from_into_stream_encoding [simp]:
  "from_stream_encoding (into_stream_encoding m) = m" "into_stream_encoding (from_stream_encoding n) = n"
  by (cases m; simp) (cases n; simp)

lemma from_into_capability [simp]: "from_capability (into_capability c) = c"
  by (simp add: from_capability_def into_capability_def)

end
