(* ===== verification/Ffi.thy ===== *)
theory Ffi
  imports FfiValue
begin

section \<open>Ffi: the objects and functions of the bindings (\<open>macula-rust-ffi/src/lib.rs\<close>)\<close>

text \<open>
  Key pairs, tokens, sessions and streams as Kotlin and Swift code uses them. A session is an optional
  core session behind a mutex, and so is a stream: an object is the option, and every operation takes it
  and gives it back. The lock is held for a whole operation, so operations do not interleave. An operation
  draws from the environment from its own counter on. \<open>now_ms() + timeout_ms\<close> is an addition of \<open>u64\<close>,
  which panics on overflow in a build with overflow checks and wraps around in one without. A QUIC stream is
  opened on the connection of the session; what accepting one and dialing a station return are arguments, as
  for the core functions that are called.
\<close>

subsection \<open>Key pairs\<close>

definition ffi_generate :: "crypto \<Rightarrow> (nat \<Rightarrow> bytes) \<Rightarrow> nat \<Rightarrow> (KeyPair \<times> nat) option" where
  "ffi_generate C rng i = generate_with_default_puzzle C rng i"

definition ffi_from_seed_bytes :: "bytes \<Rightarrow> (KeyPair, FfiError) result" where
  "ffi_from_seed_bytes seed = bindR (to_32 seed) (\<lambda>seed. Inr (from_seed_bytes seed))"

definition ffi_node_id :: "crypto \<Rightarrow> KeyPair \<Rightarrow> bytes" where
  "ffi_node_id C kp = node_id C kp"

definition ffi_private_bytes :: "KeyPair \<Rightarrow> bytes" where
  "ffi_private_bytes kp = private_bytes kp"

definition ffi_save_to_keystore ::
  "('b \<Rightarrow> string) \<Rightarrow> ('b, 'c) credential_api \<Rightarrow> KeyPair \<Rightarrow> string \<Rightarrow> string \<Rightarrow> 'c \<Rightarrow> (unit, FfiError) result \<times> 'c" where
  "ffi_save_to_keystore backend_text A kp service account c =
    (case keyring_new A service account of
       Inl e \<Rightarrow> (Inl (ffi_of_keystore_error backend_text e), c)
     | Inr store \<Rightarrow>
         (case save_to_keystore keyring_save_seed kp store c of
            (r, c') \<Rightarrow> (map_err (ffi_of_keystore_error backend_text) r, c')))"

definition ffi_load_from_keystore ::
  "('b \<Rightarrow> string) \<Rightarrow> ('b, 'c) credential_api \<Rightarrow> string \<Rightarrow> string \<Rightarrow> 'c \<Rightarrow> (KeyPair, FfiError) result \<times> 'c" where
  "ffi_load_from_keystore backend_text A service account c =
    (case keyring_new A service account of
       Inl e \<Rightarrow> (Inl (ffi_of_keystore_error backend_text e), c)
     | Inr store \<Rightarrow>
         (case load_from_keystore keyring_load_seed store c of
            (r, c') \<Rightarrow> (map_err (ffi_of_keystore_error backend_text) r, c')))"

subsection \<open>Tokens\<close>

definition ffi_ucan_create ::
  "'j ucan_codec \<Rightarrow> crypto \<Rightarrow> string \<Rightarrow> string \<Rightarrow> FfiCapability list \<Rightarrow> KeyPair \<Rightarrow> int option \<Rightarrow> int option
    \<Rightarrow> (bytes, FfiError) result" where
  "ffi_ucan_create J C issuer audience capabilities kp expires_at not_before =
    (let opts = \<lparr>o_expires_at = expires_at, o_not_before = not_before, o_nonce = None, o_facts = None, o_proofs = None\<rparr> in
     map_err ffi_of_ucan_error (create J C issuer audience (map into_capability capabilities) kp opts))"

definition ffi_ucan_verify ::
  "'j ucan_codec \<Rightarrow> crypto \<Rightarrow> int \<Rightarrow> bytes \<Rightarrow> bytes \<Rightarrow> (FfiUcanPayload, FfiError) result" where
  "ffi_ucan_verify J C now token public_key =
    bindR (to_32 public_key) (\<lambda>key.
    bindR (map_err ffi_of_ucan_error (verify_token J C now token key)) (\<lambda>p. Inr (from_payload p)))"

definition ffi_ucan_decode :: "'j ucan_codec \<Rightarrow> bytes \<Rightarrow> (FfiUcanPayload, FfiError) result" where
  "ffi_ucan_decode J token = bindR (map_err ffi_of_ucan_error (decode_token J token)) (\<lambda>p. Inr (from_payload p))"

definition ffi_ucan_get_issuer :: "'j ucan_codec \<Rightarrow> bytes \<Rightarrow> (string, FfiError) result" where
  "ffi_ucan_get_issuer J token = map_err ffi_of_ucan_error (get_issuer J token)"

definition ffi_ucan_get_audience :: "'j ucan_codec \<Rightarrow> bytes \<Rightarrow> (string, FfiError) result" where
  "ffi_ucan_get_audience J token = map_err ffi_of_ucan_error (get_audience J token)"

definition ffi_ucan_get_capabilities :: "'j ucan_codec \<Rightarrow> bytes \<Rightarrow> (FfiCapability list, FfiError) result" where
  "ffi_ucan_get_capabilities J token =
    bindR (map_err ffi_of_ucan_error (get_capabilities J token)) (\<lambda>caps. Inr (map from_capability caps))"

definition ffi_ucan_get_expiration :: "'j ucan_codec \<Rightarrow> bytes \<Rightarrow> (int option, FfiError) result" where
  "ffi_ucan_get_expiration J token = map_err ffi_of_ucan_error (get_expiration J token)"

definition ffi_ucan_get_proofs :: "'j ucan_codec \<Rightarrow> bytes \<Rightarrow> (string list, FfiError) result" where
  "ffi_ucan_get_proofs J token = map_err ffi_of_ucan_error (get_proofs J token)"

definition ffi_ucan_is_expired :: "'j ucan_codec \<Rightarrow> int \<Rightarrow> bytes \<Rightarrow> (bool, FfiError) result" where
  "ffi_ucan_is_expired J now token = map_err ffi_of_ucan_error (is_expired J now token)"

definition ffi_ucan_compute_cid :: "'j ucan_codec \<Rightarrow> crypto \<Rightarrow> bytes \<Rightarrow> string" where
  "ffi_ucan_compute_cid J C token = compute_cid J C token"

subsection \<open>Objects behind a lock\<close>

text \<open>
  \<open>guard.as_mut().ok_or(FfiError::Closed)?\<close> and what follows; and the \<open>?\<close> on an argument, which comes
  before it. \<open>reason\<close> makes the error of a core function the reason of a foreign one.
\<close>

definition with_guard ::
  "'s option \<Rightarrow> ('s \<Rightarrow> ('a, FfiError fail) result \<times> 's) \<Rightarrow> ('a, FfiError fail) result \<times> 's option" where
  "with_guard guard f =
    (case guard of
       None \<Rightarrow> (Inl (Err Closed), None)
     | Some s \<Rightarrow> (case f s of (r, s') \<Rightarrow> (r, Some s')))"

definition checked ::
  "('b, FfiError) result \<Rightarrow> 's option \<Rightarrow> ('b \<Rightarrow> ('a, FfiError fail) result \<times> 's option)
    \<Rightarrow> ('a, FfiError fail) result \<times> 's option" where
  "checked r guard f = (case r of Inl e \<Rightarrow> (Inl (Err e), guard) | Inr x \<Rightarrow> f x)"

definition reason ::
  "(string \<Rightarrow> FfiError) \<Rightarrow> ('e \<Rightarrow> string) \<Rightarrow> ('a, 'e fail) result \<Rightarrow> ('a, FfiError fail) result" where
  "reason error text r = map_err (lift_fail (\<lambda>e. error (text e))) r"

text \<open>\<open>(now_ms() + timeout_ms) as i128\<close>: an addition of \<open>u64\<close>. Where additions are checked it panics on overflow,
  before the lock is taken; elsewhere it wraps around.\<close>

definition deadline_in :: "env \<Rightarrow> nat \<Rightarrow> u64 \<Rightarrow> int" where
  "deadline_in E n timeout_ms = uint (env_now_ms E n + timeout_ms)"

definition deadline_panics :: "env \<Rightarrow> nat \<Rightarrow> u64 \<Rightarrow> bool" where
  "deadline_panics E n timeout_ms \<longleftrightarrow> env_overflow_checks E \<and> 2 ^ 64 \<le> uint (env_now_ms E n) + uint timeout_ms"

definition with_deadline ::
  "env \<Rightarrow> nat \<Rightarrow> u64 \<Rightarrow> 's option \<Rightarrow> (int \<Rightarrow> ('a, FfiError fail) result \<times> 's option)
    \<Rightarrow> ('a, FfiError fail) result \<times> 's option" where
  "with_deadline E n timeout_ms guard f =
    (if deadline_panics E n timeout_ms then (Inl Panic, guard) else f (deadline_in E n timeout_ms))"

definition ffi_response :: "(CallResponse, FfiError fail) result \<Rightarrow> (FfiCallResponse, FfiError fail) result" where
  "ffi_response r = bindR r (\<lambda>response. map_err Err (try_from_call_response response))"

subsection \<open>Sessions: connecting, calling, serving\<close>

definition ffi_connect ::
  "crypto \<Rightarrow> env \<Rightarrow> nat \<Rightarrow> texts \<Rightarrow> 'q quic \<Rightarrow> ('q \<Rightarrow> nat \<Rightarrow> FrameStream option) \<Rightarrow> string \<Rightarrow> u16 \<Rightarrow> FfiTrust \<Rightarrow> KeyPair
    \<Rightarrow> (Session option, FfiError fail) result" where
  "ffi_connect C E n T Q open_bi host port trust kp =
    bindR (map_err Err (into_trust trust)) (\<lambda>trust.
    bindR (reason FfiConnect (handshake_error_text T) (connect_station C E n Q open_bi host port trust kp)) (\<lambda>session.
      Inr (Some session)))"

definition ffi_station_id :: "Session option \<Rightarrow> bytes" where
  "ffi_station_id guard = (case guard of Some s \<Rightarrow> he_node_id (station s) | None \<Rightarrow> [])"

definition ffi_call ::
  "crypto \<Rightarrow> env \<Rightarrow> nat \<Rightarrow> texts \<Rightarrow> string \<Rightarrow> bytes \<Rightarrow> FfiValue \<Rightarrow> u64 \<Rightarrow> KeyPair \<Rightarrow> Session option
    \<Rightarrow> (FfiCallResponse, FfiError fail) result \<times> Session option" where
  "ffi_call C E n T procedure realm payload timeout_ms kp guard =
    checked (to_32 realm) guard (\<lambda>realm.
      with_deadline E n timeout_ms guard (\<lambda>deadline_ms.
      with_guard guard (\<lambda>session.
        case session_call C E (n + 1) session procedure realm (into_value payload) deadline_ms kp of
          (r, session', _) \<Rightarrow> (ffi_response (reason FfiCall (call_error_text (tx_quinn T)) r), session'))))"

definition ffi_call_with_ucan ::
  "crypto \<Rightarrow> env \<Rightarrow> nat \<Rightarrow> texts \<Rightarrow> string \<Rightarrow> bytes \<Rightarrow> FfiValue \<Rightarrow> u64 \<Rightarrow> KeyPair \<Rightarrow> bytes \<Rightarrow> Session option
    \<Rightarrow> (FfiCallResponse, FfiError fail) result \<times> Session option" where
  "ffi_call_with_ucan C E n T procedure realm payload timeout_ms kp ucan_token guard =
    checked (to_32 realm) guard (\<lambda>realm.
      with_deadline E n timeout_ms guard (\<lambda>deadline_ms.
      with_guard guard (\<lambda>session.
        case session_call_with_ucan C E (n + 1) session procedure realm (into_value payload) deadline_ms kp ucan_token of
          (r, session', _) \<Rightarrow> (ffi_response (reason FfiCall (call_error_text (tx_quinn T)) r), session'))))"

text \<open>
  A foreign handler gets the procedure, the realm and the payload. A payload that cannot be represented
  is answered with an error, and the foreign handler does not run. \<open>foreign_payloads\<close> are the payloads it
  did run on.
\<close>

datatype FfiHandlerOutcome =
  FfiHandlerOk FfiValue | FfiHandlerErr FfiError | FfiHandlerPanic | FfiHandlerOutlivesTimeout

type_synonym FfiCallHandler = "string \<Rightarrow> bytes \<Rightarrow> FfiValue \<Rightarrow> FfiHandlerOutcome"

definition core_handler :: "FfiCallHandler \<Rightarrow> bytes \<Rightarrow> string \<Rightarrow> CallHandler" where
  "core_handler handler realm procedure payload =
    (case try_from_value payload of
       Inl e \<Rightarrow> HandlerErr (ffi_error_text e)
     | Inr ffi_payload \<Rightarrow>
         (case handler procedure realm ffi_payload of
            FfiHandlerOk reply \<Rightarrow> HandlerOk (into_value reply)
          | FfiHandlerErr e \<Rightarrow> HandlerErr (ffi_error_text e)
          | FfiHandlerPanic \<Rightarrow> HandlerPanic
          | FfiHandlerOutlivesTimeout \<Rightarrow> HandlerOutlivesTimeout))"

definition foreign_payloads :: "Value list \<Rightarrow> FfiValue list" where
  "foreign_payloads invoked = List.map_filter (\<lambda>v. okR (try_from_value v)) invoked"

definition ffi_serve_one_call_gated ::
  "'j ucan_codec \<Rightarrow> crypto \<Rightarrow> env \<Rightarrow> nat \<Rightarrow> texts \<Rightarrow> FfiCallHandler \<Rightarrow> FfiPolicy \<Rightarrow> KeyPair \<Rightarrow> Session option
    \<Rightarrow> ((unit, FfiError fail) result \<times> Session option) \<times> FfiValue list" where
  "ffi_serve_one_call_gated J C E n T handler policy kp guard =
    (case into_policy policy of
       Inl e \<Rightarrow> ((Inl (Err e), guard), [])
     | Inr policy \<Rightarrow>
         (case guard of
            None \<Rightarrow> ((Inl (Err Closed), None), [])
          | Some session \<Rightarrow>
              (let lookup = (\<lambda>realm procedure. Some (core_handler handler realm procedure)) in
               case serve_one_call_gated J C E n lookup (\<lambda>_ _. policy) kp session of
                 (r, session', _, invoked) \<Rightarrow>
                   ((reason FfiRecv (serve_call_error_text T) r, Some session'), foreign_payloads invoked))))"

definition ffi_serve_one_call ::
  "'j ucan_codec \<Rightarrow> crypto \<Rightarrow> env \<Rightarrow> nat \<Rightarrow> texts \<Rightarrow> FfiCallHandler \<Rightarrow> KeyPair \<Rightarrow> Session option
    \<Rightarrow> ((unit, FfiError fail) result \<times> Session option) \<times> FfiValue list" where
  "ffi_serve_one_call J C E n T handler kp guard = ffi_serve_one_call_gated J C E n T handler FfiOpen kp guard"

subsection \<open>Sessions: publishing, subscribing, advertising\<close>

definition ffi_publish ::
  "crypto \<Rightarrow> env \<Rightarrow> nat \<Rightarrow> texts \<Rightarrow> string \<Rightarrow> bytes \<Rightarrow> u64 \<Rightarrow> FfiValue \<Rightarrow> u64 \<Rightarrow> KeyPair \<Rightarrow> Session option
    \<Rightarrow> (unit, FfiError fail) result \<times> Session option" where
  "ffi_publish C E n T topic realm seq payload published_at_ms kp guard =
    checked (to_32 realm) guard (\<lambda>realm.
      let spec = PublishSpec_new topic realm (node_id C kp) seq (into_value payload) published_at_ms in
      with_guard guard (\<lambda>session.
        case publish C E n spec kp session of
          (r, session', _) \<Rightarrow> (reason FfiSend (send_frame_error_text (tx_quinn T)) r, session')))"

definition ffi_run_publisher ::
  "crypto \<Rightarrow> env \<Rightarrow> nat \<Rightarrow> texts \<Rightarrow> string \<Rightarrow> bytes \<Rightarrow> u64 \<Rightarrow> FfiValue \<Rightarrow> u64 \<Rightarrow> bool \<Rightarrow> KeyPair \<Rightarrow> Session option
    \<Rightarrow> (unit, FfiError fail) result \<times> Session option" where
  "ffi_run_publisher C E n T topic realm seq payload published_at_ms announce kp guard =
    checked (to_32 realm) guard (\<lambda>realm.
      let spec = PublishSpec_new topic realm (node_id C kp) seq (into_value payload) published_at_ms in
      with_guard guard (\<lambda>session.
        case run_publisher C E n spec kp announce session of
          (r, session', _) \<Rightarrow> (reason FfiSend (send_frame_error_text (tx_quinn T)) r, session')))"

definition ffi_subscribe ::
  "crypto \<Rightarrow> env \<Rightarrow> nat \<Rightarrow> texts \<Rightarrow> string \<Rightarrow> bytes \<Rightarrow> KeyPair \<Rightarrow> Session option
    \<Rightarrow> (unit, FfiError fail) result \<times> Session option" where
  "ffi_subscribe C E n T topic realm kp guard =
    checked (to_32 realm) guard (\<lambda>realm.
      with_guard guard (\<lambda>session.
        case subscribe C E n (SubscribeSpec_new topic realm (node_id C kp)) kp session of
          (r, session') \<Rightarrow> (reason FfiSend (send_frame_error_text (tx_quinn T)) r, session')))"

definition ffi_unsubscribe ::
  "crypto \<Rightarrow> env \<Rightarrow> nat \<Rightarrow> texts \<Rightarrow> string \<Rightarrow> bytes \<Rightarrow> KeyPair \<Rightarrow> Session option
    \<Rightarrow> (unit, FfiError fail) result \<times> Session option" where
  "ffi_unsubscribe C E n T topic realm kp guard =
    checked (to_32 realm) guard (\<lambda>realm.
      with_guard guard (\<lambda>session.
        case unsubscribe C E n (UnsubscribeSpec_new topic realm (node_id C kp)) kp session of
          (r, session') \<Rightarrow> (reason FfiSend (send_frame_error_text (tx_quinn T)) r, session')))"

definition ffi_advertise ::
  "crypto \<Rightarrow> env \<Rightarrow> nat \<Rightarrow> texts \<Rightarrow> string \<Rightarrow> bytes \<Rightarrow> KeyPair \<Rightarrow> Session option
    \<Rightarrow> (unit, FfiError fail) result \<times> Session option" where
  "ffi_advertise C E n T procedure realm kp guard =
    checked (to_32 realm) guard (\<lambda>realm.
      with_guard guard (\<lambda>session.
        case advertise C E n (AdvertiseSpec_new realm procedure (node_id C kp)) kp session of
          (r, session') \<Rightarrow> (reason FfiSend (send_frame_error_text (tx_quinn T)) r, session')))"

definition ffi_unadvertise ::
  "crypto \<Rightarrow> env \<Rightarrow> nat \<Rightarrow> texts \<Rightarrow> string \<Rightarrow> bytes \<Rightarrow> KeyPair \<Rightarrow> Session option
    \<Rightarrow> (unit, FfiError fail) result \<times> Session option" where
  "ffi_unadvertise C E n T procedure realm kp guard =
    checked (to_32 realm) guard (\<lambda>realm.
      with_guard guard (\<lambda>session.
        case unadvertise C E n (UnadvertiseSpec_new realm procedure (node_id C kp)) kp session of
          (r, session') \<Rightarrow> (reason FfiSend (send_frame_error_text (tx_quinn T)) r, session')))"

definition ffi_recv_event :: "texts \<Rightarrow> Session option \<Rightarrow> (FfiEvent, FfiError fail) result \<times> Session option" where
  "ffi_recv_event T guard =
    with_guard guard (\<lambda>session.
      case recv_event session of
        (r, session') \<Rightarrow>
          (bindR (reason FfiRecv (recv_event_error_text T) r) (\<lambda>event. map_err Err (try_from_event event)), session'))"

subsection \<open>Sessions: direct dial\<close>

definition ffi_resolve_direct ::
  "crypto \<Rightarrow> env \<Rightarrow> nat \<Rightarrow> texts \<Rightarrow> string \<Rightarrow> bytes \<Rightarrow> KeyPair \<Rightarrow> Session option
    \<Rightarrow> (FfiResolved, FfiError fail) result \<times> Session option" where
  "ffi_resolve_direct C E n T procedure realm kp guard =
    checked (to_32 realm) guard (\<lambda>realm.
      with_guard guard (\<lambda>session.
        case resolve C E n session kp realm procedure of
          (r, session', _) \<Rightarrow>
            (bindR (map_err (lift_fail (ffi_of_resolve_error T)) r) (\<lambda>resolved. Inr (ffi_of_resolved resolved)), session')))"

definition ffi_resolve_direct_with_cert_chain ::
  "crypto \<Rightarrow> 'a x509 \<Rightarrow> env \<Rightarrow> nat \<Rightarrow> texts \<Rightarrow> string \<Rightarrow> bytes \<Rightarrow> bytes \<Rightarrow> string \<Rightarrow> KeyPair \<Rightarrow> Session option
    \<Rightarrow> (FfiResolved, FfiError fail) result \<times> Session option" where
  "ffi_resolve_direct_with_cert_chain C X E n T procedure realm realm_ca_pem expected_org kp guard =
    checked (to_32 realm) guard (\<lambda>realm.
      with_guard guard (\<lambda>session.
        case resolve_with_cert_chain C X E n session kp realm procedure realm_ca_pem expected_org of
          (r, session', _) \<Rightarrow>
            (bindR (map_err (lift_fail (ffi_of_resolve_error T)) r) (\<lambda>resolved. Inr (ffi_of_resolved resolved)), session')))"

definition ffi_call_direct ::
  "crypto \<Rightarrow> env \<Rightarrow> nat \<Rightarrow> texts \<Rightarrow> dials \<Rightarrow> string \<Rightarrow> bytes \<Rightarrow> FfiValue \<Rightarrow> u64 \<Rightarrow> KeyPair \<Rightarrow> Session option
    \<Rightarrow> (FfiCallResponse, FfiError fail) result \<times> Session option" where
  "ffi_call_direct C E n T dials procedure realm payload timeout_ms kp guard =
    checked (to_32 realm) guard (\<lambda>realm.
      with_guard guard (\<lambda>session.
        case direct_call C E n session kp dials realm procedure (into_value payload) (unat timeout_ms) of
          (r, session') \<Rightarrow> (ffi_response (map_err (lift_fail (ffi_of_direct_call_error T)) r), session')))"

definition ffi_call_direct_with_cert_chain ::
  "crypto \<Rightarrow> 'a x509 \<Rightarrow> env \<Rightarrow> nat \<Rightarrow> texts \<Rightarrow> dials \<Rightarrow> string \<Rightarrow> bytes \<Rightarrow> bytes \<Rightarrow> string \<Rightarrow> FfiValue \<Rightarrow> u64 \<Rightarrow> KeyPair
    \<Rightarrow> Session option \<Rightarrow> (FfiCallResponse, FfiError fail) result \<times> Session option" where
  "ffi_call_direct_with_cert_chain C X E n T dials procedure realm realm_ca_pem expected_org payload timeout_ms kp guard =
    checked (to_32 realm) guard (\<lambda>realm.
      with_guard guard (\<lambda>session.
        case direct_call_with_cert_chain C X E n session kp dials realm procedure realm_ca_pem expected_org
               (into_value payload) (unat timeout_ms) of
          (r, session') \<Rightarrow> (ffi_response (map_err (lift_fail (ffi_of_direct_call_error T)) r), session')))"

definition ffi_advertise_direct ::
  "crypto \<Rightarrow> env \<Rightarrow> nat \<Rightarrow> texts \<Rightarrow> string \<Rightarrow> bytes \<Rightarrow> u64 \<Rightarrow> KeyPair \<Rightarrow> Session option
    \<Rightarrow> (unit, FfiError fail) result \<times> Session option" where
  "ffi_advertise_direct C E n T procedure realm ttl_ms kp guard =
    checked (to_32 realm) guard (\<lambda>realm.
      with_guard guard (\<lambda>session.
        case advertise_direct C E n session kp realm procedure (unat ttl_ms) of
          (r, session', _) \<Rightarrow> (map_err (lift_fail (ffi_of_advertise_direct_error T)) r, session')))"

definition ffi_advertise_direct_with_cert_chain ::
  "crypto \<Rightarrow> env \<Rightarrow> nat \<Rightarrow> texts \<Rightarrow> string \<Rightarrow> bytes \<Rightarrow> u64 \<Rightarrow> bytes \<Rightarrow> KeyPair \<Rightarrow> Session option
    \<Rightarrow> (unit, FfiError fail) result \<times> Session option" where
  "ffi_advertise_direct_with_cert_chain C E n T procedure realm ttl_ms cert_chain_pem kp guard =
    checked (to_32 realm) guard (\<lambda>realm.
      with_guard guard (\<lambda>session.
        case advertise_direct_with_cert_chain C E n session kp realm procedure (unat ttl_ms) cert_chain_pem of
          (r, session', _) \<Rightarrow> (map_err (lift_fail (ffi_of_advertise_direct_error T)) r, session')))"

text \<open>The new session and the new stream are objects of their own.\<close>

record FfiOpenedDirectStream =
  od_session :: "Session option"
  od_stream :: "StreamHandle option"

definition opened_objects :: "Session \<times> StreamHandle \<Rightarrow> FfiOpenedDirectStream" where
  "opened_objects p = \<lparr>od_session = Some (fst p), od_stream = Some (snd p)\<rparr>"

definition ffi_open_stream_direct ::
  "crypto \<Rightarrow> env \<Rightarrow> nat \<Rightarrow> texts \<Rightarrow> dials \<Rightarrow> string \<Rightarrow> bytes \<Rightarrow> FfiStreamMode \<Rightarrow> FfiValue \<Rightarrow> u64 \<Rightarrow> KeyPair
    \<Rightarrow> Session option \<Rightarrow> (FfiOpenedDirectStream, FfiError fail) result \<times> Session option" where
  "ffi_open_stream_direct C E n T dials procedure realm md args timeout_ms kp guard =
    checked (to_32 realm) guard (\<lambda>realm.
      with_deadline E n timeout_ms guard (\<lambda>deadline_ms.
      with_guard guard (\<lambda>session.
        case open_stream_direct C E (n + 1) session kp dials realm procedure (into_stream_mode md) (into_value args) deadline_ms of
          (r, session') \<Rightarrow>
            (bindR (reason FfiResolve (open_stream_direct_error_text T) r) (\<lambda>p. Inr (opened_objects p)), session'))))"

definition ffi_open_stream_direct_with_cert_chain ::
  "crypto \<Rightarrow> 'a x509 \<Rightarrow> env \<Rightarrow> nat \<Rightarrow> texts \<Rightarrow> dials \<Rightarrow> string \<Rightarrow> bytes \<Rightarrow> bytes \<Rightarrow> string \<Rightarrow> FfiStreamMode
    \<Rightarrow> FfiValue \<Rightarrow> u64 \<Rightarrow> KeyPair \<Rightarrow> Session option
    \<Rightarrow> (FfiOpenedDirectStream, FfiError fail) result \<times> Session option" where
  "ffi_open_stream_direct_with_cert_chain C X E n T dials procedure realm realm_ca_pem expected_org md args timeout_ms kp guard =
    checked (to_32 realm) guard (\<lambda>realm.
      with_deadline E n timeout_ms guard (\<lambda>deadline_ms.
      with_guard guard (\<lambda>session.
        case open_stream_direct_with_cert_chain C X E (n + 1) session kp dials realm procedure realm_ca_pem expected_org
               (into_stream_mode md) (into_value args) deadline_ms of
          (r, session') \<Rightarrow>
            (bindR (reason FfiResolve (open_stream_direct_error_text T) r) (\<lambda>p. Inr (opened_objects p)), session'))))"

definition ffi_put_direct ::
  "crypto \<Rightarrow> env \<Rightarrow> nat \<Rightarrow> texts \<Rightarrow> dials \<Rightarrow> u64 \<Rightarrow> bytes \<Rightarrow> bytes \<Rightarrow> string \<Rightarrow> KeyPair \<Rightarrow> Session option
    \<Rightarrow> (bytes, FfiError fail) result \<times> Session option" where
  "ffi_put_direct C E n T dials created target b name kp guard =
    checked (to_32 target) guard (\<lambda>target.
      with_guard guard (\<lambda>session.
        case put_direct C E n session kp dials created target b name of
          (r, session') \<Rightarrow> (reason FfiContent (put_direct_error_text T) r, session')))"

definition ffi_get_direct ::
  "crypto \<Rightarrow> env \<Rightarrow> nat \<Rightarrow> texts \<Rightarrow> dials \<Rightarrow> bytes \<Rightarrow> KeyPair \<Rightarrow> Session option
    \<Rightarrow> (bytes, FfiError fail) result \<times> Session option" where
  "ffi_get_direct C E n T dials mcid kp guard =
    checked (to_mcid mcid) guard (\<lambda>mcid.
      with_guard guard (\<lambda>session.
        case get_direct C E n session kp dials mcid of
          (r, session') \<Rightarrow> (reason FfiContent (get_direct_error_text T) r, session')))"

subsection \<open>Sessions: content and streams\<close>

definition ffi_content_put ::
  "crypto \<Rightarrow> env \<Rightarrow> nat \<Rightarrow> texts \<Rightarrow> u64 \<Rightarrow> bytes \<Rightarrow> string \<Rightarrow> KeyPair \<Rightarrow> Session option
    \<Rightarrow> (bytes, FfiError fail) result \<times> Session option" where
  "ffi_content_put C E n T created b name kp guard =
    with_guard guard (\<lambda>session.
      (reason FfiContent (put_error_text T) (fst (content_put C E n kp (session_open_bi session n) created b name)), session))"

definition ffi_content_get ::
  "crypto \<Rightarrow> env \<Rightarrow> nat \<Rightarrow> texts \<Rightarrow> bytes \<Rightarrow> KeyPair \<Rightarrow> Session option
    \<Rightarrow> (bytes, FfiError fail) result \<times> Session option" where
  "ffi_content_get C E n T mcid kp guard =
    checked (to_mcid mcid) guard (\<lambda>mcid.
      with_guard guard (\<lambda>session.
        (reason FfiContent (get_error_text T) (content_get C E n kp (session_open_bi session n) mcid), session)))"

definition ffi_stream_open ::
  "crypto \<Rightarrow> env \<Rightarrow> nat \<Rightarrow> texts \<Rightarrow> string \<Rightarrow> bytes \<Rightarrow> FfiStreamMode \<Rightarrow> FfiValue \<Rightarrow> u64 \<Rightarrow> KeyPair \<Rightarrow> Session option
    \<Rightarrow> (StreamHandle option, FfiError fail) result \<times> Session option" where
  "ffi_stream_open C E n T procedure realm md args timeout_ms kp guard =
    checked (to_32 realm) guard (\<lambda>realm.
      with_deadline E n timeout_ms guard (\<lambda>deadline_ms.
      with_guard guard (\<lambda>session.
        (bindR (reason FfiSend (open_error_text T)
            (open_handle C E (n + 1) (session_open_bi session (n + 1)) procedure realm (into_stream_mode md) (into_value args) deadline_ms kp))
          (\<lambda>handle. Inr (Some handle)), session))))"

record FfiAcceptedStream =
  ac_stream :: "StreamHandle option"
  ac_info :: FfiStreamOpenInfo

definition ffi_accept_stream ::
  "texts \<Rightarrow> accepting \<Rightarrow> Session option \<Rightarrow> (FfiAcceptedStream, FfiError fail) result \<times> Session option" where
  "ffi_accept_stream T accepting guard =
    with_guard guard (\<lambda>session.
      (bindR (reason FfiRecv (accept_error_text T) (accept_handle accepting)) (\<lambda>(handle, info).
         bindR (map_err Err (try_from_open_info info)) (\<lambda>info. Inr \<lparr>ac_stream = Some handle, ac_info = info\<rparr>)), session))"

text \<open>\<open>close\<close> takes the session out of the object.\<close>

definition ffi_close :: "crypto \<Rightarrow> env \<Rightarrow> nat \<Rightarrow> KeyPair \<Rightarrow> Session option \<Rightarrow> (unit, FfiError fail) result \<times> Session option" where
  "ffi_close C E n kp guard =
    ((case guard of
        None \<Rightarrow> Inr ()
      | Some session \<Rightarrow> (case close C E n ''normal'' None kp session of Inl _ \<Rightarrow> Inl Panic | Inr _ \<Rightarrow> Inr ())), None)"

subsection \<open>Streams\<close>

definition ffi_send_data ::
  "crypto \<Rightarrow> env \<Rightarrow> nat \<Rightarrow> texts \<Rightarrow> FfiStreamEncoding \<Rightarrow> FfiValue \<Rightarrow> KeyPair \<Rightarrow> StreamHandle option
    \<Rightarrow> (unit, FfiError fail) result \<times> StreamHandle option" where
  "ffi_send_data C E n T encoding body kp guard =
    with_guard guard (\<lambda>handle.
      case send_data C E n (into_stream_encoding encoding) (into_value body) kp handle of
        (r, handle') \<Rightarrow> (reason FfiSend (send_frame_error_text (tx_quinn T)) r, handle'))"

definition ffi_close_send ::
  "crypto \<Rightarrow> env \<Rightarrow> nat \<Rightarrow> texts \<Rightarrow> KeyPair \<Rightarrow> StreamHandle option \<Rightarrow> (unit, FfiError fail) result \<times> StreamHandle option" where
  "ffi_close_send C E n T kp guard =
    with_guard guard (\<lambda>handle.
      case close_send C E n kp handle of
        (r, handle') \<Rightarrow> (reason FfiSend (send_frame_error_text (tx_quinn T)) r, handle'))"

definition ffi_recv :: "texts \<Rightarrow> StreamHandle option \<Rightarrow> (FfiStreamItem, FfiError fail) result \<times> StreamHandle option" where
  "ffi_recv T guard =
    with_guard guard (\<lambda>handle.
      case recv_item handle of
        (r, handle') \<Rightarrow>
          (bindR (reason FfiRecv (recv_stream_error_text T) r) (\<lambda>item.
             case item of
               ItemData seq encoding body \<Rightarrow>
                 bindR (map_err Err (try_from_value body)) (\<lambda>body. Inr (FfiData seq (from_stream_encoding encoding) body))
             | ItemEof \<Rightarrow> Inr FfiEof), handle'))"

definition ffi_await_reply :: "texts \<Rightarrow> StreamHandle option \<Rightarrow> (FfiStreamReply, FfiError fail) result \<times> StreamHandle option" where
  "ffi_await_reply T guard =
    with_guard guard (\<lambda>handle.
      case await_reply handle of
        (r, handle') \<Rightarrow>
          (bindR (reason FfiRecv (recv_stream_error_text T) r) (\<lambda>(payload, responded_by).
             bindR (map_err Err (try_from_value payload)) (\<lambda>payload.
               Inr \<lparr>fy_payload = payload, fy_responded_by = responded_by\<rparr>)), handle'))"

definition ffi_send_reply ::
  "crypto \<Rightarrow> env \<Rightarrow> nat \<Rightarrow> texts \<Rightarrow> FfiValue \<Rightarrow> KeyPair \<Rightarrow> StreamHandle option \<Rightarrow> (unit, FfiError fail) result \<times> StreamHandle option" where
  "ffi_send_reply C E n T payload kp guard =
    with_guard guard (\<lambda>handle.
      case send_reply C E n (into_value payload) kp handle of
        (r, handle') \<Rightarrow> (reason FfiSend (send_frame_error_text (tx_quinn T)) r, handle'))"

definition ffi_abort ::
  "crypto \<Rightarrow> env \<Rightarrow> nat \<Rightarrow> string \<Rightarrow> string \<Rightarrow> KeyPair \<Rightarrow> StreamHandle option \<Rightarrow> (unit, FfiError fail) result \<times> StreamHandle option" where
  "ffi_abort C E n code message kp guard =
    ((case guard of
        None \<Rightarrow> Inr ()
      | Some handle \<Rightarrow> (case abort C E n code message kp handle of Inl _ \<Rightarrow> Inl Panic | Inr _ \<Rightarrow> Inr ())), None)"

end
