(* ===== verification/FfiSteps.thy ===== *)
theory FfiSteps
  imports Ffi
begin

section \<open>FfiSteps: the life of a foreign object\<close>

text \<open>
  A session object and a stream object as state machines: one step per method, with its arguments free. A call
  whose deadline overflows in a build with overflow checks is not a step: it panics before it locks the object. The
  locale \<open>closable_object\<close> is what both promise: a method of a live object keeps its identity, the one closing
  method ends it, and a closed object refuses every method but the closing one. Along any run of methods an
  object thus has one identity until it is closed, and is closed for good.
\<close>

subsection \<open>What the core keeps of a session\<close>

named_theorems keeps \<open>the station of a session, the id of a stream, kept by an operation\<close>

lemma session_send_station [keeps]: "session_send C kp v s = (r, s') \<Longrightarrow> station s' = station s"
  by (auto simp: session_send_def split: prod.splits)

lemma session_recv_frame_station [keeps]: "session_recv_frame s = (r, s') \<Longrightarrow> station s' = station s"
  by (auto simp: session_recv_frame_def split: prod.splits)

lemma publish_station [keeps]: "publish C E n spec kp s = (r, s', n') \<Longrightarrow> station s' = station s"
  by (auto simp: publish_def split: prod.splits sum.splits dest: keeps)

lemma subscribe_station [keeps]:
  "subscribe C E n su kp s = (r, s') \<Longrightarrow> station s' = station s" "unsubscribe C E n un kp s = (r, s') \<Longrightarrow> station s' = station s"
  "advertise C E n ad kp s = (r, s') \<Longrightarrow> station s' = station s" "unadvertise C E n ua kp s = (r, s') \<Longrightarrow> station s' = station s"
  by (auto simp: subscribe_def unsubscribe_def advertise_def unadvertise_def dest: keeps)

lemma recv_event_station [keeps]: "recv_event s = (r, s') \<Longrightarrow> station s' = station s"
  by (auto simp: recv_event_def split: prod.splits sum.splits dest: keeps)

lemma announce_fact_station [keeps]: "announce_fact C E n s realm kp topic payload = (r, s', n') \<Longrightarrow> station s' = station s"
  by (auto simp: announce_fact_def Let_def split: prod.splits dest: keeps)

lemma announce_rpc_station [keeps]:
  "announce_rpc_sent C E n s realm kp i = (r, s', n') \<Longrightarrow> station s' = station s"
  "announce_rpc_received C E n s realm kp i = (r, s', n') \<Longrightarrow> station s' = station s"
  "announce_rpc_completed C E n s realm kp i x = (r, s', n') \<Longrightarrow> station s' = station s"
  "announce_rpc_replied C E n s realm kp i err = (r, s', n') \<Longrightarrow> station s' = station s"
  by (auto simp: announce_rpc_sent_def announce_rpc_received_def announce_rpc_completed_def announce_rpc_replied_def Let_def dest: keeps)

lemma session_call_station [keeps]:
  "session_call_with_ucan C E n s procedure realm payload deadline_ms kp token = (r, s', n') \<Longrightarrow> station s' = station s"
  by (auto simp: session_call_with_ucan_def Let_def split: prod.splits sum.splits fail.splits dest!: keeps)

lemma run_publisher_station [keeps]: "run_publisher C E n spec kp announce s = (r, s', n') \<Longrightarrow> station s' = station s"
  by (auto simp: run_publisher_def Let_def split: prod.splits sum.splits fail.splits if_splits dest!: keeps)

lemma announce_on_station:
  "(\<And>s n r s' n'. announce s n = (r, s', n') \<Longrightarrow> station s' = station s) \<Longrightarrow> announce_on announce (Some s) n = (r, s', n') \<Longrightarrow>
    \<exists>t. s' = Some t \<and> station t = station s"
  by (auto simp: announce_on_def split: prod.splits)

lemma build_call_reply_station:
  assumes "build_call_reply J C E n ci lookup policy kp (Some s) = (r, s', n', invoked)"
  shows "\<exists>t. s' = Some t \<and> station t = station s"
proof -
  have rec: "announce_on (\<lambda>s m. announce_rpc_received C E m s realm kp i) (Some s) m = ((x :: (unit, ServeCallError fail) result), s1, n1) \<Longrightarrow>
      \<exists>t. s1 = Some t \<and> station t = station s" for realm i m x s1 n1
    by (rule announce_on_station [rotated]) (auto dest: keeps)
  have rep: "announce_on (\<lambda>s m. announce_rpc_replied C E m s realm kp i err) (Some t) m = ((x :: (unit, ServeCallError fail) result), s1, n1) \<Longrightarrow>
      \<exists>u. s1 = Some u \<and> station u = station t" for realm i err t m x s1 n1
    by (rule announce_on_station [rotated]) (auto dest: keeps)
  show ?thesis using assms
    by (auto simp: build_call_reply_def Let_def split: sum.splits option.splits prod.splits HandlerOutcome.splits dest!: rec rep)
qed

lemma serve_station [keeps]:
  "serve_one_call_gated J C E n lookup policy kp s = (r, s', n', invoked) \<Longrightarrow> station s' = station s"
proof (induction J C E n lookup policy kp s arbitrary: r rule: serve_one_call_gated.induct)
  case (1 J C E n lookup policy kp s)
  obtain x s1 where x: "session_recv_frame s = (x, s1)" by (cases "session_recv_frame s")
  have s1: "station s1 = station s" using x by (rule keeps)
  show ?case
  proof (cases x)
    case (Inl e)
    then show ?thesis using 1(2) x s1 by (subst (asm) serve_one_call_gated.simps) simp
  next
    case (Inr v)
    show ?thesis
    proof (cases "parse_call v")
      case (Inl e)
      then have "serve_one_call_gated J C E n lookup policy kp s1 = (r, s', n', invoked)"
        using 1(2) x Inr by (subst (asm) serve_one_call_gated.simps) simp
      from 1(1) [OF x [symmetric] Inr Inl this] s1 show ?thesis by simp
    next
      case (Inr ci)
      obtain b t n2 inv where b: "build_call_reply J C E n ci lookup policy kp (Some s1) = (b, t, n2, inv)" by (metis prod.exhaust)
      then obtain u where "t = Some u" "station u = station s1" using build_call_reply_station by blast
      then show ?thesis using 1(2) x \<open>x = Inr v\<close> Inr b s1
        by (subst (asm) serve_one_call_gated.simps) (auto split: sum.splits prod.splits dest: keeps)
    qed
  qed
qed

lemma dht_call_station [keeps]: "dht_call C E n s kp procedure args = (r, s', n') \<Longrightarrow> station s' = station s"
  by (auto simp: dht_call_def session_call_def split: prod.splits dest: keeps)

lemma dht_station [keeps]:
  "put_record C E n s kp rec = (r1, s', n') \<Longrightarrow> station s' = station s"
  "find_record C E n s kp key = (r2, s', n') \<Longrightarrow> station s' = station s"
  "find_records C E n s kp key = (r3, s', n') \<Longrightarrow> station s' = station s"
  by (auto simp: put_record_def find_record_def find_records_def split: prod.splits dest: keeps)

lemma poll_records_station [keeps]: "poll_records k C E n s kp key = (r, s', n') \<Longrightarrow> station s' = station s"
  by (induction k C E n s kp key rule: poll_records.induct) (auto split: prod.splits sum.splits if_splits dest: keeps)

lemma endpoint_attempts_station [keeps]: "endpoint_attempts k C E n s kp target = (r, s', n') \<Longrightarrow> station s' = station s"
proof (induction k arbitrary: n s)
  case (Suc k)
  obtain x s1 n1 where x: "find_record C E n s kp (station_endpoint_key C target) = (x, s1, n1)" by (metis prod.exhaust)
  have "station s1 = station s" using x by (rule keeps)
  then show ?case using Suc x
    by (auto split: sum.splits fail.splits RecordVerifyError.splits list.splits if_splits)
qed simp

lemma resolve_station [keeps]:
  "resolve C E n s kp realm procedure = (r, s', n') \<Longrightarrow> station s' = station s"
  "resolve_with_cert_chain C X E n s kp realm procedure ca org = (r, s', n') \<Longrightarrow> station s' = station s"
  "resolve_station_endpoint C E n s kp target = (r, s', n') \<Longrightarrow> station s' = station s"
  by (auto simp: resolve_def resolve_with_cert_chain_def resolve_station_endpoint_def Let_def
      split: prod.splits sum.splits option.splits dest!: keeps)

lemma advertise_direct_station [keeps]:
  "publish_advertisement C E n s kp made = (r, s', n') \<Longrightarrow> station s' = station s"
  "advertise_direct C E n s kp realm procedure ttl = (r, s', n') \<Longrightarrow> station s' = station s"
  "advertise_direct_with_cert_chain C E n s kp realm procedure ttl chain = (r, s', n') \<Longrightarrow> station s' = station s"
  by (auto simp: publish_advertisement_def advertise_direct_def advertise_direct_with_cert_chain_def simp del: AdvertiseSpec_new_def
      split: prod.splits sum.splits dest!: keeps)

lemma direct_call_station [keeps]:
  "direct_call C E n s kp dials realm procedure payload timeout = (r, s') \<Longrightarrow> station s' = station s"
  "direct_call_with_cert_chain C X E n s kp dials realm procedure ca org payload timeout = (r, s') \<Longrightarrow> station s' = station s"
  by (auto simp: direct_call_def direct_call_with_cert_chain_def split: prod.splits dest: keeps)

lemma open_stream_direct_station [keeps]:
  "open_stream_direct C E n s kp dials realm procedure md args d = (r, s') \<Longrightarrow> station s' = station s"
  "open_stream_direct_with_cert_chain C X E n s kp dials realm procedure ca org md args d = (r, s') \<Longrightarrow> station s' = station s"
  by (auto simp: open_stream_direct_def open_stream_direct_with_cert_chain_def split: prod.splits dest: keeps)

lemma content_direct_station [keeps]:
  "put_direct C E n s kp dials created target b name = (r, s') \<Longrightarrow> station s' = station s"
  "get_direct C E n s kp dials mcid = (r', s') \<Longrightarrow> station s' = station s"
  by (auto simp: put_direct_def get_direct_def split: prod.splits dest: keeps)

lemma handle_keeps [keeps]:
  "handle_send C kp v h = (r1, h') \<Longrightarrow> sh_stream_id h' = sh_stream_id h \<and> sh_mode h' = sh_mode h"
  "recv_event_on react h = (r2, h') \<Longrightarrow> sh_stream_id h' = sh_stream_id h \<and> sh_mode h' = sh_mode h"
  by (auto simp: handle_send_def recv_event_on_def split: prod.splits)

lemma stream_keeps [keeps]:
  "send_data C E n encoding body kp h = (r1, h') \<Longrightarrow> sh_stream_id h' = sh_stream_id h \<and> sh_mode h' = sh_mode h"
  "close_send C E n kp h = (r2, h') \<Longrightarrow> sh_stream_id h' = sh_stream_id h \<and> sh_mode h' = sh_mode h"
  "send_reply C E n payload kp h = (r3, h') \<Longrightarrow> sh_stream_id h' = sh_stream_id h \<and> sh_mode h' = sh_mode h"
  "recv_item h = (r4, h') \<Longrightarrow> sh_stream_id h' = sh_stream_id h \<and> sh_mode h' = sh_mode h"
  "await_reply h = (r5, h') \<Longrightarrow> sh_stream_id h' = sh_stream_id h \<and> sh_mode h' = sh_mode h"
  by (auto simp: send_data_def close_send_def send_reply_def recv_item_def await_reply_def Let_def split: if_splits dest!: handle_keeps)

subsection \<open>The interface of a closable object\<close>

datatype ffi_reply = Done | Refused FfiError | Crashed

definition reply_of :: "('a, FfiError fail) result \<Rightarrow> ffi_reply" where
  "reply_of r = (case r of Inr _ \<Rightarrow> Done | Inl (Err e) \<Rightarrow> Refused e | Inl Panic \<Rightarrow> Crashed)"

text \<open>The refusals of a closed object: it says so, or an argument was found wrong before.\<close>

definition refuses :: "ffi_reply \<Rightarrow> bool" where
  "refuses r \<longleftrightarrow> r = Refused Closed \<or> (\<exists>expected actual. r = Refused (WrongByteLength expected actual))"

inductive runs ::
  "('g option \<Rightarrow> bool \<Rightarrow> ffi_reply \<Rightarrow> 'g option \<Rightarrow> bool) \<Rightarrow> 'g option \<Rightarrow> (bool \<times> ffi_reply) list \<Rightarrow> 'g option \<Rightarrow> bool"
  for step where
  runs_Nil: "runs step g [] g"
| runs_Cons: "step g c r g' \<Longrightarrow> runs step g' es g'' \<Longrightarrow> runs step g ((c, r) # es) g''"

inductive_cases runs_NilE: "runs step g [] g'"
inductive_cases runs_ConsE: "runs step g ((c, r) # es) g'"

text \<open>What a run of methods, each closing or not, makes of a live object: it lives on with the same identity as
  long as none closed it; one that did ends it, and from then on every method is refused but closing again.\<close>

definition whole_life :: "('g \<Rightarrow> 'i) \<Rightarrow> 'g \<Rightarrow> (bool \<times> ffi_reply) list \<Rightarrow> 'g option \<Rightarrow> bool" where
  "whole_life identity s es g \<longleftrightarrow>
     (case g of
        Some s' \<Rightarrow> identity s' = identity s \<and> (\<forall>(c, r) \<in> set es. \<not> c)
      | None \<Rightarrow> (\<exists>before r after. es = before @ (True, r) # after \<and> (\<forall>(c, r) \<in> set before. \<not> c) \<and>
          (\<forall>(c, r) \<in> set after. if c then r = Done else refuses r)))"

lemma whole_life_closed:
  "es = before @ (True, r) # after \<Longrightarrow> \<forall>(c, r) \<in> set before. \<not> c \<Longrightarrow>
    \<forall>(c, r) \<in> set after. if c then r = Done else refuses r \<Longrightarrow> whole_life identity s es None"
  unfolding whole_life_def option.case by (intro exI conjI)

lemma whole_life_Cons:
  "whole_life identity s' es g \<Longrightarrow> identity s' = identity s \<Longrightarrow> whole_life identity s ((False, r) # es) g"
proof (cases g)
  case None
  assume "whole_life identity s' es g" "identity s' = identity s"
  then obtain before x after where "es = before @ (True, x) # after" "\<forall>(c, r) \<in> set before. \<not> c"
      "\<forall>(c, r) \<in> set after. if c then r = Done else refuses r"
    using None by (auto simp: whole_life_def)
  then show ?thesis using None whole_life_closed [of "(False, r) # es" "(False, r) # before" x after] by simp
qed (simp add: whole_life_def)

locale closable_object =
  fixes step :: "'g option \<Rightarrow> bool \<Rightarrow> ffi_reply \<Rightarrow> 'g option \<Rightarrow> bool"
    and identity :: "'g \<Rightarrow> 'i"
  assumes open_step: "step (Some s) False r g' \<Longrightarrow> \<exists>s'. g' = Some s' \<and> identity s' = identity s"
    and closing_step: "step g True r g' \<Longrightarrow> g' = None"
    and closed_step: "step None False r g' \<Longrightarrow> g' = None \<and> refuses r"
    and closed_again: "step None True r g' \<Longrightarrow> r = Done"
begin

lemma closed_stays_closed:
  "runs step None es g' \<Longrightarrow> g' = None \<and> (\<forall>(c, r) \<in> set es. if c then r = Done else refuses r)"
proof (induction "None :: 'g option" es g' rule: runs.induct)
  case (runs_Cons c r g' es g'')
  have "g' = None" using runs_Cons(1) closing_step [of None r g'] closed_step [of r g'] by (cases c) simp_all
  moreover have "if c then r = Done else refuses r" using runs_Cons(1) closed_step [of r g'] closed_again [of r g'] by (cases c) simp_all
  ultimately show ?case using runs_Cons(3) by simp
qed simp

lemma runs_whole_life: "runs step (Some s) es g' \<Longrightarrow> whole_life identity s es g'"
proof (induction "Some s" es g' arbitrary: s rule: runs.induct)
  case runs_Nil
  then show ?case by (simp add: whole_life_def)
next
  case (runs_Cons c r g' es g'')
  show ?case
  proof (cases c)
    case True
    then have "g' = None" using runs_Cons(1) closing_step [of "Some s" r g'] by simp
    then have "g'' = None" "\<forall>(c, r) \<in> set es. if c then r = Done else refuses r"
      using closed_stays_closed [of es g''] runs_Cons(2) by simp_all
    then show ?thesis using True whole_life_closed [of "(True, r) # es" "[]" r es] by simp
  next
    case False
    then obtain s' where "g' = Some s'" "identity s' = identity s" using runs_Cons(1) open_step [of s r g'] by auto
    then show ?thesis using runs_Cons(3) whole_life_Cons False by simp
  qed
qed

end

subsection \<open>Session objects\<close>

inductive session_step ::
  "crypto \<Rightarrow> 'j ucan_codec \<Rightarrow> 'a x509 \<Rightarrow> env \<Rightarrow> texts \<Rightarrow> Session option \<Rightarrow> bool \<Rightarrow> ffi_reply \<Rightarrow> Session option \<Rightarrow> bool"
  for C J X E T where
  ss_call: "\<not> deadline_panics E n timeout_ms \<Longrightarrow> ffi_call C E n T procedure realm payload timeout_ms kp g = (r, g') \<Longrightarrow> session_step C J X E T g False (reply_of r) g'"
| ss_call_with_ucan: "\<not> deadline_panics E n timeout_ms \<Longrightarrow> ffi_call_with_ucan C E n T procedure realm payload timeout_ms kp ucan_token g = (r, g') \<Longrightarrow> session_step C J X E T g False (reply_of r) g'"
| ss_serve: "ffi_serve_one_call J C E n T handler kp g = ((r, g'), handled) \<Longrightarrow> session_step C J X E T g False (reply_of r) g'"
| ss_serve_gated: "ffi_serve_one_call_gated J C E n T handler policy kp g = ((r, g'), handled) \<Longrightarrow> session_step C J X E T g False (reply_of r) g'"
| ss_publish: "ffi_publish C E n T topic realm seq payload published_at_ms kp g = (r, g') \<Longrightarrow> session_step C J X E T g False (reply_of r) g'"
| ss_run_publisher: "ffi_run_publisher C E n T topic realm seq payload published_at_ms announce kp g = (r, g') \<Longrightarrow> session_step C J X E T g False (reply_of r) g'"
| ss_subscribe: "ffi_subscribe C E n T topic realm kp g = (r, g') \<Longrightarrow> session_step C J X E T g False (reply_of r) g'"
| ss_unsubscribe: "ffi_unsubscribe C E n T topic realm kp g = (r, g') \<Longrightarrow> session_step C J X E T g False (reply_of r) g'"
| ss_advertise: "ffi_advertise C E n T procedure realm kp g = (r, g') \<Longrightarrow> session_step C J X E T g False (reply_of r) g'"
| ss_unadvertise: "ffi_unadvertise C E n T procedure realm kp g = (r, g') \<Longrightarrow> session_step C J X E T g False (reply_of r) g'"
| ss_recv_event: "ffi_recv_event T g = (r, g') \<Longrightarrow> session_step C J X E T g False (reply_of r) g'"
| ss_resolve_direct: "ffi_resolve_direct C E n T procedure realm kp g = (r, g') \<Longrightarrow> session_step C J X E T g False (reply_of r) g'"
| ss_resolve_direct_cert: "ffi_resolve_direct_with_cert_chain C X E n T procedure realm ca org kp g = (r, g') \<Longrightarrow> session_step C J X E T g False (reply_of r) g'"
| ss_call_direct: "ffi_call_direct C E n T dials procedure realm payload timeout_ms kp g = (r, g') \<Longrightarrow> session_step C J X E T g False (reply_of r) g'"
| ss_call_direct_cert: "ffi_call_direct_with_cert_chain C X E n T dials procedure realm ca org payload timeout_ms kp g = (r, g') \<Longrightarrow> session_step C J X E T g False (reply_of r) g'"
| ss_advertise_direct: "ffi_advertise_direct C E n T procedure realm ttl_ms kp g = (r, g') \<Longrightarrow> session_step C J X E T g False (reply_of r) g'"
| ss_advertise_direct_cert: "ffi_advertise_direct_with_cert_chain C E n T procedure realm ttl_ms chain kp g = (r, g') \<Longrightarrow> session_step C J X E T g False (reply_of r) g'"
| ss_open_stream_direct: "\<not> deadline_panics E n timeout_ms \<Longrightarrow> ffi_open_stream_direct C E n T dials procedure realm md args timeout_ms kp g = (r, g') \<Longrightarrow> session_step C J X E T g False (reply_of r) g'"
| ss_open_stream_direct_cert: "\<not> deadline_panics E n timeout_ms \<Longrightarrow> ffi_open_stream_direct_with_cert_chain C X E n T dials procedure realm ca org md args timeout_ms kp g = (r, g') \<Longrightarrow> session_step C J X E T g False (reply_of r) g'"
| ss_put_direct: "ffi_put_direct C E n T dials created target b name kp g = (r, g') \<Longrightarrow> session_step C J X E T g False (reply_of r) g'"
| ss_get_direct: "ffi_get_direct C E n T dials mcid kp g = (r, g') \<Longrightarrow> session_step C J X E T g False (reply_of r) g'"
| ss_content_put: "ffi_content_put C E n T created b name kp g = (r, g') \<Longrightarrow> session_step C J X E T g False (reply_of r) g'"
| ss_content_get: "ffi_content_get C E n T mcid kp g = (r, g') \<Longrightarrow> session_step C J X E T g False (reply_of r) g'"
| ss_stream_open: "\<not> deadline_panics E n timeout_ms \<Longrightarrow> ffi_stream_open C E n T procedure realm md args timeout_ms kp g = (r, g') \<Longrightarrow> session_step C J X E T g False (reply_of r) g'"
| ss_accept_stream: "ffi_accept_stream T accepting g = (r, g') \<Longrightarrow> session_step C J X E T g False (reply_of r) g'"
| ss_close: "ffi_close C E n kp g = (r, g') \<Longrightarrow> session_step C J X E T g True (reply_of r) g'"

subsection \<open>Stream objects\<close>

inductive stream_step ::
  "crypto \<Rightarrow> env \<Rightarrow> texts \<Rightarrow> StreamHandle option \<Rightarrow> bool \<Rightarrow> ffi_reply \<Rightarrow> StreamHandle option \<Rightarrow> bool"
  for C E T where
  st_send_data: "ffi_send_data C E n T encoding body kp g = (r, g') \<Longrightarrow> stream_step C E T g False (reply_of r) g'"
| st_close_send: "ffi_close_send C E n T kp g = (r, g') \<Longrightarrow> stream_step C E T g False (reply_of r) g'"
| st_recv: "ffi_recv T g = (r, g') \<Longrightarrow> stream_step C E T g False (reply_of r) g'"
| st_await_reply: "ffi_await_reply T g = (r, g') \<Longrightarrow> stream_step C E T g False (reply_of r) g'"
| st_send_reply: "ffi_send_reply C E n T payload kp g = (r, g') \<Longrightarrow> stream_step C E T g False (reply_of r) g'"
| st_abort: "ffi_abort C E n code message kp g = (r, g') \<Longrightarrow> stream_step C E T g True (reply_of r) g'"

subsection \<open>Both keep the interface\<close>

definition guarded :: "('s \<Rightarrow> 'i) \<Rightarrow> ('s option \<Rightarrow> ('a, FfiError fail) result \<times> 's option) \<Rightarrow> bool" where
  "guarded identity method \<longleftrightarrow>
     (\<forall>s r g'. method (Some s) = (r, g') \<longrightarrow> (\<exists>s'. g' = Some s' \<and> identity s' = identity s)) \<and>
     (\<forall>r g'. method None = (r, g') \<longrightarrow> g' = None \<and> refuses (reply_of r))"

lemma guarded_with_guard:
  "(\<And>s r s'. f s = (r, s') \<Longrightarrow> identity s' = identity s) \<Longrightarrow> guarded identity (\<lambda>g. with_guard g f)"
  by (auto simp: guarded_def with_guard_def reply_of_def refuses_def split: prod.splits)

lemma guarded_checked:
  "(\<And>e. x = Inl e \<Longrightarrow> \<exists>n m. e = WrongByteLength n m) \<Longrightarrow> (\<And>y. x = Inr y \<Longrightarrow> guarded identity (f y)) \<Longrightarrow>
    guarded identity (\<lambda>g. checked x g (\<lambda>y. f y g))"
  by (cases x) (auto simp: guarded_def checked_def reply_of_def refuses_def)

lemma to_mcid_error: "to_mcid b = Inl e \<Longrightarrow> e = WrongByteLength 34 (word_of_nat (length b))"
  by (auto simp: to_mcid_def to_array_def split: if_splits)

lemma guarded_32:
  "(\<And>y. guarded identity (f y)) \<Longrightarrow> guarded identity (\<lambda>g. checked (to_32 b) g (\<lambda>y. f y g))"
  "(\<And>y. guarded identity (f y)) \<Longrightarrow> guarded identity (\<lambda>g. checked (to_mcid b) g (\<lambda>y. f y g))"
  by (rule guarded_checked; auto dest: to_32_error to_mcid_error)+

lemma guarded_session:
  "guarded station (\<lambda>g. ffi_publish C E n T topic realm seq payload published_at_ms kp g)"
  "guarded station (\<lambda>g. ffi_run_publisher C E n T topic realm seq payload published_at_ms announce kp g)"
  "guarded station (\<lambda>g. ffi_subscribe C E n T topic realm kp g)"
  "guarded station (\<lambda>g. ffi_unsubscribe C E n T topic realm kp g)"
  "guarded station (\<lambda>g. ffi_advertise C E n T procedure realm kp g)"
  "guarded station (\<lambda>g. ffi_unadvertise C E n T procedure realm kp g)"
  "guarded station (\<lambda>g. ffi_recv_event T g)"
  "guarded station (\<lambda>g. ffi_resolve_direct C E n T procedure realm kp g)"
  "guarded station (\<lambda>g. ffi_resolve_direct_with_cert_chain C X E n T procedure realm ca org kp g)"
  "guarded station (\<lambda>g. ffi_call_direct C E n T dials procedure realm payload timeout_ms kp g)"
  "guarded station (\<lambda>g. ffi_call_direct_with_cert_chain C X E n T dials procedure realm ca org payload timeout_ms kp g)"
  "guarded station (\<lambda>g. ffi_advertise_direct C E n T procedure realm ttl_ms kp g)"
  "guarded station (\<lambda>g. ffi_advertise_direct_with_cert_chain C E n T procedure realm ttl_ms chain kp g)"
  "guarded station (\<lambda>g. ffi_put_direct C E n T dials created target b name kp g)"
  "guarded station (\<lambda>g. ffi_get_direct C E n T dials mcid kp g)"
  "guarded station (\<lambda>g. ffi_content_put C E n T created b name kp g)"
  "guarded station (\<lambda>g. ffi_content_get C E n T mcid kp g)"
  "guarded station (\<lambda>g. ffi_accept_stream T accepting g)"
  unfolding ffi_publish_def ffi_run_publisher_def ffi_subscribe_def ffi_unsubscribe_def ffi_advertise_def ffi_unadvertise_def ffi_recv_event_def ffi_resolve_direct_def ffi_resolve_direct_with_cert_chain_def ffi_call_direct_def ffi_call_direct_with_cert_chain_def ffi_advertise_direct_def ffi_advertise_direct_with_cert_chain_def ffi_put_direct_def ffi_get_direct_def ffi_content_put_def ffi_content_get_def ffi_accept_stream_def Let_def session_call_def
  by (intro guarded_32 guarded_with_guard; auto split: prod.splits dest: keeps)+

lemma guarded_timed:
  assumes "\<not> deadline_panics E n timeout_ms"
  shows "guarded station (\<lambda>g. ffi_call C E n T procedure realm payload timeout_ms kp g)"
    "guarded station (\<lambda>g. ffi_call_with_ucan C E n T procedure realm payload timeout_ms kp ucan_token g)"
    "guarded station (\<lambda>g. ffi_open_stream_direct C E n T dials procedure realm md args timeout_ms kp g)"
    "guarded station (\<lambda>g. ffi_open_stream_direct_with_cert_chain C X E n T dials procedure realm ca org md args timeout_ms kp g)"
    "guarded station (\<lambda>g. ffi_stream_open C E n T procedure realm md args timeout_ms kp g)"
  unfolding ffi_call_def ffi_call_with_ucan_def ffi_open_stream_direct_def ffi_open_stream_direct_with_cert_chain_def
    ffi_stream_open_def with_deadline_def session_call_def
  by (simp_all only: assms if_False) (intro guarded_32 guarded_with_guard; auto split: prod.splits dest: keeps)+

lemma guarded_stream:
  "guarded (\<lambda>h. (sh_stream_id h, sh_mode h)) (\<lambda>g. ffi_send_data C E n T encoding body kp g)"
  "guarded (\<lambda>h. (sh_stream_id h, sh_mode h)) (\<lambda>g. ffi_close_send C E n T kp g)"
  "guarded (\<lambda>h. (sh_stream_id h, sh_mode h)) (\<lambda>g. ffi_recv T g)"
  "guarded (\<lambda>h. (sh_stream_id h, sh_mode h)) (\<lambda>g. ffi_await_reply T g)"
  "guarded (\<lambda>h. (sh_stream_id h, sh_mode h)) (\<lambda>g. ffi_send_reply C E n T payload kp g)"
  unfolding ffi_send_data_def ffi_close_send_def ffi_recv_def ffi_await_reply_def ffi_send_reply_def Let_def session_call_def
  by (intro guarded_32 guarded_with_guard; auto split: prod.splits dest: keeps)+

lemma guarded_serve: "guarded station (\<lambda>g. fst (ffi_serve_one_call_gated J C E n T handler policy kp g))"
  unfolding guarded_def ffi_serve_one_call_gated_def
  by (auto simp: into_policy_def bindR_eq_Inl reply_of_def refuses_def Let_def
      split: sum.splits FfiPolicy.splits prod.splits dest!: to_32_error keeps)

definition step_ok :: "('g \<Rightarrow> 'i) \<Rightarrow> 'g option \<Rightarrow> bool \<Rightarrow> ffi_reply \<Rightarrow> 'g option \<Rightarrow> bool" where
  "step_ok identity g c r g' \<longleftrightarrow>
     (if c then g' = None \<and> (g = None \<longrightarrow> r = Done)
      else (\<forall>s. g = Some s \<longrightarrow> (\<exists>s'. g' = Some s' \<and> identity s' = identity s)) \<and> (g = None \<longrightarrow> g' = None \<and> refuses r))"

lemma guarded_step_ok: "guarded identity method \<Longrightarrow> method g = (r, g') \<Longrightarrow> step_ok identity g False (reply_of r) g'"
  by (auto simp: guarded_def step_ok_def)

lemma serve_step_ok:
  "ffi_serve_one_call_gated J C E n T handler policy kp g = ((r, g'), handled) \<Longrightarrow> step_ok station g False (reply_of r) g'"
  using guarded_step_ok [OF guarded_serve, of J C E n T handler policy kp g r g'] by simp

lemma serve_open_step_ok:
  "ffi_serve_one_call J C E n T handler kp g = ((r, g'), handled) \<Longrightarrow> step_ok station g False (reply_of r) g'"
  unfolding ffi_serve_one_call_def by (rule serve_step_ok)

lemma close_step_ok:
  "ffi_close C E n kp g = (r, g') \<Longrightarrow> step_ok i g True (reply_of r) g'"
  "ffi_abort C E n code message kp h = (r, h') \<Longrightarrow> step_ok j h True (reply_of r) h'"
  by (auto simp: ffi_close_def ffi_abort_def step_ok_def reply_of_def)

lemma session_step_ok: "session_step C J X E T g c r g' \<Longrightarrow> step_ok station g c r g'"
  by (induction rule: session_step.induct)
    (erule guarded_session [THEN guarded_step_ok] serve_step_ok serve_open_step_ok close_step_ok |
     (erule guarded_timed [THEN guarded_step_ok], assumption))+

lemma stream_step_ok: "stream_step C E T g c r g' \<Longrightarrow> step_ok (\<lambda>h. (sh_stream_id h, sh_mode h)) g c r g'"
  by (induction rule: stream_step.induct) (erule guarded_stream [THEN guarded_step_ok] close_step_ok)+

interpretation session_object: closable_object "session_step C J X E T" station for C J X E T
  by unfold_locales (auto dest!: session_step_ok simp: step_ok_def)

interpretation stream_object: closable_object "stream_step C E T" "\<lambda>h. (sh_stream_id h, sh_mode h)" for C E T
  by unfold_locales (auto dest!: stream_step_ok simp: step_ok_def)

end
