(* ===== verification/NoPanic.thy ===== *)
theory NoPanic
  imports Stream FrameSize
begin

section \<open>NoPanic: operations that cannot panic\<close>

text \<open>
  The only panic in sending a frame is that of signing one whose integers the encoder does not
  represent. \<open>encodable\<close> characterises the values it does represent, every frame constructor is shown to
  keep it, and so every operation of a session and of a stream whose payload is encodable and whose
  deadline is in range returns without a panic, whatever arrives from the network.
\<close>

named_theorems encodable_intros \<open>values the encoder accepts\<close>
named_theorems no_panic \<open>operations that cannot panic\<close>

subsection \<open>What can be encoded\<close>

fun encodable :: "Value \<Rightarrow> bool" where
  "encodable (IntV n) \<longleftrightarrow> in_range n"
| "encodable (List items) \<longleftrightarrow> (\<forall>x \<in> set items. encodable x)"
| "encodable (Map ps) \<longleftrightarrow> (\<forall>p \<in> set ps. encodable (fst p) \<and> encodable (snd p))"
| "encodable _ \<longleftrightarrow> True"

lemma encode_encodable:
  "encodable v \<Longrightarrow> \<exists>b. encode_value v = Inr b"
  "\<forall>x \<in> set items. encodable x \<Longrightarrow> \<exists>b. encode_items items = Inr b"
  "\<forall>p \<in> set ps. encodable (fst p) \<and> encodable (snd p) \<Longrightarrow> \<exists>bs. encode_pairs ps = Inr bs"
proof (induction v and items and ps rule: encode_value_encode_items_encode_pairs.induct)
  case (1 n)
  then show ?case by (auto simp: encode_int_def u64_max_def in_range_def Let_def)
qed (fastforce simp: Let_def)+

lemma in_range_uint [simp]: "in_range (uint (w :: u64))" "in_range (uint (b :: u8))"
  using unsigned_less [of w, where 'a = int] unsigned_less [of b, where 'a = int]
  by (auto simp: in_range_def intro: order.trans [of _ 0])

lemma in_range_0 [simp]: "in_range 0"
  by (simp add: in_range_def)

lemma set_field_set: "p \<in> set (set_field k x ps) \<Longrightarrow> p \<in> set ps \<or> p = (Text k, x)"
  by (induction k x ps rule: set_field.induct) (auto split: if_splits)

lemma encodable_with_field [encodable_intros]: "encodable v \<Longrightarrow> encodable x \<Longrightarrow> encodable (with_field v k x)"
  by (cases v) (auto simp: with_field_def dest!: set_field_set)

lemma encodable_with_fields [encodable_intros]:
  "encodable v \<Longrightarrow> \<forall>p \<in> set fs. encodable (snd p) \<Longrightarrow> encodable (with_fields v fs)"
proof (induction fs arbitrary: v)
  case (Cons f fs)
  then show ?case by (cases f) (simp add: with_fields_def encodable_with_field)
qed (simp add: with_fields_def)

lemma encodable_without [encodable_intros]: "encodable v \<Longrightarrow> encodable (without v ks)"
  by (cases v) (auto simp: without_def)

lemma encodable_base [simp]: "encodable (Map (base t c i ms))"
  by (simp add: base_def PROTOCOL_VERSION_def) (simp add: in_range_def)

lemma encodable_or_null [simp]: "encodable (or_null (map_option f x)) \<longleftrightarrow> (\<forall>v. x = Some v \<longrightarrow> encodable (f v))"
  by (cases x) (auto simp: or_null_def)

lemma encodable_signer [encodable_intros]: "encodable v \<Longrightarrow> encodable (with_optional_signer v s)"
  by (cases s) (auto simp: with_optional_signer_def intro: encodable_intros)

lemma wfv_encodable: "wfv v \<Longrightarrow> encodable v"
  by (induction v rule: encodable.induct) (auto simp: in_range_def)

subsection \<open>Frames\<close>

lemma encodable_call [encodable_intros]:
  "encodable (ca_payload spec) \<Longrightarrow> in_range (ca_deadline_ms spec) \<Longrightarrow> encodable (call_value spec i ms)"
  unfolding call_value_def by (rule encodable_with_fields) (simp_all del: encodable.simps(3))

lemma encodable_result [encodable_intros]: "encodable (re_payload spec) \<Longrightarrow> encodable (result_value spec i ms)"
  unfolding result_value_def by (rule encodable_with_fields) (simp_all del: encodable.simps(3))

lemma encodable_call_error [encodable_intros]: "encodable (call_error_value spec i ms)"
  unfolding call_error_value_def by (rule encodable_with_fields) (simp_all del: encodable.simps(3))

lemma encodable_publish [encodable_intros]: "encodable (pu_payload spec) \<Longrightarrow> encodable (publish_value spec i ms)"
  unfolding publish_value_def by (rule encodable_with_fields) (simp_all del: encodable.simps(3))

lemma encodable_subscribe [encodable_intros]: "encodable (subscribe_value spec i ms)" "encodable (unsubscribe_value spec' i ms)"
  unfolding subscribe_value_def unsubscribe_value_def by (rule encodable_with_fields; simp del: encodable.simps(3) add: encodable.simps(3) [of "[]"])+

lemma encodable_advertise [encodable_intros]: "encodable (advertise_value spec i ms)" "encodable (unadvertise_value spec' i ms)"
  unfolding advertise_value_def unadvertise_value_def by (rule encodable_with_fields; simp del: encodable.simps(3) add: encodable.simps(3) [of "[]"])+

lemma encodable_goodbye [encodable_intros]: "encodable (goodbye_value r d i ms)"
  using encodable_base by (simp add: goodbye_value_def)

lemma encodable_connect [encodable_intros]: "encodable (connect_value (ConnectSpec_new node ev) i ms)"
  using encodable_base by (simp add: connect_value_def ConnectSpec_new_def bytes32_list_def or_null_def)

lemma encodable_stream_open [encodable_intros]:
  "encodable args \<Longrightarrow> in_range d \<Longrightarrow> encodable (stream_open_value (StreamOpenSpec_new s p r md args d c) i ms)"
  unfolding stream_open_value_def StreamOpenSpec_new_def by (rule encodable_with_fields) (simp_all del: encodable.simps(3))

lemma encodable_stream_data [encodable_intros]: "encodable (sd_body spec) \<Longrightarrow> encodable (stream_data_value spec i ms)"
  unfolding stream_data_value_def by (intro encodable_signer encodable_with_fields) (simp_all del: encodable.simps(3))

lemma encodable_stream_end [encodable_intros]: "encodable (stream_end_value spec i ms)"
  unfolding stream_end_value_def by (intro encodable_signer encodable_with_fields) (simp_all del: encodable.simps(3))

lemma encodable_stream_error [encodable_intros]: "encodable (stream_error_value spec i ms)"
  unfolding stream_error_value_def by (intro encodable_signer encodable_with_fields) (simp_all del: encodable.simps(3))

lemma encodable_stream_reply [encodable_intros]: "encodable (sr_payload spec) \<Longrightarrow> encodable (stream_reply_value spec i ms)"
  unfolding stream_reply_value_def by (rule encodable_with_fields) (simp_all del: encodable.simps(3))

subsection \<open>Signing, sending and receiving\<close>

lemma get_encodable: "encodable v \<Longrightarrow> get v k = Some x \<Longrightarrow> encodable x"
proof (cases v)
  case (Map ps)
  assume v: "encodable v" "get v k = Some x"
  then obtain p where "find (\<lambda>(k', _). k' = Text k) ps = Some p" "x = snd p" using Map by (auto simp: get_def)
  then have "p \<in> set ps" by (metis find_Some_iff nth_mem)
  then show ?thesis using v(1) Map \<open>x = snd p\<close> by simp
qed (auto simp: get_def)

lemma sign_publisher_no_panic:
  assumes "encodable v"
  shows "\<exists>g. (sign_publisher C v kp :: (Value, 'e fail) result) = Inr g \<and> encodable g"
proof -
  have "encodable (or_null (get v f))" for f
    using get_encodable [OF assms, of f] by (cases "get v f") (simp_all add: or_null_def)
  then obtain b where "encode (Map (map (\<lambda>f. (Text f, or_null (get v f))) publisher_fields)) = Inr b"
    using encode_encodable(1) [of "Map (map (\<lambda>f. (Text f, or_null (get v f))) publisher_fields)"] by (auto simp: encode_def)
  then show ?thesis using assms by (simp add: sign_publisher_def publisher_signing_bytes_def encodable_with_field)
qed

lemma sign_no_panic: "encodable v \<Longrightarrow> \<exists>g. (sign_frame C v kp :: (Value, 'e fail) result) = Inr g"
proof -
  assume "encodable v"
  then obtain b where "encode (without v [''signature'', ''publisher_sig'']) = Inr b"
    using encode_encodable(1) [OF encodable_without] by (auto simp: encode_def)
  then show ?thesis by (simp add: sign_frame_def signable_bytes_def)
qed

lemma send_signed_no_panic [no_panic]: "encodable v \<Longrightarrow> fst (send_signed C kp v st) \<noteq> Inl Panic"
  using sign_no_panic [of v C kp, where 'e = unit]
  by (auto simp: send_signed_def send_frame_def split: sum.splits list.splits bool.splits)

lemma recv_loop_no_panic: "recv_loop decode_frame buf reads = (r, x) \<Longrightarrow> r \<noteq> Inl Panic"
proof (induction decode_frame buf reads arbitrary: r x rule: recv_loop.induct)
  case (1 buf reads)
  show ?case
  proof (cases "decode_frame buf")
    case (Inl e)
    then show ?thesis using 1(2) decode_frame_no_panic [of buf] by (subst (asm) recv_loop.simps) (cases e; auto)
  next
    case (Inr d)
    then show ?thesis using 1
      by (subst (asm) (2) recv_loop.simps) (auto split: Decoded.splits list.splits read.splits)
  qed
qed

lemma recv_frame_no_panic [no_panic]: "fst (recv_frame st) \<noteq> Inl Panic"
  using recv_loop_no_panic [of "fs_buf st" "fs_reads st"] by (auto simp: recv_frame_def split: prod.splits)

subsection \<open>Sessions\<close>

lemma session_send_no_panic [no_panic]: "encodable v \<Longrightarrow> fst (session_send C kp v s) \<noteq> Inl Panic"
  using send_signed_no_panic [of v C kp "control s"] by (auto simp: session_send_def split: prod.splits)

lemma session_recv_frame_no_panic [no_panic]: "fst (session_recv_frame s) \<noteq> Inl Panic"
  using recv_frame_no_panic [of "control s"] by (auto simp: session_recv_frame_def split: prod.splits)

lemma lift_fail_Panic [simp]: "lift_fail f e = Panic \<longleftrightarrow> e = Panic"
  by (cases e) simp_all

lemma map_err_Panic [simp]: "map_err (lift_fail f) r = Inl Panic \<longleftrightarrow> r = Inl Panic"
  by (cases r) simp_all

lemma map_err_Err [simp]: "map_err (\<lambda>e. Err (f e)) r \<noteq> Inl Panic" "map_err Err r' \<noteq> Inl Panic"
  by (cases r; simp) (cases r'; simp)

lemma publish_no_panic [no_panic]: "encodable (pu_payload spec) \<Longrightarrow> fst (publish C E n spec kp s) \<noteq> Inl Panic"
  using sign_publisher_no_panic [OF encodable_publish, of spec C "env_frame_id E n" "env_now_ms E n" kp, where 'e = unit] session_send_no_panic [of _ C kp s]
  by (force simp: publish_def split: sum.splits prod.splits)

lemma subscribe_no_panic [no_panic]:
  "fst (subscribe C E n su kp s) \<noteq> Inl Panic" "fst (unsubscribe C E n un kp s) \<noteq> Inl Panic"
  "fst (advertise C E n ad kp s) \<noteq> Inl Panic" "fst (unadvertise C E n ua kp s) \<noteq> Inl Panic"
  unfolding subscribe_def unsubscribe_def advertise_def unadvertise_def
  by (intro session_send_no_panic encodable_intros)+

lemma recv_event_no_panic [no_panic]: "fst (recv_event s) \<noteq> Inl Panic"
  using session_recv_frame_no_panic [of s] by (auto simp: recv_event_def split: prod.splits sum.splits)

lemma close_no_panic [no_panic]: "close C E n reason detail kp s \<noteq> Inl Panic"
  using session_send_no_panic [OF encodable_goodbye, of C kp reason detail "env_frame_id E n" "env_now_ms E n" s]
  by (auto simp: close_def split: prod.splits sum.splits fail.splits)

subsection \<open>Facts\<close>

lemma fact_outcome_Panic [simp]: "fact_outcome r = Inl Panic \<longleftrightarrow> r = Inl Panic"
  by (auto simp: fact_outcome_def split: sum.splits fail.splits)

lemma encodable_request_id [encodable_intros]: "encodable (request_id_payload i)"
  unfolding request_id_payload_def by (intro encodable_with_field) simp_all

lemma announce_fact_no_panic:
  assumes "encodable payload"
  shows "fst (announce_fact C E n s realm kp topic payload) = Inr ()"
proof -
  let ?fact = "PublishSpec_new topic realm (node_id C kp) (env_seq E n) payload (env_now_ms E n)"
  have "encodable (pu_payload ?fact)" using assms by (simp add: PublishSpec_new_def)
  then have "fst (publish C E (n + 1) ?fact kp s) \<noteq> Inl Panic" by (rule publish_no_panic)
  then show ?thesis
    by (auto simp: announce_fact_def fact_outcome_def split: prod.splits sum.splits fail.splits)
qed

lemma announce_rpc_no_panic:
  "fst (announce_rpc_sent C E n s realm kp i) = Inr ()"
  "fst (announce_rpc_received C E n s realm kp i) = Inr ()"
  "fst (announce_rpc_completed C E n s realm kp i r) = Inr ()"
  "fst (announce_rpc_replied C E n s realm kp i err) = Inr ()"
proof -
  note intros = encodable_intros announce_fact_no_panic
  show "fst (announce_rpc_sent C E n s realm kp i) = Inr ()" "fst (announce_rpc_received C E n s realm kp i) = Inr ()"
    unfolding announce_rpc_sent_def announce_rpc_received_def by (intro intros)+
  have "encodable (completed_payload Q i r)" for Q
    by (auto simp: completed_payload_def Let_def intro!: encodable_intros split: sum.splits CallResponse.splits)
  then show "fst (announce_rpc_completed C E n s realm kp i r) = Inr ()"
    unfolding announce_rpc_completed_def by (rule announce_fact_no_panic)
  have "encodable (case err of Some t \<Rightarrow> with_field (with_field (request_id_payload i) ''outcome'' (Text ''failed'')) ''reason'' (Text t)
      | None \<Rightarrow> with_field (request_id_payload i) ''outcome'' (Text ''replied''))"
    by (auto intro!: encodable_intros split: option.splits)
  then show "fst (announce_rpc_replied C E n s realm kp i err) = Inr ()"
    unfolding announce_rpc_replied_def Let_def by (rule announce_fact_no_panic)
qed

lemma announce_on_no_panic: "(\<And>s n. fst (announce s n) = Inr ()) \<Longrightarrow> fst (announce_on announce session n) = Inr ()"
  by (simp add: announce_on_def split: option.splits prod.splits) (metis fst_conv)

subsection \<open>Calls\<close>

lemma await_call_response_no_panic: "fst (await_call_response call_id st) \<noteq> Inl Panic"
proof (induction call_id st rule: await_call_response.induct)
  case (1 call_id st)
  obtain r st' where r: "recv_frame st = (r, st')" by (cases "recv_frame st")
  then have "r \<noteq> Inl Panic" using recv_frame_no_panic [of st] by simp
  then show ?case using 1 r by (subst await_call_response.simps) (auto split: sum.splits)
qed

lemma fs_call_no_panic [no_panic]:
  assumes "encodable payload" "in_range deadline_ms"
  shows "fst (fs_call_with_ucan C E n st procedure realm payload deadline_ms kp token) \<noteq> Inl Panic"
proof -
  let ?spec = "(CallSpec_new (env_id E n) procedure realm payload deadline_ms (node_id C kp))\<lparr>ca_ucan_token := token\<rparr>"
  have "encodable (call_value ?spec (env_frame_id E n) (env_now_ms E n))"
    by (rule encodable_call) (use assms in \<open>simp_all add: CallSpec_new_def\<close>)
  note sent = send_signed_no_panic [OF this, of C kp st]
  show ?thesis
    using sent await_call_response_no_panic [of "env_id E n"]
    by (auto simp: fs_call_with_ucan_def Let_def split: prod.splits sum.splits) (metis fst_conv)
qed

lemma session_call_no_panic [no_panic]:
  assumes "encodable payload" "in_range deadline_ms"
  shows "fst (session_call_with_ucan C E n s procedure realm payload deadline_ms kp token) \<noteq> Inl Panic"
proof -
  obtain s1 n1 where s1: "announce_rpc_sent C E (n + 1) s realm kp (env_id E n) = ((Inr () :: (unit, CallError fail) result), s1, n1)"
    using announce_rpc_no_panic(1) [of C E "n + 1" s realm kp "env_id E n"] by (metis prod.exhaust fst_conv)
  obtain r st n2 where c: "fs_call_with_ucan C E n1 (control s1) procedure realm payload deadline_ms kp token = (r, st, n2)"
    by (metis prod.exhaust)
  then have "r \<noteq> Inl Panic" using fs_call_no_panic [OF assms, of C E n1 "control s1" procedure realm kp token] by simp
  moreover have "fst (announce_rpc_completed C E m s' realm kp i x :: (unit, CallError fail) result \<times> _) = Inr ()" for m s' i x
    by (rule announce_rpc_no_panic)
  ultimately show ?thesis using s1 c
    by (auto simp: session_call_with_ucan_def Let_def split: prod.splits sum.splits fail.splits) (metis fst_conv bindR_simps(2) Inl_Inr_False Inl_inject fail.distinct(1))+
qed

subsection \<open>Serving and publishing\<close>

definition handlers_encodable :: "(bytes \<Rightarrow> string \<Rightarrow> CallHandler option) \<Rightarrow> bool" where
  "handlers_encodable lookup \<longleftrightarrow> (\<forall>realm procedure h v w. lookup realm procedure = Some h \<longrightarrow> h v = HandlerOk w \<longrightarrow> encodable w)"

lemma announce_on_Inr:
  assumes "\<And>s n. fst (announce s n) = Inr ()"
  obtains s' n' where "announce_on announce session n = (Inr (), s', n')" "session = None \<longleftrightarrow> s' = None"
proof -
  obtain r s' n' where a: "announce_on announce session n = (r, s', n')" by (metis prod.exhaust)
  then have "r = Inr ()" using announce_on_no_panic [of announce session n] assms by simp
  moreover have "session = None \<longleftrightarrow> s' = None" using a by (auto simp: announce_on_def split: option.splits prod.splits)
  ultimately show ?thesis using a that by blast
qed

lemma build_call_reply_no_panic:
  assumes "handlers_encodable lookup" "build_call_reply J C E n ci lookup policy kp (Some s) = (r, s', n', invoked)"
  shows "r \<noteq> Inl Panic \<and> (\<forall>reply. r = Inr reply \<longrightarrow> encodable reply) \<and> s' \<noteq> None"
proof (cases "policy_check J C (env_now_s E n) (policy (ci_realm ci) (ci_procedure ci)) (ci_ucan_token ci)")
  case (Inl e)
  then show ?thesis using assms(2) by (auto simp: build_call_reply_def intro: encodable_intros)
next
  case (Inr u)
  show ?thesis
  proof (cases "lookup (ci_realm ci) (ci_procedure ci)")
    case None
    then show ?thesis using Inr assms(2) by (auto simp: build_call_reply_def intro: encodable_intros)
  next
    case (Some h)
    let ?a = "\<lambda>s m. announce_rpc_received C E m s (ci_realm ci) kp (env_id E n)"
    let ?b = "\<lambda>err s m. announce_rpc_replied C E m s (ci_realm ci) kp (env_id E n) err"
    obtain s1 n1 where s1: "announce_on ?a (Some s) (n + 1) = ((Inr () :: (unit, ServeCallError fail) result), s1, n1)" "s1 \<noteq> None"
      by (rule announce_on_Inr [of ?a "Some s" "n + 1"]) (auto simp: announce_rpc_no_panic)
    have b: "\<exists>s2 n2. announce_on (?b err) s1 n1 = ((Inr () :: (unit, ServeCallError fail) result), s2, n2) \<and> s2 \<noteq> None" for err
      by (rule announce_on_Inr [of "?b err" s1 n1]) (use s1(2) in \<open>auto simp: announce_rpc_no_panic\<close>)
    show ?thesis
    proof (cases "h (ci_payload ci)")
      case (HandlerOk v)
      then have "encodable v" using assms(1) Some by (auto simp: handlers_encodable_def)
      then show ?thesis using Inr Some s1 b [of None] HandlerOk assms(2)
        by (auto simp: build_call_reply_def Let_def ResultSpec_new_def intro!: encodable_result)
    next
      case (HandlerErr t)
      then show ?thesis using Inr Some s1 b [of "Some t"] assms(2)
        by (auto simp: build_call_reply_def Let_def intro: encodable_intros)
    qed (use Inr Some s1 assms(2) in \<open>auto simp: build_call_reply_def Let_def intro: encodable_intros\<close>)
  qed
qed

lemma serve_no_panic [no_panic]:
  "handlers_encodable lookup \<Longrightarrow> fst (serve_one_call_gated J C E n lookup policy kp s) \<noteq> Inl Panic"
proof (induction J C E n lookup policy kp s rule: serve_one_call_gated.induct)
  case (1 J C E n lookup policy kp s)
  obtain r s' where r: "session_recv_frame s = (r, s')" by (cases "session_recv_frame s")
  then have np: "r \<noteq> Inl Panic" using session_recv_frame_no_panic [of s] by simp
  show ?case
  proof (cases r)
    case (Inl e)
    then show ?thesis using r np by (subst serve_one_call_gated.simps) simp
  next
    case (Inr v)
    show ?thesis
    proof (cases "parse_call v")
      case (Inl e)
      then show ?thesis using 1(1) [OF r [symmetric] Inr Inl 1(2)] r Inr by (subst serve_one_call_gated.simps) simp
    next
      case (Inr ci)
      obtain b s2 n2 inv where b: "build_call_reply J C E n ci lookup policy kp (Some s') = (b, s2, n2, inv)" by (metis prod.exhaust)
      note bp = build_call_reply_no_panic [OF 1(2) b]
      have "fst (session_send C kp reply (the s2)) \<noteq> Inl Panic" if "b = Inr reply" for reply
        using bp that by (intro session_send_no_panic) simp
      then show ?thesis using r Inr \<open>r = Inr v\<close> b bp
        by (subst serve_one_call_gated.simps) (auto split: sum.splits prod.splits)
    qed
  qed
qed

lemma run_publisher_no_panic [no_panic]:
  assumes "encodable (pu_payload spec)"
  shows "fst (run_publisher C E n spec kp announce s) \<noteq> Inl Panic"
proof -
  define fact where "fact = (\<lambda>m s topic payload.
      if announce then announce_fact C E m s (pu_realm spec) kp topic payload else (Inr () :: (unit, SendFrameError fail) result, s, m))"
  have fact: "\<exists>s' m'. fact m s topic payload = (Inr (), s', m')" if "encodable payload" for m s topic payload
  proof (cases "announce_fact C E m s (pu_realm spec) kp topic payload :: (unit, SendFrameError fail) result \<times> Session \<times> nat")
    case (fields r s' m')
    have "fst (announce_fact C E m s (pu_realm spec) kp topic payload :: (unit, SendFrameError fail) result \<times> Session \<times> nat) = Inr ()"
      by (rule announce_fact_no_panic [OF that])
    then show ?thesis using fields by (auto simp: fact_def)
  qed
  let ?id = "with_field (Map []) ''publish_id'' (Bytes (env_id E n))"
  have id: "encodable ?id" by (intro encodable_intros) simp_all
  obtain s1 n1 where s1: "fact (n + 1) s ''pubsub.publish_started_v1'' (with_field ?id ''topic'' (Bytes (as_bytes (pu_topic spec)))) = (Inr (), s1, n1)"
    using fact [OF encodable_with_field [OF id, of "Bytes (as_bytes (pu_topic spec))" "''topic''"], of "n + 1" s "''pubsub.publish_started_v1''"]
    by auto
  obtain r s2 n2 where p: "publish C E n1 spec kp s1 = (r, s2, n2)" by (metis prod.exhaust)
  then have np: "r \<noteq> Inl Panic" using publish_no_panic [OF assms, of C E n1 kp s1] by simp
  have done_: "\<exists>s3 n3. fact n2 s2 ''pubsub.publish_completed_v1'' (with_field ?id ''outcome'' (Text ''completed'')) = (Inr (), s3, n3)"
    by (rule fact, rule encodable_with_field [OF id]) simp
  have failed: "\<exists>s3 n3. fact n2 s2 ''pubsub.publish_completed_v1''
      (with_field (with_field ?id ''outcome'' (Text ''failed'')) ''reason'' (Text t)) = (Inr (), s3, n3)" for t
    by (rule fact, intro encodable_with_field id) simp_all
  note run = run_publisher_def Let_def fact_def [symmetric] s1 prod.case sum.case p
  show ?thesis
  proof (cases r)
    case (Inl f)
    then obtain e where "r = Inl (Err e)" using np by (cases f) auto
    then show ?thesis unfolding run using failed [of "send_frame_error_text (env_texts E) e"] by auto
  next
    case (Inr u)
    then show ?thesis unfolding run using done_ by auto
  qed
qed

subsection \<open>Streams\<close>

lemma open_handle_no_panic [no_panic]:
  "encodable args \<Longrightarrow> in_range deadline_ms \<Longrightarrow> open_handle C E n opened procedure realm md args deadline_ms kp \<noteq> Inl Panic"
proof (cases opened)
  case (Some st)
  assume "encodable args" "in_range deadline_ms"
  from send_signed_no_panic [OF encodable_stream_open [OF this], of C kp "env_id E n" procedure realm md "node_id C kp" "env_frame_id E n" "env_now_ms E n" st]
  show ?thesis using Some by (auto simp: open_handle_def Let_def split: prod.splits sum.splits)
qed (simp add: open_handle_def)

lemma accept_handle_no_panic [no_panic]: "accept_handle accepting \<noteq> Inl Panic"
proof (cases accepting)
  case (Accepted st)
  then show ?thesis using recv_frame_no_panic [of st]
    by (auto simp: accept_handle_def bindR_eq_Inl split: prod.splits)
qed (simp_all add: accept_handle_def)

lemma handle_send_no_panic [no_panic]: "encodable v \<Longrightarrow> fst (handle_send C kp v h) \<noteq> Inl Panic"
  using send_signed_no_panic [of v C kp "sh_stream h"] by (auto simp: handle_send_def split: prod.splits)

lemma send_data_Panic_iff:
  assumes "encodable body"
  shows "fst (send_data C E n encoding body kp h) = Inl Panic \<longleftrightarrow> seq_overflows E h"
proof -
  have "fst (handle_send C kp (stream_data_value spec (env_frame_id E n) (env_now_ms E n)) h') \<noteq> Inl Panic"
    if "sd_body spec = body" for spec h'
    by (intro handle_send_no_panic encodable_stream_data) (simp add: that assms)
  then show ?thesis by (simp add: send_data_def Let_def)
qed

lemma send_reply_no_panic [no_panic]: "encodable payload \<Longrightarrow> fst (send_reply C E n payload kp h) \<noteq> Inl Panic"
  unfolding send_reply_def Let_def by (intro handle_send_no_panic encodable_stream_reply) simp

lemma close_send_no_panic [no_panic]: "fst (close_send C E n kp h) \<noteq> Inl Panic"
  unfolding close_send_def Let_def by (intro handle_send_no_panic encodable_stream_end)

lemma abort_no_panic [no_panic]: "abort C E n code message kp h \<noteq> Inl Panic"
  using handle_send_no_panic [OF encodable_stream_error, of C kp _ "env_frame_id E n" "env_now_ms E n" h]
  by (auto simp: abort_def Let_def split: prod.splits sum.splits fail.splits) (metis fst_conv)+

lemma recv_event_on_no_panic: "(\<And>e. react e \<noteq> Inl Panic) \<Longrightarrow> fst (recv_event_on react h) \<noteq> Inl Panic"
  using recv_frame_no_panic [of "sh_stream h"] by (auto simp: recv_event_on_def bindR_eq_Inl split: prod.splits)

lemma recv_item_no_panic [no_panic]: "fst (recv_item h) \<noteq> Inl Panic" "fst (await_reply h) \<noteq> Inl Panic"
  unfolding recv_item_def await_reply_def
  by (rule recv_event_on_no_panic; auto simp: bindR_eq_Inl check_stream_id_def split: StreamEvent.splits)+

end
