(* ===== verification/DirectNoPanic.thy ===== *)
theory DirectNoPanic
  imports NoPanic DirectProps
begin

section \<open>DirectNoPanic: resolution, direct dial and content cannot panic\<close>

text \<open>
  What the DHT answers is decoded, so it can be encoded again and its records can be verified whatever they
  are. Then neither resolving, nor dialing, nor transferring content panics, as long as the clock leaves
  room for the timeouts that are added to it; the manifests that are fetched are usable, and the ones that
  are created can be sent.
\<close>

definition leaves_room :: "env \<Rightarrow> int \<Rightarrow> bool" where
  "leaves_room E ms \<longleftrightarrow> (\<forall>n. uint (env_now_ms E n) + ms < 2 ^ 64)"

lemma leaves_room_in_range: "leaves_room E ms \<Longrightarrow> 0 \<le> ms \<Longrightarrow> in_range (uint (env_now_ms E n) + ms)"
proof -
  assume room: "leaves_room E ms" "0 \<le> ms"
  have "uint (env_now_ms E n) + ms < 2 ^ 64" using room(1) by (simp add: leaves_room_def)
  moreover have "0 \<le> uint (env_now_ms E n) + ms" using room(2) uint_ge_0 [of "env_now_ms E n"] by linarith
  ultimately show ?thesis by (simp add: in_range_def)
qed

subsection \<open>What a call returns was decoded\<close>

definition response_wfv :: "CallResponse \<Rightarrow> bool" where
  "response_wfv r \<longleftrightarrow> (\<forall>payload who. r = CallResult payload who \<longrightarrow> wfv payload)"

lemma await_wfv: "await_call_response i st = (Inr r, st') \<Longrightarrow> response_wfv r"
proof -
  assume "await_call_response i st = (Inr r, st')"
  from await_sound [OF this] obtain v b n where v: "decode_frame b = Inr (DecodedFrame v n)" "parse_call_response v = Inr r" by blast
  then show ?thesis using get_wfv [OF decode_frame_wfv(1) [OF v(1)]]
    by (auto simp: response_wfv_def parse_call_response_def bindR_eq_Inr read_field_eq_Inr split: if_splits)
qed

lemma fs_call_wfv: "fs_call_with_ucan C E n st procedure realm payload deadline_ms kp token = (Inr r, st', n') \<Longrightarrow> response_wfv r"
  by (auto simp: fs_call_with_ucan_def Let_def split: prod.splits sum.splits dest: await_wfv)

lemma session_call_wfv:
  "session_call_with_ucan C E n s procedure realm payload deadline_ms kp token = (Inr r, s', n') \<Longrightarrow> response_wfv r"
  by (auto simp: session_call_with_ucan_def Let_def bindR_eq_Inr split: prod.splits sum.splits fail.splits dest: fs_call_wfv)

lemma dht_call_wfv: "dht_call C E n s kp procedure args = (Inr r, s', n') \<Longrightarrow> response_wfv r"
  by (auto simp: dht_call_def session_call_def split: prod.splits dest: session_call_wfv)

lemma record_from_response_Inr:
  "record_from_response resp = Inr r \<Longrightarrow> \<exists>payload who. resp = CallResult payload who \<and> record_from_rpc_value payload = Inr r"
  by (cases resp) (auto simp: record_from_response_def split: if_splits)

lemma in_map_filter: "y \<in> set (List.map_filter f xs) \<longleftrightarrow> (\<exists>x \<in> set xs. f x = Some y)"
  by (induction xs) (auto simp: List.map_filter_simps split: option.splits)

lemma records_list_from_response_Inr:
  assumes "records_list_from_response resp = Inr rs" "r \<in> set rs"
  shows "\<exists>items item who. resp = CallResult (List items) who \<and> item \<in> set items \<and> record_from_rpc_value item = Inr r"
proof (cases resp)
  case (CallResult payload who)
  with assms show ?thesis
    by (cases payload) (auto simp: records_list_from_response_def in_map_filter)
qed (use assms in \<open>simp add: records_list_from_response_def\<close>)

lemma find_record_wf: "find_record C E n s kp key = (Inr r, s', n') \<Longrightarrow> wf_record r"
  by (auto simp: find_record_def bindR_eq_Inr response_wfv_def
      split: prod.splits dest!: dht_call_wfv record_from_response_Inr intro: received_record_wf)

lemma find_records_wf:
  assumes "find_records C E n s kp key = (Inr rs, s', n')"
  shows "\<forall>r \<in> set rs. wf_record r"
proof
  fix r
  assume "r \<in> set rs"
  obtain resp where resp: "dht_call C E n s kp ''_dht.find_records'' (Map [(Text ''key'', Bytes key)]) = (Inr resp, s', n')"
    "records_list_from_response resp = Inr rs"
    using assms by (auto simp: find_records_def bindR_eq_Inr split: prod.splits)
  obtain items item who where "resp = CallResult (List items) who" "item \<in> set items" "record_from_rpc_value item = Inr r"
    using records_list_from_response_Inr [OF resp(2) \<open>r \<in> set rs\<close>] by blast
  then show "wf_record r" using dht_call_wfv [OF resp(1)] by (auto simp: response_wfv_def intro: received_record_wf)
qed

subsection \<open>The DHT\<close>

lemma verify_record_no_panic: "wf_record r \<Longrightarrow> verify_record C now r \<noteq> Inl Panic"
  by (simp add: verify_record_verdict)

lemma dht_call_no_panic:
  assumes "encodable args" "leaves_room E DHT_TIMEOUT"
  shows "fst (dht_call C E n s kp procedure args) \<noteq> Inl Panic"
proof -
  have "in_range (uint (env_now_ms E n) + DHT_TIMEOUT)" by (rule leaves_room_in_range [OF assms(2)]) (simp add: DHT_TIMEOUT_def)
  from session_call_no_panic [OF assms(1) this, of C E "n + 1" s procedure DHT_REALM kp "[]"]
  show ?thesis by (auto simp: dht_call_def session_call_def split: prod.splits)
qed

definition record_encodable :: "Record \<Rightarrow> bool" where
  "record_encodable r \<longleftrightarrow> in_range (rc_created_at r) \<and> in_range (rc_expires_at r) \<and> encodable (rc_payload r)"

lemma encodable_record [encodable_intros]: "record_encodable r \<Longrightarrow> encodable (to_rpc_value r)"
  by (auto simp: to_rpc_value_def record_encodable_def)

lemma sign_record_encodable:
  assumes "record_encodable r"
  shows "\<exists>s. (sign_record C r kp :: (Record, 'e fail) result) = Inr s \<and> record_encodable s"
proof -
  have "encodable (Map [(Text ''t'', IntV (uint (rc_record_type r))), (Text ''k'', Bytes (rc_key r)), (Text ''v'', Bytes (rc_version r)),
      (Text ''c'', IntV (rc_created_at r)), (Text ''x'', IntV (rc_expires_at r)), (Text ''p'', rc_payload r)])"
    using assms by (simp add: record_encodable_def)
  from encode_encodable(1) [OF this] show ?thesis using assms
    by (auto simp: sign_record_def canonical_unsigned_def encode_def record_encodable_def)
qed

lemma find_no_panic:
  assumes "leaves_room E DHT_TIMEOUT"
  shows "fst (find_record C E n s kp key) \<noteq> Inl Panic" "fst (find_records C E n s kp key) \<noteq> Inl Panic"
proof -
  have key: "encodable (Map [(Text ''key'', Bytes key)])" by simp
  have "record_from_response resp \<noteq> Inl Panic" "records_list_from_response resp \<noteq> Inl Panic" for resp
    by (auto simp: record_from_response_def records_list_from_response_def split: CallResponse.splits Value.splits)
  then show "fst (find_record C E n s kp key) \<noteq> Inl Panic" "fst (find_records C E n s kp key) \<noteq> Inl Panic"
    using dht_call_no_panic [OF key assms, of C n s kp]
    by (auto simp: find_record_def find_records_def bindR_eq_Inl split: prod.splits) (metis fst_conv)+
qed

lemma put_record_no_panic:
  "record_encodable r \<Longrightarrow> leaves_room E DHT_TIMEOUT \<Longrightarrow> fst (put_record C E n s kp r) \<noteq> Inl Panic"
  using dht_call_no_panic [OF encodable_record, of r E C n s kp "''_dht.put_record''"]
  by (auto simp: put_record_def bindR_eq_Inl split: prod.splits CallResponse.splits)

subsection \<open>Resolution\<close>

lemma poll_records_no_panic:
  assumes "leaves_room E DHT_TIMEOUT"
  shows "fst (poll_records k C E n s kp key) \<noteq> Inl Panic"
proof (induction k arbitrary: n s)
  case (Suc k)
  obtain r s' n' where r: "find_records C E n s kp key = (r, s', n')" by (metis prod.exhaust)
  then have "r \<noteq> Inl Panic" using find_no_panic(2) [OF assms, of C n s kp key] by simp
  then show ?case using Suc r by (cases r) simp_all
qed simp

lemma poll_records_wf: "poll_records k C E n s kp key = (Inr rs, s', n') \<Longrightarrow> \<forall>r \<in> set rs. wf_record r"
proof (induction k arbitrary: n s)
  case (Suc k)
  obtain r s1 n1 where r: "find_records C E n s kp key = (r, s1, n1)" by (metis prod.exhaust)
  then show ?case using Suc find_records_wf [of C E n s kp key] by (cases r) (auto split: if_splits)
qed simp

lemma first_trusted_no_panic:
  "\<forall>r \<in> set rs. wf_record r \<Longrightarrow> fst (first_trusted_advertisement C E n rs :: (_, 'e fail) result \<times> nat) \<noteq> Inl Panic"
proof (induction rs arbitrary: n)
  case (Cons r rs)
  then show ?case using verify_record_no_panic [of r C "uint (env_now_ms E n)"] by (auto split: sum.splits fail.splits)
qed simp

lemma first_provider_no_panic:
  "\<forall>r \<in> set rs. wf_record r \<Longrightarrow> fst (first_trusted_content_provider C E n rs :: (_, 'e fail) result \<times> nat) \<noteq> Inl Panic"
proof (induction rs arbitrary: n)
  case (Cons r rs)
  then show ?case using verify_record_no_panic [of r C "uint (env_now_ms E n)"] by (auto split: sum.splits fail.splits)
qed simp

lemma first_authorized_no_panic:
  "\<forall>r \<in> set rs. wf_record r \<Longrightarrow> fst (first_authorized_advertisement C X E n rs ca org e) \<noteq> Inl Panic"
proof (induction rs arbitrary: n e)
  case (Cons r rs)
  have r: "wf_record r" using Cons.prems by simp
  note v = verify_record_no_panic [OF r, of C]
  show ?case using Cons v [of "uint (env_now_ms E n)"] authorized_no_panic [OF v [of "uint (env_now_ms E (n + 1))"], of X ca org]
    by (auto split: sum.splits fail.splits)
qed (simp split: option.splits)

lemma endpoint_attempts_no_panic:
  assumes "leaves_room E DHT_TIMEOUT"
  shows "fst (endpoint_attempts k C E n s kp target) \<noteq> Inl Panic"
proof (induction k arbitrary: n s)
  case (Suc k)
  obtain r s' n' where r: "find_record C E n s kp (station_endpoint_key C target) = (r, s', n')" by (metis prod.exhaust)
  then have np: "r \<noteq> Inl Panic" using find_no_panic(1) [OF assms, of C n s kp "station_endpoint_key C target"] by simp
  show ?case
  proof (cases r)
    case (Inl e)
    then show ?thesis using np r Suc by (cases e) auto
  next
    case (Inr rec)
    then have "verify_record C (uint (env_now_ms E n')) rec \<noteq> Inl Panic" using find_record_wf r verify_record_no_panic by blast
    then show ?thesis using r Inr Suc by (auto split: sum.splits fail.splits RecordVerifyError.splits list.splits)
  qed
qed simp

lemma resolve_no_panic:
  assumes "leaves_room E DHT_TIMEOUT"
  shows "fst (resolve C E n s kp realm procedure) \<noteq> Inl Panic"
    "fst (resolve_with_cert_chain C X E n s kp realm procedure ca org) \<noteq> Inl Panic"
    "fst (resolve_station_endpoint C E n s kp target) \<noteq> Inl Panic"
proof -
  let ?key = "procedure_key C (discovery_uri realm procedure)"
  obtain r s' n' where r: "poll_records RESOLVE_RETRIES C E n s kp ?key = (r, s', n')" by (metis prod.exhaust)
  have np: "r \<noteq> Inl Panic" using poll_records_no_panic [OF assms, of RESOLVE_RETRIES C n s kp ?key] r by simp
  have wf: "\<forall>x \<in> set rs. wf_record x" if "r = Inr rs" for rs using poll_records_wf r that by blast
  have ep: "fst (resolve_station_endpoint C E m t kp node) \<noteq> Inl Panic" for m t node
    unfolding resolve_station_endpoint_def by (rule endpoint_attempts_no_panic [OF assms])
  show "fst (resolve C E n s kp realm procedure) \<noteq> Inl Panic"
    using r np wf ep first_trusted_no_panic [where 'e = ResolveError, of _ C E n']
    by (auto simp: resolve_def Let_def split: sum.splits prod.splits option.splits) (metis fst_conv)+
  show "fst (resolve_with_cert_chain C X E n s kp realm procedure ca org) \<noteq> Inl Panic"
    using r np wf ep first_authorized_no_panic [of _ C X E n' ca org None]
    by (auto simp: resolve_with_cert_chain_def Let_def split: sum.splits prod.splits) (metis fst_conv)+
  show "fst (resolve_station_endpoint C E n s kp target) \<noteq> Inl Panic" by (rule ep)
qed

subsection \<open>The handshake and the dial\<close>

lemma verify_frame_no_panic: "encodable v \<Longrightarrow> verify_frame C v pubkey \<noteq> Inl Panic"
proof -
  assume "encodable v"
  then obtain b where "encode (without v [''signature'', ''publisher_sig'']) = Inr b"
    using encode_encodable(1) [OF encodable_without] by (auto simp: encode_def)
  then show ?thesis
    by (auto simp: verify_frame_def signable_bytes_def bindR_eq_Inl ok_or_def split: option.splits Value.splits)
qed

lemma connect_no_panic: "connect C E n kp d \<noteq> Inl Panic"
proof
  assume p: "connect C E n kp d = Inl Panic"
  then obtain st later where d: "d = Opened st later" by (cases d) (auto simp: connect_def)
  let ?v = "connect_value (ConnectSpec_new (node_id C kp) (puzzle_evidence C (public_bytes C kp))) (env_frame_id E n) (env_now_ms E n)"
  obtain r st' where sent: "send_signed C kp ?v st = (r, st')" by (cases "send_signed C kp ?v st")
  then have "r \<noteq> Inl Panic" using send_signed_no_panic [OF encodable_connect, of C kp "node_id C kp" _ "env_frame_id E n" "env_now_ms E n" st]
    by (metis fst_conv)
  moreover obtain x b rs where loop: "recv_loop decode_frame [] (fs_reads st') = (x, b, rs)" by (metis prod.exhaust)
  ultimately obtain v where v: "x = Inr v" and v_panic: "\<exists>hello. verify_frame C v hello = Inl Panic"
    using p d sent recv_loop_no_panic [OF loop]
    by (fastforce simp: connect_def Let_def read_one_frame_def bindR_eq_Inl split: sum.splits if_splits)
  from recv_loop_conserves [OF loop [unfolded v]] have "encodable v" using decode_frame_wfv(1) wfv_encodable by blast
  then show False using v_panic verify_frame_no_panic by blast
qed

lemma timed_connect_no_panic: "timed_connect C E n kp d \<noteq> Inl Panic"
  by (simp add: timed_connect_def connect_no_panic split: option.split)

lemma close_then_no_panic: "r \<noteq> Inl Panic \<Longrightarrow> close_then C E n reason kp s r \<noteq> Inl Panic"
proof -
  assume r: "r \<noteq> Inl Panic"
  obtain b where "close C E n reason None kp s = Inr b"
    using close_no_panic [of C E n reason None kp s] by (auto simp: close_def split: prod.splits sum.splits fail.splits)
  then show ?thesis using r by (simp add: close_then_def)
qed

lemma dial_and_verify_no_panic: "dial_and_verify C E n kp dials host port expected \<noteq> Inl Panic"
  by (auto simp: dial_and_verify_def Let_def bindR_eq_Inl timed_connect_no_panic close_then_no_panic split: if_splits)

text \<open>What all operations do that resolve first and then go on with the result.\<close>

lemma then_no_panic:
  "fst q \<noteq> Inl Panic \<Longrightarrow> (\<And>x m. f x m \<noteq> Inl Panic) \<Longrightarrow>
    fst (case q of (r, s', n') \<Rightarrow> (bindR (map_err (lift_fail g) r) (\<lambda>x. f x n'), s')) \<noteq> Inl Panic"
  by (cases q) (auto simp: bindR_eq_Inl)

subsection \<open>Calls, advertisements and streams\<close>

lemma call_resolved_no_panic:
  assumes "encodable payload" "leaves_room E (int timeout)"
  shows "call_resolved C E n kp dials resolved realm procedure payload timeout token \<noteq> Inl Panic"
proof -
  have "in_range (uint (env_now_ms E m) + int timeout)" for m by (rule leaves_room_in_range [OF assms(2)]) simp
  note np = session_call_no_panic [OF assms(1) this]
  have call: "(case session_call_with_ucan C E (n + 2) target procedure realm payload (uint (env_now_ms E (n + 1)) + int timeout) kp token of
      (Inl Panic, _, _) \<Rightarrow> Inl Panic
    | (r, target', n') \<Rightarrow> close_then C E n' ''normal'' kp target' (map_err (lift_fail DirectCall) r)) \<noteq> Inl Panic" for target
    using np [of C E "n + 2" target procedure realm "n + 1" kp token]
    by (auto simp: close_then_no_panic split: prod.splits sum.splits fail.splits intro!: close_then_no_panic)
  show ?thesis using call
    by (auto simp: call_resolved_def Let_def bindR_eq_Inl timed_connect_no_panic close_then_no_panic split: if_splits)
qed

lemma direct_call_no_panic:
  assumes "encodable payload" "leaves_room E (int timeout)" "leaves_room E DHT_TIMEOUT"
  shows "fst (direct_call C E n s kp dials realm procedure payload timeout) \<noteq> Inl Panic"
    "fst (direct_call_with_cert_chain C X E n s kp dials realm procedure ca org payload timeout) \<noteq> Inl Panic"
  unfolding direct_call_def direct_call_with_cert_chain_def
  by (intro then_no_panic resolve_no_panic call_resolved_no_panic assms)+

lemma open_resolved_no_panic:
  assumes "encodable args" "in_range deadline_ms"
  shows "open_resolved C E n kp dials resolved realm procedure md args deadline_ms \<noteq> Inl Panic"
  using open_handle_no_panic [OF assms, of C E "n + 1" _ procedure realm md kp]
  by (auto simp: open_resolved_def bindR_eq_Inl dial_and_verify_no_panic close_then_no_panic split: sum.splits fail.splits)

lemma open_stream_direct_no_panic:
  assumes "encodable args" "in_range deadline_ms" "leaves_room E DHT_TIMEOUT"
  shows "fst (open_stream_direct C E n s kp dials realm procedure md args deadline_ms) \<noteq> Inl Panic"
    "fst (open_stream_direct_with_cert_chain C X E n s kp dials realm procedure ca org md args deadline_ms) \<noteq> Inl Panic"
  unfolding open_stream_direct_def open_stream_direct_with_cert_chain_def
  by (intro then_no_panic resolve_no_panic open_resolved_no_panic assms)+

lemma advertisement_encodable:
  assumes "leaves_room E (int (advertised_ttl ttl))"
  shows "record_encodable (new_procedure_advertisement (uint (env_now_ms E n)) uuid node uri server ttl)"
    "\<exists>r. (new_procedure_advertisement_with_cert_chain (uint (env_now_ms E n)) uuid node uri server ttl chain :: (Record, 'e fail) result) = Inr r \<and>
      record_encodable r"
  using leaves_room_in_range [OF assms, of n]
  by (auto simp: record_encodable_def new_procedure_advertisement_def new_procedure_advertisement_with_cert_chain_def new_envelope_def
      advertised_ttl_def Let_def)

lemma publish_advertisement_no_panic:
  assumes "record_encodable r" "leaves_room E DHT_TIMEOUT"
  shows "fst (publish_advertisement C E n s kp (Inr r)) \<noteq> Inl Panic"
proof -
  obtain x where x: "(sign_record C r kp :: (Record, AdvertiseDirectError fail) result) = Inr x" "record_encodable x"
    using sign_record_encodable [OF assms(1)] by blast
  show ?thesis using put_record_no_panic [OF x(2) assms(2), of C n s kp] x(1)
    by (auto simp: publish_advertisement_def split: prod.splits)
qed

lemma advertise_direct_no_panic:
  assumes "leaves_room E (int (advertised_ttl ttl))" "leaves_room E DHT_TIMEOUT"
  shows "fst (advertise_direct C E n s kp realm procedure ttl) \<noteq> Inl Panic"
    "fst (advertise_direct_with_cert_chain C E n s kp realm procedure ttl chain) \<noteq> Inl Panic"
proof -
  obtain a s' where a: "advertise C E n (AdvertiseSpec_new realm procedure (node_id C kp)) kp s = (a, s')" by (metis prod.exhaust)
  have np: "a \<noteq> Inl Panic" using subscribe_no_panic(3) [of C E n "AdvertiseSpec_new realm procedure (node_id C kp)" kp s] a by simp
  note enc = advertisement_encodable [OF assms(1), of "n + 1"]
  note pub = publish_advertisement_no_panic [OF _ assms(2)]
  show "fst (advertise_direct C E n s kp realm procedure ttl) \<noteq> Inl Panic"
    using a np pub [OF enc(1)] by (cases a) (simp_all add: advertise_direct_def del: AdvertiseSpec_new_def)
  obtain r where "(new_procedure_advertisement_with_cert_chain (uint (env_now_ms E (n + 1))) (env_id E (n + 1)) (node_id C kp)
      (discovery_uri realm procedure) (he_node_id (station s')) ttl chain :: (Record, AdvertiseDirectError fail) result) = Inr r"
    "record_encodable r" using enc(2) by blast
  then show "fst (advertise_direct_with_cert_chain C E n s kp realm procedure ttl chain) \<noteq> Inl Panic"
    using a np pub [of r] by (cases a) (simp_all add: advertise_direct_with_cert_chain_def del: AdvertiseSpec_new_def)
qed

subsection \<open>Content\<close>

lemma bindS_no_panic:
  "fst r \<noteq> Inl Panic \<Longrightarrow> (\<And>x s. r = (Inr x, s) \<Longrightarrow> fst (f x s) \<noteq> Inl Panic) \<Longrightarrow> fst (bindS r f) \<noteq> Inl Panic"
  by (cases r; cases "fst r") (auto simp: bindS_def)

text \<open>Where additions are checked, the clock leaves room for the timeouts of content calls.\<close>

definition content_room :: "env \<Rightarrow> bool" where
  "content_room E \<longleftrightarrow> (env_overflow_checks E \<longrightarrow> leaves_room E (uint BLOCK_TIMEOUT))"

lemma content_room_fits:
  assumes "content_room E" "timeout \<in> {BLOCK_TIMEOUT, MANIFEST_TIMEOUT}"
  shows "\<not> (env_overflow_checks E \<and> 2 ^ 64 \<le> uint (env_now_ms E n) + uint timeout)"
proof
  assume o: "env_overflow_checks E \<and> 2 ^ 64 \<le> uint (env_now_ms E n) + uint timeout"
  then have "uint (env_now_ms E n) + uint BLOCK_TIMEOUT < 2 ^ 64" using assms(1) by (simp only: content_room_def leaves_room_def simp_thms)
  moreover have "uint timeout \<le> uint BLOCK_TIMEOUT" using assms(2) by (auto simp: BLOCK_TIMEOUT_def MANIFEST_TIMEOUT_def)
  ultimately show False using o by linarith
qed

lemma call_attempts_no_panic:
  "content_room E \<Longrightarrow> timeout \<in> {BLOCK_TIMEOUT, MANIFEST_TIMEOUT} \<Longrightarrow> encodable payload \<Longrightarrow> fst (call_attempts k C E procedure payload timeout kp s) \<noteq> Inl Panic"
proof (induction k C E procedure payload timeout kp s rule: call_attempts.induct)
  case (1 k C E procedure payload timeout kp st n)
  obtain r st' n' where r: "fs_call C E n st procedure CONTENT_REALM payload (uint (env_now_ms E n + timeout)) kp = (r, st', n')"
    by (metis prod.exhaust)
  then have "r \<noteq> Inl Panic"
    using fs_call_no_panic [OF 1(4) in_range_uint(1), of C E n st procedure CONTENT_REALM _ kp "[]"] by (metis fs_call_def fst_conv)
  then show ?case
    unfolding call_attempts.simps [of k] if_not_P [OF content_room_fits [OF 1(2,3)]]
    using 1(1) [OF content_room_fits [OF 1(2,3)] r [symmetric] refl _ 1(2-4)] r by simp
qed

lemma content_call_no_panic:
  "content_room E \<Longrightarrow> timeout \<in> {BLOCK_TIMEOUT, MANIFEST_TIMEOUT} \<Longrightarrow> encodable payload \<Longrightarrow> fst (map_err_call g (call_with_retry C E procedure payload timeout kp s)) \<noteq> Inl Panic"
  using call_attempts_no_panic [of E timeout payload 1 C procedure kp s]
  by (auto simp: map_err_call_def call_with_retry_def split: prod.splits)

lemma put_block_no_panic: "content_room E \<Longrightarrow> fst (put_block C E kp mcid b s) \<noteq> Inl Panic"
  unfolding put_block_def by (rule bindS_no_panic [OF content_call_no_panic]) (auto simp: content_timeouts split: CallResponse.splits Value.splits)

lemma get_block_no_panic: "content_room E \<Longrightarrow> fst (get_block C E kp mcid s) \<noteq> Inl Panic"
  unfolding get_block_def by (rule bindS_no_panic [OF content_call_no_panic]) (auto simp: content_timeouts split: CallResponse.splits Value.splits)

lemma get_manifest_no_panic: "content_room E \<Longrightarrow> fst (get_manifest C E kp mcid s) \<noteq> Inl Panic"
  unfolding get_manifest_def by (rule bindS_no_panic [OF content_call_no_panic]) (auto simp: content_timeouts split: CallResponse.splits Value.splits)

lemma get_manifest_from_wire: "get_manifest C E kp mcid s = (Inr m, s') \<Longrightarrow> \<exists>v. from_wire v = Inr m"
  by (auto simp: get_manifest_def bindS_def map_err_eq_Inr split: prod.splits sum.splits CallResponse.splits Value.splits if_splits)

lemma get_chunks_no_panic:
  "content_room E \<Longrightarrow> \<forall>k \<in> set ks. k < length (mf_chunks m) \<Longrightarrow> fst (get_chunks C E kp m ks acc s) \<noteq> Inl Panic"
proof (induction ks arbitrary: acc s)
  case (Cons k ks)
  have "fst (bindS (get_block C E kp mcid s) (\<lambda>chunk s.
      if block_mcid C chunk \<noteq> mcid then (Inl (Err GetHashMismatch), s) else get_chunks C E kp m ks (acc @ chunk) s)) \<noteq> Inl Panic" for mcid
    by (rule bindS_no_panic [OF get_block_no_panic [OF Cons.prems(1)]]) (use Cons in auto)
  then show ?case using Cons.prems by (simp add: chunk_mcid_def)
qed simp

lemma content_get_no_panic:
  assumes "content_room E"
  shows "content_get C E n kp opened mcid \<noteq> Inl Panic"
proof (cases opened)
  case (Some st)
  have "fst (bindS (get_manifest C E kp mcid (st, n)) (\<lambda>m s.
      bindS (get_chunks C E kp m [0..<mf_chunk_count m] [] s) (\<lambda>b s.
        (bindR (map_err (lift_fail GetVerify) (verify_manifest C m b)) (\<lambda>_. Inr b), s)))) \<noteq> Inl Panic"
  proof (rule bindS_no_panic [OF get_manifest_no_panic [OF assms]])
    fix m s'
    assume "get_manifest C E kp mcid (st, n) = (Inr m, s')"
    then obtain v where v: "from_wire v = Inr m" using get_manifest_from_wire by blast
    have "verify_manifest C m b \<noteq> Inl Panic" for b
      using from_wire_facts(1) [OF v] by (auto simp: verify_manifest_def do_chunk_def Let_def)
    then show "fst (bindS (get_chunks C E kp m [0..<mf_chunk_count m] [] s') (\<lambda>b s.
        (bindR (map_err (lift_fail GetVerify) (verify_manifest C m b)) (\<lambda>_. Inr b), s))) \<noteq> Inl Panic"
      using from_wire_facts(2) [OF v] by (intro bindS_no_panic get_chunks_no_panic assms) (auto simp: bindR_eq_Inl)
  qed
  moreover have "fst (bindS (get_block C E kp mcid (st, n)) (\<lambda>b s.
      if block_mcid C b \<noteq> mcid then (Inl (Err GetHashMismatch), s) else (Inr b, s))) \<noteq> Inl Panic"
    by (rule bindS_no_panic [OF get_block_no_panic [OF assms]]) simp
  ultimately show ?thesis using Some by (simp add: content_get_def)
qed (simp add: content_get_def)

lemma create_manifest_encodable:
  assumes "0 < op_chunk_size opts" "op_chunk_size opts < 2 ^ 64" "length b < 2 ^ 64"
  shows "\<exists>m. (create_manifest C b opts created :: (_, 'e fail) result) = Inr (m, slice_chunks (op_chunk_size opts) b) \<and>
    length (mf_chunks m) = length (slice_chunks (op_chunk_size opts) b) \<and> encodable (to_wire m)"
proof -
  let ?cs = "slice_chunks (op_chunk_size opts) b" and ?alg = "op_hash_algorithm opts"
  have count: "length ?cs < 2 ^ 64" using length_slice_chunks_le [OF assms(1), of b] assms(3) by simp
  have range: "in_range (int k)" if "k < 2 ^ 64" for k using that by (simp add: in_range_def)
  have "encodable (Map [(Text ''name'', Text (op_name opts)), (Text ''size'', IntV (uint (word_of_nat (length b) :: u64))),
        (Text ''chunk_size'', IntV (int (op_chunk_size opts))), (Text ''chunk_count'', IntV (int (length ?cs))),
        (Text ''hash_algorithm'', Text (algorithm_name ?alg)), (Text ''root_hash'', Bytes r)])" for r
    using range [OF assms(2)] range [OF count] by simp
  then obtain canonical where "encode (Map [(Text ''name'', Text (op_name opts)), (Text ''size'', IntV (uint (word_of_nat (length b) :: u64))),
        (Text ''chunk_size'', IntV (int (op_chunk_size opts))), (Text ''chunk_count'', IntV (int (length ?cs))),
        (Text ''hash_algorithm'', Text (algorithm_name ?alg)), (Text ''root_hash'', Bytes (root_hash_for C (chunk_infos C ?cs ?alg) ?alg))]) = Inr canonical"
    using encode_encodable(1) unfolding encode_def by blast
  then obtain m where m: "(create_manifest C b opts created :: (_, 'e fail) result) = Inr (m, ?cs)"
    using assms(1) by (simp add: create_manifest_def do_chunk_def compute_mcid_def Let_def chunk_infos_def chunk_infos_from_facts)
  note f = create_manifest_facts [OF m]
  have n: "length (mf_chunks m) = length ?cs" by (simp add: f(7) chunk_infos_def chunk_infos_from_facts)
  have "encodable (chunk_info_to_wire (mf_chunks m ! k))" if k: "k < length ?cs" for k
  proof -
    have "concat ?cs = b" by (rule concat_slice_chunks [OF assms(1)])
    then have "length (concat (take k ?cs)) \<le> length b \<and> length (?cs ! k) \<le> length b" using length_in_concat [OF k] by simp
    then have "length (concat (take k ?cs)) < 2 ^ 64" "length (?cs ! k) < 2 ^ 64" "k < 2 ^ 64" using assms(3) k count by simp_all
    note this [THEN range]
    then show ?thesis using k by (simp add: f(7) chunk_infos_nth chunk_info_to_wire_def)
  qed
  then have "\<forall>i \<in> set (mf_chunks m). encodable (chunk_info_to_wire i)" using n by (metis in_set_conv_nth)
  moreover have "uint (mf_version m) = 1" by (simp add: f(10))
  ultimately have "encodable (to_wire m)" using range [OF assms(2)] range [OF count] by (simp add: to_wire_def f(4,9) in_range_def)
  then show ?thesis using m n by blast
qed

lemma put_manifest_no_panic: "content_room E \<Longrightarrow> encodable (to_wire m) \<Longrightarrow> fst (put_manifest C E kp m s) \<noteq> Inl Panic"
  unfolding put_manifest_def by (rule bindS_no_panic [OF content_call_no_panic]) (auto simp: content_timeouts split: CallResponse.splits Value.splits)

lemma put_chunks_no_panic:
  "content_room E \<Longrightarrow> index + length cs \<le> length (mf_chunks m) \<Longrightarrow> fst (put_chunks C E kp m index cs s) \<noteq> Inl Panic"
proof (induction cs arbitrary: index s)
  case (Cons c cs)
  have "fst (bindS (put_block C E kp mcid c s) (\<lambda>_ s. put_chunks C E kp m (index + 1) cs s)) \<noteq> Inl Panic" for mcid
    by (rule bindS_no_panic [OF put_block_no_panic [OF Cons.prems(1)]]) (use Cons in auto)
  then show ?case using Cons.prems by (simp add: chunk_mcid_def)
qed simp

lemma content_put_no_panic:
  assumes "length b < 2 ^ 64" "content_room E"
  shows "fst (content_put C E n kp opened created b name) \<noteq> Inl Panic"
proof (cases opened)
  case (Some st)
  have put: "fst (case put_block C E kp (block_mcid C b) b (st, n) of (r, s) \<Rightarrow> (bindR r (\<lambda>_. Inr (block_mcid C b)), Some s)) \<noteq> Inl Panic"
    using put_block_no_panic [OF assms(2), of C kp "block_mcid C b" b "(st, n)"] by (auto simp: bindR_eq_Inl split: prod.splits)
  let ?opts = "CreateOptions_default\<lparr>op_name := name\<rparr>"
  have opts: "0 < op_chunk_size ?opts" "op_chunk_size ?opts < 2 ^ 64" by (simp_all add: CreateOptions_default_def DEFAULT_CHUNK_SIZE_def)
  obtain m where m: "(create_manifest C b ?opts created :: (_, PutError fail) result) = Inr (m, slice_chunks (op_chunk_size ?opts) b)"
    "length (mf_chunks m) = length (slice_chunks (op_chunk_size ?opts) b)" "encodable (to_wire m)"
    using create_manifest_encodable [OF opts assms(1), where 'e = PutError] by blast
  have "fst (bindS (put_chunks C E kp m 0 (slice_chunks (op_chunk_size ?opts) b) (st, n))
      (\<lambda>_ s. bindS (put_manifest C E kp m s) (\<lambda>_ s. (Inr (mf_mcid m), s)))) \<noteq> Inl Panic"
    by (intro bindS_no_panic put_chunks_no_panic put_manifest_no_panic assms(2)) (simp_all add: m(2,3))
  then show ?thesis using put m(1) Some by (auto simp: content_put_def Let_def split: prod.splits)
qed (simp add: content_put_def)

subsection \<open>Content over a direct dial\<close>

lemma put_direct_no_panic:
  assumes "length b < 2 ^ 64" "leaves_room E DHT_TIMEOUT" "content_room E"
  shows "fst (put_direct C E n s kp dials created target b name) \<noteq> Inl Panic"
  unfolding put_direct_def
proof (rule then_no_panic [OF resolve_no_panic(3) [OF assms(2)]])
  fix resolved :: Resolved and m
  have "(case content_put C E (m + 1) kp (session_open_bi session (m + 1)) created b name of
      (Inl Panic, _) \<Rightarrow> Inl Panic
    | (x, st) \<Rightarrow> close_then C E (case st of Some (_, k) \<Rightarrow> k | None \<Rightarrow> m + 1) ''normal'' kp session (map_err (lift_fail PutDirectPut) x)) \<noteq> Inl Panic"
    for session
    using content_put_no_panic [OF assms(1,3), of C "m + 1" kp "session_open_bi session (m + 1)" created name]
    by (auto split: prod.splits sum.splits fail.splits intro!: close_then_no_panic)
  then show "bindR (map_err (lift_fail PutDirectDial) (dial_and_verify C E m kp dials (rs_host resolved) (rs_port resolved) (rs_station resolved)))
      (\<lambda>session. case content_put C E (m + 1) kp (session_open_bi session (m + 1)) created b name of
          (Inl Panic, _) \<Rightarrow> Inl Panic
        | (x, st) \<Rightarrow> close_then C E (case st of Some (_, k) \<Rightarrow> k | None \<Rightarrow> m + 1) ''normal'' kp session (map_err (lift_fail PutDirectPut) x)) \<noteq> Inl Panic"
    by (simp add: bindR_eq_Inl dial_and_verify_no_panic)
qed

lemma get_direct_no_panic:
  assumes "leaves_room E DHT_TIMEOUT" "content_room E"
  shows "fst (get_direct C E n s kp dials mcid) \<noteq> Inl Panic"
proof -
  obtain r s' n' where r: "find_records C E n s kp (content_key C mcid) = (r, s', n')" by (metis prod.exhaust)
  have np: "r \<noteq> Inl Panic" using find_no_panic(2) [OF assms(1), of C n s kp "content_key C mcid"] r by simp
  have get: "(case content_get C E k kp opened mcid of
      Inl Panic \<Rightarrow> Inl Panic | x \<Rightarrow> close_then C E m ''normal'' kp session (map_err (lift_fail GetDirectGet) x)) \<noteq> Inl Panic" for k m opened session
    using content_get_no_panic [OF assms(2), of C k kp opened mcid] by (auto split: sum.splits fail.splits intro!: close_then_no_panic)
  show ?thesis
  proof (cases r)
    case (Inr rs)
    obtain p n2 where p: "(first_trusted_content_provider C E n' rs :: (_, GetDirectError fail) result \<times> nat) = (p, n2)" by (metis prod.exhaust)
    have "p \<noteq> Inl Panic"
      using first_provider_no_panic [OF find_records_wf [OF r [unfolded Inr]], where 'e = GetDirectError, of C E n'] p by simp
    then show ?thesis using r Inr p get
      by (auto simp: get_direct_def bindR_eq_Inl dial_and_verify_no_panic)
  qed (use r np in \<open>auto simp: get_direct_def bindR_eq_Inl\<close>)
qed

end
