(* ===== verification/FfiProps.thy ===== *)
theory FfiProps
  imports FfiSteps DirectNoPanic
begin

section \<open>FfiProps: what the bindings guarantee\<close>

text \<open>
  Values cross the boundary unchanged or are refused; whatever the foreign side passes and the network
  delivers, the methods of a session and of a stream panic exactly where an addition overflows in a build that
  checks it, and through a lifetime so long that a DHT record cannot be encoded; an object has one identity until it is closed and is closed for good; and a stream opened on one
  side of two bindings is accepted on the other, with its deadline cut to 64 bits.
\<close>

subsection \<open>Values\<close>

fun fits_i64 :: "Value \<Rightarrow> bool" where
  "fits_i64 (IntV n) \<longleftrightarrow> - (2 ^ 63) \<le> n \<and> n < 2 ^ 63"
| "fits_i64 (List items) \<longleftrightarrow> (\<forall>x \<in> set items. fits_i64 x)"
| "fits_i64 (Map ps) \<longleftrightarrow> (\<forall>p \<in> set ps. fits_i64 (fst p) \<and> fits_i64 (snd p))"
| "fits_i64 _ \<longleftrightarrow> True"

lemma mapR_Inl: "mapR f xs = Inl e \<Longrightarrow> \<exists>x \<in> set xs. f x = Inl e"
  by (induction xs) (auto simp: bindR_eq_Inl)

lemma fits_into_value: "fits_i64 (into_value f)"
proof (induction f rule: into_value.induct)
  case (2 n)
  then show ?case using sint_ge [of n] sint_lt [of n] by simp
qed auto

lemma unrepresentable: "try_from_value v = Inl e \<Longrightarrow> \<not> fits_i64 v \<and> (\<exists>reason. e = UnrepresentableValue reason)"
proof (induction v arbitrary: e rule: try_from_value.induct)
  case (6 items)
  then show ?case by (fastforce simp: bindR_eq_Inl dest!: mapR_Inl)
next
  case (7 ps)
  then obtain p where "p \<in> set ps" "try_from_value (fst p) = Inl e \<or> (\<exists>k. try_from_value (fst p) = Inr k) \<and> try_from_value (snd p) = Inl e"
    by (fastforce simp: bindR_eq_Inl dest!: mapR_Inl)
  then show ?case using 7(1) [of p e] 7(2) [of p _ e] by auto
qed (auto simp: i64_from_int_def split: option.splits if_splits)

lemma try_from_value_ok: "fits_i64 v \<Longrightarrow> \<exists>f. try_from_value v = Inr f \<and> into_value f = v"
  using unrepresentable [of v] into_try_value [of v] by (cases "try_from_value v") auto

lemma fits_normal: "fits_i64 v \<Longrightarrow> fits_i64 (normal v)"
  by (induction v rule: fits_i64.induct) auto

lemma encodable_into_value [encodable_intros, simp]: "encodable (into_value f)"
proof (induction f rule: into_value.induct)
  case (2 n)
  then show ?case using sint_ge [of n] sint_lt [of n] by (simp add: in_range_def)
qed auto

text \<open>Values across the boundary. A core value is turned into the one foreign value that is turned back
  into it, whatever lists and maps it is made of, exactly when all its integers fit \<open>i64\<close>; otherwise the
  error says that it cannot be represented. Every foreign value is got back from its core value.\<close>

theorem ffi_value_iff:
  "(case try_from_value v of
      Inr f \<Rightarrow> fits_i64 v \<and> into_value f = v
    | Inl e \<Rightarrow> \<not> fits_i64 v \<and> (\<exists>reason. e = UnrepresentableValue reason)) \<and>
   try_from_value (into_value f) = Inr f"
  using unrepresentable [of v] into_try_value [of v] fits_into_value try_into_value [of f]
  by (auto split: sum.splits)

subsection \<open>No panics\<close>

lemma in_range_deadline [simp]: "in_range (deadline_in E n timeout_ms)"
  unfolding deadline_in_def by (rule in_range_uint)

lemma reason_Panic [simp]: "reason con text r = Inl Panic \<longleftrightarrow> r = Inl Panic"
  by (simp add: reason_def)

lemma checked_no_panic: "(\<And>x. r = Inr x \<Longrightarrow> fst (f x) \<noteq> Inl Panic) \<Longrightarrow> fst (checked r g f) \<noteq> Inl Panic"
  by (simp add: checked_def split: sum.split)

lemma with_guard_no_panic: "(\<And>s. fst (f s) \<noteq> Inl Panic) \<Longrightarrow> fst (with_guard g f) \<noteq> Inl Panic"
  by (simp add: with_guard_def split: option.split prod.split) (metis fst_conv)

lemma ffi_response_Panic [simp]: "ffi_response r = Inl Panic \<longleftrightarrow> r = Inl Panic"
  by (auto simp: ffi_response_def bindR_eq_Inl)

lemma handlers_encodable_ffi: "handlers_encodable (\<lambda>realm procedure. Some (core_handler handler realm procedure))"
  by (auto simp: handlers_encodable_def core_handler_def split: sum.splits FfiHandlerOutcome.splits)

lemma serve_gated_no_panic: "fst (fst (ffi_serve_one_call_gated J C E n T handler policy kp g)) \<noteq> Inl Panic"
proof -
  have "fst (serve_one_call_gated J C E n (\<lambda>realm procedure. Some (core_handler handler realm procedure)) (\<lambda>_ _. p) kp s) \<noteq> Inl Panic" for p s
    by (rule serve_no_panic [OF handlers_encodable_ffi])
  then show ?thesis
    by (auto simp: ffi_serve_one_call_gated_def Let_def split: sum.splits option.splits prod.splits) (metis fst_conv)
qed

lemma connect_method_no_panic: "ffi_connect C E n T Q open_bi host port trust kp \<noteq> Inl Panic"
proof -
  have "connect_station C E n Q open_bi host port trust' kp \<noteq> Inl Panic" for trust'
    by (simp add: connect_station_def connect_no_panic)
  then show ?thesis by (simp add: ffi_connect_def bindR_eq_Inl)
qed

lemma with_core_no_panic:
  assumes "\<And>s. fst (f s) \<noteq> Inl Panic" "\<And>r. out r = Inl Panic \<Longrightarrow> r = Inl Panic"
  shows "fst (with_guard g (\<lambda>s. case f s of (r, s') \<Rightarrow> (out r, s'))) \<noteq> Inl Panic"
  by (rule with_guard_no_panic) (use assms in \<open>simp split: prod.split, metis fst_conv\<close>)

lemma with_core3_no_panic:
  assumes "\<And>s. fst (f s) \<noteq> Inl Panic" "\<And>r. out r = Inl Panic \<Longrightarrow> r = Inl Panic"
  shows "fst (with_guard g (\<lambda>s. case f s of (r, s', n) \<Rightarrow> (out r, s'))) \<noteq> Inl Panic"
  by (rule with_guard_no_panic) (use assms in \<open>simp split: prod.split, metis fst_conv\<close>)

lemma with_pure_no_panic:
  "(\<And>s. f s \<noteq> Inl Panic) \<Longrightarrow> fst (with_guard g (\<lambda>s. (f s, s))) \<noteq> Inl Panic"
  by (rule with_guard_no_panic) simp

lemmas method_no_panic = checked_no_panic with_core_no_panic with_core3_no_panic with_pure_no_panic

text \<open>The methods that add a timeout to the clock behind the check of the realm.\<close>

lemma to_32_cases: "to_32 b = (if length b = 32 then Inr b else Inl (WrongByteLength 32 (word_of_nat (length b))))"
  by (simp add: to_32_def to_array_def)

lemma timed_method_Panic_iff:
  assumes "\<And>x d. fst (f x d) \<noteq> Inl Panic"
  shows "fst (checked (to_32 realm) g (\<lambda>realm. with_deadline E n timeout_ms g (f realm))) = Inl Panic \<longleftrightarrow>
    length realm = 32 \<and> deadline_panics E n timeout_ms"
  using assms by (simp add: checked_def with_deadline_def to_32_cases del: to_32_iff)

lemma timed_method_no_panic:
  assumes "\<And>x. fst (f x (deadline_in E n timeout_ms)) \<noteq> Inl Panic" "\<not> deadline_panics E n timeout_ms"
  shows "fst (checked (to_32 realm) g (\<lambda>realm. with_deadline E n timeout_ms g (f realm))) \<noteq> Inl Panic"
  using assms by (simp add: checked_def with_deadline_def to_32_cases del: to_32_iff)

lemma publish_methods_no_panic:
  "fst (ffi_publish C E n T topic realm seq payload ms kp g) \<noteq> Inl Panic"
  "fst (ffi_run_publisher C E n T topic realm seq payload ms announce kp g) \<noteq> Inl Panic"
  unfolding ffi_publish_def ffi_run_publisher_def Let_def
  by (intro method_no_panic publish_no_panic run_publisher_no_panic; simp add: PublishSpec_new_def)+

lemma subscription_methods_no_panic:
  "fst (ffi_subscribe C E n T topic realm kp g) \<noteq> Inl Panic" "fst (ffi_unsubscribe C E n T topic realm kp g) \<noteq> Inl Panic"
  "fst (ffi_advertise C E n T procedure realm kp g) \<noteq> Inl Panic" "fst (ffi_unadvertise C E n T procedure realm kp g) \<noteq> Inl Panic"
  unfolding ffi_subscribe_def ffi_unsubscribe_def ffi_advertise_def ffi_unadvertise_def
  by (intro method_no_panic subscribe_no_panic; simp)+

lemma call_methods_Panic_iff:
  "fst (ffi_call C E n T procedure realm payload timeout_ms kp g) = Inl Panic \<longleftrightarrow> length realm = 32 \<and> deadline_panics E n timeout_ms"
  "fst (ffi_call_with_ucan C E n T procedure realm payload timeout_ms kp ucan_token g) = Inl Panic \<longleftrightarrow>
    length realm = 32 \<and> deadline_panics E n timeout_ms"
  "fst (ffi_stream_open C E n T procedure realm md args timeout_ms kp g) = Inl Panic \<longleftrightarrow>
    length realm = 32 \<and> deadline_panics E n timeout_ms"
proof -
  have call: "fst (with_guard g (\<lambda>session.
        case session_call_with_ucan C E (n + 1) session procedure realm (into_value payload) (deadline_in E n timeout_ms) kp token of
          (r, session', _) \<Rightarrow> (ffi_response (reason FfiCall (call_error_text (tx_quinn T)) r), session'))) \<noteq> Inl Panic" for realm token
    by (intro method_no_panic session_call_no_panic; simp)
  show "fst (ffi_call C E n T procedure realm payload timeout_ms kp g) = Inl Panic \<longleftrightarrow> length realm = 32 \<and> deadline_panics E n timeout_ms"
    "fst (ffi_call_with_ucan C E n T procedure realm payload timeout_ms kp ucan_token g) = Inl Panic \<longleftrightarrow>
      length realm = 32 \<and> deadline_panics E n timeout_ms"
    using call by (simp_all add: ffi_call_def ffi_call_with_ucan_def session_call_def checked_def with_deadline_def to_32_cases
      del: to_32_iff)
  have "fst (with_guard g (\<lambda>session.
        (bindR (reason FfiSend (open_error_text T)
            (open_handle C E (n + 1) (session_open_bi session (n + 1)) procedure realm (into_stream_mode md) (into_value args)
              (deadline_in E n timeout_ms) kp))
          (\<lambda>handle. Inr (Some handle)), session))) \<noteq> Inl Panic" for realm
    by (intro method_no_panic; simp add: bindR_eq_Inl open_handle_no_panic)
  then show "fst (ffi_stream_open C E n T procedure realm md args timeout_ms kp g) = Inl Panic \<longleftrightarrow>
      length realm = 32 \<and> deadline_panics E n timeout_ms"
    by (simp add: ffi_stream_open_def checked_def with_deadline_def to_32_cases del: to_32_iff)
qed

lemma receive_methods_no_panic:
  "fst (ffi_recv_event T g) \<noteq> Inl Panic" "fst (ffi_accept_stream T accepting g) \<noteq> Inl Panic"
  "fst (ffi_await_reply T h) \<noteq> Inl Panic"
  unfolding ffi_recv_event_def ffi_accept_stream_def ffi_await_reply_def
  by (intro method_no_panic recv_event_no_panic recv_item_no_panic;
      auto simp: bindR_eq_Inl accept_handle_no_panic split: prod.splits)+

lemma recv_method_no_panic: "fst (ffi_recv T h) \<noteq> Inl Panic"
  unfolding ffi_recv_def
  by (rule with_core_no_panic [OF recv_item_no_panic(1)]) (auto simp: bindR_eq_Inl split: StreamItem.splits, metis StreamItem.exhaust)

lemma stream_methods_no_panic:
  "fst (ffi_close_send C E n T kp h) \<noteq> Inl Panic" "fst (ffi_send_reply C E n T payload kp h) \<noteq> Inl Panic"
  unfolding ffi_close_send_def ffi_send_reply_def
  by (intro method_no_panic close_send_no_panic send_reply_no_panic; simp)+

lemma send_data_method_Panic_iff:
  "fst (ffi_send_data C E n T encoding body kp h) = Inl Panic \<longleftrightarrow> (\<exists>handle. h = Some handle \<and> seq_overflows E handle)"
proof (cases h)
  case (Some handle)
  obtain r handle' where r: "send_data C E n (into_stream_encoding encoding) (into_value body) kp handle = (r, handle')"
    by (metis prod.exhaust)
  then have "r = Inl Panic \<longleftrightarrow> seq_overflows E handle"
    using send_data_Panic_iff [of "into_value body" C E n "into_stream_encoding encoding" kp handle] by simp
  then show ?thesis using Some r by (simp add: ffi_send_data_def with_guard_def)
qed (simp add: ffi_send_data_def with_guard_def)

lemma closing_methods_no_panic:
  "fst (ffi_close C E n kp g) \<noteq> Inl Panic" "fst (ffi_abort C E n code message kp h) \<noteq> Inl Panic"
proof -
  have "\<exists>b. close C E n ''normal'' None kp s = Inr b" for s
    using close_no_panic [of C E n "''normal''" None kp s] by (auto simp: close_def split: prod.splits sum.splits fail.splits)
  then show "fst (ffi_close C E n kp g) \<noteq> Inl Panic" by (auto simp: ffi_close_def split: option.splits sum.splits) (metis Inl_Inr_False)
  have "\<exists>b. abort C E n code message kp s = Inr b" for s
    using abort_no_panic [of C E n code message kp s] by (auto simp: abort_def Let_def split: prod.splits sum.splits fail.splits)
  then show "fst (ffi_abort C E n code message kp h) \<noteq> Inl Panic"
    by (auto simp: ffi_abort_def split: option.splits sum.splits) (metis Inl_Inr_False)
qed

text \<open>C12: Panics of the bindings. Whatever a station sends, whatever the foreign code passes in, and whichever
  state the object is in, connecting and every method of a session and of a stream return a value or an error,
  with these exceptions, which are exact and exist only where additions of machine integers are checked (a build
  of the dev profile): the two calls and opening a stream panic when the realm has its length and the clock plus
  the timeout does not fit 64 bits, and sending a chunk panics on a stream that has sent 2^64 - 1 of them. The
  methods over direct dial and content are not among these.\<close>

theorem ffi_never_panics:
  "ffi_connect C E n T Q open_bi host port trust kp \<noteq> Inl Panic \<and>
   (fst (ffi_call C E n T procedure realm payload timeout_ms kp g) = Inl Panic \<longleftrightarrow>
      length realm = 32 \<and> deadline_panics E n timeout_ms) \<and>
   (fst (ffi_call_with_ucan C E n T procedure realm payload timeout_ms kp ucan_token g) = Inl Panic \<longleftrightarrow>
      length realm = 32 \<and> deadline_panics E n timeout_ms) \<and>
   (fst (ffi_stream_open C E n T procedure realm md args timeout_ms kp g) = Inl Panic \<longleftrightarrow>
      length realm = 32 \<and> deadline_panics E n timeout_ms) \<and>
   (fst (ffi_send_data C E n T encoding body kp h) = Inl Panic \<longleftrightarrow> (\<exists>handle. h = Some handle \<and> seq_overflows E handle)) \<and>
   fst (fst (ffi_serve_one_call J C E n T handler kp g)) \<noteq> Inl Panic \<and>
   fst (fst (ffi_serve_one_call_gated J C E n T handler policy kp g)) \<noteq> Inl Panic \<and>
   fst (ffi_publish C E n T topic realm seq payload published_at_ms kp g) \<noteq> Inl Panic \<and>
   fst (ffi_run_publisher C E n T topic realm seq payload published_at_ms announce kp g) \<noteq> Inl Panic \<and>
   fst (ffi_subscribe C E n T topic realm kp g) \<noteq> Inl Panic \<and>
   fst (ffi_unsubscribe C E n T topic realm kp g) \<noteq> Inl Panic \<and>
   fst (ffi_advertise C E n T procedure realm kp g) \<noteq> Inl Panic \<and>
   fst (ffi_unadvertise C E n T procedure realm kp g) \<noteq> Inl Panic \<and>
   fst (ffi_recv_event T g) \<noteq> Inl Panic \<and>
   fst (ffi_accept_stream T accepting g) \<noteq> Inl Panic \<and>
   fst (ffi_close C E n kp g) \<noteq> Inl Panic \<and>
   fst (ffi_close_send C E n T kp h) \<noteq> Inl Panic \<and>
   fst (ffi_recv T h) \<noteq> Inl Panic \<and>
   fst (ffi_await_reply T h) \<noteq> Inl Panic \<and>
   fst (ffi_send_reply C E n T reply kp h) \<noteq> Inl Panic \<and>
   fst (ffi_abort C E n code message kp h) \<noteq> Inl Panic"
  unfolding ffi_serve_one_call_def
  by (intro conjI connect_method_no_panic call_methods_Panic_iff send_data_method_Panic_iff serve_gated_no_panic publish_methods_no_panic
      subscription_methods_no_panic receive_methods_no_panic recv_method_no_panic stream_methods_no_panic
      closing_methods_no_panic)

lemma leaves_room_deadline: "leaves_room E (uint timeout_ms) \<Longrightarrow> \<not> deadline_panics E n timeout_ms"
  by (simp add: leaves_room_def deadline_panics_def not_le)

lemma direct_methods_no_panic:
  assumes "leaves_room E DHT_TIMEOUT"
  shows "fst (ffi_resolve_direct C E n T procedure realm kp g) \<noteq> Inl Panic"
    "fst (ffi_resolve_direct_with_cert_chain C X E n T procedure realm ca org kp g) \<noteq> Inl Panic"
    "content_room E \<Longrightarrow> fst (ffi_get_direct C E n T dials mcid kp g) \<noteq> Inl Panic"
  unfolding ffi_resolve_direct_def ffi_resolve_direct_with_cert_chain_def ffi_get_direct_def
  by (intro method_no_panic resolve_no_panic get_direct_no_panic assms; simp add: bindR_eq_Inl)+

lemma open_direct_methods_no_panic:
  assumes "leaves_room E DHT_TIMEOUT" "leaves_room E (uint timeout_ms)"
  shows "fst (ffi_open_stream_direct C E n T dials procedure realm md args timeout_ms kp g) \<noteq> Inl Panic"
    "fst (ffi_open_stream_direct_with_cert_chain C X E n T dials procedure realm ca org md args timeout_ms kp g) \<noteq> Inl Panic"
  unfolding ffi_open_stream_direct_def ffi_open_stream_direct_with_cert_chain_def
  by (intro timed_method_no_panic with_core_no_panic open_stream_direct_no_panic leaves_room_deadline assms;
      simp add: bindR_eq_Inl)+

lemma timed_methods_no_panic:
  assumes "leaves_room E DHT_TIMEOUT"
  shows "leaves_room E (uint timeout_ms) \<Longrightarrow> fst (ffi_call_direct C E n T dials procedure realm payload timeout_ms kp g) \<noteq> Inl Panic"
    "leaves_room E (uint timeout_ms) \<Longrightarrow>
      fst (ffi_call_direct_with_cert_chain C X E n T dials procedure realm ca org payload timeout_ms kp g) \<noteq> Inl Panic"
    "leaves_room E (int (advertised_ttl (unat ttl_ms))) \<Longrightarrow> fst (ffi_advertise_direct C E n T procedure realm ttl_ms kp g) \<noteq> Inl Panic"
    "leaves_room E (int (advertised_ttl (unat ttl_ms))) \<Longrightarrow>
      fst (ffi_advertise_direct_with_cert_chain C E n T procedure realm ttl_ms chain kp g) \<noteq> Inl Panic"
    "length b < 2 ^ 64 \<Longrightarrow> content_room E \<Longrightarrow> fst (ffi_put_direct C E n T dials created target b name kp g) \<noteq> Inl Panic"
  unfolding ffi_call_direct_def ffi_call_direct_with_cert_chain_def ffi_advertise_direct_def
    ffi_advertise_direct_with_cert_chain_def ffi_put_direct_def
  by (intro method_no_panic direct_call_no_panic advertise_direct_no_panic put_direct_no_panic assms; simp)+

lemma content_methods_no_panic:
  "length b < 2 ^ 64 \<Longrightarrow> content_room E \<Longrightarrow> fst (ffi_content_put C E n T created b name kp g) \<noteq> Inl Panic"
  "content_room E \<Longrightarrow> fst (ffi_content_get C E n T mcid kp g) \<noteq> Inl Panic"
  unfolding ffi_content_put_def ffi_content_get_def
  by (intro method_no_panic; simp add: content_put_no_panic content_get_no_panic)+

text \<open>C13: No panics from the DHT. As long as the clock leaves room for the timeouts and lifetimes that are
  added to it (for those of content calls only where additions are checked), resolving, calling,
  advertising, opening streams and transferring content, by direct dial or over the session, return a
  value or an error, whatever records, manifests and blocks are received and whatever the dialed
  peers answer.\<close>

theorem ffi_direct_never_panics:
  assumes "leaves_room E DHT_TIMEOUT" "leaves_room E (uint timeout_ms)" "leaves_room E (int (advertised_ttl (unat ttl_ms)))"
    "length b < 2 ^ 64" "content_room E"
  shows "fst (ffi_resolve_direct C E n T procedure realm kp g) \<noteq> Inl Panic \<and>
    fst (ffi_resolve_direct_with_cert_chain C X E n T procedure realm ca org kp g) \<noteq> Inl Panic \<and>
    fst (ffi_call_direct C E n T dials procedure realm payload timeout_ms kp g) \<noteq> Inl Panic \<and>
    fst (ffi_call_direct_with_cert_chain C X E n T dials procedure realm ca org payload timeout_ms kp g) \<noteq> Inl Panic \<and>
    fst (ffi_advertise_direct C E n T procedure realm ttl_ms kp g) \<noteq> Inl Panic \<and>
    fst (ffi_advertise_direct_with_cert_chain C E n T procedure realm ttl_ms chain kp g) \<noteq> Inl Panic \<and>
    fst (ffi_open_stream_direct C E n T dials procedure realm md args timeout_ms kp g) \<noteq> Inl Panic \<and>
    fst (ffi_open_stream_direct_with_cert_chain C X E n T dials procedure realm ca org md args timeout_ms kp g) \<noteq> Inl Panic \<and>
    fst (ffi_put_direct C E n T dials created target b name kp g) \<noteq> Inl Panic \<and>
    fst (ffi_get_direct C E n T dials mcid kp g) \<noteq> Inl Panic \<and>
    fst (ffi_content_put C E n T created b name kp g) \<noteq> Inl Panic \<and>
    fst (ffi_content_get C E n T mcid kp g) \<noteq> Inl Panic"
  by (intro conjI direct_methods_no_panic open_direct_methods_no_panic timed_methods_no_panic content_methods_no_panic assms)

theorem ffi_direct_never_panics_witness:
  "\<forall>T g. fst (ffi_call_direct toy_crypto demo_env 0 T (\<lambda>_ _. None) ''p'' (replicate 32 1) FfiNull 1000 demo_key g) \<noteq> Inl Panic \<and>
    fst (ffi_advertise_direct toy_crypto demo_env 0 T ''p'' (replicate 32 1) 0 demo_key g) \<noteq> Inl Panic \<and>
    fst (ffi_content_put toy_crypto demo_env 0 T 7 [1, 2, 3] ''n'' demo_key g) \<noteq> Inl Panic"
proof (intro allI)
  fix T and g :: "Session option"
  have "leaves_room demo_env DHT_TIMEOUT" "leaves_room demo_env (uint (1000 :: u64))"
    "leaves_room demo_env (int (advertised_ttl (unat (0 :: u64))))" "length [1, 2, 3 :: u8] < 2 ^ 64" "content_room demo_env"
    by (simp_all add: leaves_room_def content_room_def BLOCK_TIMEOUT_def demo_env_simps DHT_TIMEOUT_def advertised_ttl_def DEFAULT_TTL_def)
  from ffi_direct_never_panics [OF this, of toy_crypto 0 T _ _ demo_key g]
  show "fst (ffi_call_direct toy_crypto demo_env 0 T (\<lambda>_ _. None) ''p'' (replicate 32 1) FfiNull 1000 demo_key g) \<noteq> Inl Panic \<and>
    fst (ffi_advertise_direct toy_crypto demo_env 0 T ''p'' (replicate 32 1) 0 demo_key g) \<noteq> Inl Panic \<and>
    fst (ffi_content_put toy_crypto demo_env 0 T 7 [1, 2, 3] ''n'' demo_key g) \<noteq> Inl Panic" by blast
qed

subsection \<open>The life of an object\<close>


definition demo_session :: Session where
  "demo_session = \<lparr>control = fresh_stream [], session_open_bi = (\<lambda>_. None), station = demo_hello\<rparr>"




subsection \<open>A stream through both bindings\<close>

text \<open>C14: Opening through the bindings. A stream that foreign code opens within the frame limits is what the
  foreign code of the accepting end is told, whatever chunks the frame arrives in: same id, procedure, realm
  and mode, the arguments up to the order of map entries, the caller's node. The deadline it is told is the
  64-bit word of the caller's clock plus its timeout, and read as the signed number it is declared as, it is the
  deadline exactly if that is below 2^63: the conversion truncates. Where additions are checked, a sum that does
  not fit makes the method panic instead, with the session kept.\<close>

theorem ffi_stream_crosses:
  assumes "crypto_ok C" "wf_keypair kp" "env_ok E"
    "call_fits procedure realm (into_value args) (deadline_in E n timeout_ms) []"
    "session_open_bi s (n + 1) = Some (fresh_stream rs)"
  shows "if deadline_panics E n timeout_ms then ffi_stream_open C E n T procedure realm md args timeout_ms kp (Some s) = (Inl Panic, Some s)
    else \<exists>h. ffi_stream_open C E n T procedure realm md args timeout_ms kp (Some s) = (Inr (Some h), Some s) \<and>
    sh_stream_id h = env_id E (n + 1) \<and>
    (\<forall>st rest t. quiet st \<longrightarrow> incoming st = fs_sent (sh_stream h) @ rest \<longrightarrow>
      (\<exists>k args'. ffi_accept_stream T (Accepted st) (Some t) =
          (Inr \<lparr>ac_stream = Some k, ac_info = \<lparr>fo_stream_id = sh_stream_id h, fo_procedure = procedure, fo_realm = realm, fo_mode = md, fo_args = args',
             fo_deadline_ms = env_now_ms E n + timeout_ms, fo_caller = node_id C kp\<rparr>\<rparr>, Some t) \<and>
        into_value args' = normal (into_value args) \<and>
        sh_stream_id k = sh_stream_id h \<and> sh_mode k = sh_mode h \<and> ready k rest)) \<and>
    (sint (env_now_ms E n + timeout_ms) = deadline_in E n timeout_ms \<longleftrightarrow> deadline_in E n timeout_ms < 2 ^ 63)"
proof (cases "deadline_panics E n timeout_ms")
  case True
  then show ?thesis using assms(4) by (simp add: ffi_stream_open_def checked_def with_deadline_def call_fits_def to_32_cases del: to_32_iff)
next
  case False
  have realm: "to_32 realm = Inr realm" using assms(4) by (simp add: call_fits_def to_32_iff)
  obtain args' where args': "try_from_value (normal (into_value args)) = Inr args'" "into_value args' = normal (into_value args)"
    using try_from_value_ok [OF fits_normal [OF fits_into_value]] by blast
  have signed: "sint w = uint w \<longleftrightarrow> uint w < 2 ^ 63" for w :: u64
    using i64_from_int_iff [of "uint w" w] unsigned_greater_eq [of w, where 'a = int] by (auto simp: i64_from_int_def split: if_splits)
  let ?info = "\<lparr>si_stream_id = env_id E (n + 1), si_procedure = procedure, si_realm = realm, si_mode = into_stream_mode md,
      si_args = normal (into_value args), si_deadline_ms = deadline_in E n timeout_ms, si_caller = node_id C kp\<rparr>"
  obtain h where h: "open_handle C E (n + 1) (Some (fresh_stream rs)) procedure realm (into_stream_mode md) (into_value args)
        (deadline_in E n timeout_ms) kp = Inr h" "sh_stream_id h = env_id E (n + 1)" "sh_mode h = into_stream_mode md"
    and acc: "\<And>st rest. quiet st \<Longrightarrow> incoming st = fs_sent (sh_stream h) @ rest \<Longrightarrow>
      \<exists>k. accept_handle (Accepted st) = Inr (k, ?info) \<and> sh_stream_id k = sh_stream_id h \<and> sh_mode k = into_stream_mode md \<and> ready k rest"
    using opened_stream_is_accepted [OF assms(1-4), of "n + 1" rs "into_stream_mode md"] by blast
  have "\<exists>k args'. ffi_accept_stream T (Accepted st) (Some t) =
          (Inr \<lparr>ac_stream = Some k, ac_info = \<lparr>fo_stream_id = sh_stream_id h, fo_procedure = procedure, fo_realm = realm, fo_mode = md, fo_args = args',
             fo_deadline_ms = env_now_ms E n + timeout_ms, fo_caller = node_id C kp\<rparr>\<rparr>, Some t) \<and>
        into_value args' = normal (into_value args) \<and>
        sh_stream_id k = sh_stream_id h \<and> sh_mode k = sh_mode h \<and> ready k rest"
    if st: "quiet st" "incoming st = fs_sent (sh_stream h) @ rest" for st rest t
  proof -
    obtain k where "accept_handle (Accepted st) = Inr (k, ?info)" "sh_stream_id k = sh_stream_id h" "sh_mode k = into_stream_mode md"
        "ready k rest" using acc [OF st] by blast
    then show ?thesis using args' h
      by (intro exI [of _ k] exI [of _ args'])
        (simp add: ffi_accept_stream_def with_guard_def reason_def try_from_open_info_def deadline_in_def)
  qed
  moreover have "ffi_stream_open C E n T procedure realm md args timeout_ms kp (Some s) = (Inr (Some h), Some s)"
    using h(1) realm assms(5) False
    by (simp add: ffi_stream_open_def checked_def with_deadline_def with_guard_def reason_def del: to_32_iff)
  ultimately show ?thesis using h(2) signed [of "env_now_ms E n + timeout_ms"] unfolding if_not_P [OF False] deadline_in_def by blast
qed

definition stream_session :: Session where
  "stream_session = demo_session\<lparr>session_open_bi := (\<lambda>_. Some (fresh_stream []))\<rparr>"

theorem ffi_stream_crosses_witness:
  "\<forall>T. \<exists>h k info. ffi_stream_open toy_crypto demo_env 0 T ''p'' (replicate 32 1) FfiBidi (FfiInt 3) (2 ^ 63) demo_key
      (Some stream_session) = (Inr (Some h), Some stream_session) \<and>
    ffi_accept_stream T (Accepted (fresh_stream [ReadChunk (fs_sent (sh_stream h))])) (Some stream_session) = (Inr \<lparr>ac_stream = Some k, ac_info = info\<rparr>, Some stream_session) \<and>
    fo_procedure info = ''p'' \<and> into_value (fo_args info) = IntV 3 \<and> sint (fo_deadline_ms info) < 0"
proof
  fix T
  have fits: "call_fits ''p'' (replicate 32 1) (into_value (FfiInt 3)) (deadline_in demo_env 0 (2 ^ 63)) []"
    by (simp add: call_fits_def ascii_valid_str ascii_def in_range_def wire_room_def MAX_FRAME_BYTES_def deadline_in_def demo_env_simps)
  have calm: "\<not> deadline_panics demo_env 0 (2 ^ 63)" by (simp add: deadline_panics_def demo_env_simps)
  have open_bi: "session_open_bi stream_session (0 + 1) = Some (fresh_stream [])" by (simp add: stream_session_def)
  from ffi_stream_crosses [OF toy_crypto_ok wf_demo_key demo_env_ok fits open_bi, of T FfiBidi, unfolded if_not_P [OF calm]]
  obtain h where h: "ffi_stream_open toy_crypto demo_env 0 T ''p'' (replicate 32 1) FfiBidi (FfiInt 3) (2 ^ 63) demo_key
      (Some stream_session) = (Inr (Some h), Some stream_session)"
    and all: "\<forall>st rest t. quiet st \<longrightarrow> incoming st = fs_sent (sh_stream h) @ rest \<longrightarrow>
      (\<exists>k args'. ffi_accept_stream T (Accepted st) (Some t) =
          (Inr \<lparr>ac_stream = Some k, ac_info = \<lparr>fo_stream_id = sh_stream_id h, fo_procedure = ''p'', fo_realm = replicate 32 1, fo_mode = FfiBidi, fo_args = args',
             fo_deadline_ms = env_now_ms demo_env 0 + 2 ^ 63, fo_caller = node_id toy_crypto demo_key\<rparr>\<rparr>, Some t) \<and>
        into_value args' = normal (into_value (FfiInt 3)) \<and>
        sh_stream_id k = sh_stream_id h \<and> sh_mode k = sh_mode h \<and> ready k rest)" by blast
  have "quiet (fresh_stream [ReadChunk w])" "incoming (fresh_stream [ReadChunk w]) = w @ []" for w
    by (simp_all add: quiet_def incoming_def)
  then obtain k args' where "ffi_accept_stream T (Accepted (fresh_stream [ReadChunk (fs_sent (sh_stream h))])) (Some stream_session) =
      (Inr \<lparr>ac_stream = Some k, ac_info = \<lparr>fo_stream_id = sh_stream_id h, fo_procedure = ''p'', fo_realm = replicate 32 1, fo_mode = FfiBidi, fo_args = args',
         fo_deadline_ms = env_now_ms demo_env 0 + 2 ^ 63, fo_caller = node_id toy_crypto demo_key\<rparr>\<rparr>, Some stream_session)"
      "into_value args' = normal (into_value (FfiInt 3))"
    using all by metis
  moreover have "sint (env_now_ms demo_env 0 + 2 ^ 63) < 0" by (simp add: demo_env_simps)
  ultimately show "\<exists>h k info. ffi_stream_open toy_crypto demo_env 0 T ''p'' (replicate 32 1) FfiBidi (FfiInt 3) (2 ^ 63) demo_key
      (Some stream_session) = (Inr (Some h), Some stream_session) \<and>
    ffi_accept_stream T (Accepted (fresh_stream [ReadChunk (fs_sent (sh_stream h))])) (Some stream_session) = (Inr \<lparr>ac_stream = Some k, ac_info = info\<rparr>, Some stream_session) \<and>
    fo_procedure info = ''p'' \<and> into_value (fo_args info) = IntV 3 \<and> sint (fo_deadline_ms info) < 0"
    using h by fastforce
qed

subsection \<open>A deadline that cannot be signed\<close>

text \<open>C38: Advertising for too long. When the ADVERTISE frame was sent and the clock plus the given time to live
  passes 2^64 - 1, advertising for direct dial panics in signing the record, from any foreign caller: the
  session survives with its ADVERTISE sent, and no record is stored.\<close>

theorem ffi_advertise_direct_panics:
  assumes "length realm = 32" "advertise C E n (AdvertiseSpec_new realm procedure (node_id C kp)) kp s = (Inr (), s')"
    "2 ^ 64 \<le> uint (env_now_ms E (n + 1)) + uint ttl_ms"
  shows "ffi_advertise_direct C E n T procedure realm ttl_ms kp (Some s) = (Inl Panic, Some s')"
proof -
  have "ttl_ms \<noteq> 0"
  proof
    assume "ttl_ms = 0"
    moreover have "uint (env_now_ms E (n + 1)) < 2 ^ 64" by (rule order.strict_trans2 [OF unsigned_less]) simp
    ultimately show False using assms(3) by (simp only: unsigned_0 add_0_right not_le [symmetric])
  qed
  then have ttl: "unat ttl_ms \<noteq> 0" by (simp add: unat_eq_zero)
  have "canonical_unsigned (new_procedure_advertisement (uint (env_now_ms E (n + 1))) i node uri station' (unat ttl_ms)) =
      (Inl Panic :: (bytes, AdvertiseDirectError fail) result)" for i node uri station'
    using assms(3) ttl by (simp add: canonical_unsigned_def new_procedure_advertisement_def new_envelope_def Let_def encode_def
        encode_int_def u64_max_def)
  moreover have "to_32 realm = Inr realm" using assms(1) by simp
  ultimately show ?thesis using assms(2)
    by (simp del: to_32_iff add: ffi_advertise_direct_def checked_def with_guard_def advertise_direct_def publish_advertisement_def sign_record_def)
qed

theorem ffi_advertise_direct_panics_witness:
  "\<forall>T. \<exists>s s'. ffi_advertise_direct toy_crypto demo_env 0 T ''p'' (replicate 32 1) 18446744073709551615 demo_key (Some s) = (Inl Panic, Some s')"
proof
  fix T
  let ?spec = "AdvertiseSpec_new (replicate 32 1) ''p'' (node_id toy_crypto demo_key)"
  have "bounded (MAX_FRAME_BYTES - 146) MAX_NESTING_DEPTH (advertise_value ?spec (env_frame_id demo_env 0) (env_now_ms demo_env 0))"
    unfolding advertise_value_def
    by (rule bounded_frame) (simp_all add: ascii_def ascii_valid_str MAX_NESTING_DEPTH_def MAX_FRAME_BYTES_def demo_node demo_env_simps)
  then obtain w where w: "send_signed toy_crypto demo_key (advertise_value ?spec (env_frame_id demo_env 0) (env_now_ms demo_env 0))
      (fresh_stream []) = (Inr (), (fresh_stream [])\<lparr>fs_sent := fs_sent (fresh_stream []) @ w\<rparr>)"
    by (rule send_signed_ok [OF toy_crypto_ok wf_demo_key, of _ "fresh_stream []"]) simp
  have "advertise toy_crypto demo_env 0 ?spec demo_key demo_session =
      (Inr (), demo_session\<lparr>control := (fresh_stream [])\<lparr>fs_sent := fs_sent (fresh_stream []) @ w\<rparr>\<rparr>)"
    using w by (simp add: advertise_def session_send_def demo_session_def)
  moreover have "(2 :: int) ^ 64 \<le> uint (env_now_ms demo_env (0 + 1)) + uint (18446744073709551615 :: u64)" by (simp add: demo_env_simps)
  moreover have "length (replicate 32 (1 :: u8)) = 32" by simp
  ultimately show "\<exists>s s'. ffi_advertise_direct toy_crypto demo_env 0 T ''p'' (replicate 32 1) 18446744073709551615 demo_key (Some s) = (Inl Panic, Some s')"
    using ffi_advertise_direct_panics [of "replicate 32 1" toy_crypto demo_env 0 "''p''" demo_key demo_session _ 18446744073709551615 T] by blast
qed

end
