(* ===== verification/RpcProps.thy ===== *)
theory RpcProps
  imports ConnProps
begin

section \<open>RpcProps: a call between two sessions (\<open>src/connection.rs\<close>)\<close>

text \<open>
  \<open>Session::call_with_ucan\<close> on one side and \<open>Session::serve_one_call_gated\<close> on the other, with the facts
  both announce around the CALL and its reply, composed over two streams of which each reads what the
  other one's session wrote. The caller gets what \<open>rpc_outcome\<close> says, the handler runs at most once, and
  for every call that fits a frame there is such an exchange.
\<close>

subsection \<open>What a session writes does not depend on what it has read\<close>

lemma wrote_nil [simp]: "wrote s [] = s"
  by (simp add: wrote_def)

lemma wrote_update [simp]: "(wrote s w)\<lparr>control := st\<rparr> = s\<lparr>control := st\<rparr>"
  by (simp add: wrote_def)

lemma wrote_inject [simp]: "wrote s u = wrote s w \<longleftrightarrow> u = w"
  by (metis same_append_eq wrote_simps(1))

lemma session_send_local:
  "\<exists>r w. \<forall>s. fs_writes (control s) = [] \<longrightarrow> session_send C kp v s = (r, wrote s w)"
proof (cases "sign_frame C v kp :: (Value, unit fail) result")
  case (Inl e)
  then show ?thesis by (intro exI [of _ "Inl Panic"] exI [of _ "[]"]) (simp add: session_send_def send_signed_def)
next
  case (Inr g)
  show ?thesis
  proof (cases "encode_frame g")
    case (Inl e)
    with Inr show ?thesis
      by (intro exI [of _ "Inl (Err (SendEncode e))"] exI [of _ "[]"]) (simp add: session_send_def send_signed_def send_frame_def)
  next
    case w: (Inr w)
    with Inr show ?thesis
      by (intro exI [of _ "Inr ()"] exI [of _ w]) (simp add: session_send_def send_signed_def send_frame_def wrote_def)
  qed
qed

lemma publish_local:
  "\<exists>r w. \<forall>s. fs_writes (control s) = [] \<longrightarrow> publish C E n spec kp s = (r, wrote s w, n + 1)"
proof (cases "sign_publisher C (publish_value spec (env_frame_id E n) (env_now_ms E n)) kp :: (Value, unit fail) result")
  case (Inl e)
  then show ?thesis by (intro exI [of _ "Inl Panic"] exI [of _ "[]"]) (simp add: publish_def)
next
  case (Inr g)
  obtain r w where "\<forall>s. fs_writes (control s) = [] \<longrightarrow> session_send C kp g s = (r, wrote s w)"
    using session_send_local by blast
  with Inr show ?thesis by (intro exI [of _ r] exI [of _ w]) (simp add: publish_def)
qed

lemma announce_local:
  obtains r :: "(unit, 'e fail) result" and w where
    "\<And>s. fs_writes (control s) = [] \<Longrightarrow> announce_fact C E n s realm kp topic payload = (r, wrote s w, n + 2)"
proof -
  obtain r w where "\<forall>s. fs_writes (control s) = [] \<longrightarrow>
      publish C E (n + 1) (PublishSpec_new topic realm (node_id C kp) (env_seq E n) payload (env_now_ms E n)) kp s = (r, wrote s w, n + 1 + 1)"
    using publish_local by blast
  then show ?thesis by (intro that [of "fact_outcome r" w]) (simp add: announce_fact_def Let_def)
qed

text \<open>A fact within the frame limits is announced, with the same bytes on every session.\<close>

lemma announce_everywhere:
  assumes "crypto_ok C" "wf_keypair kp" "env_ok E" "wfv payload" "vdepth payload < 128"
    "esize payload + length topic + length realm + 32 \<le> wire_room"
  obtains g w where "frame_sent_as g w" "quiet_frame g"
    "\<And>s. fs_writes (control s) = [] \<Longrightarrow>
      announce_fact C E n s realm kp topic payload = ((Inr () :: (unit, 'e fail) result), wrote s w, n + 2)"
proof -
  obtain r :: "(unit, 'e fail) result" and w where
    all: "\<And>s. fs_writes (control s) = [] \<Longrightarrow> announce_fact C E n s realm kp topic payload = (r, wrote s w, n + 2)"
    by (rule announce_local [where 'e = 'e, of C E n realm kp topic payload]) blast
  obtain s0 :: Session where s0: "fs_writes (control s0) = []"
    by (metis FrameStream.select_convs(4) Session.select_convs(1))
  obtain g u where g: "frame_sent_as g u" "quiet_frame g"
    "announce_fact C E n s0 realm kp topic payload = ((Inr () :: (unit, 'e fail) result), wrote s0 u, n + 2)"
    by (rule announce_fact_ok [OF assms(1-3) s0 assms(4-6)])
  then have "r = Inr ()" "w = u" using all [OF s0] by simp_all
  with g all show ?thesis by (intro that [of g u]) simp_all
qed

lemma build_call_reply_local:
  obtains r w k inv where
    "\<And>s. fs_writes (control s) = [] \<Longrightarrow> build_call_reply J C E n ci lookup policy kp (Some s) = (r, Some (wrote s w), k, inv)"
proof -
  let ?lookup = "lookup (ci_realm ci) (ci_procedure ci)"
  let ?allowed = "policy_check J C (env_now_s E n) (policy (ci_realm ci) (ci_procedure ci)) (ci_ucan_token ci)"
  obtain r1 :: "(unit, ServeCallError fail) result" and w1 where
    a1: "\<And>s. fs_writes (control s) = [] \<Longrightarrow> announce_rpc_received C E (n + 1) s (ci_realm ci) kp (env_id E n) = (r1, wrote s w1, n + 3)"
    unfolding announce_rpc_received_def
    by (rule announce_local [where 'e = ServeCallError, of C E "n + 1" "ci_realm ci" kp "''rpc.received_v1''" "request_id_payload (env_id E n)"])
      (simp add: numeral_3_eq_3)
  have "\<exists>r2 w2. \<forall>s. fs_writes (control s) = [] \<longrightarrow>
      announce_rpc_replied C E (n + 3) s (ci_realm ci) kp (env_id E n) detail = ((r2 :: (unit, ServeCallError fail) result), wrote s w2, n + 3 + 2)" for detail
    unfolding announce_rpc_replied_def Let_def
    by (rule announce_local [where 'e = ServeCallError]) blast
  then obtain r2 w2 where a2: "\<And>detail s. fs_writes (control s) = [] \<Longrightarrow>
      announce_rpc_replied C E (n + 3) s (ci_realm ci) kp (env_id E n) detail = ((r2 detail :: (unit, ServeCallError fail) result), wrote s (w2 detail), n + 3 + 2)"
    by metis
  note defs = build_call_reply_def announce_on_def Let_def a1 [simplified]
  consider e where "?allowed = Inl e" | "?allowed = Inr ()" "?lookup = None"
    | h e where "?allowed = Inr ()" "?lookup = Some h" "r1 = Inl e"
    | h where "?allowed = Inr ()" "?lookup = Some h" "r1 = Inr ()"
    by (cases ?allowed; cases ?lookup; cases r1) auto
  then show ?thesis
  proof cases
    case 1
    then show ?thesis by (intro that [where w = "[]"]) (simp add: defs)
  next
    case 2
    then show ?thesis by (intro that [where w = "[]"]) (simp add: defs)
  next
    case (3 h e)
    then show ?thesis by (intro that [where r = "Inl e" and w = w1 and k = "n + 3" and inv = "[]"]) (simp add: defs)
  next
    case (4 h)
    show ?thesis
    proof (cases "h (ci_payload ci)")
      case (HandlerOk v)
      with 4 show ?thesis by (intro that [where w = "w1 @ w2 None"]) (simp add: defs a2 [simplified])
    next
      case (HandlerErr reason)
      with 4 show ?thesis by (intro that [where w = "w1 @ w2 (Some reason)"]) (simp add: defs a2 [simplified])
    next
      case HandlerPanic
      with 4 show ?thesis by (intro that [where w = w1]) (simp add: defs)
    next
      case HandlerOutlivesTimeout
      with 4 show ?thesis by (intro that [where w = w1]) (simp add: defs)
    qed
  qed
qed

subsection \<open>The two ends\<close>

text \<open>The caller: the bytes of its first fact and of the CALL come first, whatever it is answered.\<close>

lemma caller_sends:
  assumes "crypto_ok C" "wf_keypair kp" "env_ok E" "call_fits procedure realm payload deadline_ms token"
  obtains g1 w1 g w where "frame_sent_as g1 w1" "quiet_frame g1" "frame_sent_as g w"
    "parse_call (normal g) = Inr \<lparr>ci_call_id = env_id E (n + 3), ci_procedure = procedure, ci_realm = realm,
       ci_payload = normal payload, ci_deadline_ms = deadline_ms, ci_caller = node_id C kp, ci_ucan_token = token\<rparr>"
    "\<And>s r st. fs_writes (control s) = [] \<Longrightarrow> await_call_response (env_id E (n + 3)) (control (wrote s (w1 @ w))) = (r, st) \<Longrightarrow>
      session_call_with_ucan C E n s procedure realm payload deadline_ms kp token =
        (case r of
           Inl Panic \<Rightarrow> (Inl Panic, s\<lparr>control := st\<rparr>, n + 4)
         | Inl (Err e) \<Rightarrow>
             (case announce_rpc_completed C E (n + 4) (s\<lparr>control := st\<rparr>) realm kp (env_id E n) (Inl e) of
                (r', s3, n3) \<Rightarrow> (bindR r' (\<lambda>_. Inl (Err e)), s3, n3))
         | Inr response \<Rightarrow>
             (case announce_rpc_completed C E (n + 4) (s\<lparr>control := st\<rparr>) realm kp (env_id E n) (Inr response) of
                (r', s3, n3) \<Rightarrow> (bindR r' (\<lambda>_. Inr response), s3, n3)))"
proof -
  have id: "length (env_id E n) = 16" using assms(3) by (simp add: env_ok_def)
  have realm: "length realm = 32" using assms(4) by (simp add: call_fits_def)
  note fact = fact_payload_ok(1-3) [OF id, of None, simplified]
  have room: "esize (request_id_payload (env_id E n)) + length ''rpc.sent_v1'' + length realm + 32 \<le> wire_room"
    using fact(3) realm by (simp add: wire_room_def MAX_FRAME_BYTES_def)
  obtain g1 w1 where g1: "frame_sent_as g1 w1" "quiet_frame g1" and sent: "\<And>s. fs_writes (control s) = [] \<Longrightarrow>
      announce_fact C E (n + 1) s realm kp ''rpc.sent_v1'' (request_id_payload (env_id E n)) =
        ((Inr () :: (unit, CallError fail) result), wrote s w1, n + 1 + 2)"
    by (rule announce_everywhere [OF assms(1-3) fact(1,2) room, where 'e = CallError, of "n + 1"]) blast
  obtain g w where g: "frame_sent_as g w" "parse_call (normal g) = Inr \<lparr>ci_call_id = env_id E (n + 3), ci_procedure = procedure,
       ci_realm = realm, ci_payload = normal payload, ci_deadline_ms = deadline_ms, ci_caller = node_id C kp, ci_ucan_token = token\<rparr>"
    and call: "\<And>st. fs_writes st = [] \<Longrightarrow> fs_call_with_ucan C E (n + 3) st procedure realm payload deadline_ms kp token =
      (case await_call_response (env_id E (n + 3)) (st\<lparr>fs_sent := fs_sent st @ w\<rparr>) of (r, st'') \<Rightarrow> (r, st'', n + 3 + 1))"
    by (rule call_sent_ok [OF assms, of "n + 3"]) blast
  have stream: "(control (wrote s w1))\<lparr>fs_sent := fs_sent (control s) @ w1 @ w\<rparr> = control (wrote s (w1 @ w))" for s
    by (simp add: wrote_def)
  have four: "n + 3 + 1 = n + 4" by simp
  show ?thesis
  proof (rule that [OF g1 g])
    fix s r st
    assume s: "fs_writes (control s) = []" and st: "await_call_response (env_id E (n + 3)) (control (wrote s (w1 @ w))) = (r, st)"
    have "fs_call_with_ucan C E (n + 3) (control (wrote s w1)) procedure realm payload deadline_ms kp token = (r, st, n + 4)"
      using call [of "control (wrote s w1)"] s st by (simp add: stream)
    moreover have "announce_rpc_sent C E (n + 1) s realm kp (env_id E n) = ((Inr () :: (unit, CallError fail) result), wrote s w1, n + 3)"
      using sent [OF s] by (simp add: announce_rpc_sent_def numeral_3_eq_3)
    ultimately show "session_call_with_ucan C E n s procedure realm payload deadline_ms kp token =
        (case r of
           Inl Panic \<Rightarrow> (Inl Panic, s\<lparr>control := st\<rparr>, n + 4)
         | Inl (Err e) \<Rightarrow>
             (case announce_rpc_completed C E (n + 4) (s\<lparr>control := st\<rparr>) realm kp (env_id E n) (Inl e) of
                (r', s3, n3) \<Rightarrow> (bindR r' (\<lambda>_. Inl (Err e)), s3, n3))
         | Inr response \<Rightarrow>
             (case announce_rpc_completed C E (n + 4) (s\<lparr>control := st\<rparr>) realm kp (env_id E n) (Inr response) of
                (r', s3, n3) \<Rightarrow> (bindR r' (\<lambda>_. Inr response), s3, n3)))"
      unfolding session_call_with_ucan_def Let_def by (simp split: sum.split fail.split)
  qed
qed

lemma completed_announced:
  assumes "crypto_ok C" "wf_keypair kp" "env_ok E" "fs_writes (control s) = []" "length realm = 32"
    "rpc_outcome responder adm handler p = Some r"
  obtains u where "announce_rpc_completed C E n s realm kp (env_id E m) (Inr r) = ((Inr () :: (unit, CallError fail) result), wrote s u, n + 2)"
proof -
  define done_payload where "done_payload = completed_payload (env_texts E) (env_id E m) (Inr r)"
  have id: "length (env_id E m) = 16" using assms(3) by (simp add: env_ok_def)
  have name: "length (code_name c) \<le> 30" "valid_str (code_name c)" for c
    using valid_str_code_name by auto
  have "length (code_name c) \<le> 148" for c by (rule order.trans [OF name(1)]) simp
  moreover note name
  moreover have "(\<exists>v b. r = CallResult v b) \<or> (\<exists>c b d. r = rpc_error c b d)"
    using assms(6) by (auto simp: rpc_outcome_def split: if_splits option.splits HandlerOutcome.splits) blast+
  ultimately have "frame_ok done_payload \<and> vdepth done_payload < 128 \<and> esize done_payload \<le> 256"
    using id by (auto simp: done_payload_def completed_payload_def rpc_error_def request_id_payload_def frame_ok_Map ascii_def
      ascii_valid_str)
  then have ok: "wfv done_payload" "vdepth done_payload < 128"
      "esize done_payload + length ''rpc.completed_v1'' + length realm + 32 \<le> wire_room"
    using assms(5) frame_ok_wfv by (simp_all add: wire_room_def MAX_FRAME_BYTES_def)
  show ?thesis
    by (rule announce_fact_ok [OF assms(1-4) ok]) (use that in \<open>simp add: announce_rpc_completed_def done_payload_def\<close>)
qed

lemma announce_appends:
  assumes "fs_writes (control s) = []"
  shows "\<exists>x s' k u. (case announce_rpc_completed C E n s realm kp request_id r of (y, s3, n3) \<Rightarrow> (f (y :: (unit, 'e fail) result), s3, n3)) = (x, s', k) \<and>
    fs_sent (control s') = fs_sent (control s) @ u"
proof -
  obtain y :: "(unit, 'e fail) result" and u where
    "\<And>s. fs_writes (control s) = [] \<Longrightarrow> announce_rpc_completed C E n s realm kp request_id r = (y, wrote s u, n + 2)"
    unfolding announce_rpc_completed_def by (rule announce_local [where 'e = 'e]) blast
  with assms show ?thesis by (intro exI [of _ "f y"] exI [of _ "wrote s u"] exI [of _ "n + 2"] exI [of _ u]) simp
qed

text \<open>The provider: frames that are no CALL are passed over, and what is sent for a CALL depends on nothing else it reads.\<close>

lemma parse_call_has_id: "parse_call v = Inr ci \<Longrightarrow> frame_call_id v = Some (ci_call_id ci)"
proof -
  assume "parse_call v = Inr ci"
  then obtain y where "get v ''call_id'' = Some y" "as_array 16 y = Some (ci_call_id ci)"
    by (auto simp: parse_call_def bindR_eq_Inr read_field_eq_Inr split: if_splits)
  then show ?thesis by (cases y) (simp_all add: frame_call_id_def as_array_def)
qed

lemma serve_skips:
  assumes "frame_sent_as v w" "quiet_frame v" "quiet (control s)" "incoming (control s) = w @ rest"
  obtains s' where "serve_one_call_gated J C E n lookup policy kp s = serve_one_call_gated J C E n lookup policy kp s'"
    "quiet (control s')" "incoming (control s') = rest" "fs_sent (control s') = fs_sent (control s)"
    "fs_writes (control s') = fs_writes (control s)"
proof -
  obtain st where st: "recv_frame (control s) = (Inr (normal v), st)" "quiet st" "incoming st = rest"
    "fs_sent st = fs_sent (control s)" "fs_writes st = fs_writes (control s)"
    by (rule recv_frame_whole [OF assms(1,3,4)])
  obtain e where "parse_call (normal v) = Inl e"
    using assms(2) parse_call_has_id [of "normal v"] by (cases "parse_call (normal v)") (auto simp: quiet_frame_def)
  then have "serve_one_call_gated J C E n lookup policy kp s = serve_one_call_gated J C E n lookup policy kp (s\<lparr>control := st\<rparr>)"
    by (simp add: serve_one_call_gated.simps [of J C E n lookup policy kp s] session_recv_frame_def st(1))
  with st that show ?thesis by simp
qed

lemma serve_local:
  assumes "frame_sent_as v w" "parse_call (normal v) = Inr ci"
  obtains r out k inv where "\<And>s rest. fs_writes (control s) = [] \<Longrightarrow> quiet (control s) \<Longrightarrow> incoming (control s) = w @ rest \<Longrightarrow>
    \<exists>s'. serve_one_call_gated J C E n lookup policy kp s = (r, s', k, inv) \<and> fs_sent (control s') = fs_sent (control s) @ out"
proof -
  obtain x u k inv where reply: "\<And>s. fs_writes (control s) = [] \<Longrightarrow>
      build_call_reply J C E n ci lookup policy kp (Some s) = (x, Some (wrote s u), k, inv)"
    by (rule build_call_reply_local [of J C E n ci lookup policy kp]) blast
  obtain y z where send: "\<forall>s. fs_writes (control s) = [] \<longrightarrow> session_send C kp (projr x) s = (y, wrote s z)"
    using session_send_local by blast
  have "\<exists>s'. serve_one_call_gated J C E n lookup policy kp s =
        ((case x of Inl e \<Rightarrow> Inl e | Inr _ \<Rightarrow> map_err (lift_fail ServeSend) y), s', k, inv) \<and>
      fs_sent (control s') = fs_sent (control s) @ u @ (case x of Inl _ \<Rightarrow> [] | Inr _ \<Rightarrow> z)"
    if s: "fs_writes (control s) = []" "quiet (control s)" "incoming (control s) = w @ rest" for s rest
  proof -
    obtain st where st: "recv_frame (control s) = (Inr (normal v), st)" "fs_sent st = fs_sent (control s)" "fs_writes st = []"
      using recv_frame_whole [OF assms(1) s(2,3)] s(1) by metis
    have "fs_writes (control (s\<lparr>control := st\<rparr>)) = []" using st(3) by simp
    note reply = reply [OF this] and send = send [rule_format, of "wrote (s\<lparr>control := st\<rparr>) u"]
    show ?thesis
      using reply send st
      by (cases x) (simp_all add: serve_one_call_gated.simps [of J C E n lookup policy kp s] session_recv_frame_def st(1) assms(2))
  qed
  with that show ?thesis by blast
qed

lemma provider_answers:
  assumes ok: "crypto_ok C" "wf_keypair kp" "env_ok E" "length (ci_call_id ci) = 16" "length (ci_realm ci) = 32"
    and fact: "frame_sent_as g1 w1" "quiet_frame g1" and call: "frame_sent_as g w" "parse_call (normal g) = Inr ci"
    and fits: "\<forall>h. lookup (ci_realm ci) (ci_procedure ci) = Some h \<longrightarrow> outcome_fits (h (ci_payload ci))"
    and r: "rpc_outcome (node_id C kp) (admitted J C E n policy ci) (lookup (ci_realm ci) (ci_procedure ci)) (ci_payload ci) = Some r"
  obtains gs ws answer where "list_all2 frame_sent_as gs ws" "find (answers (ci_call_id ci)) (map normal gs) = Some answer"
    "parse_call_response answer = Inr r"
    "\<And>s rest. fs_writes (control s) = [] \<Longrightarrow> quiet (control s) \<Longrightarrow> incoming (control s) = w1 @ w @ rest \<Longrightarrow>
      \<exists>s' k. serve_one_call_gated J C E n lookup policy kp s = (Inr (), s', k,
          if admitted J C E n policy ci \<and> lookup (ci_realm ci) (ci_procedure ci) \<noteq> None then [ci_payload ci] else []) \<and>
        fs_sent (control s') = fs_sent (control s) @ concat ws"
proof -
  let ?inv = "if admitted J C E n policy ci \<and> lookup (ci_realm ci) (ci_procedure ci) \<noteq> None then [ci_payload ci] else []"
  obtain x out k inv where same: "\<And>s rest. fs_writes (control s) = [] \<Longrightarrow> quiet (control s) \<Longrightarrow> incoming (control s) = w @ rest \<Longrightarrow>
    \<exists>s'. serve_one_call_gated J C E n lookup policy kp s = (x, s', k, inv) \<and> fs_sent (control s') = fs_sent (control s) @ out"
    by (rule serve_local [OF call, of J C E n lookup policy kp]) blast
  obtain s0 :: Session where "control s0 = fresh_stream [ReadChunk w]" by (metis Session.select_convs(1))
  then have s0: "fs_writes (control s0) = []" "quiet (control s0)" "incoming (control s0) = w @ []" by simp_all
  obtain s0' n' gs ws answer where served: "serve_one_call_gated J C E n lookup policy kp s0 = (Inr (), s0', n', ?inv)"
    "fs_sent (control s0') = fs_sent (control s0) @ concat ws" "list_all2 frame_sent_as gs ws"
    "find (answers (ci_call_id ci)) (map normal gs) = Some answer" "parse_call_response answer = Inr r"
    by (rule serve_received_call [where J = J and n = n and policy = policy and lookup = lookup and r = r and ci = ci and s = s0,
          OF ok(1-3) s0(1) ok(4,5) call(1) s0(2,3) call(2) fits r])
  with same [OF s0] have same_out: "x = Inr ()" "out = concat ws" "inv = ?inv" by auto
  show ?thesis
  proof (rule that [OF served(3-5)])
    fix s :: Session and rest
    assume s: "fs_writes (control s) = []" "quiet (control s)" "incoming (control s) = w1 @ w @ rest"
    obtain s1 where s1: "serve_one_call_gated J C E n lookup policy kp s = serve_one_call_gated J C E n lookup policy kp s1"
      "quiet (control s1)" "incoming (control s1) = w @ rest" "fs_sent (control s1) = fs_sent (control s)"
      "fs_writes (control s1) = fs_writes (control s)"
      by (rule serve_skips [OF fact s(2,3)])
    then show "\<exists>s' k. serve_one_call_gated J C E n lookup policy kp s = (Inr (), s', k, ?inv) \<and>
        fs_sent (control s') = fs_sent (control s) @ concat ws"
      using same [of s1 rest] s(1) same_out by auto
  qed
qed

subsection \<open>Both ends\<close>

definition fresh_session :: "HelloInfo \<Rightarrow> read list \<Rightarrow> Session" where
  "fresh_session hello rs = \<lparr>control = fresh_stream rs, session_open_bi = (\<lambda>_. None), station = hello\<rparr>"

lemma fresh_session_simps [simp]: "control (fresh_session hello rs) = fresh_stream rs" "station (fresh_session hello rs) = hello"
  by (simp_all add: fresh_session_def)

text \<open>What is read are all the bytes the other session has written, in whatever chunks.\<close>

definition reads_of :: "Session \<Rightarrow> read list \<Rightarrow> bool" where
  "reads_of peer rs \<longleftrightarrow> quiet (fresh_stream rs) \<and> read_bytes rs = fs_sent (control peer)"

lemma reads_of_chunk: "reads_of peer [ReadChunk (fs_sent (control peer))]"
  by (simp add: reads_of_def)

text \<open>
  \<open>call_frames\<close> are the bytes of a caller's first fact and of its CALL; \<open>reply_frames\<close> those a provider
  writes for them. They do not depend on what else either end reads.
\<close>

lemma call_exchange:
  assumes ok: "crypto_ok C" "wf_keypair kc" "wf_keypair kp" "env_ok Ec" "env_ok Ep"
    and call: "call_fits procedure realm payload deadline_ms token"
    and fits: "\<forall>h. lookup realm procedure = Some h \<longrightarrow> outcome_fits (h (normal payload))"
    and adm: "adm \<longleftrightarrow> policy_check J C (env_now_s Ep n) (policy realm procedure) token = Inr ()"
    and r: "rpc_outcome (node_id C kp) adm (lookup realm procedure) (normal payload) = Some r"
  obtains call_frames reply_frames where
    "\<And>rs. \<exists>x s' k u. session_call_with_ucan C Ec m (fresh_session hc rs) procedure realm payload deadline_ms kc token = (x, s', k) \<and>
      fs_sent (control s') = call_frames @ u"
    "\<And>rs rest. quiet (fresh_stream rs) \<Longrightarrow> read_bytes rs = reply_frames @ rest \<Longrightarrow>
      \<exists>s' k. session_call_with_ucan C Ec m (fresh_session hc rs) procedure realm payload deadline_ms kc token = (Inr r, s', k)"
    "\<And>rs rest. quiet (fresh_stream rs) \<Longrightarrow> read_bytes rs = call_frames @ rest \<Longrightarrow>
      \<exists>s' k. serve_one_call_gated J C Ep n lookup policy kp (fresh_session hp rs) =
        (Inr (), s', k, if adm \<and> lookup realm procedure \<noteq> None then [normal payload] else []) \<and>
        fs_sent (control s') = reply_frames"
proof -
  let ?ci = "\<lparr>ci_call_id = env_id Ec (m + 3), ci_procedure = procedure, ci_realm = realm, ci_payload = normal payload,
      ci_deadline_ms = deadline_ms, ci_caller = node_id C kc, ci_ucan_token = token\<rparr>"
  have realm: "length realm = 32" using call by (simp add: call_fits_def)
  obtain g1 w1 g w where sent: "frame_sent_as g1 w1" "quiet_frame g1" "frame_sent_as g w" "parse_call (normal g) = Inr ?ci"
    and run: "\<And>s r st. fs_writes (control s) = [] \<Longrightarrow> await_call_response (env_id Ec (m + 3)) (control (wrote s (w1 @ w))) = (r, st) \<Longrightarrow>
      session_call_with_ucan C Ec m s procedure realm payload deadline_ms kc token =
        (case r of
           Inl Panic \<Rightarrow> (Inl Panic, s\<lparr>control := st\<rparr>, m + 4)
         | Inl (Err e) \<Rightarrow>
             (case announce_rpc_completed C Ec (m + 4) (s\<lparr>control := st\<rparr>) realm kc (env_id Ec m) (Inl e) of
                (r', s3, n3) \<Rightarrow> (bindR r' (\<lambda>_. Inl (Err e)), s3, n3))
         | Inr response \<Rightarrow>
             (case announce_rpc_completed C Ec (m + 4) (s\<lparr>control := st\<rparr>) realm kc (env_id Ec m) (Inr response) of
                (r', s3, n3) \<Rightarrow> (bindR r' (\<lambda>_. Inr response), s3, n3)))"
    by (rule caller_sends [OF ok(1,2,4) call, of m]) blast
  have adm': "admitted J C Ep n policy ?ci = adm" using adm by (simp add: admitted_def)
  have ci: "length (ci_call_id ?ci) = 16" "length (ci_realm ?ci) = 32" using ok(4) realm by (simp_all add: env_ok_def)
  have fits': "\<forall>h. lookup (ci_realm ?ci) (ci_procedure ?ci) = Some h \<longrightarrow> outcome_fits (h (ci_payload ?ci))" using fits by simp
  have r': "rpc_outcome (node_id C kp) (admitted J C Ep n policy ?ci) (lookup (ci_realm ?ci) (ci_procedure ?ci)) (ci_payload ?ci) = Some r"
    unfolding adm' using r by simp
  obtain gs ws answer where reply: "list_all2 frame_sent_as gs ws" "find (answers (env_id Ec (m + 3))) (map normal gs) = Some answer"
    "parse_call_response answer = Inr r"
    and serve: "\<And>s rest. fs_writes (control s) = [] \<Longrightarrow> quiet (control s) \<Longrightarrow> incoming (control s) = w1 @ w @ rest \<Longrightarrow>
      \<exists>s' k. serve_one_call_gated J C Ep n lookup policy kp s =
          (Inr (), s', k, if adm \<and> lookup realm procedure \<noteq> None then [normal payload] else []) \<and>
        fs_sent (control s') = fs_sent (control s) @ concat ws"
    by (rule provider_answers [where J = J and n = n and policy = policy and lookup = lookup and r = r and ci = ?ci, OF ok(1,3,5) ci sent fits' r'])
      (unfold adm' CallInfo.select_convs, rule that, assumption+)
  show ?thesis
  proof (rule that [of "w1 @ w" "concat ws"])
    fix rs
    let ?s = "fresh_session hc rs"
    obtain x st where await: "await_call_response (env_id Ec (m + 3)) (control (wrote ?s (w1 @ w))) = (x, st)" by fastforce
    from await_keeps [OF await] have st: "fs_sent st = w1 @ w" "fs_writes (control (?s\<lparr>control := st\<rparr>)) = []" by simp_all
    have announced: "\<exists>x s' k u. (case announce_rpc_completed C Ec (m + 4) (?s\<lparr>control := st\<rparr>) realm kc (env_id Ec m) r of
        (y, s3, n3) \<Rightarrow> (f (y :: (unit, CallError fail) result), s3, n3)) = (x, s', k) \<and> fs_sent (control s') = (w1 @ w) @ u"
      for f :: "_ \<Rightarrow> (CallResponse, CallError fail) result" and r
      using announce_appends [OF st(2), where 'e = CallError] st(1) by simp
    consider "x = Inl Panic" | e where "x = Inl (Err e)" | response where "x = Inr response"
      by (cases x) (auto intro: fail.exhaust)
    then show "\<exists>x s' k u. session_call_with_ucan C Ec m ?s procedure realm payload deadline_ms kc token = (x, s', k) \<and>
        fs_sent (control s') = (w1 @ w) @ u"
    proof cases
      case 1
      then show ?thesis using run [OF _ await] st(1) by simp
    next
      case (2 e)
      then show ?thesis using run [OF _ await] announced [of _ "Inl e"] by simp
    next
      case (3 response)
      then show ?thesis using run [OF _ await] announced [of _ "Inr response"] by simp
    qed
    {
      fix rest
      assume rs: "quiet (fresh_stream rs)" "read_bytes rs = concat ws @ rest"
      have "quiet (control (wrote ?s (w1 @ w)))" "incoming (control (wrote ?s (w1 @ w))) = concat ws @ rest"
        using rs by (simp_all add: quiet_def incoming_def)
      then have x: "x = Inr r" using await_first_answer [OF reply(1) _ _ reply(2,3)] await by fastforce
      obtain u where "announce_rpc_completed C Ec (m + 4) (?s\<lparr>control := st\<rparr>) realm kc (env_id Ec m) (Inr r) =
          ((Inr () :: (unit, CallError fail) result), wrote (?s\<lparr>control := st\<rparr>) u, m + 4 + 2)"
        by (rule completed_announced [OF ok(1,2,4) st(2) realm r])
      then show "\<exists>s' k. session_call_with_ucan C Ec m ?s procedure realm payload deadline_ms kc token = (Inr r, s', k)"
        using run [OF _ await] x by simp
    }
    {
      fix rest
      assume "quiet (fresh_stream rs)" "read_bytes rs = (w1 @ w) @ rest"
      then show "\<exists>s' k. serve_one_call_gated J C Ep n lookup policy kp (fresh_session hp rs) =
          (Inr (), s', k, if adm \<and> lookup realm procedure \<noteq> None then [normal payload] else []) \<and>
          fs_sent (control s') = concat ws"
        using serve [of "fresh_session hp rs" rest] by (simp add: incoming_def)
    }
  qed
qed

lemma exchange_outcome:
  assumes "crypto_ok C" "wf_keypair kc" "wf_keypair kp" "env_ok Ec" "env_ok Ep"
    "call_fits procedure realm payload deadline_ms token"
    "session_call_with_ucan C Ec m (fresh_session hc from_provider) procedure realm payload deadline_ms kc token = (response, sc, m')"
    "serve_one_call_gated J C Ep n lookup policy kp (fresh_session hp from_caller) = (served, sp, n', invoked)"
    "reads_of sc from_caller" "reads_of sp from_provider"
    "\<forall>h. lookup realm procedure = Some h \<longrightarrow> outcome_fits (h (normal payload))"
    "adm \<longleftrightarrow> policy_check J C (env_now_s Ep n) (policy realm procedure) token = Inr ()"
    "rpc_outcome (node_id C kp) adm (lookup realm procedure) (normal payload) = Some r"
  shows "response = Inr r \<and> served = Inr () \<and>
    invoked = (if adm \<and> lookup realm procedure \<noteq> None then [normal payload] else [])"
proof (rule call_exchange [where J = J and n = n and policy = policy and lookup = lookup and realm = realm and procedure = procedure and
      payload = payload and adm = adm and r = r and m = m and hc = hc and hp = hp,
      OF assms(1-6,11-13)])
  fix call_frames reply_frames
  assume sends: "\<And>rs. \<exists>x s' k u. session_call_with_ucan C Ec m (fresh_session hc rs) procedure realm payload deadline_ms kc token = (x, s', k) \<and>
      fs_sent (control s') = call_frames @ u"
    and gets: "\<And>rs rest. quiet (fresh_stream rs) \<Longrightarrow> read_bytes rs = reply_frames @ rest \<Longrightarrow>
      \<exists>s' k. session_call_with_ucan C Ec m (fresh_session hc rs) procedure realm payload deadline_ms kc token = (Inr r, s', k)"
    and serves: "\<And>rs rest. quiet (fresh_stream rs) \<Longrightarrow> read_bytes rs = call_frames @ rest \<Longrightarrow>
      \<exists>s' k. serve_one_call_gated J C Ep n lookup policy kp (fresh_session hp rs) =
        (Inr (), s', k, if adm \<and> lookup realm procedure \<noteq> None then [normal payload] else []) \<and>
        fs_sent (control s') = reply_frames"
  obtain u where "fs_sent (control sc) = call_frames @ u" using sends [of from_provider] assms(7) by auto
  then have "quiet (fresh_stream from_caller)" "read_bytes from_caller = call_frames @ u"
    using assms(9) by (simp_all add: reads_of_def)
  from serves [OF this] assms(8) have served: "served = Inr ()" "fs_sent (control sp) = reply_frames"
    "invoked = (if adm \<and> lookup realm procedure \<noteq> None then [normal payload] else [])" by auto
  then have "quiet (fresh_stream from_provider)" "read_bytes from_provider = reply_frames @ []"
    using assms(10) by (simp_all add: reads_of_def)
  from gets [OF this] assms(7) served show ?thesis by auto
qed

text \<open>Such an exchange exists.\<close>

lemma exchange_exists:
  assumes "crypto_ok C" "wf_keypair kc" "wf_keypair kp" "env_ok Ec" "env_ok Ep"
    "call_fits procedure realm payload deadline_ms token"
    "\<forall>h. lookup realm procedure = Some h \<longrightarrow> outcome_fits (h (normal payload))"
    "adm \<longleftrightarrow> policy_check J C (env_now_s Ep n) (policy realm procedure) token = Inr ()"
    "rpc_outcome (node_id C kp) adm (lookup realm procedure) (normal payload) = Some r"
  obtains from_caller from_provider response sc m' served sp n' invoked where
    "session_call_with_ucan C Ec m (fresh_session hc from_provider) procedure realm payload deadline_ms kc token = (response, sc, m')"
    "serve_one_call_gated J C Ep n lookup policy kp (fresh_session hp from_caller) = (served, sp, n', invoked)"
    "reads_of sc from_caller" "reads_of sp from_provider"
proof (rule call_exchange [where J = J and n = n and policy = policy and lookup = lookup and realm = realm and procedure = procedure and
      payload = payload and adm = adm and r = r and m = m and hc = hc and hp = hp,
      OF assms])
  fix call_frames reply_frames
  assume sends: "\<And>rs. \<exists>x s' k u. session_call_with_ucan C Ec m (fresh_session hc rs) procedure realm payload deadline_ms kc token = (x, s', k) \<and>
      fs_sent (control s') = call_frames @ u"
    and serves: "\<And>rs rest. quiet (fresh_stream rs) \<Longrightarrow> read_bytes rs = call_frames @ rest \<Longrightarrow>
      \<exists>s' k. serve_one_call_gated J C Ep n lookup policy kp (fresh_session hp rs) =
        (Inr (), s', k, if adm \<and> lookup realm procedure \<noteq> None then [normal payload] else []) \<and>
        fs_sent (control s') = reply_frames"
  obtain x sc k u where call: "session_call_with_ucan C Ec m (fresh_session hc [ReadChunk reply_frames]) procedure realm payload deadline_ms kc token =
      (x, sc, k)" "fs_sent (control sc) = call_frames @ u"
    using sends by blast
  obtain sp k' where "serve_one_call_gated J C Ep n lookup policy kp (fresh_session hp [ReadChunk (fs_sent (control sc))]) =
      (Inr (), sp, k', if adm \<and> lookup realm procedure \<noteq> None then [normal payload] else [])" "fs_sent (control sp) = reply_frames"
    using serves [of "[ReadChunk (fs_sent (control sc))]" u] call(2) by auto
  with that [OF call(1) this(1) reads_of_chunk] reads_of_chunk [of sp] show thesis by simp
qed

subsection \<open>Properties\<close>

text \<open>C1: A call over the wire. When one session calls and another one serves, each reading all that the other writes, in
  whatever chunks, then the caller gets exactly the outcome the
  specification gives for this call (the handler's value, or the BOLT#4 error of a rejected token,
  an unknown procedure, a failed or a crashed handler), the facts both ends announce in
  between notwithstanding, and the handler ran once on the caller's payload if and only if the
  token was admitted and the procedure known.\<close>

theorem rpc_end_to_end:
  assumes "crypto_ok C" "wf_keypair kc" "wf_keypair kp" "env_ok Ec" "env_ok Ep"
    "call_fits procedure realm payload deadline_ms token"
    "session_call_with_ucan C Ec m (fresh_session hc from_provider) procedure realm payload deadline_ms kc token = (response, sc, m')"
    "serve_one_call_gated J C Ep n lookup policy kp (fresh_session hp from_caller) = (served, sp, n', invoked)"
    "reads_of sc from_caller" "reads_of sp from_provider"
    "\<forall>h. lookup realm procedure = Some h \<longrightarrow> outcome_fits (h (normal payload))"
    "adm \<longleftrightarrow> policy_check J C (env_now_s Ep n) (policy realm procedure) token = Inr ()"
    "rpc_outcome (node_id C kp) adm (lookup realm procedure) (normal payload) = Some r"
  shows "response = Inr r \<and> served = Inr () \<and>
    invoked = (if adm \<and> lookup realm procedure \<noteq> None then [normal payload] else [])"
  by (rule exchange_outcome [where J = J and n = n and policy = policy and lookup = lookup and realm = realm and procedure = procedure and
      payload = payload and adm = adm and r = r, OF assms])

theorem rpc_end_to_end_witness:
  "\<exists>from_caller from_provider sc m' sp n'.
    session_call_with_ucan toy_crypto demo_env 0 (fresh_session demo_hello from_provider) ''p'' (replicate 32 1) (IntV 7) 5 demo_key [] =
      (Inr (CallResult (IntV 7) (node_id toy_crypto demo_key)), sc, m') \<and>
    serve_one_call_gated toy_codec toy_crypto demo_env 0 (\<lambda>_ _. Some HandlerOk) (\<lambda>_ _. policy_open) demo_key
      (fresh_session demo_hello from_caller) = (Inr (), sp, n', [IntV 7]) \<and>
    reads_of sc from_caller \<and> reads_of sp from_provider"
proof -
  have fits: "call_fits ''p'' (replicate 32 1) (IntV 7) 5 []"
    by (simp add: call_fits_def ascii_valid_str ascii_def in_range_def wire_room_def MAX_FRAME_BYTES_def)
  have out: "\<forall>h. (\<lambda>_ _. Some HandlerOk) (replicate 32 (1 :: u8)) ''p'' = Some h \<longrightarrow> outcome_fits (h (normal (IntV 7)))"
    by (simp add: outcome_fits_def wire_room_def MAX_FRAME_BYTES_def)
  have adm: "True \<longleftrightarrow> policy_check toy_codec toy_crypto (env_now_s demo_env 0) ((\<lambda>_ _. policy_open) (replicate 32 (1 :: u8)) ''p'') [] = Inr ()"
    by (simp add: policy_check_def policy_open_def)
  have r: "rpc_outcome (node_id toy_crypto demo_key) True ((\<lambda>_ _. Some HandlerOk) (replicate 32 (1 :: u8)) ''p'') (normal (IntV 7)) =
      Some (CallResult (IntV 7) (node_id toy_crypto demo_key))"
    by (simp add: rpc_outcome_def)
  note ok = toy_crypto_ok wf_demo_key wf_demo_key demo_env_ok demo_env_ok fits
  obtain fc fp response sc m' served sp n' invoked where run:
    "session_call_with_ucan toy_crypto demo_env 0 (fresh_session demo_hello fp) ''p'' (replicate 32 1) (IntV 7) 5 demo_key [] = (response, sc, m')"
    "serve_one_call_gated toy_codec toy_crypto demo_env 0 (\<lambda>_ _. Some HandlerOk) (\<lambda>_ _. policy_open) demo_key
      (fresh_session demo_hello fc) = (served, sp, n', invoked)"
    "reads_of sc fc" "reads_of sp fp"
    by (rule exchange_exists [where lookup = "\<lambda>_ _. Some HandlerOk" and policy = "\<lambda>_ _. policy_open" and adm = True and
      realm = "replicate 32 1" and procedure = "''p''" and payload = "IntV 7", OF ok out adm r])
  from rpc_end_to_end [where lookup = "\<lambda>_ _. Some HandlerOk" and policy = "\<lambda>_ _. policy_open" and adm = True and
      realm = "replicate 32 1" and procedure = "''p''" and payload = "IntV 7", OF ok run out adm r] run show ?thesis
    by (intro exI [of _ fc] exI [of _ fp] exI [of _ sc] exI [of _ m'] exI [of _ sp] exI [of _ n']) simp
qed

end
