(* ===== verification/FfiRpc.thy ===== *)
theory FfiRpc
  imports FfiProps RpcProps
begin

section \<open>FfiRpc: a call between two foreign sessions (\<open>macula-rust-ffi/src/lib.rs\<close>)\<close>

text \<open>
  \<open>FfiSession::call_with_ucan\<close> of one foreign program and \<open>FfiSession::serve_one_call_gated\<close> of another,
  composed over the streams as in \<open>RpcProps\<close>: what the foreign caller is returned is a function of the
  foreign handler, with no core value, frame or fact in it.
\<close>

subsection \<open>The specification on foreign values\<close>

text \<open>A foreign value that crossed the wire: its maps have their entries in the order of the encoded keys.\<close>

definition ffi_normal :: "FfiValue \<Rightarrow> FfiValue" where
  "ffi_normal f = (case try_from_value (normal (into_value f)) of Inr g \<Rightarrow> g | Inl _ \<Rightarrow> FfiNull)"

lemma try_ffi_normal [simp]: "try_from_value (normal (into_value f)) = Inr (ffi_normal f)"
  using try_from_value_ok [OF fits_normal [OF fits_into_value [of f]]] by (auto simp: ffi_normal_def)

lemma into_ffi_normal: "into_value (ffi_normal f) = normal (into_value f)"
  by (rule into_try_value [symmetric]) simp

definition ffi_rpc_error :: "Code \<Rightarrow> bytes \<Rightarrow> string option \<Rightarrow> FfiCallResponse" where
  "ffi_rpc_error code responder detail = FfiErrorResponse (code_as_u8 code) (code_name code) responder detail"

definition ffi_rpc_outcome :: "bytes \<Rightarrow> bool \<Rightarrow> FfiHandlerOutcome \<Rightarrow> FfiCallResponse option" where
  "ffi_rpc_outcome responder adm out =
    (if \<not> adm then Some (ffi_rpc_error Unauthorized responder None)
     else case out of
       FfiHandlerOk reply \<Rightarrow> Some (FfiResult (ffi_normal reply) responder)
     | FfiHandlerErr e \<Rightarrow> Some (ffi_rpc_error UnknownError responder (Some (ffi_error_text e)))
     | FfiHandlerPanic \<Rightarrow> Some (ffi_rpc_error TemporaryRelayFailure responder None)
     | FfiHandlerOutlivesTimeout \<Rightarrow> None)"

text \<open>A foreign handler's reply and error text fit a frame.\<close>

definition ffi_outcome_fits :: "FfiHandlerOutcome \<Rightarrow> bool" where
  "ffi_outcome_fits out \<longleftrightarrow>
    (case out of
       FfiHandlerOk reply \<Rightarrow> outcome_fits (HandlerOk (into_value reply))
     | FfiHandlerErr e \<Rightarrow> outcome_fits (HandlerErr (ffi_error_text e))
     | _ \<Rightarrow> True)"

subsection \<open>The core handler implements the foreign one\<close>

lemma core_handler_fits:
  "outcome_fits (core_handler handler realm procedure (normal (into_value payload))) \<longleftrightarrow>
    ffi_outcome_fits (handler procedure realm (ffi_normal payload))"
  by (simp add: core_handler_def ffi_outcome_fits_def outcome_fits_def split: FfiHandlerOutcome.split)

lemma rpc_outcome_foreign:
  assumes "ffi_rpc_outcome responder adm (handler procedure realm (ffi_normal payload)) = Some r"
  obtains r' where
    "rpc_outcome responder adm (Some (core_handler handler realm procedure)) (normal (into_value payload)) = Some r'"
    "try_from_call_response r' = Inr r"
  using assms
  by (auto simp: ffi_rpc_outcome_def ffi_rpc_error_def rpc_outcome_def rpc_error_def core_handler_def try_from_call_response_def
    split: if_splits FfiHandlerOutcome.splits)

subsection \<open>The methods as calls of the core\<close>

lemma ffi_call_is:
  assumes "\<not> deadline_panics E n timeout_ms" "length realm = 32"
    "session_call_with_ucan C E (n + 1) s procedure realm (into_value payload) (deadline_in E n timeout_ms) kp token = (r, s', k)"
  shows "ffi_call_with_ucan C E n T procedure realm payload timeout_ms kp token (Some s) =
    (ffi_response (reason FfiCall (call_error_text (tx_quinn T)) r), Some s')"
  using assms by (simp add: ffi_call_with_ucan_def checked_def with_deadline_def with_guard_def to_32_def to_array_def)

lemma ffi_serve_is:
  assumes "into_policy policy = Inr pol"
    "serve_one_call_gated J C E n (\<lambda>realm procedure. Some (core_handler handler realm procedure)) (\<lambda>_ _. pol) kp s = (r, s', k, invoked)"
  shows "ffi_serve_one_call_gated J C E n T handler policy kp (Some s) =
    ((reason FfiRecv (serve_call_error_text T) r, Some s'), foreign_payloads invoked)"
  using assms by (simp add: ffi_serve_one_call_gated_def Let_def)

lemma ffi_exchange_exists:
  assumes "crypto_ok C" "wf_keypair kc" "wf_keypair kp" "env_ok Ec" "env_ok Ep"
    "call_fits procedure realm (into_value payload) (deadline_in Ec m timeout_ms) token"
    "into_policy policy = Inr pol"
    "ffi_outcome_fits (handler procedure realm (ffi_normal payload))"
    "adm \<longleftrightarrow> policy_check J C (env_now_s Ep n) pol token = Inr ()"
    "ffi_rpc_outcome (node_id C kp) adm (handler procedure realm (ffi_normal payload)) = Some r" "\<not> deadline_panics Ec m timeout_ms"
  obtains from_caller from_provider response sc served sp invoked where
    "ffi_call_with_ucan C Ec m Tc procedure realm payload timeout_ms kc token (Some (fresh_session hc from_provider)) = (response, Some sc)"
    "ffi_serve_one_call_gated J C Ep n Tp handler policy kp (Some (fresh_session hp from_caller)) = ((served, Some sp), invoked)"
    "reads_of sc from_caller" "reads_of sp from_provider"
proof -
  let ?lookup = "\<lambda>realm procedure. Some (core_handler handler realm procedure)"
  have realm: "length realm = 32" using assms(6) by (simp add: call_fits_def)
  obtain r' where r': "rpc_outcome (node_id C kp) adm (Some (core_handler handler realm procedure)) (normal (into_value payload)) = Some r'"
    by (rule rpc_outcome_foreign [where handler = handler and procedure = procedure and realm = realm and payload = payload, OF assms(10)])
  have fits: "\<forall>h. ?lookup realm procedure = Some h \<longrightarrow> outcome_fits (h (normal (into_value payload)))"
    using assms(8) by (simp add: core_handler_fits)
  obtain fc fp x sc k y sp k' vs where run: "session_call_with_ucan C Ec (m + 1) (fresh_session hc fp) procedure realm (into_value payload)
      (deadline_in Ec m timeout_ms) kc token = (x, sc, k)"
    "serve_one_call_gated J C Ep n ?lookup (\<lambda>_ _. pol) kp (fresh_session hp fc) = (y, sp, k', vs)"
    "reads_of sc fc" "reads_of sp fp"
    by (rule exchange_exists [where lookup = ?lookup and policy = "\<lambda>_ _. pol" and adm = adm and r = r' and realm = realm and
          procedure = procedure, OF assms(1-6) fits assms(9) r'])
  from that [OF ffi_call_is [OF assms(11) realm run(1)] ffi_serve_is [OF assms(7) run(2)] run(3,4)] show ?thesis .
qed

subsection \<open>Properties\<close>

text \<open>C16: A call between foreign programs. When one foreign session calls and another one serves, each reading all that
  the other's session writes, the caller is returned what the foreign handler's outcome specifies: its reply with
  the entries of maps in canonical order, its error as the detail of \<open>unknown_error\<close>, a crash as
  \<open>temporary_relay_failure\<close>, and \<open>unauthorized\<close> without the handler having run when the policy rejects the
  token. The handler runs at most once, on the caller's payload. Where additions are checked, a timeout that the
  clock leaves no room for makes the caller panic instead.\<close>

theorem ffi_rpc_end_to_end:
  assumes "crypto_ok C" "wf_keypair kc" "wf_keypair kp" "env_ok Ec" "env_ok Ep"
    "call_fits procedure realm (into_value payload) (deadline_in Ec m timeout_ms) token"
    "ffi_call_with_ucan C Ec m Tc procedure realm payload timeout_ms kc token (Some (fresh_session hc from_provider)) = (response, Some sc)"
    "into_policy policy = Inr pol"
    "ffi_serve_one_call_gated J C Ep n Tp handler policy kp (Some (fresh_session hp from_caller)) = ((served, Some sp), invoked)"
    "reads_of sc from_caller" "reads_of sp from_provider"
    "ffi_outcome_fits (handler procedure realm (ffi_normal payload))"
    "adm \<longleftrightarrow> policy_check J C (env_now_s Ep n) pol token = Inr ()"
    "ffi_rpc_outcome (node_id C kp) adm (handler procedure realm (ffi_normal payload)) = Some r"
  shows "if deadline_panics Ec m timeout_ms then response = Inl Panic
    else response = Inr r \<and> served = Inr () \<and> invoked = (if adm then [ffi_normal payload] else [])"
proof (cases "deadline_panics Ec m timeout_ms")
  case True
  then show ?thesis using assms(6,7)
    by (simp add: ffi_call_with_ucan_def checked_def with_deadline_def call_fits_def to_32_cases del: to_32_iff)
next
  case False
  let ?lookup = "\<lambda>realm procedure. Some (core_handler handler realm procedure)"
  have realm: "length realm = 32" using assms(6) by (simp add: call_fits_def)
  obtain x sc' k where call: "session_call_with_ucan C Ec (m + 1) (fresh_session hc from_provider) procedure realm (into_value payload)
      (deadline_in Ec m timeout_ms) kc token = (x, sc', k)"
    using prod_cases3 by blast
  from ffi_call_is [OF False realm call] assms(7) have sc: "sc' = sc"
    "response = ffi_response (reason FfiCall (call_error_text (tx_quinn Tc)) x)" by auto
  obtain y sp' k' vs where serve: "serve_one_call_gated J C Ep n ?lookup (\<lambda>_ _. pol) kp (fresh_session hp from_caller) = (y, sp', k', vs)"
    using prod_cases4 by blast
  from ffi_serve_is [OF assms(8) serve] assms(9) have sp: "sp' = sp" "served = reason FfiRecv (serve_call_error_text Tp) y"
    "invoked = foreign_payloads vs" by auto
  obtain r' where r': "rpc_outcome (node_id C kp) adm (Some (core_handler handler realm procedure)) (normal (into_value payload)) = Some r'"
    "try_from_call_response r' = Inr r"
    by (rule rpc_outcome_foreign [where handler = handler and procedure = procedure and realm = realm and payload = payload, OF assms(14)])
  have fits: "\<forall>h. ?lookup realm procedure = Some h \<longrightarrow> outcome_fits (h (normal (into_value payload)))"
    using assms(12) by (simp add: core_handler_fits)
  have "x = Inr r' \<and> y = Inr () \<and> vs = (if adm \<and> ?lookup realm procedure \<noteq> None then [normal (into_value payload)] else [])"
    by (rule exchange_outcome [where lookup = ?lookup and policy = "\<lambda>_ _. pol" and adm = adm and r = r' and realm = realm and
          procedure = procedure, OF assms(1-6) call [unfolded sc(1)] serve [unfolded sp(1)] assms(10,11) fits assms(13) r'(1)])
  then show ?thesis using sc(2) sp(2,3) r'(2) False
    by (simp add: reason_def ffi_response_def foreign_payloads_def List.map_filter_simps)
qed

text \<open>A handler that returns its payload, called with a map whose entries are not in canonical order.\<close>

definition echo :: FfiCallHandler where
  "echo procedure realm payload = FfiHandlerOk payload"

definition demo_payload :: FfiValue where
  "demo_payload = FfiFields [FfiMapEntry (FfiText ''bb'') (FfiInt 1), FfiMapEntry (FfiText ''a'') (FfiInt 2)]"

definition demo_reply :: FfiValue where
  "demo_reply = FfiFields [FfiMapEntry (FfiText ''a'') (FfiInt 2), FfiMapEntry (FfiText ''bb'') (FfiInt 1)]"

lemma ffi_normal_demo: "ffi_normal demo_payload = demo_reply" "ffi_normal demo_reply = demo_reply"
  by (simp_all add: ffi_normal_def demo_payload_def demo_reply_def i64_from_int_def eval_simps encode_head_def)

theorem ffi_rpc_end_to_end_witness:
  "\<forall>T. \<exists>from_caller from_provider sc sp.
    ffi_call_with_ucan toy_crypto demo_env 0 T ''p'' (replicate 32 1) demo_payload 5 demo_key [] (Some (fresh_session demo_hello from_provider)) =
      (Inr (FfiResult demo_reply (node_id toy_crypto demo_key)), Some sc) \<and>
    ffi_serve_one_call_gated toy_codec toy_crypto demo_env 0 T echo FfiOpen demo_key (Some (fresh_session demo_hello from_caller)) =
      ((Inr (), Some sp), [demo_reply]) \<and>
    reads_of sc from_caller \<and> reads_of sp from_provider" (is "\<forall>T. ?P T")
proof
  fix T
  have fits: "call_fits ''p'' (replicate 32 1) (into_value demo_payload) (deadline_in demo_env 0 5) []"
    by (simp add: call_fits_def demo_payload_def ascii_valid_str ascii_def in_range_def wire_room_def MAX_FRAME_BYTES_def
      eval_simps encode_head_def deadline_in_def demo_env_simps)
  have out: "ffi_outcome_fits (echo ''p'' (replicate 32 1) (ffi_normal demo_payload))"
    by (simp add: echo_def ffi_normal_demo ffi_outcome_fits_def outcome_fits_def demo_reply_def ascii_valid_str ascii_def
      in_range_def wire_room_def MAX_FRAME_BYTES_def eval_simps encode_head_def)
  have adm: "True \<longleftrightarrow> policy_check toy_codec toy_crypto (env_now_s demo_env 0) policy_open [] = Inr ()"
    by (simp add: policy_check_def policy_open_def)
  have pol: "into_policy FfiOpen = Inr policy_open" by (simp add: into_policy_def)
  have r: "ffi_rpc_outcome (node_id toy_crypto demo_key) True (echo ''p'' (replicate 32 1) (ffi_normal demo_payload)) =
      Some (FfiResult demo_reply (node_id toy_crypto demo_key))"
    by (simp add: ffi_rpc_outcome_def echo_def ffi_normal_demo)
  have calm: "\<not> deadline_panics demo_env 0 5" by (simp add: deadline_panics_def demo_env_simps)
  note ok = toy_crypto_ok wf_demo_key wf_demo_key demo_env_ok demo_env_ok fits
  obtain fc fp response sc served sp invoked where run:
    "ffi_call_with_ucan toy_crypto demo_env 0 T ''p'' (replicate 32 1) demo_payload 5 demo_key [] (Some (fresh_session demo_hello fp)) = (response, Some sc)"
    "ffi_serve_one_call_gated toy_codec toy_crypto demo_env 0 T echo FfiOpen demo_key (Some (fresh_session demo_hello fc)) = ((served, Some sp), invoked)"
    "reads_of sc fc" "reads_of sp fp"
    by (rule ffi_exchange_exists [where handler = echo and procedure = "''p''" and realm = "replicate 32 1" and payload = demo_payload,
          OF ok pol out adm r calm])
  from ffi_rpc_end_to_end [where handler = echo and procedure = "''p''" and realm = "replicate 32 1" and payload = demo_payload,
      OF ok run(1) pol run(2-4) out adm r] run calm show "?P T"
    by (intro exI [of _ fc] exI [of _ fp] exI [of _ sc] exI [of _ sp]) (simp add: ffi_normal_demo)
qed

end
