(* ===== verification/Conformance.thy ===== *)
theory Conformance
  imports FrameProps FrameSize Pool
begin

section \<open>Conformance: the repository's reference vectors on the model\<close>

text \<open>
  Fixtures of the repository's unit tests, proved of the model. The exact size of an encoding, computed from
  a value, gives the sizes that the tests of \<open>frame.rs\<close> record for the signed frames of the reference
  implementation; the encodings that \<open>cbor.rs\<close> captured from the reference codec are the model's;
    and the
  pool reads station rows and gives up on links as the tests of \<open>pool.rs\<close> say.
\<close>

subsection \<open>The exact size of an encoding\<close>

definition head_size :: "u64 \<Rightarrow> nat" where
  "head_size n =
    (if n \<le> 23 then 1 else if n \<le> 0xFF then 2 else if n \<le> 0xFFFF then 3 else if n \<le> 0xFFFFFFFF
      then 5 else 9)"

fun wire_size :: "Value \<Rightarrow> nat" where
  "wire_size (IntV n) = head_size (if 0 \<le> n then word_of_int n else word_of_int (-1 - n))"
| "wire_size (Bytes b) = head_size (word_of_nat (length b)) + length b"
| "wire_size (Text s) = head_size (word_of_nat (length s)) + length s"
| "wire_size (List items) = head_size (word_of_nat (length items)) + sum_list (map wire_size items)"
| "wire_size (Map ps) =
     head_size (word_of_nat (length ps)) + sum_list (map (\<lambda>p. wire_size (fst p) + wire_size (snd p)) ps)"
| "wire_size Null = 1"
| "wire_size (Float f) = 9"

lemma length_encode_head_eq: "length (encode_head major n) = head_size n"
  by (simp add: encode_head_def head_size_def)

lemma length_enc: "wfv v \<Longrightarrow> length (enc v) = wire_size v"
proof (induction v rule: value_induct)
  case (IntV n)
  then show ?case by (simp add: enc_Int length_encode_head_eq)
next
  case (List items)
  have "map (\<lambda>x. length (enc x)) items = map wire_size items" using List by simp
  then show ?case using List.prems by (simp add: enc_List length_concat length_encode_head_eq comp_def del:
    map_eq_conv)
next
  case (Map ps)
  have "map (\<lambda>p. length (enc (fst p)) + length (enc (snd p))) ps
      = map (\<lambda>p. wire_size (fst p) + wire_size (snd p)) ps"
    using Map by simp
  then show ?case using Map.prems
    by (simp add: enc_Map encode_sorted_pairs_enc length_concat comp_def sum_list_sort_key
      length_encode_head_eq del: map_eq_conv)
qed (simp_all add: length_encode_head_eq)

text \<open>A field of bytes contributes by its length only.\<close>

lemma wire_size_set_field:
  "length b = length c \<Longrightarrow>
    wire_size (Map (set_field key (Bytes b) ps)) = wire_size (Map (set_field key (Bytes c) ps))"
proof -
  assume l: "length b = length c"
  have n: "length (set_field key (Bytes b) ps) = length (set_field key (Bytes c) ps)"
    by (induction key "Bytes b" ps rule: set_field.induct) auto
  have "sum_list (map (\<lambda>p. wire_size (fst p) + wire_size (snd p)) (set_field key (Bytes b) ps))
      = sum_list (map (\<lambda>p. wire_size (fst p) + wire_size (snd p)) (set_field key (Bytes c) ps))"
    using l by (induction key "Bytes b" ps rule: set_field.induct) auto
  with n show ?thesis by simp
qed

definition signed_length :: "crypto \<Rightarrow> KeyPair \<Rightarrow> Value \<Rightarrow> nat option" where
  "signed_length C kp frame =
    (case sign_frame C frame kp :: (Value, unit fail) result of
       Inl _ \<Rightarrow> None
     | Inr g \<Rightarrow> (case encode_frame g of Inl _ \<Rightarrow> None | Inr w \<Rightarrow> Some (length
       w)))"

lemma signed_length_eq:
  assumes "crypto_ok C" "wf_keypair kp" "frame_ok frame"
    and n: "4 + wire_size (with_field frame ''signature'' (Bytes (replicate 64 0))) = n" "n \<le> MAX_FRAME_BYTES"
  shows "signed_length C kp frame = Some n"
proof -
  let ?sig = "sign_bytes C kp (SIG_DOMAIN @ enc (without frame sig_fields))"
  obtain ps where f: "frame = Map ps" using frame_ok_is_Map [OF assms(3)] by blast
  have "wire_size (with_field frame ''signature'' (Bytes ?sig)) = n - 4"
    using wire_size_set_field [of ?sig "replicate 64 0" "''signature''" ps] assms(1,2) n(1)
    by (simp add: f with_field_Map length_sign_bytes del: wire_size.simps)
  moreover have "wfv (with_field frame ''signature'' (Bytes ?sig))"
    by (rule frame_ok_wfv [OF sign_frame_ok(2) [OF assms(3)]])
  ultimately have "encode (with_field frame ''signature'' (Bytes ?sig)) = Inr (enc (with_field frame
    ''signature'' (Bytes ?sig)))"
    "length (enc (with_field frame ''signature'' (Bytes ?sig))) = n - 4"
    by (simp_all add: encode_eq_enc length_enc)
  then show ?thesis using n by (auto simp: signed_length_def sign_frame_ok [OF assms(3)] encode_frame_def)
qed

subsection \<open>The lengths of the reference frames\<close>

text \<open>
  The fixtures of the tests \<open>*_frame_matches_the_reference_byte_for_byte\<close>: whatever the identity, the
  ids of their lengths and the scheme, the signed frame is as long as the reference implementation's.
\<close>

lemmas frame_sizes =
  with_fields_def with_field_def base_def head_size_def as_bytes_def or_null_def with_optional_signer_def
  bytes32_list_def PROTOCOL_VERSION_def MAX_FRAME_BYTES_def in_range_def ascii_valid_str ascii_def
  connect_value_def ConnectSpec_new_def call_value_def CallSpec_new_def result_value_def ResultSpec_new_def
  call_error_value_def CallErrorSpec_new_def publish_value_def PublishSpec_new_def subscribe_value_def
  unsubscribe_value_def advertise_value_def unadvertise_value_def stream_open_value_def StreamOpenSpec_new_def
  stream_data_value_def stream_end_value_def stream_error_value_def stream_reply_value_def

lemma reference_call_lengths:
  assumes "crypto_ok C" "wf_keypair kp" "length pub = 32" "length fid = 16" "length evidence = 32" "length
    call_id = 16"
  shows
    "signed_length C kp (connect_value (ConnectSpec_new pub evidence) fid 1700000000000) = Some 375"
    "signed_length C kp (call_value (CallSpec_new call_id ''_content.get_manifest'' (replicate 32 0) (Map
      [(Text ''hello'', Text ''world'')]) 1700000030000 pub) fid 1700000000000) = Some 386"
    "signed_length C kp (result_value (ResultSpec_new call_id (Text ''ok-result'') pub) fid 1700000000000) =
      Some 301"
    "signed_length C kp (call_error_value (CallErrorSpec_new call_id UnknownNextPeer pub) fid 1700000000000) =
      Some 333"
  by (rule signed_length_eq [OF assms(1,2)]; (intro constructors_ok)?; simp add: assms frame_sizes)+

lemma reference_pubsub_lengths:
  assumes "crypto_ok C" "wf_keypair kp" "length pub = 32" "length fid = 16"
  shows
    "signed_length C kp (publish_value (PublishSpec_new ''test.topic'' (replicate 32 0) pub 42 (Text
      ''published-data'') 1700000000000) fid 1700000000000) = Some 355"
    "signed_length C kp (subscribe_value (SubscribeSpec_new ''test.topic'' (replicate 32 0) pub) fid
      1700000000000) = Some 313"
    "signed_length C kp (unsubscribe_value (UnsubscribeSpec_new ''test.topic'' (replicate 32 0) pub) fid
      1700000000000) = Some 298"
    "signed_length C kp (advertise_value (AdvertiseSpec_new (replicate 32 0) ''macula_rust_sdk.test_procedure''
      pub) fid 1700000000000) = Some 330"
    "signed_length C kp (unadvertise_value (UnadvertiseSpec_new (replicate 32 0)
      ''macula_rust_sdk.test_procedure'' pub) fid 1700000000000) = Some 323"
  by (rule signed_length_eq [OF assms(1,2)]; (intro constructors_ok)?; simp add: assms frame_sizes)+

lemma reference_stream_lengths:
  assumes "crypto_ok C" "wf_keypair kp" "length pub = 32" "length fid = 16" "length stream_id = 16"
  shows
    "signed_length C kp (stream_open_value (StreamOpenSpec_new stream_id ''macula_rust_sdk.test_stream''
      (replicate 32 0) ClientStream (Map [(Text ''hello'', Text ''world'')]) 1700000030000 pub) fid
      1700000000000) = Some 415"
    "signed_length C kp (stream_data_value (StreamDataSpec_new stream_id 0 Raw (Bytes (as_bytes
      ''raw chunk bytes'')) None) fid 1700000000000) = Some 269"
    "signed_length C kp (stream_data_value (StreamDataSpec_new stream_id 0 Raw (Bytes (as_bytes
      ''raw chunk bytes'')) (Some pub)) fid 1700000000000) = Some 310"
    "signed_length C kp (stream_data_value (StreamDataSpec_new stream_id 1 Msgpack (Map [(Text ''a'', IntV
      1),(Text ''greeting'', Bytes (as_bytes ''hi''))]) None) fid 1700000000000) = Some 273"
    "signed_length C kp (stream_end_value (StreamEndSpec_new stream_id RoleSend None) fid 1700000000000) = Some
      239"
    "signed_length C kp (stream_end_value (StreamEndSpec_new stream_id RoleSend (Some pub)) fid 1700000000000)
      = Some 280"
    "signed_length C kp (stream_error_value (StreamErrorSpec_new stream_id ''cancelled'' ''boom'' None) fid
      1700000000000) = Some 259"
    "signed_length C kp (stream_error_value (StreamErrorSpec_new stream_id ''cancelled'' ''boom'' (Some pub))
      fid 1700000000000) = Some 300"
    "signed_length C kp (stream_reply_value (StreamReplySpec_new stream_id (Map [(Text ''ok'', Text ''true'')])
      pub) fid 1700000000000) = Some 295"
  by (rule signed_length_eq [OF assms(1,2)]; (intro constructors_ok)?; simp add: assms frame_sizes)+

subsection \<open>The vectors of the reference codec\<close>

text \<open>The fixtures of \<open>cbor.rs\<close>, captured there from the reference encoder, and its rejected
  inputs.\<close>

lemma to_be_bytes_sizes:
  "to_be_bytes 2 w = [ucast (drop_bit 8 w), ucast w]"
  "to_be_bytes 4 w = [ucast (drop_bit 24 w), ucast (drop_bit 16 w), ucast (drop_bit 8 w), ucast w]"
  "to_be_bytes 8 w = [ucast (drop_bit 56 w), ucast (drop_bit 48 w), ucast (drop_bit 40 w), ucast (drop_bit 32 w),
     ucast (drop_bit 24 w), ucast (drop_bit 16 w), ucast (drop_bit 8 w), ucast w]"
  by (simp_all add: to_be_bytes_def upt_rec)

lemmas encode_simps =
  encode_def encode_int_def u64_max_def Let_def encode_head_def as_bytes_def to_be_bytes_sizes
    encode_sorted_pairs_def

lemma reference_scalar_encodings:
  "encode (Map []) = Inr [0xA0]"
  "encode (IntV 0) = Inr [0x00]"
  "encode (IntV 23) = Inr [0x17]"
  "encode (IntV 24) = Inr [0x18, 0x18]"
  "encode (IntV 255) = Inr [0x18, 0xFF]"
  "encode (IntV 256) = Inr [0x19, 0x01, 0x00]"
  "encode (IntV 65535) = Inr [0x19, 0xFF, 0xFF]"
  "encode (IntV 65536) = Inr [0x1A, 0x00, 0x01, 0x00, 0x00]"
  "encode (IntV (-1)) = Inr [0x20]"
  "encode (IntV (-24)) = Inr [0x37]"
  "encode (IntV (-25)) = Inr [0x38, 0x18]"
  "encode (IntV (-256)) = Inr [0x38, 0xFF]"
  "encode (Bytes []) = Inr [0x40]"
  "encode (Bytes [0x68, 0x65, 0x6C, 0x6C, 0x6F]) = Inr [0x45, 0x68, 0x65, 0x6C, 0x6C, 0x6F]"
  "encode (Text ''hello'') = Inr [0x65, 0x68, 0x65, 0x6C, 0x6C, 0x6F]"
  "encode (Text ''true'') = Inr [0x64, 0x74, 0x72, 0x75, 0x65]"
  "encode (List []) = Inr [0x80]"
  "encode (List [IntV 1, IntV 2, IntV 3]) = Inr [0x83, 0x01, 0x02, 0x03]"
  "encode (Null) = Inr [0xF6]"
  "encode (Float 0) = Inr [0xFB, 0x00, 0x00, 0x00, 0x00, 0x00, 0x00, 0x00, 0x00]"
  "encode (Float 0x40C81CD6E631F8A1) = Inr [0xFB, 0x40, 0xC8, 0x1C, 0xD6, 0xE6, 0x31, 0xF8, 0xA1]"
  by (simp_all add: encode_simps)

lemma reference_map_encodings:
  "encode (Map [(Text ''b'', IntV 2), (Text ''a'', IntV 1)]) =
    Inr [0xA2, 0x61, 0x61, 0x01, 0x61, 0x62, 0x02]"
  "encode (Map [(Text ''zebra'', IntV 1), (Text ''apple'', IntV 2)]) =
    Inr [0xA2, 0x65, 0x61, 0x70, 0x70, 0x6C, 0x65, 0x02, 0x65, 0x7A, 0x65, 0x62, 0x72, 0x61, 0x01]"
  "encode (Map [(Text ''aa'', IntV 1), (Text ''a'', IntV 2), (Text ''aaa'', IntV 3)]) =
    Inr [0xA3, 0x61, 0x61, 0x02, 0x62, 0x61, 0x61, 0x01, 0x63, 0x61, 0x61, 0x61, 0x03]"
  "encode (Map [(Text ''name'', Text ''macula''), (Text ''nums'', List [IntV 1, IntV 2, IntV 3]), (Text
    ''nil'', Null)]) =
    Inr [0xA3, 0x63, 0x6E, 0x69, 0x6C, 0xF6, 0x64, 0x6E, 0x61, 0x6D, 0x65, 0x66, 0x6D, 0x61, 0x63, 0x75, 0x6C,
      0x61, 0x64, 0x6E, 0x75, 0x6D, 0x73, 0x83, 0x01, 0x02, 0x03]"
  by (simp_all add: encode_simps)

lemma reference_range_of_integers:
  "encode (IntV (2 ^ 64)) = Inl (IntOutOfRange (2 ^ 64))"
  "encode (IntV (- (2 ^ 64))) = Inr [0x3B, 0xFF, 0xFF, 0xFF, 0xFF, 0xFF, 0xFF, 0xFF, 0xFF]"
  "encode (IntV (- (2 ^ 64) - 1)) = Inl (IntOutOfRange (- (2 ^ 64) - 1))"
  by (simp_all add: encode_simps)

lemma reference_rejected_inputs:
  "decode [0xC0] = Inl (Err (UnsupportedMajorType 6))"
  "decode [0x00, 0xFF] = Inl (Err TrailingBytes)"
  "decode [0x18] = Inl (Err Truncated)"
  by code_simp+

subsection \<open>The fixtures of the pool\<close>

text \<open>The unit tests of \<open>pool.rs\<close> on links, station rows and advertised names.\<close>

lemma reference_dial_targets:
  "dial_target_from_station_row (Map
     [(Text ''hostname'', Text ''station-de-frankfurt.macula.io''),
      (Text ''host_advertised'', List [Bytes (as_bytes ''2a01:7e01::f03c:94ff:fe22:719e'')]),
      (Text ''quic_port'', IntV 4433)]) = Some (''station-de-frankfurt.macula.io'', 4433, None)"
  "dial_target_from_station_row (Map
     [(Text ''host_advertised'', List [Bytes (as_bytes ''2600:3c0b::2000:1fff:fe35:416b'')]),
      (Text ''quic_port'', IntV 4433)]) = Some (''2600:3c0b::2000:1fff:fe35:416b'', 4433, None)"
  "dial_target_from_station_row (Map [(Text ''hostname'', Text ''x'')]) = None"
  "dial_target_from_station_row (Map
     [(Text ''hostname'', Text ''x''), (Text ''quic_port'', IntV 4433),
      (Text ''node_id'', Bytes (replicate 32 0xAB))]) = Some (''x'', 4433, Some (replicate 32 0xAB))"
  by (simp_all add: dial_target_from_station_row_def get_def as_port_def host_item_def map_filter_simps Let_def
        from_utf8_as_bytes ascii_valid_str ascii_def to_array_def)

lemma reference_discovery_slots:
  "count_occupied_discovery_slots
     [PooledLink_new s Bootstrap WebPki, PooledLink_new s Bootstrap WebPki,
      PooledLink_new s Discovered WebPki, (PooledLink_new s Discovered WebPki)\<lparr>ln_gave_up :=
        True\<rparr>] = 1"
  "\<not> should_give_up Bootstrap 1000000"
  "\<not> should_give_up Discovered (DISCOVERY_LINK_MAX_RESPAWN_ATTEMPTS - 1)"
  "should_give_up Discovered DISCOVERY_LINK_MAX_RESPAWN_ATTEMPTS"
  by code_simp+

end
