(* ===== verification/Spec2Isabelle.thy ===== *)
theory Spec2Isabelle
  imports ConnProps ManifestProps ContentProps PoolProps StreamProps CertProps DirectProps KeyStores TrustProps FfiProps RpcProps FfiRpc Conformance
begin

text \<open>
  A verification development for the macula Rust SDK (\<open>src/\<close>), the client of a mesh of stations: an
  identity with an Ed25519 key opens a session with a station over QUIC, both sides sign what they
  send, and over the session a client calls and serves procedures, publishes and subscribes to
  events, opens streams, stores and fetches content, and uses a DHT of signed records.

  \<^bold>\<open>How the code is modelled.\<close> Structs are records, enums are datatypes with the source's constructors,
  integers on the wire keep their width (\<open>u8\<close>, \<open>u16\<close>, \<open>u64\<close>) and an \<open>i128\<close> is an \<open>int\<close> whose range is checked
  where the code checks it. A fallible function returns \<open>'e fail + 'a\<close>: \<open>Inl (Err e)\<close> is an error
  value, \<open>Inl Panic\<close> a panic, so that no panic is left out of a statement. An asynchronous function is
  a function of the events that reach it: a QUIC stream is the list of its reads (a chunk, a timer, the
  end, a failure) and of the outcomes of its writes, and what a timer leaves behind is part of the
  result. Fresh ids, clocks and sequence numbers are an environment \<open>env\<close> that every draw indexes by a
  counter that is passed on; whether additions of machine integers panic on overflow, as in the dev profile, or
  wrap around, as in a release build, is a field of it too, so that a statement about panics holds of both. Every
  stream of a session is opened on the session's own connection, which the session carries. Hash functions, the
  signature scheme, base64 and JSON, X.509 parsing and path validation are records of functions (\<open>crypto\<close>, \<open>ucan_codec\<close>, \<open>x509\<close>), with the laws that are
  used of them as named predicates (\<open>crypto_ok\<close>, \<open>codec_ok\<close>), each shown to be satisfiable by a toy
  instance. Tasks that interleave are \<open>inductive\<close> step relations.

  \<^bold>\<open>Theories and sources.\<close>
  \<^item> \<open>Prelude\<close>: results, panics, bytes, UTF-8, lists. \<open>Floats\<close>, \<open>Cbor\<close> (\<open>cbor.rs\<close>): values, the encoder and
    the decoder. \<open>CborSafety\<close>: the decoder never panics and what it returns is well formed.
    \<open>CborCorrect\<close>, \<open>CborProps\<close>: decoding an encoding sorts the maps and is otherwise the identity.
  \<^item> \<open>Crypto\<close>, \<open>Bolt4\<close> (\<open>bolt4.rs\<close>), \<open>Identity\<close> (\<open>identity.rs\<close>): keys, the puzzle, key files with
    the faults of a file system. \<open>KeyStores\<close> (\<open>keystore.rs\<close>): both stores of a platform's secrets; the locale
    \<open>key_store\<close> is what a client relies on, interpreted on each of them.
  \<^item> \<open>Frame\<close>, \<open>StreamFrame\<close> (\<open>frame.rs\<close>): every frame's constructor and parser, signing, and the length-prefixed
    codec. \<open>FrameFacts\<close>, \<open>FrameSize\<close>, \<open>FrameProps\<close>: frames are well formed and fit the wire, signatures
    survive it. \<open>FrameStream\<close> (\<open>connection.rs\<close>): sending and receiving on a byte stream; the locale
    \<open>wire_codec\<close> holds what reassembly needs of any codec, and \<open>frame_codec\<close> is its interpretation.
  \<^item> \<open>Ucan\<close> (\<open>ucan.rs\<close>): tokens and policies. \<open>ErrorText\<close>: the texts that travel in error replies.
  \<^item> \<open>Connection\<close>, \<open>ConnProps\<close> (\<open>connection.rs\<close>): the handshake, calls, serving, publish and subscribe loops.
    \<open>RpcProps\<close>: the caller's and the provider's session composed, each reading what the other one writes.
  \<^item> \<open>Manifest\<close>, \<open>ManifestProps\<close> (\<open>manifest.rs\<close>), \<open>Content\<close>, \<open>ContentProps\<close> (\<open>content.rs\<close>): content addresses, the
    Merkle root, and the transfer of blocks and manifests.
  \<^item> \<open>Dht\<close>, \<open>DhtProps\<close> (\<open>dht.rs\<close>): records, their signatures and their storage.
  \<^item> \<open>IpAddr\<close>, \<open>Pool\<close>, \<open>PoolSteps\<close>, \<open>PoolInv\<close>, \<open>PoolDiscovery\<close>, \<open>PoolRuns\<close>, \<open>PoolCalls\<close>, \<open>PoolProps\<close> (\<open>pool.rs\<close>): a
    pool's links and operations, its tasks as interleaved atomic actions (callers that are dropped at an \<open>await\<close>
    among them), the invariants of every interleaving, the row of a station list behind every discovered link, the
    sequential operations (a call, a publish, a round of discovery) as runs of it, what a call changes link by link,
    and what all of it excludes and admits.
  \<^item> \<open>Stream\<close>, \<open>StreamProps\<close> (\<open>stream.rs\<close>): streaming calls over a dedicated stream.
  \<^item> \<open>Certs\<close> (\<open>cert.rs\<close>), \<open>Transport\<close> (\<open>transport.rs\<close>): the TLS verifiers, the trust modes, the dial.
    \<open>CertChain\<close>, \<open>CertProps\<close> (\<open>cert_chain.rs\<close>): authorization by certificate chains.
  \<^item> \<open>DirectDial\<close>, \<open>DirectProps\<close> (\<open>direct_dial.rs\<close>): resolution of a procedure or a station over the DHT, the pinned
    dial, and calls, streams and content over it. \<open>TrustProps\<close>: what a session says about the peer, pinned and not.
  \<^item> \<open>Conformance\<close>: the reference vectors of the repository's unit tests (encodings, the lengths of signed frames,
    station rows) on the definitions above. \<open>Texts\<close>: the \<open>Display\<close> implementations that \<open>ErrorText\<close> does not hold.
  \<^item> \<open>FfiValue\<close>, \<open>Ffi\<close> (\<open>macula-rust-ffi/src/lib.rs\<close>): the types of the Kotlin and Swift bindings with their
    conversions, and every exported function and method; an object is an option behind a lock.
    \<open>FfiSteps\<close>: sessions and streams as state machines with the methods as steps, both interpretations of
    the locale \<open>closable_object\<close>. \<open>NoPanic\<close>, \<open>DirectNoPanic\<close>: which values can be encoded, and the operations of sessions
    and streams, of direct dial and content that cannot panic. \<open>FfiProps\<close>: the boundary neither loses values nor panics, an object's life, and
    where a time is truncated or ends in a panic. \<open>FfiRpc\<close>: a call between two foreign programs, specified on foreign
    values alone.

  \<^bold>\<open>What the theorems show.\<close> Codecs: round trips, no panic on any input, equivalence of the canonical bytes
  the decoder keeps with the encoder's, reassembly of frames however they are cut. Authentication: a
  session, a record, a token, an advertisement is accepted exactly when its signature verifies and its
  conditions hold; a direct call or a direct fetch ends at the identity the signed records name. Calls: what a
  caller gets is what its specification over the provider's handler gives, between two sessions and between two
  foreign programs, and a rejected call runs no handler. Content: what is fetched has the address or verifies against the manifest it came with.
  The pool: invariants over every interleaving of its tasks, and sequential operations as runs of
  that model. And where the code does not do what it means to, the theorem that shows it: links lost for
  good by a race or by a dropped caller, a closed pool that dials again, a manifest or an advertised name that is not compared with what was asked
  for, panics on values that come from a caller or from the DHT.

  \<^bold>\<open>Bounds.\<close> No loop needs fuel except where the code has a bound of its own: the decoder's nesting limit, the
  attempts of \<open>call_with_retry\<close> and \<open>RESOLVE_RETRIES\<close> of resolution are recursions on it. The
  loops over a stream end with its read events (\<open>stream_size\<close> is their measure), the puzzle loop is a \<open>partial_function\<close>
  over the sequence of draws with a theorem that says when it returns, and \<open>keep_advertised\<close> and its
  like recurse over the ticks until they are stopped.

  \<^bold>\<open>Not modelled.\<close> What UniFFI generates around the bindings (it is not under \<open>src/\<close>), and with it the
  cancellation of a foreign future; the third-party libraries (QUIC, TLS, X.509, JSON, key stores, hashes), which are
  parameters. \<open>Error::source\<close> implementations, and the tests. The memory a task holds, and real time: a duration
  has an effect only through the timer events above. A caller of the pool can be dropped at any \<open>await\<close>; the
  future of the pool's \<open>close\<close> is not, it runs to its end, and the lock it holds on the list of links while it closes
  them is modelled by the list being empty from the moment it is locked. In \<open>FfiSteps\<close> the methods of one object do not
  interleave, because each holds the object's lock to its end.
\<close>

end
